(* ===== verification/Prelude.thy ===== *)
theory Prelude
  imports Main "HOL-Library.Word"
begin

text \<open>
  The shared vocabulary of the development: results with early return, the parts of the
  Rust standard library the sources use (checked \<open>usize\<close> arithmetic, byte strings, UTF-8,
  \<open>split\<close>, big-endian integers), and the generic lemmas about them.

  A Rust \<open>Result<A, E>\<close> is a value of \<open>'e + 'a\<close>, \<open>Inl\<close> the error. The \<open>?\<close> operator is
  \<open>rbind\<close>. A \<open>Vec<u8>\<close> or \<open>&[u8]\<close> is a list of 8-bit words; a \<open>String\<close> or \<open>&str\<close> is a
  \<open>string\<close>, the list of its UTF-8 bytes as characters, so \<open>length\<close> is Rust's \<open>len\<close>.
  A \<open>usize\<close> is a natural number whose 64-bit overflow is written out where the code
  checks for it.
\<close>

section \<open>Collections of facts\<close>

named_theorems result_simps \<open>equations that evaluate and invert early return\<close>
named_theorems codec_simps \<open>equations of byte encodings\<close>
named_theorems grammar_defs \<open>definitions of the field grammars\<close>

section \<open>Results\<close>

type_synonym byte = "8 word"
type_synonym bytes = "byte list"
type_synonym ('e, 'a) result = "'e + 'a"

definition rbind :: "('e, 'a) result \<Rightarrow> ('a \<Rightarrow> ('e, 'b) result) \<Rightarrow> ('e, 'b) result" where
  "rbind m f = (case m of Inl e \<Rightarrow> Inl e | Inr x \<Rightarrow> f x)"

definition map_err :: "('e \<Rightarrow> 'f) \<Rightarrow> ('e, 'a) result \<Rightarrow> ('f, 'a) result" where
  "map_err g m = (case m of Inl e \<Rightarrow> Inl (g e) | Inr x \<Rightarrow> Inr x)"

definition ok_or :: "'e \<Rightarrow> 'a option \<Rightarrow> ('e, 'a) result" where
  "ok_or e m = (case m of None \<Rightarrow> Inl e | Some x \<Rightarrow> Inr x)"

definition require :: "bool \<Rightarrow> 'e \<Rightarrow> ('e, unit) result" where
  "require b e = (if b then Inr () else Inl e)"

lemma rbind_simps [simp]:
  "rbind (Inr x) f = f x"
  "rbind (Inl e) f = Inl e"
  by (simp_all add: rbind_def)

lemma rbind_eq_Inr [result_simps]:
  "rbind m f = Inr y \<longleftrightarrow> (\<exists>x. m = Inr x \<and> f x = Inr y)"
  by (cases m) (auto simp: rbind_def)

lemma rbind_eq_Inl [result_simps]:
  "rbind m f = Inl e \<longleftrightarrow> m = Inl e \<or> (\<exists>x. m = Inr x \<and> f x = Inl e)"
  by (cases m) (auto simp: rbind_def)

lemma rbind_assoc: "rbind (rbind m f) g = rbind m (\<lambda>x. rbind (f x) g)"
  by (cases m) simp_all

lemma rbind_cong [fundef_cong]:
  "m = m' \<Longrightarrow> (\<And>x. m' = Inr x \<Longrightarrow> f x = f' x) \<Longrightarrow> rbind m f = rbind m' f'"
  by (cases m') simp_all

lemma map_err_simps [simp]:
  "map_err g (Inr x) = Inr x"
  "map_err g (Inl e) = Inl (g e)"
  by (simp_all add: map_err_def)

lemma map_err_eq_Inr [simp]: "map_err g m = Inr y \<longleftrightarrow> m = Inr y"
  by (cases m) auto

lemma map_err_eq_Inl [result_simps]: "map_err g m = Inl e \<longleftrightarrow> (\<exists>e'. m = Inl e' \<and> e = g e')"
  by (cases m) auto

lemma ok_or_simps [simp]:
  "ok_or e None = Inl e"
  "ok_or e (Some x) = Inr x"
  by (simp_all add: ok_or_def)

lemma ok_or_eq_Inr [simp]: "ok_or e m = Inr y \<longleftrightarrow> m = Some y"
  by (cases m) auto

lemma ok_or_eq_Inl [result_simps]: "ok_or e m = Inl e' \<longleftrightarrow> m = None \<and> e' = e"
  by (cases m) auto

lemma require_simps [simp]:
  "require True e = Inr ()"
  "require False e = Inl e"
  by (simp_all add: require_def)

lemma require_eq_Inr [simp]: "require b e = Inr u \<longleftrightarrow> b"
  by (simp add: require_def)

lemma require_eq_Inl [simp]: "require b e = Inl e' \<longleftrightarrow> \<not> b \<and> e' = e"
  by (auto simp: require_def)

lemma result_not_Inl [simp]: "(\<forall>e. m \<noteq> Inl e) \<longleftrightarrow> (\<exists>x. m = Inr x)"
  by (cases m) auto

text \<open>\<open>Option::map(f).transpose()\<close>: an absent value is accepted, a present one is checked.\<close>

definition transpose_map :: "('a \<Rightarrow> ('e, 'b) result) \<Rightarrow> 'a option \<Rightarrow> ('e, 'b option) result" where
  "transpose_map f m = (case m of None \<Rightarrow> Inr None | Some x \<Rightarrow> rbind (f x) (\<lambda>y. Inr (Some y)))"

lemma transpose_map_simps [simp]:
  "transpose_map f None = Inr None"
  "transpose_map f (Some x) = rbind (f x) (\<lambda>y. Inr (Some y))"
  by (simp_all add: transpose_map_def)

text \<open>
  A \<open>for\<close> loop whose body ends in \<open>?\<close>, threading the state it mutates; \<open>try_all\<close> is the loop
  that only checks. \<open>pbind\<close> sequences calls on a reader that is itself the mutated state.
\<close>

fun try_fold :: "('x \<Rightarrow> 's \<Rightarrow> ('e, 's) result) \<Rightarrow> 'x list \<Rightarrow> 's \<Rightarrow> ('e, 's) result" where
  "try_fold f [] s = Inr s"
| "try_fold f (x # xs) s = rbind (f x s) (try_fold f xs)"

fun try_all :: "('x \<Rightarrow> ('e, unit) result) \<Rightarrow> 'x list \<Rightarrow> ('e, unit) result" where
  "try_all f [] = Inr ()"
| "try_all f (x # xs) = rbind (f x) (\<lambda>_. try_all f xs)"

lemma try_all_eq_Inr [simp]: "try_all f xs = Inr u \<longleftrightarrow> (\<forall>x \<in> set xs. f x = Inr ())"
  by (induction xs) (auto simp: result_simps)

definition pbind :: "('r \<Rightarrow> ('e, 'a \<times> 'r) result) \<Rightarrow> ('a \<Rightarrow> 'r \<Rightarrow> ('e, 'b) result) \<Rightarrow> 'r \<Rightarrow> ('e, 'b) result" where
  "pbind p f r = rbind (p r) (\<lambda>(x, r'). f x r')"

text \<open>A read whose value is converted with \<open>?\<close> before the next read.\<close>

definition pcheck :: "('r \<Rightarrow> ('e, 'a \<times> 'r) result) \<Rightarrow> ('a \<Rightarrow> ('e, 'b) result) \<Rightarrow> 'r \<Rightarrow> ('e, 'b \<times> 'r) result" where
  "pcheck p f r = rbind (p r) (\<lambda>(x, r'). rbind (f x) (\<lambda>y. Inr (y, r')))"

lemma pcheck_eq_Inr [result_simps]:
  "pcheck p f r = Inr (y, r') \<longleftrightarrow> (\<exists>x. p r = Inr (x, r') \<and> f x = Inr y)"
  by (auto simp: pcheck_def result_simps)

lemma pbind_eq_Inr [result_simps]:
  "pbind p f r = Inr y \<longleftrightarrow> (\<exists>x r'. p r = Inr (x, r') \<and> f x r' = Inr y)"
  by (auto simp: pbind_def result_simps)

section \<open>Checked \<open>usize\<close> arithmetic\<close>

definition usize_limit :: nat where
  "usize_limit = 2 ^ 64"

definition checked_add :: "nat \<Rightarrow> nat \<Rightarrow> nat option" where
  "checked_add a b = (if a + b < usize_limit then Some (a + b) else None)"

lemma checked_add_eq_Some [simp]:
  "checked_add a b = Some c \<longleftrightarrow> c = a + b \<and> a + b < usize_limit"
  by (auto simp: checked_add_def)

lemma checked_add_small: "a + b < usize_limit \<Longrightarrow> checked_add a b = Some (a + b)"
  by simp

section \<open>Byte strings and text\<close>

definition as_bytes :: "string \<Rightarrow> bytes" where
  "as_bytes = map of_char"

definition bytes_text :: "bytes \<Rightarrow> string" where
  "bytes_text = map (\<lambda>b. char_of (unat b))"

lemma byte_unat_less [simp]: "unat (b :: byte) < 256"
  using unsigned_less [of b, where 'a = nat] by simp

lemma of_char_nat_less [simp]: "(of_char c :: nat) < 256"
proof -
  have "(of_char c :: nat) mod 256 < 256" by simp
  then show ?thesis by simp
qed

lemma unat_of_char [simp]: "unat (of_char c :: byte) = of_char c"
proof -
  have "(of_char c :: byte) = word_of_nat (of_char c)"
    by (simp add: of_nat_of_char)
  then show ?thesis
    by (simp add: unat_of_nat)
qed

lemma of_char_char_of_unat [simp]: "of_char (char_of (unat (b :: byte))) = b"
proof -
  have "unat b < 256"
    by (rule byte_unat_less)
  then have "unat (of_char (char_of (unat b)) :: byte) = unat b"
    by simp
  then show ?thesis by (rule word_unat_eq_iff [THEN iffD2])
qed

lemma bytes_text_as_bytes [simp]: "bytes_text (as_bytes s) = s"
  by (simp add: bytes_text_def as_bytes_def o_def)

lemma as_bytes_bytes_text [simp]: "as_bytes (bytes_text b) = b"
  by (simp add: bytes_text_def as_bytes_def o_def)

lemma as_bytes_inject [simp]: "as_bytes s = as_bytes t \<longleftrightarrow> s = t"
  by (metis bytes_text_as_bytes)

lemma bytes_text_inject [simp]: "bytes_text a = bytes_text b \<longleftrightarrow> a = b"
  by (metis as_bytes_bytes_text)

lemma length_as_bytes [simp]: "length (as_bytes s) = length s"
  by (simp add: as_bytes_def)

lemma length_bytes_text [simp]: "length (bytes_text b) = length b"
  by (simp add: bytes_text_def)

lemma as_bytes_append [simp]: "as_bytes (s @ t) = as_bytes s @ as_bytes t"
  by (simp add: as_bytes_def)

lemma as_bytes_eq_Nil [simp]: "as_bytes s = [] \<longleftrightarrow> s = []"
  by (simp add: as_bytes_def)

lemma bytes_text_eq_Nil [simp]: "bytes_text b = [] \<longleftrightarrow> b = []"
  by (simp add: bytes_text_def)

lemma as_bytes_eq_iff: "as_bytes s = b \<longleftrightarrow> s = bytes_text b"
  by auto

subsection \<open>ASCII classes of bytes\<close>

definition is_ascii :: "bytes \<Rightarrow> bool" where
  "is_ascii bs = list_all (\<lambda>b. b < 128) bs"

definition text_is_ascii :: "string \<Rightarrow> bool" where
  "text_is_ascii s = is_ascii (as_bytes s)"

definition is_ascii_digit :: "byte \<Rightarrow> bool" where
  "is_ascii_digit b \<longleftrightarrow> 48 \<le> b \<and> b \<le> 57"

definition is_ascii_lowercase :: "byte \<Rightarrow> bool" where
  "is_ascii_lowercase b \<longleftrightarrow> 97 \<le> b \<and> b \<le> 122"

definition is_ascii_uppercase :: "byte \<Rightarrow> bool" where
  "is_ascii_uppercase b \<longleftrightarrow> 65 \<le> b \<and> b \<le> 90"

definition is_ascii_alphanumeric :: "byte \<Rightarrow> bool" where
  "is_ascii_alphanumeric b \<longleftrightarrow> is_ascii_digit b \<or> is_ascii_lowercase b \<or> is_ascii_uppercase b"

text \<open>The pattern \<open>byte.is_ascii_digit() || matches!(byte, b'a'..=b'f')\<close>.\<close>

definition is_lowercase_hex :: "byte \<Rightarrow> bool" where
  "is_lowercase_hex b \<longleftrightarrow> is_ascii_digit b \<or> (97 \<le> b \<and> b \<le> 102)"

lemmas ascii_class_defs =
  is_ascii_digit_def is_ascii_lowercase_def is_ascii_uppercase_def is_ascii_alphanumeric_def
  is_lowercase_hex_def

lemma ascii_class_below_128:
  "is_ascii_alphanumeric b \<Longrightarrow> b < 128"
  "is_lowercase_hex b \<Longrightarrow> b < 128"
  by (auto simp: ascii_class_defs word_le_nat_alt word_less_nat_alt)

lemma is_ascii_append [simp]: "is_ascii (a @ b) \<longleftrightarrow> is_ascii a \<and> is_ascii b"
  by (simp add: is_ascii_def)

lemma is_ascii_Nil [simp]: "is_ascii []"
  by (simp add: is_ascii_def)

lemma is_ascii_mono: "(\<And>b. P b \<Longrightarrow> b < 128) \<Longrightarrow> list_all P bs \<Longrightarrow> is_ascii bs"
  by (auto simp: is_ascii_def list_all_iff)

subsection \<open>UTF-8\<close>

text \<open>
  \<open>std::str::from_utf8\<close>: the well-formed byte sequences of the Unicode standard (no
  overlong forms, no surrogates, nothing above U+10FFFF).
\<close>

definition in_range :: "byte \<Rightarrow> byte \<Rightarrow> byte \<Rightarrow> bool" where
  "in_range lo hi b \<longleftrightarrow> lo \<le> b \<and> b \<le> hi"

fun utf8_valid :: "bytes \<Rightarrow> bool" where
  "utf8_valid [] = True"
| "utf8_valid (b # bs) =
     (if b < 128 then utf8_valid bs
      else case bs of
        [] \<Rightarrow> False
      | c # cs \<Rightarrow>
          if in_range 194 223 b then in_range 128 191 c \<and> utf8_valid cs
          else case cs of
            [] \<Rightarrow> False
          | d # ds \<Rightarrow>
              if b = 224 then in_range 160 191 c \<and> in_range 128 191 d \<and> utf8_valid ds
              else if b = 237 then in_range 128 159 c \<and> in_range 128 191 d \<and> utf8_valid ds
              else if in_range 225 239 b then in_range 128 191 c \<and> in_range 128 191 d \<and> utf8_valid ds
              else case ds of
                [] \<Rightarrow> False
              | e # es \<Rightarrow>
                  (b = 240 \<and> in_range 144 191 c \<or> in_range 241 243 b \<and> in_range 128 191 c
                    \<or> b = 244 \<and> in_range 128 143 c)
                  \<and> in_range 128 191 d \<and> in_range 128 191 e \<and> utf8_valid es)"

definition from_utf8 :: "bytes \<Rightarrow> string option" where
  "from_utf8 bs = (if utf8_valid bs then Some (bytes_text bs) else None)"

lemma ascii_utf8_valid: "is_ascii bs \<Longrightarrow> utf8_valid bs"
  by (induction bs) (auto simp: is_ascii_def)

lemma from_utf8_ascii [simp]: "is_ascii bs \<Longrightarrow> from_utf8 bs = Some (bytes_text bs)"
  by (simp add: from_utf8_def ascii_utf8_valid)

lemma from_utf8_eq_Some: "from_utf8 bs = Some s \<longleftrightarrow> utf8_valid bs \<and> bs = as_bytes s"
  by (auto simp: from_utf8_def)

subsection \<open>Searching and splitting\<close>

definition starts_with :: "'a list \<Rightarrow> 'a list \<Rightarrow> bool" where
  "starts_with xs p \<longleftrightarrow> take (length p) xs = p"

definition ends_with :: "'a list \<Rightarrow> 'a list \<Rightarrow> bool" where
  "ends_with xs p \<longleftrightarrow> length p \<le> length xs \<and> drop (length xs - length p) xs = p"

text \<open>\<open>str::split\<close> on one character: always at least one segment.\<close>

fun split_on :: "'a \<Rightarrow> 'a list \<Rightarrow> 'a list list" where
  "split_on c [] = [[]]"
| "split_on c (x # xs) =
     (if x = c then [] # split_on c xs
      else case split_on c xs of
        [] \<Rightarrow> [[x]]
      | s # ss \<Rightarrow> (x # s) # ss)"

text \<open>\<open>str::split_once\<close> on a pattern: around its first occurrence.\<close>

fun split_once :: "'a list \<Rightarrow> 'a list \<Rightarrow> ('a list \<times> 'a list) option" where
  "split_once p [] = (if p = [] then Some ([], []) else None)"
| "split_once p (x # xs) =
     (if starts_with (x # xs) p then Some ([], drop (length p) (x # xs))
      else case split_once p xs of
        None \<Rightarrow> None
      | Some (a, b) \<Rightarrow> Some (x # a, b))"

lemma starts_with_append [simp]: "starts_with (p @ xs) p"
  by (simp add: starts_with_def)

lemma starts_with_iff: "starts_with xs p \<longleftrightarrow> (\<exists>ys. xs = p @ ys)"
  by (auto simp: starts_with_def) (metis append_take_drop_id)

lemma starts_with_drop: "starts_with xs p \<Longrightarrow> xs = p @ drop (length p) xs"
  by (auto simp: starts_with_iff)

lemma starts_with_same_length:
  "length p = length q \<Longrightarrow> starts_with (q @ xs) p \<longleftrightarrow> p = q"
  by (auto simp: starts_with_def)

lemma split_on_not_Nil [simp]: "split_on c xs \<noteq> []"
  by (induction xs) (auto split: list.splits)

lemma split_on_no_sep: "c \<notin> set xs \<Longrightarrow> split_on c xs = [xs]"
  by (induction xs) auto

lemma set_split_on: "x \<in> set xs \<Longrightarrow> x = c \<or> (\<exists>s \<in> set (split_on c xs). x \<in> set s)"
  by (induction xs) (auto split: list.splits)

lemma split_on_append_sep:
  "c \<notin> set xs \<Longrightarrow> split_on c (xs @ c # ys) = xs # split_on c ys"
  by (induction xs) auto

lemma split_once_eq_Some: "split_once p xs = Some (a, b) \<Longrightarrow> xs = a @ p @ b"
proof (induction xs arbitrary: a b)
  case Nil
  then show ?case by (simp split: if_splits)
next
  case (Cons x xs)
  then show ?case
    by (auto split: if_splits option.splits dest!: starts_with_drop)
qed

section \<open>Big-endian integers\<close>

text \<open>\<open>be_bytes n v\<close> are the \<open>n\<close> bytes of \<open>v\<close>, most significant first (\<open>to_be_bytes\<close>).\<close>

primrec be_bytes :: "nat \<Rightarrow> nat \<Rightarrow> bytes" where
  "be_bytes 0 v = []"
| "be_bytes (Suc n) v = be_bytes n (v div 256) @ [word_of_nat v]"

definition from_be :: "bytes \<Rightarrow> nat" where
  "from_be bs = foldl (\<lambda>a b. a * 256 + unat b) 0 bs"

lemma length_be_bytes [simp, codec_simps]: "length (be_bytes n v) = n"
  by (induction n arbitrary: v) auto

lemma from_be_Nil [simp]: "from_be [] = 0"
  by (simp add: from_be_def)

lemma from_be_snoc [simp]: "from_be (bs @ [b]) = from_be bs * 256 + unat b"
  by (simp add: from_be_def)

lemma from_be_be_bytes: "from_be (be_bytes n v) = v mod 256 ^ n"
proof (induction n arbitrary: v)
  case 0
  then show ?case by simp
next
  case (Suc n)
  have "from_be (be_bytes (Suc n) v) = (v div 256) mod 256 ^ n * 256 + v mod 256"
    using Suc.IH [of "v div 256"] by (simp add: unat_of_nat)
  also have "\<dots> = v mod (256 * 256 ^ n)"
    by (simp add: mod_mult2_eq)
  finally show ?case by simp
qed

lemma from_be_less: "from_be bs < 256 ^ length bs"
proof (induction bs rule: rev_induct)
  case Nil
  then show ?case by simp
next
  case (snoc b bs)
  have "unat b < 256"
    by (rule byte_unat_less)
  moreover have "from_be bs * 256 + 256 \<le> 256 ^ length bs * 256"
    using snoc.IH by (simp add: Suc_le_eq [symmetric])
  ultimately have "from_be bs * 256 + unat b < 256 ^ length bs * 256"
    by linarith
  then show ?case by (simp add: mult.commute)
qed

lemma be_bytes_from_be: "be_bytes (length bs) (from_be bs) = bs"
proof (induction bs rule: rev_induct)
  case Nil
  then show ?case by simp
next
  case (snoc b bs)
  have "unat b < 256"
    by (rule byte_unat_less)
  then have "(from_be bs * 256 + unat b) div 256 = from_be bs"
    by simp
  moreover have "unat (word_of_nat (from_be bs * 256 + unat b) :: byte) = unat b"
    using \<open>unat b < 256\<close> by (simp only: unat_of_nat) simp
  then have "(word_of_nat (from_be bs * 256 + unat b) :: byte) = b"
    by (rule word_unat_eq_iff [THEN iffD2])
  ultimately show ?case
    using snoc.IH by simp
qed

lemma be_bytes_inject:
  "v < 256 ^ n \<Longrightarrow> w < 256 ^ n \<Longrightarrow> be_bytes n v = be_bytes n w \<longleftrightarrow> v = w"
  by (metis from_be_be_bytes mod_less)

text \<open>\<open>to_be_bytes\<close> and \<open>from_be_bytes\<close> of a machine word.\<close>

definition word_be :: "'a::len word \<Rightarrow> bytes" where
  "word_be w = be_bytes (LENGTH('a) div 8) (unat w)"

definition word_from_be :: "bytes \<Rightarrow> 'a::len word" where
  "word_from_be bs = word_of_nat (from_be bs)"

lemma length_word_be [simp]: "length (word_be (w :: 'a::len word)) = LENGTH('a) div 8"
  by (simp add: word_be_def)

lemma word_from_be_word_be:
  fixes w :: "'a::len word"
  assumes "8 dvd LENGTH('a)"
  shows "word_from_be (word_be w) = w"
proof -
  have "(256 :: nat) ^ (LENGTH('a) div 8) = 2 ^ LENGTH('a)"
    using assms by (auto simp: power_mult [symmetric] dvd_def power_mult)
  then have "unat w < 256 ^ (LENGTH('a) div 8)"
    by (simp add: unsigned_less)
  then show ?thesis
    by (simp add: word_from_be_def word_be_def from_be_be_bytes)
qed

lemma word_be_word_from_be:
  assumes "8 dvd LENGTH('a::len)" "length bs = LENGTH('a) div 8"
  shows "word_be (word_from_be bs :: 'a word) = bs"
proof -
  have "(256 :: nat) ^ (LENGTH('a) div 8) = 2 ^ LENGTH('a)"
    using assms(1) by (auto simp: power_mult [symmetric] dvd_def power_mult)
  then have "from_be bs < 2 ^ LENGTH('a)"
    using from_be_less [of bs] assms(2) by simp
  then have "unat (word_of_nat (from_be bs) :: 'a word) = from_be bs"
    by (simp add: unat_of_nat)
  then show ?thesis
    using be_bytes_from_be [of bs] assms(2) by (simp add: word_be_def word_from_be_def)
qed

lemma i64_be [simp]:
  "word_from_be (word_be (w :: 64 word)) = w"
  "length bs = 8 \<Longrightarrow> word_be (word_from_be bs :: 64 word) = bs"
  by (simp_all add: word_from_be_word_be word_be_word_from_be)

lemma i32_be [simp]:
  "word_from_be (word_be (w :: 32 word)) = w"
  "length bs = 4 \<Longrightarrow> word_be (word_from_be bs :: 32 word) = bs"
  by (simp_all add: word_from_be_word_be word_be_word_from_be)

section \<open>Lists\<close>

definition slice :: "nat \<Rightarrow> nat \<Rightarrow> 'a list \<Rightarrow> 'a list" where
  "slice i j xs = take (j - i) (drop i xs)"

lemma length_slice: "i \<le> j \<Longrightarrow> j \<le> length xs \<Longrightarrow> length (slice i j xs) = j - i"
  by (simp add: slice_def)

end
