(* ===== verification/Frame.thy ===== *)
theory Frame
  imports Prelude
begin

text \<open>
  The fixed-order record framing of \<open>crates/kapsel-authority/src/record.rs\<close>: a document is a
  magic prefix followed by records, each one tag byte, a big-endian 32-bit length and the
  value. \<open>push\<close> appends one record under a byte ceiling; \<open>Records\<close> is the reading cursor,
  which accepts the tags 1, 2, 3, ... only in that order.

  The locale \<open>frame_codec\<close> states what a reader and a writer of this framing promise
  (what is accepted is exactly what the writer produces). The receipt format has a second
  copy of the same framing with other error classes; both interpret the locale, and the
  documents built on the framing rest on the facts proved in it.
\<close>

section \<open>The framing of one record\<close>

definition frame :: "byte \<Rightarrow> bytes \<Rightarrow> bytes" where
  "frame tag v = tag # be_bytes 4 (length v) @ v"

lemma length_frame [simp, codec_simps]: "length (frame tag v) = 5 + length v"
  by (simp add: frame_def)

lemma be4_inject [simp]:
  "m < 4294967296 \<Longrightarrow> n < 4294967296 \<Longrightarrow> be_bytes 4 m = be_bytes 4 n \<longleftrightarrow> m = n"
  using be_bytes_inject [of m 4 n] by simp

lemma frame_append_inject:
  assumes "length v < 4294967296" "length w < 4294967296"
  shows "frame s v @ xs = frame t w @ ys \<longleftrightarrow> s = t \<and> v = w \<and> xs = ys"
proof
  assume eq: "frame s v @ xs = frame t w @ ys"
  then have hd: "s = t" and tl: "be_bytes 4 (length v) @ v @ xs = be_bytes 4 (length w) @ w @ ys"
    by (simp_all add: frame_def)
  then have "be_bytes 4 (length v) = be_bytes 4 (length w)" and vx: "v @ xs = w @ ys"
    by (simp_all add: append_eq_append_conv)
  then have "length v = length w" using assms by simp
  with vx hd show "s = t \<and> v = w \<and> xs = ys" by simp
qed simp

section \<open>Writing and reading records\<close>

datatype FrameError = FLength | FLengthConversion | FHeader | FHeaderConversion | FOrder

definition push :: "bytes \<Rightarrow> byte \<Rightarrow> bytes \<Rightarrow> nat \<Rightarrow> (FrameError, bytes) result" where
  "push output tag val maximum_bytes =
     rbind (require (length val < 2 ^ 32) FLength) (\<lambda>_.
     let encoded_end = Option.bind (checked_add (length output) 5)
                         (\<lambda>header_end. checked_add header_end (length val))
     in if (case encoded_end of None \<Rightarrow> True | Some end_ \<Rightarrow> end_ > maximum_bytes)
        then Inl FLength
        else Inr (output @ [tag] @ be_bytes 4 (length val) @ val))"

record Records =
  rec_bytes :: bytes
  rec_offset :: nat
  rec_next_tag :: byte

definition records_new :: "bytes \<Rightarrow> bytes \<Rightarrow> (FrameError, Records) result" where
  "records_new bs magic =
     (if \<not> starts_with bs magic then Inl FHeader
      else Inr \<lparr>rec_bytes = bs, rec_offset = length magic, rec_next_tag = 1\<rparr>)"

text \<open>\<open>u8::checked_add\<close> on the expected tag.\<close>

definition next_tag_after :: "byte \<Rightarrow> byte option" where
  "next_tag_after t = (if t = 255 then None else Some (t + 1))"

definition records_take :: "Records \<Rightarrow> byte \<Rightarrow> (FrameError, bytes \<times> Records) result" where
  "records_take r expected_tag =
     (if expected_tag \<noteq> rec_next_tag r then Inl FOrder
      else rbind (ok_or FLength (checked_add (rec_offset r) 5)) (\<lambda>header_end.
        if header_end > length (rec_bytes r) \<or> rec_bytes r ! rec_offset r \<noteq> expected_tag
        then Inl FHeader
        else
          let header = slice (rec_offset r + 1) header_end (rec_bytes r) in
          if length header \<noteq> 4 then Inl FHeaderConversion
          else rbind (ok_or FLength (checked_add header_end (from_be header))) (\<lambda>value_end.
            if value_end > length (rec_bytes r) then Inl FHeader
            else rbind (ok_or FOrder (next_tag_after (rec_next_tag r))) (\<lambda>t.
              Inr (slice header_end value_end (rec_bytes r),
                   r\<lparr>rec_offset := value_end, rec_next_tag := t\<rparr>)))))"

definition records_finish :: "Records \<Rightarrow> (FrameError, unit) result" where
  "records_finish r = (if rec_offset r = length (rec_bytes r) then Inr () else Inl FHeader)"

section \<open>The position of a reader\<close>

text \<open>
  \<open>cur pre rest t\<close> is the reader that has consumed \<open>pre\<close>, has exactly \<open>rest\<close> left and expects
  tag \<open>t\<close>. Every reader a caller can hold has this form. The bound \<open>small\<close> follows from the
  ceilings every caller checks before reading (at most 16 KiB); it keeps the reader's \<open>usize\<close>
  additions away from overflow.
\<close>

definition cur :: "bytes \<Rightarrow> bytes \<Rightarrow> byte \<Rightarrow> Records" where
  "cur pre rest t = \<lparr>rec_bytes = pre @ rest, rec_offset = length pre, rec_next_tag = t\<rparr>"

definition small :: "bytes \<Rightarrow> bool" where
  "small bs \<longleftrightarrow> length bs < 2 ^ 32"

lemma smallI: "length bs \<le> n \<Longrightarrow> n < 4294967296 \<Longrightarrow> small bs"
  by (simp add: small_def)

lemma small_appendD: "small (a @ b) \<Longrightarrow> small a \<and> small b"
  by (simp add: small_def)

lemma records_new_iff:
  "records_new bs magic = Inr r \<longleftrightarrow> (\<exists>rest. bs = magic @ rest \<and> r = cur magic rest 1)"
  by (auto simp: records_new_def cur_def starts_with_iff)

lemma records_take_frame:
  assumes sm: "small (pre @ frame t v @ rest)" and t: "t \<noteq> 255"
  shows "records_take (cur pre (frame t v @ rest) t) t = Inr (v, cur (pre @ frame t v) rest (t + 1))"
proof -
  let ?bs = "pre @ frame t v @ rest"
  have len: "length pre + 5 + length v + length rest < 4294967296"
    using sm by (simp add: small_def)
  have tag: "?bs ! length pre = t"
    by (simp add: frame_def)
  have header: "slice (length pre + 1) (length pre + 5) ?bs = be_bytes 4 (length v)"
    by (simp add: slice_def frame_def)
  have header': "slice (Suc (length pre)) (length pre + 5) ?bs = be_bytes 4 (length v)"
    using header by simp
  have val: "slice (length pre + 5) (length pre + 5 + length v) ?bs = v"
    by (simp add: slice_def frame_def)
  have fb: "from_be (be_bytes 4 (length v)) = length v"
    using len by (simp add: from_be_be_bytes)
  have c1: "checked_add (length pre) 5 = Some (length pre + 5)"
    and c2: "checked_add (length pre + 5) (length v) = Some (length pre + 5 + length v)"
    using len by (simp_all add: usize_limit_def)
  show ?thesis
    using t len
    by (simp add: records_take_def cur_def Let_def c1 c2 tag header' val fb next_tag_after_def)
qed

lemma frame_of_split:
  assumes "length h = 4" "from_be h = length v"
  shows "t # h @ v = frame t v"
  using assms be_bytes_from_be [of h] by (simp add: frame_def)

lemma records_take_sound:
  assumes take: "records_take (cur pre rest t) t = Inr (v, r)" and sm: "small (pre @ rest)"
  shows "\<exists>rest'. rest = frame t v @ rest' \<and> r = cur (pre @ frame t v) rest' (t + 1) \<and> t \<noteq> 255"
proof -
  let ?bs = "pre @ rest" and ?o = "length pre"
  let ?h = "slice (?o + 1) (?o + 5) ?bs"
  let ?e = "?o + 5 + from_be ?h"
  from take have lo: "?o + 5 \<le> length ?bs" and tag: "?bs ! ?o = t" and h: "length ?h = 4"
    and hi: "?e \<le> length ?bs" and t: "t \<noteq> 255" and v: "v = slice (?o + 5) ?e ?bs"
    and r: "r = \<lparr>rec_bytes = ?bs, rec_offset = ?e, rec_next_tag = t + 1\<rparr>"
    by (auto simp: records_take_def cur_def Let_def result_simps next_tag_after_def
        split: if_splits)
  have lv: "length v = from_be ?h"
    using hi by (simp add: v slice_def)
  have r1: "rest = t # drop 1 rest"
    using lo tag by (cases rest) (simp_all add: nth_append)
  have h_rest: "?h = take 4 (drop 1 rest)" and v_rest: "v = take (length v) (drop 5 rest)"
    using lv by (simp_all add: slice_def v)
  have "drop 1 rest = ?h @ drop 5 rest"
    using append_take_drop_id [of 4 "drop 1 rest"] h_rest by simp
  moreover have "drop 5 rest = v @ drop (5 + length v) rest"
    using append_take_drop_id [of "length v" "drop 5 rest"] v_rest by (simp add: add.commute)
  ultimately have "rest = (t # ?h @ v) @ drop (5 + length v) rest"
    using r1 by simp
  moreover have "t # ?h @ v = frame t v"
    using h lv by (intro frame_of_split) simp_all
  ultimately have split: "rest = frame t v @ drop (5 + length v) rest"
    by metis
  then have "?bs = (pre @ frame t v) @ drop (5 + length v) rest"
    by simp
  then have "r = cur (pre @ frame t v) (drop (5 + length v) rest) (t + 1)"
    using lv by (simp add: r cur_def add.assoc)
  with split t show ?thesis by blast
qed

lemma records_take_tag: "records_take (cur pre rest t) s = Inr x \<Longrightarrow> s = t"
  by (auto simp: records_take_def cur_def split: if_splits)

lemma records_finish_iff: "records_finish (cur pre rest t) = Inr () \<longleftrightarrow> rest = []"
  by (simp add: records_finish_def cur_def)

lemma push_iff:
  assumes "maximum < 2 ^ 32"
  shows "push out t v maximum = Inr out' \<longleftrightarrow>
    length out + 5 + length v \<le> maximum \<and> out' = out @ frame t v"
  using assms
  by (auto simp: push_def frame_def Let_def usize_limit_def result_simps
      checked_add_def split: if_splits option.splits bind_splits)

section \<open>The contract of the framing\<close>

text \<open>
  \<open>open_at\<close> is the abstraction of a reader: the reader that consumed \<open>pre\<close>, has \<open>rest\<close> left
  and expects tag \<open>t\<close>. The laws say that a reader accepts exactly the records the writer
  appends, in tag order, and that it is at its end exactly when nothing is left.
\<close>

locale frame_codec =
  fixes new_reader :: "bytes \<Rightarrow> bytes \<Rightarrow> ('e, 'r) result"
    and take_one :: "'r \<Rightarrow> byte \<Rightarrow> ('e, bytes \<times> 'r) result"
    and finish_reader :: "'r \<Rightarrow> ('e, unit) result"
    and open_at :: "bytes \<Rightarrow> bytes \<Rightarrow> byte \<Rightarrow> 'r"
    and push_one :: "bytes \<Rightarrow> byte \<Rightarrow> bytes \<Rightarrow> nat \<Rightarrow> ('e, bytes) result"
  assumes new_iff:
      "new_reader bs magic = Inr r \<longleftrightarrow> (\<exists>rest. bs = magic @ rest \<and> r = open_at magic rest 1)"
    and take_frame: "small (pre @ frame t v @ rest) \<Longrightarrow> t \<noteq> 255 \<Longrightarrow>
      take_one (open_at pre (frame t v @ rest) t) t = Inr (v, open_at (pre @ frame t v) rest (t + 1))"
    and take_sound: "take_one (open_at pre rest t) s = Inr (v, r) \<Longrightarrow> small (pre @ rest) \<Longrightarrow>
      s = t \<and> t \<noteq> 255 \<and>
      (\<exists>rest'. rest = frame t v @ rest' \<and> r = open_at (pre @ frame t v) rest' (t + 1))"
    and finish_iff: "finish_reader (open_at pre rest t) = Inr u \<longleftrightarrow> rest = []"
    and push_one_iff: "maximum < 2 ^ 32 \<Longrightarrow>
      push_one out t v maximum = Inr out' \<longleftrightarrow>
        length out + 5 + length v \<le> maximum \<and> out' = out @ frame t v"
begin

lemma new_magic [simp]: "new_reader (magic @ rest) magic = Inr (open_at magic rest 1)"
  by (simp add: new_iff)

lemma take_iff:
  assumes "small (pre @ rest)" "t \<noteq> 255"
  shows "take_one (open_at pre rest t) t = Inr (v, r) \<longleftrightarrow>
    (\<exists>rest'. rest = frame t v @ rest' \<and> r = open_at (pre @ frame t v) rest' (t + 1))"
  using assms take_frame take_sound by fastforce

text \<open>Reading back one pushed record gives the pushed value and leaves the reader at the end.\<close>

lemma take_pushed:
  assumes "push_one out t v maximum = Inr out'" "maximum < 2 ^ 32" "t \<noteq> 255"
  obtains rest where "out' = out @ rest"
    "take_one (open_at out rest t) t = Inr (v, open_at out' [] (t + 1))"
proof -
  from assms have len: "length out + 5 + length v \<le> maximum" and out': "out' = out @ frame t v"
    by (simp_all add: push_one_iff)
  then have "small (out @ frame t v @ [])"
    using assms(2) by (simp add: small_def)
  with take_frame [of out t v "[]"] assms(3) out' have
    "take_one (open_at out (frame t v) t) t = Inr (v, open_at out' [] (t + 1))"
    by simp
  with out' that show thesis by blast
qed

lemma take_reader_wrong_tag:
  assumes "s \<noteq> t" "small (pre @ rest)"
  shows "\<exists>e. take_one (open_at pre rest t) s = Inl e"
  using assms take_sound by (cases "take_one (open_at pre rest t) s") fastforce+

text \<open>A loop that pushes a fixed list of records.\<close>

lemma push_loop_iff:
  assumes "maximum < 2 ^ 32"
  shows "try_fold (\<lambda>(tag, v) out. push_one out tag v maximum) recs out = Inr out' \<longleftrightarrow>
    (recs \<noteq> [] \<longrightarrow> length out' \<le> maximum) \<and> out' = out @ concat (map (\<lambda>(tag, v). frame tag v) recs)"
proof (induction recs arbitrary: out)
  case Nil
  then show ?case by auto
next
  case (Cons f recs)
  obtain tag v where f: "f = (tag, v)" by (cases f)
  show ?case
    using assms by (auto simp: f Cons.IH push_one_iff result_simps)
qed

end

interpretation ar: frame_codec records_new records_take records_finish cur push
proof unfold_locales
  fix pre rest :: bytes and t s :: byte and v r
  assume "records_take (cur pre rest t) s = Inr (v, r)" "small (pre @ rest)"
  then show "s = t \<and> t \<noteq> 255 \<and>
      (\<exists>rest'. rest = frame t v @ rest' \<and> r = cur (pre @ frame t v) rest' (t + 1))"
    using records_take_tag records_take_sound by metis
qed (simp_all add: records_new_iff records_take_frame records_finish_iff push_iff)

end
