(* ===== verification/Grammar.thy ===== *)
theory Grammar
  imports Prelude
begin

text \<open>
  The request grammars of \<open>crates/kapsel-authority/src/lib.rs\<close>: operation and key identities,
  Kubernetes DNS labels and subdomains, and immutable image references. The gateway, the
  journal, the receipts and the daemon protocol all use these functions, and rely on what
  is proved here: an accepted value is non-empty ASCII text under a fixed length.
\<close>

definition first_is :: "(byte \<Rightarrow> bool) \<Rightarrow> bytes \<Rightarrow> bool" where
  "first_is P bs = (case bs of [] \<Rightarrow> False | b # _ \<Rightarrow> P b)"

definition last_is :: "(byte \<Rightarrow> bool) \<Rightarrow> bytes \<Rightarrow> bool" where
  "last_is P bs = (bs \<noteq> [] \<and> P (last bs))"

definition identity_is_valid :: "string \<Rightarrow> bool" where [grammar_defs]:
  "identity_is_valid value \<longleftrightarrow>
     value \<noteq> [] \<and> length value \<le> 128 \<and>
     list_all (\<lambda>byte. is_ascii_alphanumeric byte \<or> byte \<in> set (as_bytes ''._:-'')) (as_bytes value)"

definition is_ascii_lowercase_or_digit :: "byte \<Rightarrow> bool" where [grammar_defs]:
  "is_ascii_lowercase_or_digit byte \<longleftrightarrow> is_ascii_lowercase byte \<or> is_ascii_digit byte"

definition dns_label_is_valid :: "string \<Rightarrow> bool" where [grammar_defs]:
  "dns_label_is_valid value \<longleftrightarrow>
     (let bytes = as_bytes value in
      bytes \<noteq> [] \<and> length bytes \<le> 63
      \<and> first_is is_ascii_lowercase_or_digit bytes
      \<and> last_is is_ascii_lowercase_or_digit bytes
      \<and> list_all (\<lambda>byte. is_ascii_lowercase_or_digit byte \<or> byte \<in> set (as_bytes ''-'')) bytes)"

definition dns_subdomain_is_valid :: "string \<Rightarrow> bool" where [grammar_defs]:
  "dns_subdomain_is_valid value \<longleftrightarrow>
     value \<noteq> [] \<and> length value \<le> 253 \<and> list_all dns_label_is_valid (split_on CHR ''.'' value)"

definition image_name_component_is_valid :: "string \<Rightarrow> bool" where [grammar_defs]:
  "image_name_component_is_valid component \<longleftrightarrow>
     (let bytes = as_bytes component in
      bytes \<noteq> []
      \<and> first_is is_ascii_lowercase_or_digit bytes
      \<and> last_is is_ascii_lowercase_or_digit bytes
      \<and> list_all (\<lambda>byte. is_ascii_lowercase_or_digit byte \<or> byte \<in> set (as_bytes ''._-'')) bytes)"

definition immutable_image_is_valid :: "string \<Rightarrow> bool" where [grammar_defs]:
  "immutable_image_is_valid value =
     (if value = [] \<or> length value > 512 \<or> \<not> text_is_ascii value then False
      else case split_once ''@sha256:'' value of
        None \<Rightarrow> False
      | Some (name, digest) \<Rightarrow>
          if CHR ''@'' \<in> set name then False
          else
            let digest_is_lowercase_sha256 =
              length digest = 64 \<and> list_all is_lowercase_hex (as_bytes digest)
            in digest_is_lowercase_sha256
               \<and> list_all image_name_component_is_valid (split_on CHR ''/'' name))"

section \<open>What the grammars guarantee\<close>

text \<open>\<open>ascii_text n s\<close>: non-empty ASCII text of at most \<open>n\<close> bytes, the shape every field codec needs.\<close>

definition ascii_text :: "nat \<Rightarrow> string \<Rightarrow> bool" where
  "ascii_text n s \<longleftrightarrow> s \<noteq> [] \<and> length s \<le> n \<and> text_is_ascii s"

lemma ascii_text_mono: "ascii_text m s \<Longrightarrow> m \<le> n \<Longrightarrow> ascii_text n s"
  by (simp add: ascii_text_def)

lemma ascii_text_from_utf8: "ascii_text n s \<Longrightarrow> from_utf8 (as_bytes s) = Some s"
  by (simp add: ascii_text_def text_is_ascii_def)

lemma of_char_punctuation [simp]:
  "(of_char CHR ''.'' :: byte) = 46" "(of_char CHR ''_'' :: byte) = 95"
  "(of_char CHR '':'' :: byte) = 58" "(of_char CHR ''-'' :: byte) = 45"
  by (simp_all add: of_char_def)

lemma lowercase_or_digit_below_128: "is_ascii_lowercase_or_digit b \<Longrightarrow> b < 128"
  by (auto simp: is_ascii_lowercase_or_digit_def ascii_class_defs word_le_nat_alt word_less_nat_alt)

lemma identity_ascii: "identity_is_valid s \<Longrightarrow> ascii_text 128 s"
  by (auto simp: identity_is_valid_def ascii_text_def text_is_ascii_def as_bytes_def
      elim!: is_ascii_mono [rotated] intro: ascii_class_below_128)

lemma dns_label_ascii: "dns_label_is_valid s \<Longrightarrow> ascii_text 63 s"
  by (auto simp: dns_label_is_valid_def ascii_text_def text_is_ascii_def Let_def
      elim!: is_ascii_mono [rotated] intro: lowercase_or_digit_below_128 simp: as_bytes_def)

lemma text_is_ascii_iff: "text_is_ascii s \<longleftrightarrow> (\<forall>c \<in> set s. (of_char c :: byte) < 128)"
  by (auto simp: text_is_ascii_def is_ascii_def as_bytes_def list_all_iff)

lemma dns_subdomain_ascii: "dns_subdomain_is_valid s \<Longrightarrow> ascii_text 253 s"
proof -
  assume valid: "dns_subdomain_is_valid s"
  have "(of_char c :: byte) < 128" if mem: "c \<in> set s" for c
  proof (cases "c = CHR ''.''")
    case True
    then show ?thesis by simp
  next
    case False
    obtain l where "l \<in> set (split_on CHR ''.'' s)" "c \<in> set l"
      using set_split_on [OF mem, of "CHR ''.''"] False by blast
    with valid have "text_is_ascii l"
      using dns_label_ascii [of l] by (simp add: dns_subdomain_is_valid_def list_all_iff ascii_text_def)
    with \<open>c \<in> set l\<close> show ?thesis
      by (simp add: text_is_ascii_iff)
  qed
  with valid show ?thesis
    by (simp add: dns_subdomain_is_valid_def ascii_text_def text_is_ascii_iff)
qed

lemma immutable_image_ascii: "immutable_image_is_valid s \<Longrightarrow> ascii_text 512 s"
  by (auto simp: immutable_image_is_valid_def ascii_text_def split: if_splits)

lemma immutable_image_has_at: "immutable_image_is_valid s \<Longrightarrow> CHR ''@'' \<in> set s"
  by (auto simp: immutable_image_is_valid_def split: if_splits option.splits dest!: split_once_eq_Some)

text \<open>
  The grammars exclude each other where the formats need it: an image reference is never an
  identity or a DNS name, so a receipt's fields cannot be confused by position.
\<close>

lemma image_not_identity: "immutable_image_is_valid s \<Longrightarrow> \<not> identity_is_valid s"
proof
  assume "immutable_image_is_valid s" "identity_is_valid s"
  then have "(of_char CHR ''@'' :: byte) \<in> set (as_bytes s)"
    unfolding as_bytes_def set_map by (intro imageI immutable_image_has_at)
  with \<open>identity_is_valid s\<close> have
    "is_ascii_alphanumeric (of_char CHR ''@'') \<or> of_char CHR ''@'' \<in> set (as_bytes ''._:-'')"
    by (auto simp: identity_is_valid_def list_all_iff)
  then show False
    by (auto simp: ascii_class_defs as_bytes_def of_char_def)
qed

text \<open>The digest after \<open>@sha256:\<close> is exactly 64 lowercase hexadecimal digits.\<close>

lemma immutable_image_shape:
  assumes "immutable_image_is_valid s"
  obtains name digest where "s = name @ ''@sha256:'' @ digest" "CHR ''@'' \<notin> set name"
    "length digest = 64" "list_all is_lowercase_hex (as_bytes digest)"
  using assms
  by (auto simp: immutable_image_is_valid_def Let_def split: if_splits option.splits
      dest!: split_once_eq_Some)

end
