(* ===== verification/Crypto.thy ===== *)
theory Crypto
  imports Prelude
begin

text \<open>
  The cryptographic libraries the sources call (\<open>ed25519_dalek\<close> and \<open>sha2\<close>) are outside the
  repository. They are one parameter, a record of the functions used; \<open>crypto_ok\<close> names what
  the code relies on: keys derived from a seed are valid, a signature made with a seed
  verifies strictly under the derived key, and the sizes of keys, signatures and digests.
\<close>

record crypto =
  public_of :: "bytes \<Rightarrow> bytes"
  sign_with :: "bytes \<Rightarrow> bytes \<Rightarrow> bytes"
  key_valid :: "bytes \<Rightarrow> bool"
  verify_strict :: "bytes \<Rightarrow> bytes \<Rightarrow> bytes \<Rightarrow> bool"
  sha256 :: "bytes \<Rightarrow> bytes"

definition crypto_ok :: "crypto \<Rightarrow> bool" where
  "crypto_ok C \<longleftrightarrow>
     (\<forall>seed. length seed = 32 \<longrightarrow> length (public_of C seed) = 32 \<and> key_valid C (public_of C seed)) \<and>
     (\<forall>seed m. length seed = 32 \<longrightarrow>
        length (sign_with C seed m) = 64 \<and> verify_strict C (public_of C seed) m (sign_with C seed m)) \<and>
     (\<forall>m. length (sha256 C m) = 32)"

lemma crypto_okD:
  assumes "crypto_ok C"
  shows "length seed = 32 \<Longrightarrow> length (public_of C seed) = 32"
    and "length seed = 32 \<Longrightarrow> key_valid C (public_of C seed)"
    and "length seed = 32 \<Longrightarrow> length (sign_with C seed m) = 64"
    and "length seed = 32 \<Longrightarrow> verify_strict C (public_of C seed) m (sign_with C seed m)"
    and "length (sha256 C m) = 32"
  using assms by (auto simp: crypto_ok_def)

text \<open>\<open>{byte:02x}\<close> of every byte of the digest.\<close>

definition hex_digit :: "nat \<Rightarrow> char" where
  "hex_digit n = (if n < 10 then char_of (48 + n) else char_of (87 + n))"

definition hex_byte :: "byte \<Rightarrow> string" where
  "hex_byte b = [hex_digit (unat b div 16), hex_digit (unat b mod 16)]"

definition hex_text :: "bytes \<Rightarrow> string" where
  "hex_text bs = concat (map hex_byte bs)"

definition digest_hex :: "crypto \<Rightarrow> bytes \<Rightarrow> string" where
  "digest_hex C bs = hex_text (sha256 C bs)"

lemma length_hex_text [simp]: "length (hex_text bs) = 2 * length bs"
  by (induction bs) (simp_all add: hex_text_def hex_byte_def)

lemma hex_digit_lowercase: "n < 16 \<Longrightarrow> is_lowercase_hex (of_char (hex_digit n))"
  by (auto simp: hex_digit_def ascii_class_defs word_le_nat_alt)

lemma hex_text_lowercase: "list_all is_lowercase_hex (as_bytes (hex_text bs))"
proof (induction bs)
  case (Cons b bs)
  have "unat b div 16 < 16"
    using byte_unat_less [of b] by (simp add: less_mult_imp_div_less del: byte_unat_less)
  then show ?case
    using Cons by (simp add: hex_text_def hex_byte_def as_bytes_def hex_digit_lowercase)
qed (simp add: hex_text_def as_bytes_def)

lemma length_digest_hex: "crypto_ok C \<Longrightarrow> length (digest_hex C bs) = 64"
  by (simp add: digest_hex_def crypto_okD)

lemma digest_hex_lowercase: "list_all is_lowercase_hex (as_bytes (digest_hex C bs))"
  by (simp add: digest_hex_def hex_text_lowercase)

lemma hex_digit_inject: "m < 16 \<Longrightarrow> n < 16 \<Longrightarrow> hex_digit m = hex_digit n \<longleftrightarrow> m = n"
  by (auto simp: hex_digit_def char_of_eq_iff take_bit_eq_mod split: if_splits)

lemma length_hex_byte [simp]: "length (hex_byte b) = 2"
  by (simp add: hex_byte_def)

lemma hex_byte_inject: "hex_byte a = hex_byte b \<longleftrightarrow> a = b"
proof
  assume "hex_byte a = hex_byte b"
  moreover have "unat a div 16 < 16" "unat b div 16 < 16"
    using byte_unat_less [of a] byte_unat_less [of b]
    by (simp_all add: less_mult_imp_div_less del: byte_unat_less)
  ultimately have "unat a div 16 = unat b div 16" "unat a mod 16 = unat b mod 16"
    by (simp_all add: hex_byte_def hex_digit_inject)
  then have "unat a = unat b"
    by (metis div_mult_mod_eq)
  then show "a = b" by (rule word_unat_eq_iff [THEN iffD2])
qed simp

lemma hex_text_inject: "hex_text xs = hex_text ys \<longleftrightarrow> xs = ys"
proof (induction xs arbitrary: ys)
  case Nil
  then show ?case by (cases ys) (simp_all add: hex_text_def hex_byte_def)
next
  case (Cons x xs)
  show ?case
  proof (cases ys)
    case Nil
    then show ?thesis by (simp add: hex_text_def hex_byte_def)
  next
    case ys: (Cons y zs)
    have "hex_text (x # xs) = hex_text ys \<longleftrightarrow> hex_byte x = hex_byte y \<and> hex_text xs = hex_text zs"
      by (simp add: ys hex_text_def append_eq_append_conv)
    then show ?thesis
      by (simp add: ys hex_byte_inject Cons.IH)
  qed
qed

section \<open>Signing purposes\<close>

text \<open>
  \<open>signature_input\<close> (the same function in the authority package and in the receipt module):
  the purpose, a zero byte, then the statement. A purpose without a zero byte separates the
  signing domains: bytes signed for one purpose are never bytes signed for another.
\<close>

definition signature_input :: "string \<Rightarrow> bytes \<Rightarrow> bytes" where
  "signature_input purpose statement = as_bytes purpose @ [0] @ statement"

lemma append_sep_inject:
  "x \<notin> set a \<Longrightarrow> x \<notin> set c \<Longrightarrow> a @ x # b = c @ x # d \<longleftrightarrow> a = c \<and> b = d"
proof (induction a arbitrary: c)
  case Nil
  then show ?case by (cases c) auto
next
  case (Cons y a)
  then show ?case by (cases c) auto
qed

lemma signature_input_inject:
  assumes "0 \<notin> set (as_bytes p)" "0 \<notin> set (as_bytes q)"
  shows "signature_input p s = signature_input q t \<longleftrightarrow> p = q \<and> s = t"
  using assms by (simp add: signature_input_def append_sep_inject)

section \<open>A concrete instance\<close>

text \<open>
  Executable functions that satisfy \<open>crypto_ok\<close>, used only to evaluate the theorems at
  concrete inputs: the public key is the seed, a signature is the seed with a checksum of
  the message, a digest is a padded checksum.
\<close>

definition checksum :: "bytes \<Rightarrow> byte" where
  "checksum m = foldl (\<lambda>a b. 3 * a + b) 0 m"

definition example_crypto :: crypto where
  "example_crypto = \<lparr>
     public_of = (\<lambda>seed. seed),
     sign_with = (\<lambda>seed m. take 63 (seed @ replicate 63 0) @ [checksum m]),
     key_valid = (\<lambda>k. length k = 32),
     verify_strict = (\<lambda>k m s. s = take 63 (k @ replicate 63 0) @ [checksum m]),
     sha256 = (\<lambda>m. replicate 31 0 @ [checksum m])\<rparr>"

lemma example_crypto_ok: "crypto_ok example_crypto"
  by (simp add: crypto_ok_def example_crypto_def)

end
