(* ===== verification/Grant.thy ===== *)
theory Grant
  imports Frame Grammar Crypto
begin

text \<open>
  Exact authorization grants, \<open>crates/kapsel-authority/src/lib.rs\<close>: the approved tuple and its
  validation, the canonical statement encoding and its parser, the signed envelope, and
  verification under a configured signer. A grant with an approved object version uses the
  snapshot (v2) magics and purpose, one without it the legacy (v1) ones.
\<close>

section \<open>Constants and data\<close>

definition GRANT_STATEMENT_MAGIC :: bytes where
  "GRANT_STATEMENT_MAGIC = as_bytes ''KAPSEL-KAP0038-K8S-GRANT-STATEMENT-V1'' @ [0]"

definition SIGNED_GRANT_MAGIC :: bytes where
  "SIGNED_GRANT_MAGIC = as_bytes ''KAPSEL-KAP0038-K8S-GRANT-V1'' @ [0]"

definition SNAPSHOT_STATEMENT_MAGIC :: bytes where
  "SNAPSHOT_STATEMENT_MAGIC = as_bytes ''KAPSEL-KAP0038-K8S-GRANT-STATEMENT-V2'' @ [0]"

definition SNAPSHOT_GRANT_MAGIC :: bytes where
  "SNAPSHOT_GRANT_MAGIC = as_bytes ''KAPSEL-KAP0038-K8S-GRANT-V2'' @ [0]"

definition SNAPSHOT_PURPOSE :: string where
  "SNAPSHOT_PURPOSE = ''kapsel.kap0038.kubernetes-set-deployment-image-grant.v2''"

definition GRANT_PURPOSE :: string where
  "GRANT_PURPOSE = ''kapsel.kap0038.kubernetes-set-deployment-image-grant.v1''"

definition SIGNED_GRANT_BYTES_MAX :: nat where
  "SIGNED_GRANT_BYTES_MAX = 4 * 1024"

definition GRANT_STATEMENT_BYTES_MAX :: nat where
  "GRANT_STATEMENT_BYTES_MAX = 2 * 1024"

definition GRANT_TEXT_BYTES_MAX :: nat where
  "GRANT_TEXT_BYTES_MAX = 512"

record ApprovedTarget =
  at_uid :: string
  at_resource_version :: string

definition approved_target_is_valid :: "ApprovedTarget \<Rightarrow> bool" where
  "approved_target_is_valid t =
     list_all (\<lambda>v. v \<noteq> [] \<and> length v \<le> 128 \<and> text_is_ascii v) [at_uid t, at_resource_version t]"

record ExactAuthorization =
  ea_approved_target :: "ApprovedTarget option"
  ea_authorization_id :: string
  ea_operation_id :: string
  ea_namespace :: string
  ea_deployment :: string
  ea_container :: string
  ea_immutable_image_digest :: string

datatype AuthorizationInputField =
  AF_AuthorizationId | AF_OperationId | AF_Namespace | AF_Deployment | AF_Container
  | AF_ImmutableImageDigest

datatype AuthorizationGrantError =
  InvalidInput AuthorizationInputField | GrantInvalid | GrantUntrusted

definition exact_validate :: "ExactAuthorization \<Rightarrow> (AuthorizationGrantError, unit) result" where
  "exact_validate a =
     (if (case ea_approved_target a of None \<Rightarrow> False | Some target \<Rightarrow> \<not> approved_target_is_valid target)
      then Inl GrantInvalid
      else try_all (\<lambda>(field, valid). if \<not> valid then Inl (InvalidInput field) else Inr ())
        [(AF_AuthorizationId, identity_is_valid (ea_authorization_id a)),
         (AF_OperationId, identity_is_valid (ea_operation_id a)),
         (AF_Namespace, dns_label_is_valid (ea_namespace a)),
         (AF_Deployment, dns_subdomain_is_valid (ea_deployment a)),
         (AF_Container, dns_label_is_valid (ea_container a)),
         (AF_ImmutableImageDigest, immutable_image_is_valid (ea_immutable_image_digest a))])"

record AuthorizationTrust =
  tr_key_id :: string
  tr_public_key :: bytes

definition trust_validate :: "crypto \<Rightarrow> AuthorizationTrust \<Rightarrow> (AuthorizationGrantError, unit) result" where
  "trust_validate C trust =
     (if \<not> identity_is_valid (tr_key_id trust) then Inl GrantInvalid
      else require (key_valid C (tr_public_key trust)) GrantInvalid)"

record ValidatedAuthorizationGrant =
  vg_authorization :: ExactAuthorization
  vg_signer_key_id :: string
  vg_grant_digest :: string

section \<open>Record helpers of the grant formats\<close>

definition append_grant_record :: "bytes \<Rightarrow> byte \<Rightarrow> bytes \<Rightarrow> nat \<Rightarrow> (AuthorizationGrantError, bytes) result" where
  "append_grant_record output tag val maximum_bytes =
     map_err (\<lambda>_. GrantInvalid) (push output tag val maximum_bytes)"

definition grant_records_new :: "bytes \<Rightarrow> bytes \<Rightarrow> (AuthorizationGrantError, Records) result" where
  "grant_records_new bs magic = map_err (\<lambda>_. GrantInvalid) (records_new bs magic)"

definition take_record :: "byte \<Rightarrow> Records \<Rightarrow> (AuthorizationGrantError, bytes \<times> Records) result" where
  "take_record expected_tag r = map_err (\<lambda>_. GrantInvalid) (records_take r expected_tag)"

definition take_ascii_text :: "byte \<Rightarrow> Records \<Rightarrow> (AuthorizationGrantError, string \<times> Records) result" where
  "take_ascii_text expected_tag r =
     rbind (take_record expected_tag r) (\<lambda>(val, r').
       if val = [] \<or> length val > GRANT_TEXT_BYTES_MAX \<or> \<not> is_ascii val then Inl GrantInvalid
       else rbind (ok_or GrantInvalid (from_utf8 val)) (\<lambda>text. Inr (text, r')))"

definition finish_exact :: "Records \<Rightarrow> (AuthorizationGrantError, unit) result" where
  "finish_exact r = map_err (\<lambda>_. GrantInvalid) (records_finish r)"

section \<open>Statements\<close>

definition encode_statement :: "ExactAuthorization \<Rightarrow> (AuthorizationGrantError, bytes) result" where
  "encode_statement a =
     (let output = (if ea_approved_target a \<noteq> None then SNAPSHOT_STATEMENT_MAGIC else GRANT_STATEMENT_MAGIC) in
      rbind (try_fold (\<lambda>(tag, val) out. append_grant_record out tag val GRANT_STATEMENT_BYTES_MAX)
        [(1, as_bytes (ea_authorization_id a)),
         (2, as_bytes (ea_operation_id a)),
         (3, as_bytes (ea_namespace a)),
         (4, as_bytes (ea_deployment a)),
         (5, as_bytes (ea_container a)),
         (6, as_bytes (ea_immutable_image_digest a))] output) (\<lambda>output.
      case ea_approved_target a of
        None \<Rightarrow> Inr output
      | Some target \<Rightarrow>
          rbind (append_grant_record output 7 (as_bytes (at_uid target)) GRANT_STATEMENT_BYTES_MAX) (\<lambda>output.
          append_grant_record output 8 (as_bytes (at_resource_version target)) GRANT_STATEMENT_BYTES_MAX)))"

definition take_approved_target ::
    "bool \<Rightarrow> Records \<Rightarrow> (AuthorizationGrantError, ApprovedTarget option \<times> Records) result" where
  "take_approved_target snapshot_bound r =
     (if snapshot_bound then
        pbind (take_ascii_text 7) (\<lambda>uid.
        pbind (take_ascii_text 8) (\<lambda>resource_version r'.
          Inr (Some \<lparr>at_uid = uid, at_resource_version = resource_version\<rparr>, r'))) r
      else Inr (None, r))"

definition parse_statement :: "bytes \<Rightarrow> (AuthorizationGrantError, ExactAuthorization) result" where
  "parse_statement bs =
     (let snapshot_bound = starts_with bs SNAPSHOT_STATEMENT_MAGIC in
      rbind (grant_records_new bs
              (if snapshot_bound then SNAPSHOT_STATEMENT_MAGIC else GRANT_STATEMENT_MAGIC))
        (pbind (take_ascii_text 1) (\<lambda>authorization_id.
         pbind (take_ascii_text 2) (\<lambda>operation_id.
         pbind (take_ascii_text 3) (\<lambda>namespace.
         pbind (take_ascii_text 4) (\<lambda>deployment.
         pbind (take_ascii_text 5) (\<lambda>container.
         pbind (take_ascii_text 6) (\<lambda>immutable_image_digest.
         pbind (take_approved_target snapshot_bound) (\<lambda>approved_target r.
           let authorization = \<lparr>ea_approved_target = approved_target,
                 ea_authorization_id = authorization_id, ea_operation_id = operation_id,
                 ea_namespace = namespace, ea_deployment = deployment, ea_container = container,
                 ea_immutable_image_digest = immutable_image_digest\<rparr> in
           rbind (finish_exact r) (\<lambda>_.
           rbind (exact_validate authorization) (\<lambda>_.
           Inr authorization)))))))))))"

definition grant_purpose :: "bytes \<Rightarrow> string" where
  "grant_purpose statement =
     (if starts_with statement SNAPSHOT_STATEMENT_MAGIC then SNAPSHOT_PURPOSE else GRANT_PURPOSE)"

section \<open>Signed grants\<close>

definition sign_grant_statement ::
    "crypto \<Rightarrow> bytes \<Rightarrow> bytes \<Rightarrow> string \<Rightarrow> bytes \<Rightarrow> string \<Rightarrow> (AuthorizationGrantError, bytes) result" where
  "sign_grant_statement C statement magic purpose seed key_id =
     (let signature = sign_with C seed (signature_input purpose statement) in
      try_fold (\<lambda>(tag, val) out. append_grant_record out tag val SIGNED_GRANT_BYTES_MAX)
        [(1, as_bytes purpose), (2, as_bytes key_id), (3, statement), (4, signature)] magic)"

definition sign_authorization_grant ::
    "crypto \<Rightarrow> ExactAuthorization \<Rightarrow> bytes \<Rightarrow> string \<Rightarrow> (AuthorizationGrantError, bytes) result" where
  "sign_authorization_grant C a seed key_id =
     rbind (exact_validate a) (\<lambda>_.
     if \<not> identity_is_valid key_id then Inl GrantInvalid
     else rbind (encode_statement a) (\<lambda>statement.
       sign_grant_statement C statement
         (if ea_approved_target a \<noteq> None then SNAPSHOT_GRANT_MAGIC else SIGNED_GRANT_MAGIC)
         (grant_purpose statement) seed key_id))"

definition verify_authorization_grant ::
    "crypto \<Rightarrow> bytes \<Rightarrow> AuthorizationTrust \<Rightarrow> (AuthorizationGrantError, ValidatedAuthorizationGrant) result" where
  "verify_authorization_grant C bs trust =
     rbind (trust_validate C trust) (\<lambda>_.
     if length bs > SIGNED_GRANT_BYTES_MAX then Inl GrantInvalid
     else
       let snapshot_bound = starts_with bs SNAPSHOT_GRANT_MAGIC;
           envelope_magic = (if snapshot_bound then SNAPSHOT_GRANT_MAGIC else SIGNED_GRANT_MAGIC);
           expected_purpose = (if snapshot_bound then SNAPSHOT_PURPOSE else GRANT_PURPOSE)
       in rbind (grant_records_new bs envelope_magic)
         (pbind (take_record 1) (\<lambda>purpose r.
          if purpose \<noteq> as_bytes expected_purpose then Inl GrantInvalid
          else pbind (take_ascii_text 2) (\<lambda>key_id r.
          if \<not> identity_is_valid key_id then Inl GrantInvalid
          else pbind (take_record 3) (\<lambda>statement_bytes r.
          if length statement_bytes > GRANT_STATEMENT_BYTES_MAX then Inl GrantInvalid
          else pbind (take_record 4) (\<lambda>signature_bytes r.
          if length signature_bytes \<noteq> 64 then Inl GrantInvalid
          else
            rbind (finish_exact r) (\<lambda>_.
            rbind (parse_statement statement_bytes) (\<lambda>authorization.
            if (ea_approved_target authorization \<noteq> None) \<noteq> snapshot_bound then Inl GrantInvalid
            else if key_id \<noteq> tr_key_id trust then Inl GrantUntrusted
            else if \<not> key_valid C (tr_public_key trust) then Inl GrantInvalid
            else if \<not> verify_strict C (tr_public_key trust)
                      (signature_input (grant_purpose statement_bytes) statement_bytes) signature_bytes
            then Inl GrantUntrusted
            else Inr \<lparr>vg_authorization = authorization, vg_signer_key_id = key_id,
                       vg_grant_digest = digest_hex C bs\<rparr>))) r) r) r)))"

definition verify_authorization_grant_for_public_key ::
    "crypto \<Rightarrow> bytes \<Rightarrow> bytes \<Rightarrow> (AuthorizationGrantError, ValidatedAuthorizationGrant) result" where
  "verify_authorization_grant_for_public_key C bs public_key =
     (if length bs > SIGNED_GRANT_BYTES_MAX then Inl GrantInvalid
      else
        let snapshot_bound = starts_with bs SNAPSHOT_GRANT_MAGIC;
            envelope_magic = (if snapshot_bound then SNAPSHOT_GRANT_MAGIC else SIGNED_GRANT_MAGIC);
            expected_purpose = (if snapshot_bound then SNAPSHOT_PURPOSE else GRANT_PURPOSE)
        in rbind (grant_records_new bs envelope_magic)
          (pbind (take_record 1) (\<lambda>purpose r.
           if purpose \<noteq> as_bytes expected_purpose then Inl GrantInvalid
           else pbind (take_ascii_text 2) (\<lambda>key_id _.
             verify_authorization_grant C bs \<lparr>tr_key_id = key_id, tr_public_key = public_key\<rparr>) r)))"

section \<open>Readers and writers of the grant formats\<close>

lemmas grant_bounds = SIGNED_GRANT_BYTES_MAX_def GRANT_STATEMENT_BYTES_MAX_def GRANT_TEXT_BYTES_MAX_def

lemmas grant_magics = GRANT_STATEMENT_MAGIC_def SIGNED_GRANT_MAGIC_def SNAPSHOT_STATEMENT_MAGIC_def
  SNAPSHOT_GRANT_MAGIC_def

lemma length_grant_magics [simp]:
  "length GRANT_STATEMENT_MAGIC = 38" "length SNAPSHOT_STATEMENT_MAGIC = 38"
  "length SIGNED_GRANT_MAGIC = 28" "length SNAPSHOT_GRANT_MAGIC = 28"
  by (simp_all add: grant_magics)

lemma grant_magics_differ [simp]:
  "SNAPSHOT_STATEMENT_MAGIC \<noteq> GRANT_STATEMENT_MAGIC" "SNAPSHOT_GRANT_MAGIC \<noteq> SIGNED_GRANT_MAGIC"
  by (simp_all add: grant_magics)

lemma grant_magic_prefix [simp]:
  "starts_with (GRANT_STATEMENT_MAGIC @ rest) SNAPSHOT_STATEMENT_MAGIC \<longleftrightarrow> False"
  "starts_with (SIGNED_GRANT_MAGIC @ rest) SNAPSHOT_GRANT_MAGIC \<longleftrightarrow> False"
  by (simp_all add: starts_with_same_length)

lemma append_grant_record_iff [result_simps]:
  assumes "maximum < 2 ^ 32"
  shows "append_grant_record out t v maximum = Inr out' \<longleftrightarrow>
    length out + 5 + length v \<le> maximum \<and> out' = out @ frame t v"
  using assms by (simp add: append_grant_record_def ar.push_one_iff)

lemma grant_push_loop_iff:
  assumes "maximum < 2 ^ 32" "recs \<noteq> []"
  shows "try_fold (\<lambda>(tag, v) out. append_grant_record out tag v maximum) recs out = Inr out' \<longleftrightarrow>
    length out' \<le> maximum \<and> out' = out @ concat (map (\<lambda>(tag, v). frame tag v) recs)"
proof -
  have step: "append_grant_record out t v maximum = map_err (\<lambda>_. GrantInvalid) (push out t v maximum)" for out t v
    by (simp add: append_grant_record_def)
  have "try_fold (\<lambda>(tag, v) out. append_grant_record out tag v maximum) recs out =
      map_err (\<lambda>_. GrantInvalid) (try_fold (\<lambda>(tag, v) out. push out tag v maximum) recs out)"
  proof (induction recs arbitrary: out)
    case (Cons f recs)
    then show ?case
      by (cases f; cases "push out (fst f) (snd f) maximum") (simp_all add: step)
  qed simp
  then show ?thesis
    using assms ar.push_loop_iff by simp
qed

lemma grant_records_new_iff [result_simps]:
  "grant_records_new bs magic = Inr r \<longleftrightarrow> (\<exists>rest. bs = magic @ rest \<and> r = cur magic rest 1)"
  by (simp add: grant_records_new_def ar.new_iff)

lemma take_record_frame [simp]:
  "small (pre @ frame t v @ rest) \<Longrightarrow> t \<noteq> 255 \<Longrightarrow>
    take_record t (cur pre (frame t v @ rest) t) = Inr (v, cur (pre @ frame t v) rest (t + 1))"
  by (simp add: take_record_def ar.take_frame)

lemma take_record_sound:
  assumes "take_record t (cur pre rest t) = Inr (v, r)" "small (pre @ rest)"
  shows "\<exists>rest'. rest = frame t v @ rest' \<and> r = cur (pre @ frame t v) rest' (t + 1)"
  using assms ar.take_sound by (fastforce simp: take_record_def)

lemma take_ascii_text_frame [simp]:
  assumes "small (pre @ frame t (as_bytes s) @ rest)" "t \<noteq> 255" "ascii_text GRANT_TEXT_BYTES_MAX s"
  shows "take_ascii_text t (cur pre (frame t (as_bytes s) @ rest) t) =
    Inr (s, cur (pre @ frame t (as_bytes s)) rest (t + 1))"
  using assms by (simp add: take_ascii_text_def ascii_text_def text_is_ascii_def)

lemma take_ascii_text_sound:
  assumes "take_ascii_text t (cur pre rest t) = Inr (s, r)" "small (pre @ rest)"
  shows "\<exists>rest'. rest = frame t (as_bytes s) @ rest' \<and> r = cur (pre @ frame t (as_bytes s)) rest' (t + 1) \<and>
    ascii_text GRANT_TEXT_BYTES_MAX s"
  using assms
  by (auto simp: take_ascii_text_def result_simps from_utf8_eq_Some ascii_text_def text_is_ascii_def
      split: if_splits dest!: take_record_sound)

lemma finish_exact_iff [simp]: "finish_exact (cur pre rest t) = Inr u \<longleftrightarrow> rest = []"
  by (simp add: finish_exact_def ar.finish_iff)

lemma finish_exact_done [simp]: "finish_exact (cur pre [] t) = Inr ()"
  by simp

lemmas take_record_last [simp] = take_record_frame [where rest = "[]", simplified]
  and take_ascii_text_last [simp] = take_ascii_text_frame [where rest = "[]", simplified]

section \<open>Validity and the canonical statement\<close>

lemma exact_validate_iff: "exact_validate a = Inr u \<longleftrightarrow>
    (\<forall>t. ea_approved_target a = Some t \<longrightarrow> approved_target_is_valid t) \<and>
    identity_is_valid (ea_authorization_id a) \<and> identity_is_valid (ea_operation_id a) \<and>
    dns_label_is_valid (ea_namespace a) \<and> dns_subdomain_is_valid (ea_deployment a) \<and>
    dns_label_is_valid (ea_container a) \<and> immutable_image_is_valid (ea_immutable_image_digest a)"
  by (auto simp: exact_validate_def split: option.splits if_splits)

lemma exact_validate_ascii:
  assumes "exact_validate a = Inr u"
  shows "ascii_text 128 (ea_authorization_id a)" "ascii_text 128 (ea_operation_id a)"
    "ascii_text 63 (ea_namespace a)" "ascii_text 253 (ea_deployment a)"
    "ascii_text 63 (ea_container a)" "ascii_text 512 (ea_immutable_image_digest a)"
    "\<And>t. ea_approved_target a = Some t \<Longrightarrow> ascii_text 128 (at_uid t)"
    "\<And>t. ea_approved_target a = Some t \<Longrightarrow> ascii_text 128 (at_resource_version t)"
  using assms
  by (auto simp: exact_validate_iff approved_target_is_valid_def ascii_text_def [of _ "at_uid _"]
      ascii_text_def [of _ "at_resource_version _"]
      intro: identity_ascii dns_label_ascii dns_subdomain_ascii immutable_image_ascii)

definition statement_image :: "ExactAuthorization \<Rightarrow> bytes" where
  "statement_image a =
     (if ea_approved_target a \<noteq> None then SNAPSHOT_STATEMENT_MAGIC else GRANT_STATEMENT_MAGIC) @
     frame 1 (as_bytes (ea_authorization_id a)) @ frame 2 (as_bytes (ea_operation_id a)) @
     frame 3 (as_bytes (ea_namespace a)) @ frame 4 (as_bytes (ea_deployment a)) @
     frame 5 (as_bytes (ea_container a)) @ frame 6 (as_bytes (ea_immutable_image_digest a)) @
     (case ea_approved_target a of
        None \<Rightarrow> []
      | Some t \<Rightarrow> frame 7 (as_bytes (at_uid t)) @ frame 8 (as_bytes (at_resource_version t)))"

lemma length_statement_image: "exact_validate a = Inr u \<Longrightarrow> length (statement_image a) \<le> 1481"
  using exact_validate_ascii [of a u]
  by (auto simp: statement_image_def ascii_text_def split: option.splits)

lemma encode_statement_eq_image:
  "encode_statement a = Inr bs \<longleftrightarrow> bs = statement_image a \<and> length bs \<le> GRANT_STATEMENT_BYTES_MAX"
  by (auto simp: encode_statement_def statement_image_def grant_push_loop_iff append_grant_record_iff
      result_simps Let_def grant_bounds split: option.splits)

lemma encode_statement_valid:
  "exact_validate a = Inr u \<Longrightarrow> encode_statement a = Inr (statement_image a)"
  using length_statement_image [of a u]
  by (auto simp: encode_statement_eq_image GRANT_STATEMENT_BYTES_MAX_def)

lemma small_statement_image: "exact_validate a = Inr u \<Longrightarrow> small (statement_image a)"
  by (rule smallI [OF length_statement_image]) simp_all

lemma approved_target_eta [simp]:
  "\<lparr>at_uid = at_uid t, at_resource_version = at_resource_version t\<rparr> = (t :: ApprovedTarget)"
  by simp

lemma parse_statement_image:
  assumes valid: "exact_validate a = Inr u"
  shows "parse_statement (statement_image a) = Inr a"
proof -
  have small: "small (statement_image a)"
    using valid by (rule small_statement_image)
  note texts = exact_validate_ascii [OF valid]
  show ?thesis
  proof (cases "ea_approved_target a")
    case None
    with small texts valid show ?thesis
      by (cases a) (simp add: parse_statement_def statement_image_def Let_def pbind_def take_approved_target_def
          grant_records_new_def ascii_text_mono GRANT_TEXT_BYTES_MAX_def)
  next
    case (Some t)
    with small texts(1-6) texts(7,8) [OF Some] valid show ?thesis
      by (cases a) (simp add: parse_statement_def statement_image_def Let_def pbind_def take_approved_target_def
          grant_records_new_def ascii_text_mono GRANT_TEXT_BYTES_MAX_def)
  qed
qed

lemma parse_statement_sound:
  assumes parse: "parse_statement bs = Inr a" and sm: "small bs"
  shows "bs = statement_image a" "exact_validate a = Inr ()"
  using assms
  by (auto simp: parse_statement_def Let_def result_simps statement_image_def take_approved_target_def
     split: if_splits dest!: take_ascii_text_sound)

lemma parse_statement_iff:
  "small bs \<Longrightarrow> parse_statement bs = Inr a \<longleftrightarrow> exact_validate a = Inr () \<and> bs = statement_image a"
  using parse_statement_sound parse_statement_image by blast

lemma parse_statement_bounded:
  assumes "parse_statement bs = Inr a" "\<not> GRANT_STATEMENT_BYTES_MAX < length bs"
  shows "bs = statement_image a \<and> exact_validate a = Inr ()"
proof -
  have "small bs"
    using assms(2) by (simp add: grant_bounds small_def)
  with assms(1) show ?thesis
    by (blast dest: parse_statement_sound)
qed

section \<open>The signed envelope\<close>

lemma grant_purpose_image [simp]:
  "grant_purpose (statement_image a) = (if ea_approved_target a \<noteq> None then SNAPSHOT_PURPOSE else GRANT_PURPOSE)"
  by (auto simp: grant_purpose_def statement_image_def)

definition grant_image :: "ExactAuthorization \<Rightarrow> string \<Rightarrow> bytes \<Rightarrow> bytes" where
  "grant_image a key_id sig =
     (if ea_approved_target a \<noteq> None then SNAPSHOT_GRANT_MAGIC else SIGNED_GRANT_MAGIC) @
     frame 1 (as_bytes (if ea_approved_target a \<noteq> None then SNAPSHOT_PURPOSE else GRANT_PURPOSE)) @
     frame 2 (as_bytes key_id) @ frame 3 (statement_image a) @ frame 4 sig"

lemma length_grant_purposes [simp]: "length SNAPSHOT_PURPOSE = 55" "length GRANT_PURPOSE = 55"
  by (simp_all add: SNAPSHOT_PURPOSE_def GRANT_PURPOSE_def)

lemma length_grant_image:
  assumes "exact_validate a = Inr u" "identity_is_valid key_id" "length sig = 64"
  shows "length (grant_image a key_id sig) \<le> 1776"
  using length_statement_image [OF assms(1)] identity_ascii [OF assms(2)] assms(3)
  by (simp add: grant_image_def ascii_text_def)

lemma sign_authorization_grant_eq_image:
  assumes "exact_validate a = Inr u" "identity_is_valid key_id"
    "length (sign_with C seed (signature_input (grant_purpose (statement_image a)) (statement_image a))) = 64"
  shows "sign_authorization_grant C a seed key_id = Inr (grant_image a key_id
    (sign_with C seed (signature_input (grant_purpose (statement_image a)) (statement_image a))))"
  using assms length_grant_image [OF assms]
  by (auto simp: sign_authorization_grant_def encode_statement_valid sign_grant_statement_def
      result_simps grant_image_def grant_bounds)

lemma verify_grant_image:
  assumes "trust_validate C trust = Inr ()" "exact_validate a = Inr ()" "length sig = 64"
    "verify_strict C (tr_public_key trust) (signature_input (grant_purpose (statement_image a)) (statement_image a)) sig"
  shows "verify_authorization_grant C (grant_image a (tr_key_id trust) sig) trust =
    Inr \<lparr>vg_authorization = a, vg_signer_key_id = tr_key_id trust,
         vg_grant_digest = digest_hex C (grant_image a (tr_key_id trust) sig)\<rparr>"
proof -
  from assms(1) have id: "identity_is_valid (tr_key_id trust)" and key: "key_valid C (tr_public_key trust)"
    by (auto simp: trust_validate_def split: if_splits)
  from length_grant_image [OF assms(2) id assms(3)]
  have len: "length (grant_image a (tr_key_id trust) sig) \<le> 1776" .
  then have sm: "small (grant_image a (tr_key_id trust) sig)"
    by (rule smallI) simp
  have st: "length (statement_image a) \<le> 1481"
    using assms(2) by (rule length_statement_image)
  show ?thesis
    using assms id key len sm st identity_ascii [OF id] parse_statement_image [OF assms(2)]
    by (cases "ea_approved_target a")
      (simp_all add: verify_authorization_grant_def grant_image_def Let_def grant_bounds pbind_def
        grant_records_new_def ascii_text_mono)
qed

lemma verify_authorization_grant_sound:
  assumes "verify_authorization_grant C bs trust = Inr g"
  shows "\<exists>sig. trust_validate C trust = Inr () \<and> exact_validate (vg_authorization g) = Inr () \<and>
    length sig = 64 \<and> bs = grant_image (vg_authorization g) (tr_key_id trust) sig \<and>
    vg_signer_key_id g = tr_key_id trust \<and> vg_grant_digest g = digest_hex C bs \<and>
    verify_strict C (tr_public_key trust)
      (signature_input (grant_purpose (statement_image (vg_authorization g)))
        (statement_image (vg_authorization g))) sig"
proof -
  from assms have "length bs \<le> 4096"
    by (auto simp: verify_authorization_grant_def result_simps grant_bounds split: if_splits)
  then have "small bs" by (rule smallI) simp
  with assms show ?thesis
    by (auto simp: verify_authorization_grant_def Let_def result_simps grant_image_def
        split: if_splits dest!: take_record_sound take_ascii_text_sound parse_statement_bounded)
      blast+
qed

lemma verify_for_public_key_sound:
  assumes "verify_authorization_grant_for_public_key C bs public_key = Inr g"
  shows "verify_authorization_grant C bs
    \<lparr>tr_key_id = vg_signer_key_id g, tr_public_key = public_key\<rparr> = Inr g"
proof -
  from assms obtain key_id where
    v: "verify_authorization_grant C bs \<lparr>tr_key_id = key_id, tr_public_key = public_key\<rparr> = Inr g"
    by (auto simp: verify_authorization_grant_for_public_key_def Let_def result_simps split: if_splits)
  then have "vg_signer_key_id g = key_id"
    by (auto dest: verify_authorization_grant_sound)
  with v show ?thesis by simp
qed

lemma verify_for_public_key_complete:
  assumes "verify_authorization_grant C bs \<lparr>tr_key_id = key_id, tr_public_key = public_key\<rparr> = Inr g"
  shows "verify_authorization_grant_for_public_key C bs public_key = Inr g"
proof -
  from verify_authorization_grant_sound [OF assms] obtain a sig where
    bs: "bs = grant_image a key_id sig" and id: "identity_is_valid key_id"
    and valid: "exact_validate a = Inr ()" and sig: "length sig = 64"
    by (auto simp: trust_validate_def split: if_splits)
  have len: "length bs \<le> 1776" using length_grant_image [OF valid id sig] bs by simp
  then have "small bs" by (rule smallI) simp
  with len assms bs show ?thesis
    using identity_ascii [OF id]
    by (cases "ea_approved_target a") (simp_all add: verify_authorization_grant_for_public_key_def
        grant_image_def Let_def grant_bounds pbind_def grant_records_new_def ascii_text_mono)
qed

section \<open>Properties\<close>

text \<open>
  A grant statement is canonical: bounded bytes parse to an authorization exactly when the
  authorization is valid and the bytes are its encoding. So no two byte strings stand for
  the same approval, and encoding then parsing returns the approval.
\<close>

theorem parse_statement_canonical:
  assumes "length bs < 2 ^ 32"
  shows "parse_statement bs = Inr a \<longleftrightarrow> exact_validate a = Inr () \<and> encode_statement a = Inr bs"
  using assms parse_statement_iff [of bs a] encode_statement_valid [of a]
  by (auto simp: small_def encode_statement_eq_image)

text \<open>
  C17. Verification accepts exactly the canonical envelopes: grant bytes are accepted under a
  configured signer if and only if that trust is valid and the bytes are the envelope of a
  valid authorization, naming the configured key, whose 64-byte signature verifies strictly
  over the purpose of the grant's version and the canonical statement. The returned facts are
  that authorization, that key and the digest of the accepted bytes.
\<close>

theorem verify_authorization_grant_iff:
  "verify_authorization_grant C bs trust = Inr g \<longleftrightarrow>
    (\<exists>a sig. trust_validate C trust = Inr () \<and> exact_validate a = Inr () \<and> length sig = 64 \<and>
      bs = grant_image a (tr_key_id trust) sig \<and>
      verify_strict C (tr_public_key trust)
        (signature_input (grant_purpose (statement_image a)) (statement_image a)) sig \<and>
      g = \<lparr>vg_authorization = a, vg_signer_key_id = tr_key_id trust, vg_grant_digest = digest_hex C bs\<rparr>)"
  (is "?l \<longleftrightarrow> ?r")
proof
  assume ?l
  from verify_authorization_grant_sound [OF this] show ?r
    by (intro exI [of _ "vg_authorization g"]) (auto simp del: grant_purpose_image)
next
  assume ?r
  then show ?l
    using verify_grant_image by blast
qed

text \<open>
  Signing then verifying succeeds: for a valid authorization and key identity, signing with
  a seed produces bytes that verify under the key derived from that seed, and verification
  returns exactly the signed authorization.
\<close>

theorem sign_verify_authorization_grant:
  assumes "crypto_ok C" "length seed = 32" "exact_validate a = Inr ()" "identity_is_valid key_id"
  shows "\<exists>bs. sign_authorization_grant C a seed key_id = Inr bs \<and>
    verify_authorization_grant C bs \<lparr>tr_key_id = key_id, tr_public_key = public_of C seed\<rparr> =
      Inr \<lparr>vg_authorization = a, vg_signer_key_id = key_id, vg_grant_digest = digest_hex C bs\<rparr>"
proof -
  let ?m = "signature_input (grant_purpose (statement_image a)) (statement_image a)"
  let ?t = "\<lparr>tr_key_id = key_id, tr_public_key = public_of C seed\<rparr>"
  note crypto = crypto_okD [OF assms(1)]
  have "trust_validate C ?t = Inr ()"
    using assms crypto by (simp add: trust_validate_def)
  then have "verify_authorization_grant C (grant_image a key_id (sign_with C seed ?m)) ?t =
      Inr \<lparr>vg_authorization = a, vg_signer_key_id = key_id,
           vg_grant_digest = digest_hex C (grant_image a key_id (sign_with C seed ?m))\<rparr>"
    using verify_grant_image [of C ?t a "sign_with C seed ?m"] assms crypto by simp
  then show ?thesis
    using sign_authorization_grant_eq_image [OF assms(3,4)] assms(2) crypto by simp
qed

definition example_authorization :: ExactAuthorization where
  "example_authorization = \<lparr>
     ea_approved_target = Some \<lparr>at_uid = ''uid-1'', at_resource_version = ''42''\<rparr>,
     ea_authorization_id = ''grant-1'', ea_operation_id = ''op-1'', ea_namespace = ''prod'',
     ea_deployment = ''web.api'', ea_container = ''app'',
     ea_immutable_image_digest = ''reg/app@sha256:'' @ replicate 64 (CHR ''a'')\<rparr>"

lemma example_authorization_valid: "exact_validate example_authorization = Inr ()"
  by code_simp

theorem parse_statement_canonical_witness:
  "parse_statement (statement_image example_authorization) = Inr example_authorization"
proof -
  have "length (statement_image example_authorization) < 2 ^ 32"
    using length_statement_image [OF example_authorization_valid] by simp
  from parse_statement_canonical [OF this, of example_authorization] show ?thesis
    using example_authorization_valid encode_statement_valid by blast
qed

theorem sign_verify_authorization_grant_witness:
  "\<exists>bs. sign_authorization_grant example_crypto example_authorization (replicate 32 7) ''operator'' = Inr bs \<and>
    verify_authorization_grant example_crypto bs
      \<lparr>tr_key_id = ''operator'', tr_public_key = public_of example_crypto (replicate 32 7)\<rparr> =
      Inr \<lparr>vg_authorization = example_authorization, vg_signer_key_id = ''operator'',
           vg_grant_digest = digest_hex example_crypto bs\<rparr>"
proof -
  have "identity_is_valid ''operator''" by code_simp
  then show ?thesis
    using sign_verify_authorization_grant [OF example_crypto_ok _ example_authorization_valid,
        of "replicate 32 7" "''operator''"] by simp
qed

end
