(* ===== verification/Trust.thy ===== *)
theory Trust
  imports Grant
begin

text \<open>
  Receipt trust documents and the consistency check of operator inputs,
  \<open>crates/kapsel-authority/src/lib.rs\<close>: the bounded document that appoints a receipt key for
  a purpose and an interval, its canonical codec, and \<open>validate_service_operator_inputs\<close>, which
  ties one verified grant to receipt-signing material. Unix times are signed 64-bit words.
\<close>

section \<open>Data\<close>

definition RECEIPT_TRUST_MAGIC :: bytes where
  "RECEIPT_TRUST_MAGIC = as_bytes ''KAPSEL-KAP0038-K8S-TRUST-V2'' @ [0]"

definition RECEIPT_PURPOSE :: string where
  "RECEIPT_PURPOSE = ''kapsel.kap0038.kubernetes-effect-receipt.v2''"

definition RECEIPT_TRUST_BYTES_MAX :: nat where
  "RECEIPT_TRUST_BYTES_MAX = 1024"

definition RECEIPT_TEXT_BYTES_MAX :: nat where
  "RECEIPT_TEXT_BYTES_MAX = 512"

record ReceiptTrustDocument =
  rt_key_id :: string
  rt_public_key :: bytes
  rt_accepted_purpose :: string
  rt_not_before_unix_s :: "64 word"
  rt_not_after_unix_s :: "64 word"

record ReceiptTrustLimits =
  tl_trust_bytes_max :: nat
  tl_text_bytes_max :: nat

definition default_trust_limits :: ReceiptTrustLimits where
  "default_trust_limits =
     \<lparr>tl_trust_bytes_max = RECEIPT_TRUST_BYTES_MAX, tl_text_bytes_max = RECEIPT_TEXT_BYTES_MAX\<rparr>"

datatype ReceiptTrustError = TrustLimitExceeded | TrustInvalidValue | TrustInvalidRecord

section \<open>Validation and record helpers\<close>

definition receipt_text_is_valid :: "string \<Rightarrow> bool" where
  "receipt_text_is_valid value \<longleftrightarrow>
     value \<noteq> [] \<and> length value \<le> RECEIPT_TEXT_BYTES_MAX \<and> text_is_ascii value"

definition validate_receipt_trust :: "ReceiptTrustDocument \<Rightarrow> (ReceiptTrustError, unit) result" where
  "validate_receipt_trust trust =
     (if \<not> identity_is_valid (rt_key_id trust) \<or> \<not> receipt_text_is_valid (rt_accepted_purpose trust)
         \<or> sint (rt_not_before_unix_s trust) \<ge> sint (rt_not_after_unix_s trust)
      then Inl TrustInvalidValue else Inr ())"

definition validate_receipt_trust_limits :: "ReceiptTrustLimits \<Rightarrow> (ReceiptTrustError, unit) result" where
  "validate_receipt_trust_limits limits =
     (if tl_trust_bytes_max limits = 0 \<or> tl_trust_bytes_max limits > RECEIPT_TRUST_BYTES_MAX
         \<or> tl_text_bytes_max limits = 0 \<or> tl_text_bytes_max limits > RECEIPT_TEXT_BYTES_MAX
      then Inl TrustLimitExceeded else Inr ())"

definition push_trust :: "bytes \<Rightarrow> byte \<Rightarrow> bytes \<Rightarrow> nat \<Rightarrow> (ReceiptTrustError, bytes) result" where
  "push_trust output tag val maximum_bytes =
     map_err (\<lambda>_. TrustLimitExceeded) (push output tag val maximum_bytes)"

definition push_trust_text :: "bytes \<Rightarrow> byte \<Rightarrow> string \<Rightarrow> nat \<Rightarrow> (ReceiptTrustError, bytes) result" where
  "push_trust_text output tag val maximum_bytes =
     (if \<not> receipt_text_is_valid val then Inl TrustInvalidValue
      else push_trust output tag (as_bytes val) maximum_bytes)"

record TrustRecords =
  trs_records :: Records
  trs_maximum_text_bytes :: nat

definition trust_records_new :: "bytes \<Rightarrow> bytes \<Rightarrow> nat \<Rightarrow> (ReceiptTrustError, TrustRecords) result" where
  "trust_records_new input magic maximum_text_bytes =
     rbind (map_err (\<lambda>_. TrustInvalidRecord) (records_new input magic)) (\<lambda>records.
     Inr \<lparr>trs_records = records, trs_maximum_text_bytes = maximum_text_bytes\<rparr>)"

fun trust_frame_error :: "FrameError \<Rightarrow> ReceiptTrustError" where
  "trust_frame_error FLength = TrustLimitExceeded"
| "trust_frame_error FLengthConversion = TrustLimitExceeded"
| "trust_frame_error FHeaderConversion = TrustInvalidValue"
| "trust_frame_error FHeader = TrustInvalidRecord"
| "trust_frame_error FOrder = TrustInvalidRecord"

definition trust_take :: "byte \<Rightarrow> TrustRecords \<Rightarrow> (ReceiptTrustError, bytes \<times> TrustRecords) result" where
  "trust_take expected_tag r =
     rbind (map_err trust_frame_error (records_take (trs_records r) expected_tag)) (\<lambda>(v, r').
     Inr (v, r\<lparr>trs_records := r'\<rparr>))"

definition trust_text :: "byte \<Rightarrow> TrustRecords \<Rightarrow> (ReceiptTrustError, string \<times> TrustRecords) result" where
  "trust_text expected_tag r =
     rbind (trust_take expected_tag r) (\<lambda>(bs, r').
       if length bs > trs_maximum_text_bytes r then Inl TrustLimitExceeded
       else if \<not> is_ascii bs then Inl TrustInvalidValue
       else rbind (ok_or TrustInvalidValue (from_utf8 bs)) (\<lambda>text. Inr (text, r')))"

definition trust_finish :: "TrustRecords \<Rightarrow> (ReceiptTrustError, unit) result" where
  "trust_finish r = map_err (\<lambda>_. TrustInvalidRecord) (records_finish (trs_records r))"

section \<open>The document codec\<close>

definition encode_receipt_trust :: "ReceiptTrustDocument \<Rightarrow> (ReceiptTrustError, bytes) result" where
  "encode_receipt_trust trust =
     rbind (validate_receipt_trust trust) (\<lambda>_.
     rbind (push_trust_text RECEIPT_TRUST_MAGIC 1 (rt_key_id trust) RECEIPT_TRUST_BYTES_MAX) (\<lambda>output.
     rbind (push_trust output 2 (rt_public_key trust) RECEIPT_TRUST_BYTES_MAX) (\<lambda>output.
     rbind (push_trust_text output 3 (rt_accepted_purpose trust) RECEIPT_TRUST_BYTES_MAX) (\<lambda>output.
     rbind (push_trust output 4 (word_be (rt_not_before_unix_s trust)) RECEIPT_TRUST_BYTES_MAX) (\<lambda>output.
     push_trust output 5 (word_be (rt_not_after_unix_s trust)) RECEIPT_TRUST_BYTES_MAX)))))"

definition sized :: "'e \<Rightarrow> nat \<Rightarrow> bytes \<Rightarrow> ('e, bytes) result" where
  "sized e n bs = (if length bs = n then Inr bs else Inl e)"

definition parse_receipt_trust :: "bytes \<Rightarrow> ReceiptTrustLimits \<Rightarrow> (ReceiptTrustError, ReceiptTrustDocument) result" where
  "parse_receipt_trust input limits =
     rbind (validate_receipt_trust_limits limits) (\<lambda>_.
     if length input > tl_trust_bytes_max limits then Inl TrustLimitExceeded
     else rbind (trust_records_new input RECEIPT_TRUST_MAGIC (tl_text_bytes_max limits))
       (pbind (trust_text 1) (\<lambda>key_id.
        pbind (pcheck (trust_take 2) (sized TrustInvalidValue 32)) (\<lambda>public_key.
        pbind (trust_text 3) (\<lambda>accepted_purpose.
        pbind (pcheck (trust_take 4) (sized TrustInvalidValue 8)) (\<lambda>not_before.
        pbind (pcheck (trust_take 5) (sized TrustInvalidValue 8)) (\<lambda>not_after r.
          let trust = \<lparr>rt_key_id = key_id, rt_public_key = public_key,
                rt_accepted_purpose = accepted_purpose,
                rt_not_before_unix_s = word_from_be not_before,
                rt_not_after_unix_s = word_from_be not_after\<rparr> in
          rbind (trust_finish r) (\<lambda>_.
          rbind (validate_receipt_trust trust) (\<lambda>_.
          Inr trust)))))))))"

section \<open>Operator inputs\<close>

definition receipt_signing_key_id ::
    "crypto \<Rightarrow> bytes \<Rightarrow> bytes \<Rightarrow> bool \<Rightarrow> (ReceiptTrustError, string) result" where
  "receipt_signing_key_id C seed trust snapshot_bound =
     rbind (parse_receipt_trust trust default_trust_limits) (\<lambda>trust.
     let expected_purpose =
       (if snapshot_bound then ''kapsel.kap0038.kubernetes-effect-receipt.v3'' else RECEIPT_PURPOSE) in
     if rt_accepted_purpose trust \<noteq> expected_purpose \<or> rt_public_key trust \<noteq> public_of C seed
     then Inl TrustInvalidValue
     else Inr (rt_key_id trust))"

record ValidatedServiceOperatorInputs =
  so_authorization :: ExactAuthorization
  so_authorization_signing_key_id :: string
  so_receipt_signing_key_id :: string

datatype ServiceOperatorInputsError = ServiceOperatorInputsError

definition validate_service_operator_inputs ::
    "crypto \<Rightarrow> bytes \<Rightarrow> bytes \<Rightarrow> bytes \<Rightarrow> bytes \<Rightarrow>
      (ServiceOperatorInputsError, ValidatedServiceOperatorInputs) result" where
  "validate_service_operator_inputs C signed_authorization_grant authorization_public_key
       receipt_signing_seed receipt_trust =
     rbind (map_err (\<lambda>_. ServiceOperatorInputsError)
       (verify_authorization_grant_for_public_key C signed_authorization_grant authorization_public_key))
       (\<lambda>verified.
     rbind (map_err (\<lambda>_. ServiceOperatorInputsError)
       (receipt_signing_key_id C receipt_signing_seed receipt_trust
          (ea_approved_target (vg_authorization verified) \<noteq> None))) (\<lambda>receipt_signing_key_id.
     Inr \<lparr>so_authorization = vg_authorization verified,
          so_authorization_signing_key_id = vg_signer_key_id verified,
          so_receipt_signing_key_id = receipt_signing_key_id\<rparr>))"

section \<open>Readers and writers\<close>

lemmas trust_bounds = RECEIPT_TRUST_BYTES_MAX_def RECEIPT_TEXT_BYTES_MAX_def

lemma length_trust_magic [simp]: "length RECEIPT_TRUST_MAGIC = 28"
  by (simp add: RECEIPT_TRUST_MAGIC_def)

lemma sized_iff [simp]: "sized e n bs = Inr v \<longleftrightarrow> v = bs \<and> length bs = n"
  by (auto simp: sized_def)

definition tcur :: "nat \<Rightarrow> bytes \<Rightarrow> bytes \<Rightarrow> byte \<Rightarrow> TrustRecords" where
  "tcur m pre rest t = \<lparr>trs_records = cur pre rest t, trs_maximum_text_bytes = m\<rparr>"

text \<open>The trust reader keeps the contract of the framing; the text ceiling is its parameter.\<close>

interpretation tr: frame_codec "\<lambda>bs magic. trust_records_new bs magic m" "\<lambda>r t. trust_take t r"
  trust_finish "tcur m" push_trust for m
proof unfold_locales
  fix pre rest :: bytes and t s :: byte and v r
  assume take: "trust_take s (tcur m pre rest t) = Inr (v, r)" and sm: "small (pre @ rest)"
  then obtain r' where r': "records_take (cur pre rest t) s = Inr (v, r')" "r = tcur m [] [] 0\<lparr>trs_records := r'\<rparr>"
    by (auto simp: trust_take_def tcur_def result_simps)
  from ar.take_sound [OF r'(1) sm] r'(2) show "s = t \<and> t \<noteq> 255 \<and>
      (\<exists>rest'. rest = frame t v @ rest' \<and> r = tcur m (pre @ frame t v) rest' (t + 1))"
    by (auto simp: tcur_def)
qed (auto simp: trust_records_new_def trust_take_def trust_finish_def tcur_def push_trust_def
    result_simps ar.new_iff ar.take_frame ar.finish_iff ar.push_one_iff)

lemma trust_take_sound:
  assumes "trust_take t (tcur m pre rest t) = Inr (v, r)" "small (pre @ rest)"
  shows "\<exists>rest'. rest = frame t v @ rest' \<and> r = tcur m (pre @ frame t v) rest' (t + 1)"
  using tr.take_sound [OF assms] by blast

lemma trust_text_frame [simp]:
  assumes "small (pre @ frame t (as_bytes s) @ rest)" "t \<noteq> 255" "length s \<le> m" "text_is_ascii s"
  shows "trust_text t (tcur m pre (frame t (as_bytes s) @ rest) t) =
    Inr (s, tcur m (pre @ frame t (as_bytes s)) rest (t + 1))"
  using assms tr.take_frame [of pre t "as_bytes s" rest m]
  by (simp add: trust_text_def text_is_ascii_def) (simp add: tcur_def)

lemma trust_text_sound:
  assumes "trust_text t (tcur m pre rest t) = Inr (s, r)" "small (pre @ rest)"
  shows "\<exists>rest'. rest = frame t (as_bytes s) @ rest' \<and> r = tcur m (pre @ frame t (as_bytes s)) rest' (t + 1) \<and>
    length s \<le> m \<and> text_is_ascii s"
proof -
  from assms(1) obtain bs where "trust_take t (tcur m pre rest t) = Inr (bs, r)" "length bs \<le> m"
    "is_ascii bs" "bs = as_bytes s"
    by (auto simp: trust_text_def result_simps from_utf8_eq_Some tcur_def split: if_splits)
  with trust_take_sound [of t m pre rest bs r] assms(2) show ?thesis
    by (auto simp: text_is_ascii_def)
qed

definition trust_image :: "ReceiptTrustDocument \<Rightarrow> bytes" where
  "trust_image t = RECEIPT_TRUST_MAGIC @ frame 1 (as_bytes (rt_key_id t)) @ frame 2 (rt_public_key t) @
     frame 3 (as_bytes (rt_accepted_purpose t)) @ frame 4 (word_be (rt_not_before_unix_s t)) @
     frame 5 (word_be (rt_not_after_unix_s t))"

lemma validate_receipt_trust_iff: "validate_receipt_trust t = Inr u \<longleftrightarrow>
    identity_is_valid (rt_key_id t) \<and> ascii_text 512 (rt_accepted_purpose t) \<and>
    sint (rt_not_before_unix_s t) < sint (rt_not_after_unix_s t)"
  by (auto simp: validate_receipt_trust_def receipt_text_is_valid_def ascii_text_def trust_bounds)

lemma length_trust_image:
  assumes "validate_receipt_trust t = Inr u" "length (rt_public_key t) = 32"
  shows "length (trust_image t) \<le> 741"
  using assms identity_ascii [of "rt_key_id t"]
  by (simp add: validate_receipt_trust_iff trust_image_def ascii_text_def)

lemma encode_receipt_trust_image:
  assumes "validate_receipt_trust t = Inr u" "length (rt_public_key t) = 32"
  shows "encode_receipt_trust t = Inr (trust_image t)"
proof -
  have "ascii_text 128 (rt_key_id t)"
    using assms(1) by (simp add: validate_receipt_trust_iff identity_ascii)
  with assms length_trust_image [OF assms] show ?thesis
    by (simp add: encode_receipt_trust_def push_trust_text_def receipt_text_is_valid_def ascii_text_def
        validate_receipt_trust_iff trust_image_def result_simps tr.push_one_iff trust_bounds)
qed

lemma encode_receipt_trust_valid:
  "encode_receipt_trust t = Inr bs \<Longrightarrow> validate_receipt_trust t = Inr ()"
  by (auto simp: encode_receipt_trust_def result_simps)

definition trust_limits_allow :: "ReceiptTrustLimits \<Rightarrow> ReceiptTrustDocument \<Rightarrow> bool" where
  "trust_limits_allow limits t \<longleftrightarrow> validate_receipt_trust_limits limits = Inr () \<and>
     length (trust_image t) \<le> tl_trust_bytes_max limits \<and>
     length (rt_key_id t) \<le> tl_text_bytes_max limits \<and>
     length (rt_accepted_purpose t) \<le> tl_text_bytes_max limits"

lemma trust_take_read [simp]:
  "small (pre @ frame t v @ rest) \<Longrightarrow> t \<noteq> 255 \<Longrightarrow>
    trust_take t (tcur m pre (frame t v @ rest) t) = Inr (v, tcur m (pre @ frame t v) rest (t + 1))"
  "small (pre @ frame t v) \<Longrightarrow> t \<noteq> 255 \<Longrightarrow>
    trust_take t (tcur m pre (frame t v) t) = Inr (v, tcur m (pre @ frame t v) [] (t + 1))"
  using tr.take_frame [of pre t v rest m] tr.take_frame [of pre t v "[]" m] by simp_all

lemma trust_finish_done [simp]: "trust_finish (tcur m pre [] t) = Inr ()"
  using tr.finish_iff [of m pre "[]" t "()"] by simp

lemma trust_new_magic [simp]: "trust_records_new (magic @ rest) magic m = Inr (tcur m magic rest 1)"
  by (rule tr.new_magic)

lemma parse_trust_image:
  assumes valid: "validate_receipt_trust t = Inr u" and key: "length (rt_public_key t) = 32"
    and lim: "trust_limits_allow limits t"
  shows "parse_receipt_trust (trust_image t) limits = Inr t"
proof -
  have sm: "small (trust_image t)"
    by (rule smallI [OF length_trust_image [OF valid key]]) simp
  have "ascii_text 128 (rt_key_id t)" "ascii_text 512 (rt_accepted_purpose t)"
    using valid by (simp_all add: validate_receipt_trust_iff identity_ascii)
  then have "text_is_ascii (rt_key_id t)" "text_is_ascii (rt_accepted_purpose t)"
    by (simp_all add: ascii_text_def)
  with sm valid key lim show ?thesis
    by (cases t) (simp add: parse_receipt_trust_def trust_limits_allow_def trust_image_def pbind_def
        pcheck_def sized_def Let_def)
qed

lemma parse_trust_sound:
  assumes "parse_receipt_trust bs limits = Inr t"
  shows "bs = trust_image t" "validate_receipt_trust t = Inr ()" "length (rt_public_key t) = 32"
    "trust_limits_allow limits t"
proof -
  from assms have lim: "validate_receipt_trust_limits limits = Inr ()" "length bs \<le> tl_trust_bytes_max limits"
    by (auto simp: parse_receipt_trust_def result_simps split: if_splits)
  then have "length bs \<le> 1024"
    by (auto simp: validate_receipt_trust_limits_def trust_bounds split: if_splits)
  then have "small bs" by (rule smallI) simp
  with assms have "bs = trust_image t \<and> validate_receipt_trust t = Inr () \<and> length (rt_public_key t) = 32 \<and>
      trust_limits_allow limits t"
    by (auto simp: parse_receipt_trust_def Let_def result_simps trust_image_def trust_limits_allow_def
        tr.new_iff tr.finish_iff split: if_splits dest!: trust_take_sound trust_text_sound)
  then show "bs = trust_image t" "validate_receipt_trust t = Inr ()" "length (rt_public_key t) = 32"
    "trust_limits_allow limits t" by auto
qed

section \<open>Properties\<close>

text \<open>
  Receipt-trust documents are canonical: bytes parse under some limits exactly when those
  limits are valid and admit them and the bytes are the encoding of a valid document with a
  32-byte key.
\<close>

theorem parse_receipt_trust_canonical:
  "parse_receipt_trust bs limits = Inr t \<longleftrightarrow>
    encode_receipt_trust t = Inr bs \<and> length (rt_public_key t) = 32 \<and> trust_limits_allow limits t"
  (is "?l \<longleftrightarrow> ?r")
proof
  assume ?l
  from parse_trust_sound [OF this] show ?r
    by (simp add: encode_receipt_trust_image)
next
  assume r: ?r
  then have valid: "validate_receipt_trust t = Inr ()"
    using encode_receipt_trust_valid by blast
  with r encode_receipt_trust_image [OF valid] have "bs = trust_image t"
    by simp
  with valid r show ?l
    using parse_trust_image by blast
qed

text \<open>
  C16. Accepted operator inputs are consistent: the grant verifies under the given authorization key
  for the returned key identity, and the receipt trust is a canonical document that appoints
  exactly the key derived from the receipt seed, for the receipt purpose of the grant's
  version, under the returned key identity.
\<close>

theorem operator_inputs_consistent:
  assumes "validate_service_operator_inputs C grant public_key seed trust = Inr out"
  shows "\<exists>g t.
    verify_authorization_grant C grant
       \<lparr>tr_key_id = so_authorization_signing_key_id out, tr_public_key = public_key\<rparr> = Inr g \<and>
    vg_authorization g = so_authorization out \<and>
    encode_receipt_trust t = Inr trust \<and> rt_public_key t = public_of C seed \<and>
    rt_key_id t = so_receipt_signing_key_id out \<and>
    rt_accepted_purpose t =
       (if ea_approved_target (so_authorization out) \<noteq> None
        then ''kapsel.kap0038.kubernetes-effect-receipt.v3'' else RECEIPT_PURPOSE)"
proof -
  from assms obtain g where g: "verify_authorization_grant_for_public_key C grant public_key = Inr g"
    "receipt_signing_key_id C seed trust (ea_approved_target (vg_authorization g) \<noteq> None) =
      Inr (so_receipt_signing_key_id out)"
    "so_authorization out = vg_authorization g" "so_authorization_signing_key_id out = vg_signer_key_id g"
    by (auto simp: validate_service_operator_inputs_def result_simps)
  from g(2) obtain t where t: "parse_receipt_trust trust default_trust_limits = Inr t"
    "rt_public_key t = public_of C seed" "rt_key_id t = so_receipt_signing_key_id out"
    "rt_accepted_purpose t = (if ea_approved_target (vg_authorization g) \<noteq> None
       then ''kapsel.kap0038.kubernetes-effect-receipt.v3'' else RECEIPT_PURPOSE)"
    by (auto simp: receipt_signing_key_id_def result_simps Let_def split: if_splits)
  have "encode_receipt_trust t = Inr trust"
    using parse_trust_sound [OF t(1)] by (simp add: encode_receipt_trust_image)
  with verify_for_public_key_sound [OF g(1)] g t show ?thesis by auto
qed

definition example_trust :: ReceiptTrustDocument where
  "example_trust = \<lparr>rt_key_id = ''receipt-key'', rt_public_key = replicate 32 9,
     rt_accepted_purpose = ''kapsel.kap0038.kubernetes-effect-receipt.v3'',
     rt_not_before_unix_s = 1000, rt_not_after_unix_s = 2000\<rparr>"

definition example_grant :: bytes where
  "example_grant = grant_image example_authorization ''operator''
     (sign_with example_crypto (replicate 32 7)
       (signature_input SNAPSHOT_PURPOSE (statement_image example_authorization)))"

lemma example_grant_verifies:
  "verify_authorization_grant example_crypto example_grant
     \<lparr>tr_key_id = ''operator'', tr_public_key = replicate 32 7\<rparr> =
   Inr \<lparr>vg_authorization = example_authorization, vg_signer_key_id = ''operator'',
        vg_grant_digest = digest_hex example_crypto example_grant\<rparr>"
proof -
  let ?t = "\<lparr>tr_key_id = ''operator'', tr_public_key = replicate 32 7 :: bytes\<rparr>"
  have trust: "trust_validate example_crypto ?t = Inr ()"
    by code_simp
  have "grant_purpose (statement_image example_authorization) = SNAPSHOT_PURPOSE"
    by (simp add: example_authorization_def)
  then show ?thesis
    using verify_grant_image [OF trust example_authorization_valid] crypto_okD [OF example_crypto_ok]
    by (simp add: example_grant_def) (simp add: example_crypto_def)
qed

lemma example_trust_parses:
  "parse_receipt_trust (trust_image example_trust) default_trust_limits = Inr example_trust"
proof (rule parse_trust_image)
  show "validate_receipt_trust example_trust = Inr ()" by code_simp
  show "length (rt_public_key example_trust) = 32" by (simp add: example_trust_def)
  show "trust_limits_allow default_trust_limits example_trust"
    by (simp add: trust_limits_allow_def default_trust_limits_def validate_receipt_trust_limits_def
        trust_image_def example_trust_def trust_bounds)
qed

lemma example_inputs_accepted:
  "validate_service_operator_inputs example_crypto example_grant (replicate 32 7) (replicate 32 9)
     (trust_image example_trust) =
   Inr \<lparr>so_authorization = example_authorization, so_authorization_signing_key_id = ''operator'',
        so_receipt_signing_key_id = ''receipt-key''\<rparr>"
  by (simp add: validate_service_operator_inputs_def verify_for_public_key_complete [OF example_grant_verifies]
      receipt_signing_key_id_def example_trust_parses)
    (simp add: example_trust_def example_crypto_def example_authorization_def)

theorem operator_inputs_consistent_witness:
  "\<exists>g t. verify_authorization_grant example_crypto example_grant
       \<lparr>tr_key_id = ''operator'', tr_public_key = replicate 32 7\<rparr> = Inr g \<and>
     vg_authorization g = example_authorization \<and>
     encode_receipt_trust t = Inr (trust_image example_trust) \<and>
     rt_public_key t = replicate 32 9 \<and> rt_key_id t = ''receipt-key''"
proof -
  have "public_of example_crypto (replicate 32 9) = replicate 32 9"
    by (simp add: example_crypto_def)
  then show ?thesis
    using operator_inputs_consistent [OF example_inputs_accepted] by auto
qed

end
