(* ===== verification/GitGrant.thy ===== *)
theory GitGrant
  imports Grant
begin

text \<open>
  Grants for one exact transition of the operator's Git branch, \<open>crates/kapsel-authority/src/git.rs\<close>:
  the approved facts and their grammar, the statement inside the signed envelope, signing with a
  purpose of its own and verification under a configured signer.
\<close>

section \<open>Constants and data\<close>

definition GIT_STATEMENT_MAGIC :: bytes where
  "GIT_STATEMENT_MAGIC = as_bytes ''KAPSEL-GIT-REF-GRANT-STATEMENT-V1'' @ [0]"

definition GIT_GRANT_MAGIC :: bytes where
  "GIT_GRANT_MAGIC = as_bytes ''KAPSEL-GIT-REF-GRANT-V1'' @ [0]"

definition GIT_GRANT_PURPOSE :: string where
  "GIT_GRANT_PURPOSE = ''kapsel.git-ref-transition-grant.v1''"

definition STATEMENT_MAX :: nat where
  "STATEMENT_MAX = 2048"

definition GRANT_MAX :: nat where
  "GRANT_MAX = 4096"

definition APPROVED_GIT_REF :: string where
  "APPROVED_GIT_REF = ''refs/heads/approved''"

record GitRefAuthorization =
  ga_authorization_id :: string
  ga_operation_id :: string
  ga_repository_id :: string
  ga_reference :: string
  ga_old_commit :: string
  ga_new_commit :: string

definition git_commit_id_is_valid :: "string \<Rightarrow> bool" where
  "git_commit_id_is_valid val \<longleftrightarrow> length val = 40 \<and>
     list_all (\<lambda>b. is_ascii_digit b \<or> (97 \<le> b \<and> b \<le> 102)) (as_bytes val) \<and>
     list_ex (\<lambda>b. b \<noteq> 48) (as_bytes val)"

definition git_authorization_is_valid :: "GitRefAuthorization \<Rightarrow> bool" where
  "git_authorization_is_valid a \<longleftrightarrow>
     list_all identity_is_valid [ga_authorization_id a, ga_operation_id a, ga_repository_id a] \<and>
     ga_reference a = APPROVED_GIT_REF \<and> git_commit_id_is_valid (ga_old_commit a) \<and>
     git_commit_id_is_valid (ga_new_commit a) \<and> ga_old_commit a \<noteq> ga_new_commit a"

record ValidatedGitRefGrant =
  vgg_authorization :: GitRefAuthorization
  vgg_signer_key_id :: string
  vgg_grant_digest :: string

section \<open>Signing and verification\<close>

definition map_frame_error :: "FrameError \<Rightarrow> AuthorizationGrantError" where
  "map_frame_error e = GrantInvalid"

definition git_append_grant_record :: "bytes \<Rightarrow> byte \<Rightarrow> bytes \<Rightarrow> nat \<Rightarrow> (AuthorizationGrantError, bytes) result" where
  "git_append_grant_record output tag val maximum_bytes = map_err map_frame_error (push output tag val maximum_bytes)"

definition decode_bounded_ascii :: "bytes \<Rightarrow> nat \<Rightarrow> (AuthorizationGrantError, string) result" where
  "decode_bounded_ascii bs maximum_bytes =
     (if length bs > maximum_bytes \<or> \<not> is_ascii bs then Inl GrantInvalid
      else ok_or GrantInvalid (from_utf8 bs))"

text \<open>\<open>envelope.take(tag).map_err(map_frame_error)\<close>, and the same followed by \<open>decode_bounded_ascii\<close>.\<close>

definition git_take :: "byte \<Rightarrow> Records \<Rightarrow> (AuthorizationGrantError, bytes \<times> Records) result" where
  "git_take tag r = map_err map_frame_error (records_take r tag)"

definition git_take_text :: "byte \<Rightarrow> nat \<Rightarrow> Records \<Rightarrow> (AuthorizationGrantError, string \<times> Records) result" where
  "git_take_text tag maximum_bytes =
     pbind (git_take tag) (\<lambda>bs r. rbind (decode_bounded_ascii bs maximum_bytes) (\<lambda>text. Inr (text, r)))"

definition sign_git_ref_grant ::
    "crypto \<Rightarrow> GitRefAuthorization \<Rightarrow> bytes \<Rightarrow> string \<Rightarrow> (AuthorizationGrantError, bytes) result" where
  "sign_git_ref_grant C a seed key_id =
     (if \<not> git_authorization_is_valid a \<or> \<not> identity_is_valid key_id then Inl GrantInvalid
      else rbind (try_fold (\<lambda>(tag, val) out. git_append_grant_record out tag (as_bytes val) STATEMENT_MAX)
          (zip [1, 2, 3, 4, 5, 6] [ga_authorization_id a, ga_operation_id a, ga_repository_id a,
             ga_reference a, ga_old_commit a, ga_new_commit a]) GIT_STATEMENT_MAGIC) (\<lambda>statement.
        sign_grant_statement C statement GIT_GRANT_MAGIC GIT_GRANT_PURPOSE seed key_id))"

text \<open>The fields of the statement inside an envelope.\<close>

definition parse_git_statement :: "bytes \<Rightarrow> (AuthorizationGrantError, GitRefAuthorization) result" where
  "parse_git_statement statement =
     rbind (map_err map_frame_error (records_new statement GIT_STATEMENT_MAGIC))
       (pbind (git_take_text 1 128) (\<lambda>authorization_id.
        pbind (git_take_text 2 128) (\<lambda>operation_id.
        pbind (git_take_text 3 128) (\<lambda>repository_id.
        pbind (git_take_text 4 (length APPROVED_GIT_REF)) (\<lambda>reference.
        pbind (git_take_text 5 40) (\<lambda>old_commit.
        pbind (git_take_text 6 40) (\<lambda>new_commit r.
          let authorization = \<lparr>ga_authorization_id = authorization_id, ga_operation_id = operation_id,
                ga_repository_id = repository_id, ga_reference = reference, ga_old_commit = old_commit,
                ga_new_commit = new_commit\<rparr> in
          rbind (map_err map_frame_error (records_finish r)) (\<lambda>_.
          if \<not> git_authorization_is_valid authorization then Inl GrantInvalid
          else Inr authorization))))))))"

definition verify_git_ref_grant ::
    "crypto \<Rightarrow> bytes \<Rightarrow> AuthorizationTrust \<Rightarrow> (AuthorizationGrantError, ValidatedGitRefGrant) result" where
  "verify_git_ref_grant C bs trust =
     rbind (trust_validate C trust) (\<lambda>_.
     if length bs > GRANT_MAX then Inl GrantInvalid
     else rbind (map_err map_frame_error (records_new bs GIT_GRANT_MAGIC))
       (pbind (git_take 1) (\<lambda>purpose r.
        if purpose \<noteq> as_bytes GIT_GRANT_PURPOSE then Inl GrantInvalid
        else pbind (git_take_text 2 128) (\<lambda>key_id r.
        if \<not> identity_is_valid key_id then Inl GrantInvalid
        else pbind (git_take 3) (\<lambda>statement r.
        if length statement > STATEMENT_MAX then Inl GrantInvalid
        else pbind (git_take 4) (\<lambda>signature r.
        if length signature \<noteq> 64 then Inl GrantInvalid
        else
          rbind (map_err map_frame_error (records_finish r)) (\<lambda>_.
          rbind (parse_git_statement statement) (\<lambda>authorization.
          if key_id \<noteq> tr_key_id trust then Inl GrantUntrusted
          else if \<not> key_valid C (tr_public_key trust) then Inl GrantInvalid
          else if \<not> verify_strict C (tr_public_key trust) (signature_input GIT_GRANT_PURPOSE statement) signature
          then Inl GrantUntrusted
          else Inr \<lparr>vgg_authorization = authorization, vgg_signer_key_id = key_id,
                     vgg_grant_digest = digest_hex C bs\<rparr>))) r) r) r)))"

section \<open>The canonical envelope\<close>

lemma map_frame_error_eq [simp]: "map_frame_error = (\<lambda>_. GrantInvalid)"
  by (simp add: fun_eq_iff map_frame_error_def)

lemma git_take_eq [simp]: "git_take = take_record"
  by (simp add: fun_eq_iff git_take_def take_record_def)

lemma git_append_eq [simp]: "git_append_grant_record = append_grant_record"
  by (simp add: fun_eq_iff git_append_grant_record_def append_grant_record_def)

lemma records_finish_done [simp]: "records_finish (cur pre [] t) = Inr ()"
  by (simp add: ar.finish_iff)

lemmas git_bounds = STATEMENT_MAX_def GRANT_MAX_def SIGNED_GRANT_BYTES_MAX_def

lemma length_git_constants [simp]:
  "length GIT_STATEMENT_MAGIC = 34" "length GIT_GRANT_MAGIC = 24" "length GIT_GRANT_PURPOSE = 34"
  "length APPROVED_GIT_REF = 19"
  by (simp_all add: GIT_STATEMENT_MAGIC_def GIT_GRANT_MAGIC_def GIT_GRANT_PURPOSE_def APPROVED_GIT_REF_def)

lemma git_take_text_frame [simp]:
  assumes "small (pre @ frame t (as_bytes s) @ rest)" "t \<noteq> 255" "ascii_text n s"
  shows "git_take_text t n (cur pre (frame t (as_bytes s) @ rest) t) =
    Inr (s, cur (pre @ frame t (as_bytes s)) rest (t + 1))"
  using assms by (simp add: git_take_text_def pbind_def decode_bounded_ascii_def ascii_text_def text_is_ascii_def)

lemmas git_take_text_last [simp] = git_take_text_frame [where rest = "[]", simplified]

lemma git_take_text_sound:
  assumes "git_take_text t n (cur pre rest t) = Inr (s, r)" "small (pre @ rest)"
  shows "\<exists>rest'. rest = frame t (as_bytes s) @ rest' \<and> r = cur (pre @ frame t (as_bytes s)) rest' (t + 1)"
  using assms
  by (auto simp: git_take_text_def decode_bounded_ascii_def result_simps from_utf8_eq_Some
      split: if_splits dest!: take_record_sound)

lemma git_commit_ascii: "git_commit_id_is_valid s \<Longrightarrow> ascii_text 40 s"
  by (auto simp: git_commit_id_is_valid_def ascii_text_def text_is_ascii_def is_ascii_def list_all_iff
      is_ascii_digit_def word_le_nat_alt word_less_nat_alt)

lemma git_authorization_ascii:
  assumes "git_authorization_is_valid a"
  shows "ascii_text 128 (ga_authorization_id a)" "ascii_text 128 (ga_operation_id a)"
    "ascii_text 128 (ga_repository_id a)" "ascii_text 19 (ga_reference a)"
    "ascii_text 40 (ga_old_commit a)" "ascii_text 40 (ga_new_commit a)"
proof -
  have "ascii_text 19 APPROVED_GIT_REF" by code_simp
  then show "ascii_text 19 (ga_reference a)" using assms by (simp add: git_authorization_is_valid_def)
qed (use assms in \<open>simp_all add: git_authorization_is_valid_def identity_ascii git_commit_ascii\<close>)

definition git_statement_image :: "GitRefAuthorization \<Rightarrow> bytes" where
  "git_statement_image a = GIT_STATEMENT_MAGIC @
     frame 1 (as_bytes (ga_authorization_id a)) @ frame 2 (as_bytes (ga_operation_id a)) @
     frame 3 (as_bytes (ga_repository_id a)) @ frame 4 (as_bytes (ga_reference a)) @
     frame 5 (as_bytes (ga_old_commit a)) @ frame 6 (as_bytes (ga_new_commit a))"

definition git_grant_image :: "GitRefAuthorization \<Rightarrow> string \<Rightarrow> bytes \<Rightarrow> bytes" where
  "git_grant_image a key_id sig = GIT_GRANT_MAGIC @ frame 1 (as_bytes GIT_GRANT_PURPOSE) @
     frame 2 (as_bytes key_id) @ frame 3 (git_statement_image a) @ frame 4 sig"

lemma length_git_statement_image: "git_authorization_is_valid a \<Longrightarrow> length (git_statement_image a) \<le> 547"
  using git_authorization_ascii [of a] by (simp add: git_statement_image_def ascii_text_def)

lemma length_git_grant_image:
  assumes "git_authorization_is_valid a" "identity_is_valid key_id" "length sig = 64"
  shows "length (git_grant_image a key_id sig) \<le> 817"
  using length_git_statement_image [OF assms(1)] identity_ascii [OF assms(2)] assms(3)
  by (simp add: git_grant_image_def ascii_text_def)

lemma parse_git_statement_image:
  assumes valid: "git_authorization_is_valid a"
  shows "parse_git_statement (git_statement_image a) = Inr a"
proof -
  have "small (git_statement_image a)" by (rule smallI [OF length_git_statement_image [OF valid]]) simp
  with git_authorization_ascii [OF valid] valid show ?thesis
    by (cases a) (simp add: parse_git_statement_def git_statement_image_def Let_def pbind_def ar.finish_iff)
qed

lemma parse_git_statement_sound:
  assumes "parse_git_statement bs = Inr a" "small bs"
  shows "bs = git_statement_image a \<and> git_authorization_is_valid a"
  using assms
  by (auto simp: parse_git_statement_def Let_def result_simps git_statement_image_def ar.new_iff ar.finish_iff
      split: if_splits dest!: git_take_text_sound)

lemma sign_git_ref_grant_eq_image:
  assumes "git_authorization_is_valid a" "identity_is_valid key_id"
    "length (sign_with C seed (signature_input GIT_GRANT_PURPOSE (git_statement_image a))) = 64"
  shows "sign_git_ref_grant C a seed key_id = Inr (git_grant_image a key_id
    (sign_with C seed (signature_input GIT_GRANT_PURPOSE (git_statement_image a))))"
proof -
  have "try_fold (\<lambda>(tag, val) out. append_grant_record out tag (as_bytes val) STATEMENT_MAX)
      (zip [1, 2, 3, 4, 5, 6] [ga_authorization_id a, ga_operation_id a, ga_repository_id a,
         ga_reference a, ga_old_commit a, ga_new_commit a]) GIT_STATEMENT_MAGIC = Inr (git_statement_image a)"
    using length_git_statement_image [OF assms(1)]
    by (simp add: result_simps git_bounds git_statement_image_def)
  with assms length_git_grant_image [OF assms] show ?thesis
    by (simp add: sign_git_ref_grant_def sign_grant_statement_def result_simps git_grant_image_def git_bounds)
qed

lemma verify_git_grant_image:
  assumes "trust_validate C trust = Inr ()" "git_authorization_is_valid a" "length sig = 64"
    "verify_strict C (tr_public_key trust) (signature_input GIT_GRANT_PURPOSE (git_statement_image a)) sig"
  shows "verify_git_ref_grant C (git_grant_image a (tr_key_id trust) sig) trust =
    Inr \<lparr>vgg_authorization = a, vgg_signer_key_id = tr_key_id trust,
         vgg_grant_digest = digest_hex C (git_grant_image a (tr_key_id trust) sig)\<rparr>"
proof -
  from assms(1) have id: "identity_is_valid (tr_key_id trust)" and key: "key_valid C (tr_public_key trust)"
    by (auto simp: trust_validate_def split: if_splits)
  have len: "length (git_grant_image a (tr_key_id trust) sig) \<le> 817"
    using length_git_grant_image [OF assms(2) id assms(3)] .
  then have "small (git_grant_image a (tr_key_id trust) sig)" by (rule smallI) simp
  then show ?thesis
    using assms id key len length_git_statement_image [OF assms(2)] identity_ascii [OF id]
      parse_git_statement_image [OF assms(2)]
    by (simp add: verify_git_ref_grant_def git_grant_image_def Let_def git_bounds pbind_def ar.finish_iff)
qed

lemma verify_git_ref_grant_sound:
  assumes "verify_git_ref_grant C bs trust = Inr g"
  shows "\<exists>sig. trust_validate C trust = Inr () \<and> git_authorization_is_valid (vgg_authorization g) \<and>
    length sig = 64 \<and> bs = git_grant_image (vgg_authorization g) (tr_key_id trust) sig \<and>
    vgg_signer_key_id g = tr_key_id trust \<and> vgg_grant_digest g = digest_hex C bs \<and>
    verify_strict C (tr_public_key trust)
      (signature_input GIT_GRANT_PURPOSE (git_statement_image (vgg_authorization g))) sig"
proof -
  from assms have "length bs \<le> 4096"
    by (auto simp: verify_git_ref_grant_def result_simps git_bounds split: if_splits)
  then have "small bs" by (rule smallI) simp
  moreover have "small st" if "\<not> STATEMENT_MAX < length st" for st
    using that by (simp add: git_bounds small_def)
  ultimately show ?thesis
    using assms
    by (auto simp: verify_git_ref_grant_def Let_def result_simps git_grant_image_def ar.new_iff ar.finish_iff
        split: if_splits dest!: take_record_sound git_take_text_sound parse_git_statement_sound) blast
qed

section \<open>Properties\<close>

text \<open>
  C20. Git grants verify exactly when canonical: bytes are accepted under a configured signer if
  and only if the trust is valid and the bytes are the one envelope of a valid approval naming
  that key, whose 64-byte signature verifies over the Git purpose and the canonical statement.
\<close>

theorem verify_git_ref_grant_iff:
  "verify_git_ref_grant C bs trust = Inr g \<longleftrightarrow>
    (\<exists>a sig. trust_validate C trust = Inr () \<and> git_authorization_is_valid a \<and> length sig = 64 \<and>
      bs = git_grant_image a (tr_key_id trust) sig \<and>
      verify_strict C (tr_public_key trust) (signature_input GIT_GRANT_PURPOSE (git_statement_image a)) sig \<and>
      g = \<lparr>vgg_authorization = a, vgg_signer_key_id = tr_key_id trust, vgg_grant_digest = digest_hex C bs\<rparr>)"
  (is "?l \<longleftrightarrow> ?r")
proof
  assume ?l
  from verify_git_ref_grant_sound [OF this] show ?r
    by (intro exI [of _ "vgg_authorization g"]) auto
qed (use verify_git_grant_image in blast)

text \<open>
  Signing then verifying a Git approval: with a valid approval and key identity, signing
  succeeds and the bytes verify under the derived key to exactly that approval.
\<close>

theorem sign_verify_git_ref_grant:
  assumes "crypto_ok C" "length seed = 32" "git_authorization_is_valid a" "identity_is_valid key_id"
  shows "\<exists>bs. sign_git_ref_grant C a seed key_id = Inr bs \<and>
    verify_git_ref_grant C bs \<lparr>tr_key_id = key_id, tr_public_key = public_of C seed\<rparr> =
      Inr \<lparr>vgg_authorization = a, vgg_signer_key_id = key_id, vgg_grant_digest = digest_hex C bs\<rparr>"
proof -
  let ?sig = "sign_with C seed (signature_input GIT_GRANT_PURPOSE (git_statement_image a))"
  let ?t = "\<lparr>tr_key_id = key_id, tr_public_key = public_of C seed\<rparr>"
  note crypto = crypto_okD [OF assms(1)]
  have "trust_validate C ?t = Inr ()" using assms crypto by (simp add: trust_validate_def)
  then have "verify_git_ref_grant C (git_grant_image a key_id ?sig) ?t = Inr \<lparr>vgg_authorization = a,
      vgg_signer_key_id = key_id, vgg_grant_digest = digest_hex C (git_grant_image a key_id ?sig)\<rparr>"
    using verify_git_grant_image [of C ?t a ?sig] assms crypto by simp
  then show ?thesis using sign_git_ref_grant_eq_image [OF assms(3,4)] assms(2) crypto by simp
qed

definition example_git_authorization :: GitRefAuthorization where
  "example_git_authorization = \<lparr>ga_authorization_id = ''grant-g'', ga_operation_id = ''git-op-1'',
     ga_repository_id = ''repo-1'', ga_reference = APPROVED_GIT_REF,
     ga_old_commit = replicate 40 (CHR ''a''), ga_new_commit = replicate 40 (CHR ''b'')\<rparr>"

lemma example_git_authorization_valid: "git_authorization_is_valid example_git_authorization"
  by code_simp

theorem sign_verify_git_ref_grant_witness:
  "\<exists>bs. sign_git_ref_grant example_crypto example_git_authorization (replicate 32 7) ''operator'' = Inr bs \<and>
    verify_git_ref_grant example_crypto bs
      \<lparr>tr_key_id = ''operator'', tr_public_key = public_of example_crypto (replicate 32 7)\<rparr> =
      Inr \<lparr>vgg_authorization = example_git_authorization, vgg_signer_key_id = ''operator'',
           vgg_grant_digest = digest_hex example_crypto bs\<rparr>"
proof -
  have "identity_is_valid ''operator''" by code_simp
  then show ?thesis
    using sign_verify_git_ref_grant [OF example_crypto_ok _ example_git_authorization_valid,
        of "replicate 32 7" "''operator''"] by simp
qed

end
