(* ===== verification/Requests.thy ===== *)
theory Requests
  imports Grant
begin

text \<open>
  The vocabulary of the gateway, \<open>src/gateway/mod.rs\<close>: the one request it accepts and its
  validated form, the durable states, results and rejections, the error classes, and the
  binding of a verified authorization to a request. The receipt statement and the receipt
  error class stand here because the gateway's error class contains them.

  Signed machine integers are words read with \<open>sint\<close>. Errors of the operating system and of
  SQLite keep their class and drop their payload.
\<close>

type_synonym i64 = "64 word"
type_synonym i32 = "32 word"

section \<open>States, results and rejections\<close>

datatype OperationState =
  Requested | Authorized | NotAttempted | ApplyStarted | ReceiverObserved | Finalized

datatype SubmissionResult = Created | Existing OperationState

datatype TargetRejection =
  DeploymentNotFound | ContainerNotFound | InvalidTarget | StaleApproval | GitStaleRef
  | GitInvalidObjects

datatype TargetReadError = Transient | Permanent TargetRejection

datatype OperationResult = Succeeded | Failed | Unknown

definition WRITE_STRATEGY :: string where
  "WRITE_STRATEGY = ''conditional-strategic-merge-patch''"

section \<open>The receipt statement and the error classes\<close>

record ReceiptStatement =
  rs_approved_target :: "ApprovedTarget option"
  rs_operation_id :: string
  rs_authorization_id :: string
  rs_authorization_signer_key_id :: string
  rs_authorization_grant_digest :: string
  rs_namespace :: string
  rs_deployment :: string
  rs_container :: string
  rs_immutable_image_digest :: string
  rs_write_strategy :: string
  rs_target_uid :: string
  rs_target_resource_version :: string
  rs_receiver_uid :: "string option"
  rs_observed_image :: "string option"
  rs_observed_operation_marker :: "string option"
  rs_current_generation :: "i64 option"
  rs_requested_generation :: "i64 option"
  rs_observed_generation :: "i64 option"
  rs_observed_resource_version :: "string option"
  rs_desired_replicas :: "i32 option"
  rs_updated_replicas :: "i32 option"
  rs_available_replicas :: "i32 option"
  rs_unavailable_replicas :: "i32 option"
  rs_rollout_condition_type :: "string option"
  rs_rollout_condition_status :: "string option"
  rs_rollout_condition_reason :: "string option"
  rs_result :: OperationResult

datatype ReceiptError =
  LimitExceeded | InvalidValue | InvalidRecord | BadSignature | UntrustedSigner ReceiptStatement

datatype InputField =
  IF_OperationId | IF_AuthorizationId | IF_Namespace | IF_Deployment | IF_Container
  | IF_ImmutableImageDigest

datatype GatewayError =
  Database | JournalFile | WorkerLock | JournalBackup | JournalBackupMismatch
  | MissingJournalHistory | UnsupportedJournalVersion | GInvalidInput InputField
  | InvalidAuthorizationGrant | UntrustedAuthorizationGrant | AuthorizationMismatch
  | OperationIdentityConflict | InvalidPersistedState | InvalidTransition
  | GitReceiverUnavailable | KubernetesTargetObservation | KubernetesApply
  | KubernetesReceiverObservation | InvalidKubernetesFact | InjectedFault | JournalFull
  | GReceipt ReceiptError | ReceiptDigestMismatch

section \<open>Validation of requests\<close>

definition validate_identity :: "InputField \<Rightarrow> string \<Rightarrow> (GatewayError, unit) result" where
  "validate_identity field value =
     (if identity_is_valid value then Inr () else Inl (GInvalidInput field))"

definition validate_dns_label :: "InputField \<Rightarrow> string \<Rightarrow> (GatewayError, unit) result" where
  "validate_dns_label field value =
     (if dns_label_is_valid value then Inr () else Inl (GInvalidInput field))"

definition validate_dns_subdomain :: "InputField \<Rightarrow> string \<Rightarrow> (GatewayError, unit) result" where
  "validate_dns_subdomain field value =
     (if dns_subdomain_is_valid value then Inr () else Inl (GInvalidInput field))"

definition validate_immutable_image :: "string \<Rightarrow> (GatewayError, unit) result" where
  "validate_immutable_image value =
     (if immutable_image_is_valid value then Inr () else Inl (GInvalidInput IF_ImmutableImageDigest))"

lemma validate_eq_Inr [simp]:
  "validate_identity f v = Inr u \<longleftrightarrow> identity_is_valid v"
  "validate_dns_label f v = Inr u \<longleftrightarrow> dns_label_is_valid v"
  "validate_dns_subdomain f v = Inr u \<longleftrightarrow> dns_subdomain_is_valid v"
  "validate_immutable_image v = Inr u \<longleftrightarrow> immutable_image_is_valid v"
  by (simp_all add: validate_identity_def validate_dns_label_def validate_dns_subdomain_def
      validate_immutable_image_def)

record SetDeploymentImageRequest =
  rq_operation_id :: string
  rq_namespace :: string
  rq_deployment :: string
  rq_container :: string
  rq_immutable_image_digest :: string

record ValidatedRequest =
  vr_operation_id :: string
  vr_namespace :: string
  vr_deployment :: string
  vr_container :: string
  vr_immutable_image :: string

definition validated_request_try_from ::
    "SetDeploymentImageRequest \<Rightarrow> (GatewayError, ValidatedRequest) result" where
  "validated_request_try_from request =
     rbind (validate_identity IF_OperationId (rq_operation_id request)) (\<lambda>_.
     rbind (validate_dns_label IF_Namespace (rq_namespace request)) (\<lambda>_.
     rbind (validate_dns_subdomain IF_Deployment (rq_deployment request)) (\<lambda>_.
     rbind (validate_dns_label IF_Container (rq_container request)) (\<lambda>_.
     rbind (validate_immutable_image (rq_immutable_image_digest request)) (\<lambda>_.
     Inr \<lparr>vr_operation_id = rq_operation_id request, vr_namespace = rq_namespace request,
          vr_deployment = rq_deployment request, vr_container = rq_container request,
          vr_immutable_image = rq_immutable_image_digest request\<rparr>)))))"

definition to_adapter_request :: "ValidatedRequest \<Rightarrow> SetDeploymentImageRequest" where
  "to_adapter_request r =
     \<lparr>rq_operation_id = vr_operation_id r, rq_namespace = vr_namespace r,
      rq_deployment = vr_deployment r, rq_container = vr_container r,
      rq_immutable_image_digest = vr_immutable_image r\<rparr>"

definition request_valid :: "ValidatedRequest \<Rightarrow> bool" where
  "request_valid r \<longleftrightarrow>
     identity_is_valid (vr_operation_id r) \<and> dns_label_is_valid (vr_namespace r) \<and>
     dns_subdomain_is_valid (vr_deployment r) \<and> dns_label_is_valid (vr_container r) \<and>
     immutable_image_is_valid (vr_immutable_image r)"

lemma validated_request_iff:
  "validated_request_try_from q = Inr r \<longleftrightarrow> q = to_adapter_request r \<and> request_valid r"
  by (cases q; cases r) (auto simp: validated_request_try_from_def result_simps to_adapter_request_def
      request_valid_def)

lemma validated_request_adapter [simp]:
  "request_valid r \<Longrightarrow> validated_request_try_from (to_adapter_request r) = Inr r"
  by (simp add: validated_request_iff)

section \<open>Binding an authorization to a request\<close>

text \<open>\<open>src/gateway/authorization.rs\<close>: an authorization that has been verified.\<close>

record VerifiedAuthorization =
  va_authorization :: ExactAuthorization
  va_signer_key_id :: string
  va_grant_digest :: string
  va_signed_grant :: bytes

fun map_input_field :: "AuthorizationInputField \<Rightarrow> InputField" where
  "map_input_field AF_AuthorizationId = IF_AuthorizationId"
| "map_input_field AF_OperationId = IF_OperationId"
| "map_input_field AF_Namespace = IF_Namespace"
| "map_input_field AF_Deployment = IF_Deployment"
| "map_input_field AF_Container = IF_Container"
| "map_input_field AF_ImmutableImageDigest = IF_ImmutableImageDigest"

fun map_authorization_error :: "AuthorizationGrantError \<Rightarrow> GatewayError" where
  "map_authorization_error (InvalidInput field) = GInvalidInput (map_input_field field)"
| "map_authorization_error GrantInvalid = InvalidAuthorizationGrant"
| "map_authorization_error GrantUntrusted = UntrustedAuthorizationGrant"

definition retain_verified_grant :: "ValidatedAuthorizationGrant \<Rightarrow> bytes \<Rightarrow> VerifiedAuthorization" where
  "retain_verified_grant verified bs =
     \<lparr>va_authorization = vg_authorization verified, va_signer_key_id = vg_signer_key_id verified,
      va_grant_digest = vg_grant_digest verified, va_signed_grant = bs\<rparr>"

definition gateway_verify_grant ::
    "crypto \<Rightarrow> bytes \<Rightarrow> AuthorizationTrust \<Rightarrow> (GatewayError, VerifiedAuthorization) result" where
  "gateway_verify_grant C bs trust =
     map_err map_authorization_error
       (rbind (verify_authorization_grant C bs trust) (\<lambda>verified. Inr (retain_verified_grant verified bs)))"

definition gateway_sign_grant ::
    "crypto \<Rightarrow> ExactAuthorization \<Rightarrow> bytes \<Rightarrow> string \<Rightarrow> (GatewayError, bytes) result" where
  "gateway_sign_grant C a seed key_id =
     map_err map_authorization_error (sign_authorization_grant C a seed key_id)"

record AuthorizedRequest =
  aq_request :: ValidatedRequest
  aq_authorization :: VerifiedAuthorization

definition authorization_matches :: "ExactAuthorization \<Rightarrow> ValidatedRequest \<Rightarrow> bool" where
  "authorization_matches a r \<longleftrightarrow>
     ea_operation_id a = vr_operation_id r \<and> ea_namespace a = vr_namespace r \<and>
     ea_deployment a = vr_deployment r \<and> ea_container a = vr_container r \<and>
     ea_immutable_image_digest a = vr_immutable_image r"

definition authorized_request_bind ::
    "ValidatedRequest \<Rightarrow> VerifiedAuthorization \<Rightarrow> (GatewayError, AuthorizedRequest) result" where
  "authorized_request_bind request authorization =
     (if \<not> authorization_matches (va_authorization authorization) request
      then Inl AuthorizationMismatch
      else Inr \<lparr>aq_request = request, aq_authorization = authorization\<rparr>)"

lemma authorized_request_bind_iff:
  "authorized_request_bind r v = Inr q \<longleftrightarrow>
    authorization_matches (va_authorization v) r \<and> q = \<lparr>aq_request = r, aq_authorization = v\<rparr>"
  by (auto simp: authorized_request_bind_def)

end
