(* ===== verification/GitFacts.thy ===== *)
theory GitFacts
  imports GitGrant Requests
begin

text \<open>
  What the gateway reads from Git, \<open>src/gateway/git.rs\<close>: the per-ref acknowledgement of a push, the
  present ref, the local configuration of a repository, and the classification of their text.
  The \<open>git\<close> executable is outside the repository; its output is the argument of these functions.
\<close>

section \<open>Acknowledgements and observations\<close>

datatype Acknowledgement = Updated | RejectedBeforeSend | ReceiverRejected | AckUnknown

fun ack_as_str :: "Acknowledgement \<Rightarrow> string" where
  "ack_as_str Updated = ''updated''"
| "ack_as_str RejectedBeforeSend = ''rejected_before_send''"
| "ack_as_str ReceiverRejected = ''receiver_rejected''"
| "ack_as_str AckUnknown = ''unknown''"

definition ack_parse :: "string \<Rightarrow> Acknowledgement option" where
  "ack_parse val =
     (if val = ''updated'' then Some Updated
      else if val = ''rejected_before_send'' then Some RejectedBeforeSend
      else if val = ''receiver_rejected'' then Some ReceiverRejected
      else if val = ''unknown'' then Some AckUnknown
      else None)"

datatype ObservedRef = Commit string | Missing | RefUnknown

datatype GitError = Custody | Configuration | Unavailable | InvalidApproval | InvalidObjects | StaleRef

definition newline :: char where
  "newline = CHR 0x0A"

definition tab :: char where
  "tab = CHR 0x09"

definition fast_forward_summary :: "string \<Rightarrow> GitRefAuthorization \<Rightarrow> bool" where
  "fast_forward_summary summary approval =
     (case split_once ''..'' summary of
        None \<Rightarrow> False
      | Some (old, new) \<Rightarrow> 4 \<le> length old \<and> length old \<le> 40 \<and> 4 \<le> length new \<and> length new \<le> 40 \<and>
          starts_with (ga_old_commit approval) old \<and> starts_with (ga_new_commit approval) new)"

definition acknowledgement :: "bytes \<Rightarrow> bool \<Rightarrow> GitRefAuthorization \<Rightarrow> Acknowledgement" where
  "acknowledgement bs command_succeeded approval =
     (case from_utf8 bs of
        None \<Rightarrow> AckUnknown
      | Some text \<Rightarrow>
          (case split_on newline text of
             header # ref_status # lines \<Rightarrow>
               if \<not> starts_with header ''To '' \<or> lines \<noteq> [''Done'', []] then AckUnknown
               else
                 let expected_refspec = ga_new_commit approval @ '':'' @ APPROVED_GIT_REF;
                     fields = split_on tab ref_status in
                 if length fields \<noteq> 3 \<or> fields ! 1 \<noteq> expected_refspec then AckUnknown
                 else
                   let flag = fields ! 0; summary = fields ! 2 in
                   if flag = '' '' \<and> command_succeeded \<and> fast_forward_summary summary approval then Updated
                   else if flag = ''!'' \<and> \<not> command_succeeded \<and> starts_with summary ''[rejected] (''
                     \<and> ends_with summary '')'' then RejectedBeforeSend
                   else if flag = ''!'' \<and> \<not> command_succeeded \<and> starts_with summary ''[remote rejected] (''
                     \<and> ends_with summary '')'' then ReceiverRejected
                   else AckUnknown
           | _ \<Rightarrow> AckUnknown))"

definition strip_newline :: "string \<Rightarrow> string option" where
  "strip_newline text = (if ends_with text [newline] then Some (butlast text) else None)"

definition observed_ref :: "bytes \<Rightarrow> ObservedRef" where
  "observed_ref bs =
     (if bs = [] then Missing
      else case from_utf8 bs of
        None \<Rightarrow> RefUnknown
      | Some text \<Rightarrow>
          (case strip_newline text of
             None \<Rightarrow> RefUnknown
           | Some line \<Rightarrow>
               let fields = split_on tab line in
               if length fields = 4 \<and> fields ! 0 = APPROVED_GIT_REF \<and> git_commit_id_is_valid (fields ! 1)
                  \<and> fields ! 2 = ''commit'' \<and> fields ! 3 = []
               then Commit (fields ! 1) else RefUnknown))"

section \<open>The local configuration of a repository\<close>

record ConfigFacts =
  cf_is_bare :: bool
  cf_repository_identity_matches :: bool
  cf_denies_deletes :: bool
  cf_denies_non_fast_forwards :: bool
  cf_names :: "bytes list"

definition config_entry :: "string \<Rightarrow> bytes \<Rightarrow> ConfigFacts \<Rightarrow> (GitError, ConfigFacts) result" where
  "config_entry repository_id entry facts =
     (case split_once [10] entry of
        None \<Rightarrow> Inl Configuration
      | Some (name, val) \<Rightarrow>
          if name \<in> set (cf_names facts) then Inl Configuration
          else
            let facts = facts\<lparr>cf_names := name # cf_names facts\<rparr> in
            if (name = as_bytes ''core.repositoryformatversion'' \<and> val = as_bytes ''0'')
               \<or> (name = as_bytes ''core.filemode'' \<and> val = as_bytes ''true'')
               \<or> (name \<in> {as_bytes ''core.logallrefupdates'', as_bytes ''core.ignorecase'',
                    as_bytes ''core.precomposeunicode''} \<and> val \<in> {as_bytes ''true'', as_bytes ''false''})
            then Inr facts
            else if name = as_bytes ''core.bare'' \<and> val = as_bytes ''true''
            then Inr (facts\<lparr>cf_is_bare := True\<rparr>)
            else if name = as_bytes ''receive.denydeletes'' \<and> val = as_bytes ''true''
            then Inr (facts\<lparr>cf_denies_deletes := True\<rparr>)
            else if name = as_bytes ''receive.denynonfastforwards'' \<and> val = as_bytes ''true''
            then Inr (facts\<lparr>cf_denies_non_fast_forwards := True\<rparr>)
            else if name = as_bytes ''kapsel.repositoryid'' \<and> val = as_bytes repository_id
            then Inr (facts\<lparr>cf_repository_identity_matches := True\<rparr>)
            else Inl Configuration)"

definition configuration_listed :: "string \<Rightarrow> bool \<Rightarrow> bytes \<Rightarrow> (GitError, unit) result" where
  "configuration_listed repository_id is_receiver stdout =
     rbind (try_fold (config_entry repository_id) (filter (\<lambda>entry. entry \<noteq> []) (split_on 0 stdout))
       \<lparr>cf_is_bare = False, cf_repository_identity_matches = False, cf_denies_deletes = False,
        cf_denies_non_fast_forwards = False, cf_names = []\<rparr>) (\<lambda>facts.
     let receiver_configuration_complete =
       cf_repository_identity_matches facts \<and> cf_denies_deletes facts \<and> cf_denies_non_fast_forwards facts in
     if \<not> cf_is_bare facts \<or> (is_receiver \<and> \<not> receiver_configuration_complete)
     then Inl Configuration else Inr ())"

section \<open>Splitting and joining\<close>

fun join :: "'a \<Rightarrow> 'a list list \<Rightarrow> 'a list" where
  "join c [] = []"
| "join c [s] = s"
| "join c (s # ss) = s @ c # join c ss"

lemma split_on_iff: "split_on c xs = segs \<longleftrightarrow> segs \<noteq> [] \<and> xs = join c segs \<and> list_all (\<lambda>s. c \<notin> set s) segs"
proof
  assume "split_on c xs = segs"
  then show "segs \<noteq> [] \<and> xs = join c segs \<and> list_all (\<lambda>s. c \<notin> set s) segs"
  proof (induction xs arbitrary: segs)
    case (Cons x xs)
    obtain s ss where split: "split_on c xs = s # ss" by (cases "split_on c xs") auto
    have "segs = (if x = c then [] # s # ss else (x # s) # ss)"
      using Cons.prems split by (simp split: if_splits)
    moreover note Cons.IH [OF split]
    ultimately show ?case by (cases ss) auto
  qed auto
next
  assume "segs \<noteq> [] \<and> xs = join c segs \<and> list_all (\<lambda>s. c \<notin> set s) segs"
  then show "split_on c xs = segs"
  proof (induction c segs arbitrary: xs rule: join.induct)
    case (3 c s v va)
    then show ?case by (simp add: split_on_append_sep)
  qed (simp_all add: split_on_no_sep)
qed

lemma split_on_3: "length (split_on c xs) = 3 \<longleftrightarrow> (\<exists>a b d. split_on c xs = [a, b, d])"
  by (auto simp: numeral_eq_Suc length_Suc_conv)

lemma split_on_4: "length (split_on c xs) = 4 \<longleftrightarrow> (\<exists>a b d e. split_on c xs = [a, b, d, e])"
  by (auto simp: numeral_eq_Suc length_Suc_conv)

lemma ack_parse_iff: "ack_parse v = Some a \<longleftrightarrow> v = ack_as_str a"
  by (cases a) (auto simp: ack_parse_def)

section \<open>What the classifications mean\<close>

text \<open>The text of a push report for one ref.\<close>

definition push_report :: "string \<Rightarrow> string \<Rightarrow> GitRefAuthorization \<Rightarrow> string \<Rightarrow> string" where
  "push_report url flag approval summary =
     ''To '' @ url @ newline # flag @ tab # ga_new_commit approval @ '':'' @ APPROVED_GIT_REF @ tab # summary @
     newline # ''Done'' @ [newline]"

definition plain :: "string \<Rightarrow> bool" where
  "plain s \<longleftrightarrow> newline \<notin> set s \<and> tab \<notin> set s"

lemma plain_simps [simp]: "plain []" "plain (c # s) \<longleftrightarrow> c \<noteq> newline \<and> c \<noteq> tab \<and> plain s"
  "plain (a @ b) \<longleftrightarrow> plain a \<and> plain b"
  by (auto simp: plain_def)

lemma commit_plain: "git_commit_id_is_valid c \<Longrightarrow> plain c"
proof -
  assume "git_commit_id_is_valid c"
  then have b: "\<forall>b \<in> set (as_bytes c). is_ascii_digit b \<or> (97 \<le> b \<and> b \<le> 102)"
    by (simp add: git_commit_id_is_valid_def list_all_iff)
  have "of_char ch \<in> set (as_bytes c)" if "ch \<in> set c" for ch
    using that by (simp add: as_bytes_def)
  moreover have "\<not> is_ascii_digit (of_char newline) \<and> \<not> 97 \<le> (of_char newline :: byte)"
    "\<not> is_ascii_digit (of_char tab) \<and> \<not> 97 \<le> (of_char tab :: byte)" by code_simp+
  ultimately show ?thesis using b unfolding plain_def by blast
qed

lemma ref_plain [simp]: "plain APPROVED_GIT_REF"
  by code_simp

definition ref_verdict :: "string \<Rightarrow> string \<Rightarrow> bool \<Rightarrow> GitRefAuthorization \<Rightarrow> Acknowledgement" where
  "ref_verdict flag summary ok approval =
     (if flag = '' '' \<and> ok \<and> fast_forward_summary summary approval then Updated
      else if flag = ''!'' \<and> \<not> ok \<and> starts_with summary ''[rejected] ('' \<and> ends_with summary '')''
      then RejectedBeforeSend
      else if flag = ''!'' \<and> \<not> ok \<and> starts_with summary ''[remote rejected] ('' \<and> ends_with summary '')''
      then ReceiverRejected
      else AckUnknown)"

definition one_ref_report :: "bytes \<Rightarrow> GitRefAuthorization \<Rightarrow> string \<Rightarrow> string \<Rightarrow> bool" where
  "one_ref_report bs approval flag summary \<longleftrightarrow> utf8_valid bs \<and> plain flag \<and> plain summary \<and>
     (\<exists>url. newline \<notin> set url \<and> bs = as_bytes (push_report url flag approval summary))"

lemma tab_not_newline [simp]: "tab \<noteq> newline" "newline \<noteq> tab"
  by (simp_all add: tab_def newline_def)

lemma Done_plain [simp]: "newline \<notin> set ''Done''" "newline \<notin> set ''To ''" "newline \<noteq> CHR '':''" "tab \<noteq> CHR '':''"
  by (simp_all add: newline_def tab_def)

lemma report_lines:
  assumes "plain (ga_new_commit approval)"
  shows "(\<exists>header ref_status url flag summary. split_on newline text = [header, ref_status, ''Done'', []] \<and>
      header = ''To '' @ url \<and> split_on tab ref_status = [flag, ga_new_commit approval @ '':'' @ APPROVED_GIT_REF, summary] \<and>
      v = ref_verdict flag summary ok approval) \<longleftrightarrow>
    (\<exists>url flag summary. newline \<notin> set url \<and> plain flag \<and> plain summary \<and>
      text = push_report url flag approval summary \<and> v = ref_verdict flag summary ok approval)"
proof -
  let ?spec = "ga_new_commit approval @ '':'' @ APPROVED_GIT_REF"
  have row: "split_on tab rs = [flag, ?spec, summary] \<longleftrightarrow>
      rs = flag @ tab # ?spec @ tab # summary \<and> tab \<notin> set flag \<and> tab \<notin> set summary" for rs flag summary
    using assms ref_plain by (auto simp: split_on_iff plain_def)
  have report: "split_on newline text = [''To '' @ url, flag @ tab # ?spec @ tab # summary, ''Done'', []] \<longleftrightarrow>
      newline \<notin> set url \<and> newline \<notin> set flag \<and> newline \<notin> set summary \<and> text = push_report url flag approval summary"
    for url flag summary
    using assms ref_plain by (auto simp: split_on_iff plain_def push_report_def newline_def tab_def)
  show ?thesis unfolding row using report unfolding plain_def by blast
qed

lemma acknowledgement_verdict:
  "acknowledgement bs ok approval = (case from_utf8 bs of None \<Rightarrow> AckUnknown | Some text \<Rightarrow>
     (case split_on newline text of
        header # ref_status # lines \<Rightarrow>
          (case split_on tab ref_status of
             [flag, spec, summary] \<Rightarrow>
               if starts_with header ''To '' \<and> lines = [''Done'', []] \<and> spec = ga_new_commit approval @ '':'' @ APPROVED_GIT_REF
               then ref_verdict flag summary ok approval else AckUnknown
           | _ \<Rightarrow> AckUnknown)
      | _ \<Rightarrow> AckUnknown))"
  unfolding acknowledgement_def Let_def ref_verdict_def [symmetric]
  by (auto split: option.splits list.splits simp del: append.simps)

lemma acknowledgement_iff:
  assumes "plain (ga_new_commit approval)" "v \<noteq> AckUnknown"
  shows "acknowledgement bs ok approval = v \<longleftrightarrow>
    (\<exists>flag summary. one_ref_report bs approval flag summary \<and> v = ref_verdict flag summary ok approval)"
proof -
  have "acknowledgement bs ok approval = v \<longleftrightarrow> (\<exists>text. from_utf8 bs = Some text \<and>
    (\<exists>header ref_status url flag summary. split_on newline text = [header, ref_status, ''Done'', []] \<and>
      header = ''To '' @ url \<and> split_on tab ref_status = [flag, ga_new_commit approval @ '':'' @ APPROVED_GIT_REF, summary] \<and>
      v = ref_verdict flag summary ok approval))" (is "?l \<longleftrightarrow> ?r")
  proof
    assume ?l
    then show ?r using assms(2)
      unfolding acknowledgement_verdict starts_with_iff by (auto split: option.splits list.splits if_splits)
  next
    assume ?r
    then show ?l unfolding acknowledgement_verdict starts_with_iff by auto
  qed
  also have "\<dots> \<longleftrightarrow> (\<exists>flag summary. one_ref_report bs approval flag summary \<and> v = ref_verdict flag summary ok approval)"
    unfolding report_lines [OF assms(1)] from_utf8_eq_Some one_ref_report_def by blast
  finally show ?thesis .
qed

lemma split_once_dots: "CHR ''.'' \<notin> set a \<Longrightarrow> split_once ''..'' (a @ ''..'' @ b) = Some (a, b)"
  by (induction a) (auto simp: starts_with_def)

lemma commit_no_dot: "git_commit_id_is_valid c \<Longrightarrow> CHR ''.'' \<notin> set c"
proof
  assume "git_commit_id_is_valid c" "CHR ''.'' \<in> set c"
  then have "is_ascii_digit (of_char (CHR ''.'')) \<or> 97 \<le> (of_char (CHR ''.'') :: byte)"
    by (force simp: git_commit_id_is_valid_def list_all_iff as_bytes_def)
  moreover have "\<not> (is_ascii_digit (of_char (CHR ''.'')) \<or> 97 \<le> (of_char (CHR ''.'') :: byte))" by code_simp
  ultimately show False by blast
qed

lemma fast_forward_summary_iff:
  assumes "git_commit_id_is_valid (ga_old_commit approval)"
  shows "fast_forward_summary summary approval \<longleftrightarrow>
    (\<exists>old new. summary = old @ ''..'' @ new \<and> length old \<in> {4..40} \<and> length new \<in> {4..40} \<and>
      starts_with (ga_old_commit approval) old \<and> starts_with (ga_new_commit approval) new)"
proof -
  have "CHR ''.'' \<notin> set old" if "starts_with (ga_old_commit approval) old" for old
    using that commit_no_dot [OF assms] by (auto simp: starts_with_iff)
  then have s: "split_once ''..'' (old @ ''..'' @ new) = Some (old, new)"
    if "starts_with (ga_old_commit approval) old" for old new
    using that split_once_dots by blast
  show ?thesis
  proof
    assume "fast_forward_summary summary approval"
    then obtain old new where "split_once ''..'' summary = Some (old, new)"
      "length old \<in> {4..40}" "length new \<in> {4..40}"
      "starts_with (ga_old_commit approval) old" "starts_with (ga_new_commit approval) new"
      by (auto simp: fast_forward_summary_def split: option.splits)
    then show "\<exists>old new. summary = old @ ''..'' @ new \<and> length old \<in> {4..40} \<and> length new \<in> {4..40} \<and>
      starts_with (ga_old_commit approval) old \<and> starts_with (ga_new_commit approval) new"
      using split_once_eq_Some by blast
  qed (auto simp: fast_forward_summary_def s simp del: append_Cons)
qed

lemma observed_ref_Commit_text:
  assumes "git_commit_id_is_valid c"
  shows "is_ascii (as_bytes (APPROVED_GIT_REF @ tab # c @ tab # ''commit'' @ [tab, newline]))"
proof -
  have "is_ascii (as_bytes APPROVED_GIT_REF)" "is_ascii (as_bytes ([tab] @ ''commit'' @ [tab, newline]))" "is_ascii (as_bytes [tab])"
    by code_simp+
  moreover have "is_ascii (as_bytes c)" using git_commit_ascii [OF assms] by (simp add: ascii_text_def text_is_ascii_def)
  ultimately show ?thesis by (simp add: is_ascii_def as_bytes_def)
qed

lemma strip_newline_iff: "strip_newline s = Some line \<longleftrightarrow> s = line @ [newline]"
proof (cases s rule: rev_cases)
  case (snoc ys y)
  then show ?thesis by (auto simp: strip_newline_def ends_with_def)
qed (simp add: strip_newline_def ends_with_def)

lemma observed_ref_Commit:
  "observed_ref bs = Commit c \<longleftrightarrow> git_commit_id_is_valid c \<and>
    bs = as_bytes (APPROVED_GIT_REF @ tab # c @ tab # ''commit'' @ [tab, newline])"
proof -
  have row: "split_on tab line = [APPROVED_GIT_REF, c, ''commit'', []] \<longleftrightarrow>
      line = APPROVED_GIT_REF @ tab # c @ tab # ''commit'' @ [tab] \<and> tab \<notin> set c" for line
    using ref_plain by (auto simp: split_on_iff plain_def tab_def)
  have "observed_ref bs = Commit c \<longleftrightarrow> (\<exists>text line. bs \<noteq> [] \<and> from_utf8 bs = Some text \<and> text = line @ [newline] \<and>
      split_on tab line = [APPROVED_GIT_REF, c, ''commit'', []] \<and> git_commit_id_is_valid c)"
    unfolding strip_newline_iff [symmetric]
    by (auto simp: observed_ref_def Let_def split_on_4 split: option.splits)
  also have "\<dots> \<longleftrightarrow> git_commit_id_is_valid c \<and>
    bs = as_bytes (APPROVED_GIT_REF @ tab # c @ tab # ''commit'' @ [tab, newline])"
    unfolding row using commit_plain [of c] ascii_utf8_valid [OF observed_ref_Commit_text [of c]]
    by (auto simp: from_utf8_eq_Some plain_def)
  finally show ?thesis .
qed

section \<open>Properties\<close>

text \<open>
  C21. A push is acknowledged as an update exactly on one report: the command succeeded and its
  output is the porcelain report of one ref, naming the approved commit and branch, flagged as a
  fast-forward from a prefix of the approved old commit to a prefix of the approved new one. A
  failed command never acknowledges an update, and a rejection is only read from a failed command.
\<close>

theorem push_acknowledged_iff:
  assumes "git_authorization_is_valid approval"
  shows "(acknowledgement bs ok approval = Updated \<longleftrightarrow> ok \<and>
      (\<exists>old new. one_ref_report bs approval '' '' (old @ ''..'' @ new) \<and> length old \<in> {4..40} \<and> length new \<in> {4..40} \<and>
        starts_with (ga_old_commit approval) old \<and> starts_with (ga_new_commit approval) new)) \<and>
    (acknowledgement bs ok approval \<in> {RejectedBeforeSend, ReceiverRejected} \<longleftrightarrow> \<not> ok \<and>
      (\<exists>summary. one_ref_report bs approval ''!'' summary \<and> ends_with summary '')'' \<and>
        (starts_with summary ''[rejected] ('' \<or> starts_with summary ''[remote rejected] ('')))"
proof -
  have pl: "plain (ga_new_commit approval)" and old: "git_commit_id_is_valid (ga_old_commit approval)"
    using assms commit_plain by (auto simp: git_authorization_is_valid_def)
  have upd: "Updated = ref_verdict flag summary ok approval \<longleftrightarrow> flag = '' '' \<and> ok \<and> fast_forward_summary summary approval"
    and rej: "ref_verdict flag summary ok approval \<in> {RejectedBeforeSend, ReceiverRejected} \<longleftrightarrow>
      flag = ''!'' \<and> \<not> ok \<and> ends_with summary '')'' \<and>
        (starts_with summary ''[rejected] ('' \<or> starts_with summary ''[remote rejected] ('')" for flag summary
    by (auto simp: ref_verdict_def)
  have "acknowledgement bs ok approval \<in> {RejectedBeforeSend, ReceiverRejected} \<longleftrightarrow>
      (\<exists>flag summary. one_ref_report bs approval flag summary \<and>
        ref_verdict flag summary ok approval \<in> {RejectedBeforeSend, ReceiverRejected})"
    using acknowledgement_iff [OF pl, of RejectedBeforeSend bs ok] acknowledgement_iff [OF pl, of ReceiverRejected bs ok]
    by auto metis+
  then show ?thesis
    unfolding acknowledgement_iff [OF pl, of Updated, simplified] upd rej fast_forward_summary_iff [OF old] by blast
qed

definition example_report :: bytes where
  "example_report = as_bytes (push_report ''file:///r.git'' '' '' example_git_authorization
     (replicate 7 (CHR ''a'') @ ''..'' @ replicate 7 (CHR ''b'')))"

lemma example_report_updated: "acknowledgement example_report True example_git_authorization = Updated"
  by code_simp

theorem push_acknowledged_iff_witness:
  "acknowledgement example_report True example_git_authorization = Updated \<and>
   acknowledgement example_report False example_git_authorization \<noteq> Updated"
  using push_acknowledged_iff [OF example_git_authorization_valid, of example_report False] example_report_updated by blast

text \<open>
  The present ref is read exactly: a commit is reported only for the one line naming the
  approved branch, that commit and its type with no symbolic target, and the branch is missing
  only when Git printed nothing. Anything else is unknown.
\<close>

theorem observed_ref_exact:
  "(observed_ref bs = Commit c \<longleftrightarrow> git_commit_id_is_valid c \<and>
      bs = as_bytes (APPROVED_GIT_REF @ tab # c @ tab # ''commit'' @ [tab, newline])) \<and>
   (observed_ref bs = Missing \<longleftrightarrow> bs = [])"
  using observed_ref_Commit [of bs c] by (auto simp: observed_ref_def Let_def split: option.splits)

end
