(* ===== verification/Facts.thy ===== *)
theory Facts
  imports Requests
begin

text \<open>
  \<open>src/gateway/kubernetes/facts.rs\<close>: the bounded facts read from the receiver, their
  validation, and the classification of one observation. The classifier is pure: it names
  success or failure only when the observed object is the attempted one, carries this
  operation's marker and image, and has reached the requested generation.
\<close>

definition KUBERNETES_FACT_BYTES_MAX :: nat where
  "KUBERNETES_FACT_BYTES_MAX = 128"

definition validate_required_fact :: "string \<Rightarrow> (GatewayError, unit) result" where
  "validate_required_fact value =
     (if value = [] \<or> length value > KUBERNETES_FACT_BYTES_MAX \<or> \<not> text_is_ascii value
      then Inl InvalidKubernetesFact else Inr ())"

definition validate_optional_fact :: "string option \<Rightarrow> (GatewayError, unit) result" where
  "validate_optional_fact value =
     (if (case value of None \<Rightarrow> False
          | Some v \<Rightarrow> v = [] \<or> length v > KUBERNETES_FACT_BYTES_MAX \<or> \<not> text_is_ascii v)
      then Inl InvalidKubernetesFact else Inr ())"

lemma validate_required_fact_iff [simp]: "validate_required_fact v = Inr u \<longleftrightarrow> ascii_text 128 v"
  by (auto simp: validate_required_fact_def ascii_text_def KUBERNETES_FACT_BYTES_MAX_def)

lemma validate_optional_fact_iff [simp]:
  "validate_optional_fact v = Inr u \<longleftrightarrow> pred_option (ascii_text 128) v"
  by (auto simp: validate_optional_fact_def ascii_text_def KUBERNETES_FACT_BYTES_MAX_def
      split: option.splits)

section \<open>Target identity and apply outcome\<close>

record TargetIdentity =
  ti_deployment_uid :: string
  ti_resource_version :: string

definition target_validate :: "TargetIdentity \<Rightarrow> (GatewayError, unit) result" where
  "target_validate t =
     rbind (validate_required_fact (ti_deployment_uid t)) (\<lambda>_.
     validate_required_fact (ti_resource_version t))"

record ValidatedTargetIdentity =
  vt_deployment_uid :: string
  vt_resource_version :: string

definition validated_target_try_from :: "TargetIdentity \<Rightarrow> (GatewayError, ValidatedTargetIdentity) result" where
  "validated_target_try_from target =
     rbind (target_validate target) (\<lambda>_.
     Inr \<lparr>vt_deployment_uid = ti_deployment_uid target, vt_resource_version = ti_resource_version target\<rparr>)"

definition to_adapter_target :: "ValidatedTargetIdentity \<Rightarrow> TargetIdentity" where
  "to_adapter_target t =
     \<lparr>ti_deployment_uid = vt_deployment_uid t, ti_resource_version = vt_resource_version t\<rparr>"

definition target_valid :: "ValidatedTargetIdentity \<Rightarrow> bool" where
  "target_valid t \<longleftrightarrow> ascii_text 128 (vt_deployment_uid t) \<and> ascii_text 128 (vt_resource_version t)"

lemma validated_target_iff:
  "validated_target_try_from q = Inr t \<longleftrightarrow> q = to_adapter_target t \<and> target_valid t"
  by (cases q; cases t) (auto simp: validated_target_try_from_def target_validate_def result_simps
      to_adapter_target_def target_valid_def)

lemma validated_target_adapter [simp]:
  "target_valid t \<Longrightarrow> validated_target_try_from (to_adapter_target t) = Inr t"
  by (simp add: validated_target_iff)

record ApplyOutcome =
  ao_accepted :: bool
  ao_requested_generation :: "i64 option"
  ao_deployment_uid :: "string option"
  ao_resource_version :: "string option"

definition apply_outcome_validate :: "ApplyOutcome \<Rightarrow> (GatewayError, unit) result" where
  "apply_outcome_validate ao =
     rbind (validate_optional_fact (ao_deployment_uid ao)) (\<lambda>_.
     rbind (validate_optional_fact (ao_resource_version ao)) (\<lambda>_.
     if (case ao_requested_generation ao of None \<Rightarrow> False | Some v \<Rightarrow> sint v < 0)
     then Inl InvalidKubernetesFact else Inr ()))"

section \<open>Receiver observations\<close>

record ReceiverObservation =
  ro_deployment_uid :: "string option"
  ro_resource_version :: "string option"
  ro_current_generation :: "i64 option"
  ro_observed_generation :: "i64 option"
  ro_image :: "string option"
  ro_operation_marker :: "string option"
  ro_desired_replicas :: "i32 option"
  ro_updated_replicas :: "i32 option"
  ro_available_replicas :: "i32 option"
  ro_unavailable_replicas :: "i32 option"
  ro_rollout_condition_type :: "string option"
  ro_rollout_condition_status :: "string option"
  ro_rollout_condition_reason :: "string option"

definition unknown :: ReceiverObservation where
  "unknown = \<lparr>ro_deployment_uid = None, ro_resource_version = None, ro_current_generation = None,
     ro_observed_generation = None, ro_image = None, ro_operation_marker = None,
     ro_desired_replicas = None, ro_updated_replicas = None, ro_available_replicas = None,
     ro_unavailable_replicas = None, ro_rollout_condition_type = None,
     ro_rollout_condition_status = None, ro_rollout_condition_reason = None\<rparr>"

definition some_negative :: "'a::len word option \<Rightarrow> bool" where
  "some_negative v = (case v of None \<Rightarrow> False | Some w \<Rightarrow> sint w < 0)"

definition observation_validate :: "ReceiverObservation \<Rightarrow> (GatewayError, unit) result" where
  "observation_validate ob =
     rbind (validate_optional_fact (ro_deployment_uid ob)) (\<lambda>_.
     rbind (validate_optional_fact (ro_resource_version ob)) (\<lambda>_.
     rbind (validate_optional_fact (ro_operation_marker ob)) (\<lambda>_.
     rbind (validate_optional_fact (ro_rollout_condition_type ob)) (\<lambda>_.
     rbind (validate_optional_fact (ro_rollout_condition_status ob)) (\<lambda>_.
     rbind (validate_optional_fact (ro_rollout_condition_reason ob)) (\<lambda>_.
     let condition_type_present = ro_rollout_condition_type ob \<noteq> None;
         condition_status_present = ro_rollout_condition_status ob \<noteq> None;
         condition_reason_present = ro_rollout_condition_reason ob \<noteq> None
     in if condition_type_present \<noteq> condition_status_present
           \<or> (\<not> condition_type_present \<and> condition_reason_present)
        then Inl InvalidKubernetesFact
        else if some_negative (ro_current_generation ob) \<or> some_negative (ro_observed_generation ob)
           \<or> list_ex some_negative [ro_desired_replicas ob, ro_updated_replicas ob,
                ro_available_replicas ob, ro_unavailable_replicas ob]
        then Inl InvalidKubernetesFact
        else (case ro_image ob of
            None \<Rightarrow> Inr ()
          | Some img \<Rightarrow> map_err (\<lambda>_. InvalidKubernetesFact) (validate_immutable_image img))))))))"

lemma not_some_negative [simp]: "\<not> some_negative v \<longleftrightarrow> pred_option (\<lambda>w. 0 \<le> sint w) v"
  by (simp add: some_negative_def not_less split: option.splits)

lemma apply_outcome_validate_iff: "apply_outcome_validate ao = Inr u \<longleftrightarrow>
    pred_option (ascii_text 128) (ao_deployment_uid ao) \<and>
    pred_option (ascii_text 128) (ao_resource_version ao) \<and>
    pred_option (\<lambda>w. 0 \<le> sint w) (ao_requested_generation ao)"
  by (auto simp: apply_outcome_validate_def result_simps not_less split: option.splits if_splits)

lemma observation_validate_iff: "observation_validate ob = Inr u \<longleftrightarrow>
    list_all (pred_option (ascii_text 128)) [ro_deployment_uid ob, ro_resource_version ob,
      ro_operation_marker ob, ro_rollout_condition_type ob, ro_rollout_condition_status ob,
      ro_rollout_condition_reason ob] \<and>
    (ro_rollout_condition_type ob = None \<longleftrightarrow> ro_rollout_condition_status ob = None) \<and>
    (ro_rollout_condition_type ob = None \<longrightarrow> ro_rollout_condition_reason ob = None) \<and>
    pred_option (\<lambda>w. 0 \<le> sint w) (ro_current_generation ob) \<and>
    pred_option (\<lambda>w. 0 \<le> sint w) (ro_observed_generation ob) \<and>
    list_all (pred_option (\<lambda>w. 0 \<le> sint w)) [ro_desired_replicas ob, ro_updated_replicas ob,
      ro_available_replicas ob, ro_unavailable_replicas ob] \<and>
    pred_option immutable_image_is_valid (ro_image ob)"
proof -
  have img: "(case ro_image ob of None \<Rightarrow> Inr ()
      | Some img \<Rightarrow> map_err (\<lambda>_. InvalidKubernetesFact) (validate_immutable_image img)) = Inr u
    \<longleftrightarrow> pred_option immutable_image_is_valid (ro_image ob)"
    by (simp split: option.splits)
  have ne: "\<And>P Q e (m :: (GatewayError, unit) result). (if P then Inl e else m) = Inr u \<longleftrightarrow> \<not> P \<and> m = Inr u"
    by simp
  show ?thesis
    unfolding observation_validate_def Let_def rbind_eq_Inr validate_optional_fact_iff ne img
    by (simp del: not_None_eq)
qed

section \<open>Classification\<close>

definition requested_generation_for ::
    "ReceiverObservation \<Rightarrow> string \<Rightarrow> string \<Rightarrow> ApplyOutcome \<Rightarrow> i64 option" where
  "requested_generation_for ob operation_id img outcome =
     (let operation_matches = ro_operation_marker ob = Some operation_id \<and> ro_image ob = Some img;
          receiver_uid_matches =
            ao_deployment_uid outcome \<noteq> None \<and> ro_deployment_uid ob = ao_deployment_uid outcome
      in case ao_requested_generation outcome of
           Some g \<Rightarrow> Some g
         | None \<Rightarrow> if operation_matches \<and> receiver_uid_matches then ro_current_generation ob else None)"

definition available_condition :: "ReceiverObservation \<Rightarrow> bool" where
  "available_condition ob \<longleftrightarrow>
     ro_rollout_condition_type ob = Some ''Available'' \<and> ro_rollout_condition_status ob = Some ''True''"

definition progress_deadline_exceeded :: "ReceiverObservation \<Rightarrow> bool" where
  "progress_deadline_exceeded ob \<longleftrightarrow>
     ro_rollout_condition_type ob = Some ''Progressing'' \<and>
     ro_rollout_condition_status ob = Some ''False'' \<and>
     ro_rollout_condition_reason ob = Some ''ProgressDeadlineExceeded''"

definition observation_result ::
    "ReceiverObservation \<Rightarrow> string \<Rightarrow> string \<Rightarrow> ApplyOutcome \<Rightarrow> OperationResult" where
  "observation_result ob operation_id img outcome =
     (let operation_matches = ro_operation_marker ob = Some operation_id \<and> ro_image ob = Some img;
          replica_counts_establish_availability =
            ro_desired_replicas ob \<noteq> None \<and> ro_updated_replicas ob = ro_desired_replicas ob
            \<and> ro_available_replicas ob = ro_desired_replicas ob \<and> ro_unavailable_replicas ob = Some 0;
          rollout_available = replica_counts_establish_availability \<and> available_condition ob;
          requested_generation = requested_generation_for ob operation_id img outcome;
          receiver_establishes_requested_generation =
            (case requested_generation of
               None \<Rightarrow> False
             | Some g \<Rightarrow> operation_matches \<and> ao_deployment_uid outcome \<noteq> None
                 \<and> ro_deployment_uid ob = ao_deployment_uid outcome
                 \<and> ro_current_generation ob = Some g
                 \<and> (case ro_observed_generation ob of None \<Rightarrow> False | Some observed \<Rightarrow> sint observed \<ge> sint g))
      in if receiver_establishes_requested_generation \<and> progress_deadline_exceeded ob then Failed
         else if receiver_establishes_requested_generation \<and> rollout_available then Succeeded
         else Unknown)"

definition requested_generation :: "ReceiverObservation \<Rightarrow> ValidatedRequest \<Rightarrow> ApplyOutcome \<Rightarrow> i64 option" where
  "requested_generation ob request outcome =
     requested_generation_for ob (vr_operation_id request) (vr_immutable_image request) outcome"

definition classify :: "ReceiverObservation \<Rightarrow> ValidatedRequest \<Rightarrow> ApplyOutcome \<Rightarrow> OperationResult" where
  "classify ob request outcome =
     observation_result ob (vr_operation_id request) (vr_immutable_image request) outcome"

definition observation_is_complete :: "ReceiverObservation \<Rightarrow> SetDeploymentImageRequest \<Rightarrow> ApplyOutcome \<Rightarrow> bool" where
  "observation_is_complete ob request outcome \<longleftrightarrow>
     observation_result ob (rq_operation_id request) (rq_immutable_image_digest request) outcome \<noteq> Unknown"

section \<open>What a classification means\<close>

text \<open>
  The receiver establishes generation \<open>g\<close>: it shows the attempted object, marked with this
  operation, running the approved image, at generation \<open>g\<close>, which its controller has seen.
\<close>

definition establishes :: "ReceiverObservation \<Rightarrow> ValidatedRequest \<Rightarrow> string \<Rightarrow> i64 \<Rightarrow> bool" where
  "establishes ob request uid g \<longleftrightarrow>
     ro_operation_marker ob = Some (vr_operation_id request) \<and>
     ro_image ob = Some (vr_immutable_image request) \<and> ro_deployment_uid ob = Some uid \<and>
     ro_current_generation ob = Some g \<and>
     (\<exists>observed. ro_observed_generation ob = Some observed \<and> sint g \<le> sint observed)"

definition all_replicas_available :: "ReceiverObservation \<Rightarrow> bool" where
  "all_replicas_available ob \<longleftrightarrow> (\<exists>n. ro_desired_replicas ob = Some n \<and> ro_updated_replicas ob = Some n \<and>
     ro_available_replicas ob = Some n \<and> ro_unavailable_replicas ob = Some 0)"

definition outcome_established :: "ReceiverObservation \<Rightarrow> ValidatedRequest \<Rightarrow> ApplyOutcome \<Rightarrow> bool" where
  "outcome_established ob request outcome \<longleftrightarrow> (\<exists>uid g. ao_deployment_uid outcome = Some uid \<and>
     ao_requested_generation outcome \<in> {None, Some g} \<and> establishes ob request uid g)"

lemma deadline_not_available: "progress_deadline_exceeded ob \<Longrightarrow> \<not> available_condition ob"
  by (simp add: progress_deadline_exceeded_def available_condition_def)

lemma classify_by_established: "classify ob request outcome =
    (if outcome_established ob request outcome \<and> progress_deadline_exceeded ob then Failed
     else if outcome_established ob request outcome \<and> all_replicas_available ob \<and> available_condition ob
     then Succeeded else Unknown)"
proof -
  have "(case requested_generation_for ob (vr_operation_id request) (vr_immutable_image request) outcome of
         None \<Rightarrow> False
       | Some g \<Rightarrow> (ro_operation_marker ob = Some (vr_operation_id request) \<and>
             ro_image ob = Some (vr_immutable_image request)) \<and> ao_deployment_uid outcome \<noteq> None
           \<and> ro_deployment_uid ob = ao_deployment_uid outcome \<and> ro_current_generation ob = Some g
           \<and> (case ro_observed_generation ob of None \<Rightarrow> False | Some observed \<Rightarrow> sint observed \<ge> sint g))
      \<longleftrightarrow> outcome_established ob request outcome"
    by (auto simp: requested_generation_for_def outcome_established_def establishes_def Let_def
        split: option.splits if_splits)
  moreover have "(ro_desired_replicas ob \<noteq> None \<and> ro_updated_replicas ob = ro_desired_replicas ob
      \<and> ro_available_replicas ob = ro_desired_replicas ob \<and> ro_unavailable_replicas ob = Some 0)
    \<longleftrightarrow> all_replicas_available ob"
    by (auto simp: all_replicas_available_def)
  ultimately show ?thesis
    unfolding classify_def observation_result_def Let_def by simp
qed

text \<open>
  The generation frozen beside an observation does not change the classification: classifying
  again with only the frozen generation and the attempted UID, as a receipt reader does, gives
  the frozen result.
\<close>

lemma established_frozen:
  assumes "ao_deployment_uid outcome = Some uid" "ao_deployment_uid frozen = Some uid"
    and gen: "ao_requested_generation frozen = requested_generation ob request outcome"
  shows "outcome_established ob request frozen \<longleftrightarrow> outcome_established ob request outcome"
proof (cases "ao_requested_generation outcome")
  case (Some g)
  with gen have "ao_requested_generation frozen = Some g"
    by (simp add: requested_generation_def requested_generation_for_def)
  with Some assms show ?thesis by (simp add: outcome_established_def)
next
  case None
  show ?thesis
  proof (cases "ro_operation_marker ob = Some (vr_operation_id request) \<and>
      ro_image ob = Some (vr_immutable_image request) \<and> ro_deployment_uid ob = Some uid")
    case True
    with None gen assms have "ao_requested_generation frozen = ro_current_generation ob"
      by (simp add: requested_generation_def requested_generation_for_def)
    with None assms show ?thesis
      by (auto simp: outcome_established_def establishes_def)
  next
    case False
    with assms show ?thesis by (auto simp: outcome_established_def establishes_def)
  qed
qed

lemma classify_frozen:
  assumes "ao_deployment_uid outcome = Some uid" "ao_deployment_uid frozen = Some uid"
    and "ao_requested_generation frozen = requested_generation ob request outcome"
  shows "classify ob request frozen = classify ob request outcome"
  unfolding classify_by_established established_frozen [OF assms] ..

lemma requested_generation_nonneg:
  assumes "observation_validate ob = Inr ()" "apply_outcome_validate outcome = Inr ()"
    and "requested_generation ob request outcome = Some g"
  shows "0 \<le> sint g"
  using assms
  by (auto simp: requested_generation_def requested_generation_for_def observation_validate_iff
      apply_outcome_validate_iff Let_def split: option.splits if_splits)

section \<open>Properties\<close>

text \<open>
  C15. The classifier names an outcome only on established facts. The result is \<open>Failed\<close> exactly
  when the observation establishes the requested generation of the attempted object (same UID,
  this operation's marker, the approved image, current generation equal and observed
  generation at least the requested one) and reports an exceeded progress deadline; it is
  \<open>Succeeded\<close> exactly when the same is established, the deadline was not exceeded, the
  Available condition is true and all desired replicas are updated and available; otherwise it
  is \<open>Unknown\<close>.
\<close>

theorem classify_characterised:
  "(classify ob request outcome = Failed \<longleftrightarrow>
      outcome_established ob request outcome \<and> progress_deadline_exceeded ob) \<and>
   (classify ob request outcome = Succeeded \<longleftrightarrow>
      outcome_established ob request outcome \<and> all_replicas_available ob \<and> available_condition ob)"
  using deadline_not_available by (auto simp: classify_by_established)

text \<open>
  Freezing an observation loses nothing the classifier used: classifying the frozen facts with
  only the frozen requested generation and the attempted UID, as a receipt reader does, gives
  the result that was frozen.
\<close>

theorem classification_survives_freezing:
  assumes "ao_deployment_uid outcome = Some uid"
  shows "classify ob request
      \<lparr>ao_accepted = False, ao_requested_generation = requested_generation ob request outcome,
       ao_deployment_uid = Some uid, ao_resource_version = version\<rparr> =
    classify ob request outcome"
  by (rule classify_frozen [OF assms]) simp_all

theorem classification_survives_freezing_witness:
  "classify (unknown\<lparr>ro_deployment_uid := Some ''u''\<rparr>)
      \<lparr>vr_operation_id = ''op'', vr_namespace = ''n'', vr_deployment = ''d'', vr_container = ''c'',
       vr_immutable_image = ''i''\<rparr>
      \<lparr>ao_accepted = False, ao_requested_generation = Some 3, ao_deployment_uid = Some ''u'',
       ao_resource_version = None\<rparr> = Unknown"
  using classification_survives_freezing [of "\<lparr>ao_accepted = True, ao_requested_generation = Some 3,
      ao_deployment_uid = Some ''u'', ao_resource_version = None\<rparr>" "''u''"
      "unknown\<lparr>ro_deployment_uid := Some ''u''\<rparr>"
      "\<lparr>vr_operation_id = ''op'', vr_namespace = ''n'', vr_deployment = ''d'', vr_container = ''c'',
       vr_immutable_image = ''i''\<rparr>" None]
  by (simp add: requested_generation_def requested_generation_for_def classify_def
      observation_result_def unknown_def)

end
