(* ===== verification/Receipt.thy ===== *)
theory Receipt
  imports Facts Trust
begin

text \<open>
  Signed effect receipts, \<open>src/gateway/receipt/mod.rs\<close>: the fixed-order statement codec, the
  validation that recomputes the result from the disclosed facts, the signed envelope, and the
  offline inspector. The module has its own copy of the record framing with its own error
  class; it interprets the framing contract too.
\<close>

section \<open>Constants and limits\<close>

definition STATEMENT_MAGIC :: bytes where
  "STATEMENT_MAGIC = as_bytes ''KAPSEL-KAP0038-K8S-STATEMENT-V2'' @ [0]"

definition RECEIPT_MAGIC :: bytes where
  "RECEIPT_MAGIC = as_bytes ''KAPSEL-KAP0038-K8S-RECEIPT-V2'' @ [0]"

definition R_SNAPSHOT_STATEMENT_MAGIC :: bytes where
  "R_SNAPSHOT_STATEMENT_MAGIC = as_bytes ''KAPSEL-KAP0038-K8S-STATEMENT-V3'' @ [0]"

definition SNAPSHOT_RECEIPT_MAGIC :: bytes where
  "SNAPSHOT_RECEIPT_MAGIC = as_bytes ''KAPSEL-KAP0038-K8S-RECEIPT-V3'' @ [0]"

definition R_SNAPSHOT_PURPOSE :: string where
  "R_SNAPSHOT_PURPOSE = ''kapsel.kap0038.kubernetes-effect-receipt.v3''"

definition PURPOSE :: string where
  "PURPOSE = ''kapsel.kap0038.kubernetes-effect-receipt.v2''"

definition NON_CLAIMS :: string where
  "NON_CLAIMS = ''no-exactly-once;no-causation;no-kubernetes-truth;'' @
     ''no-complete-capture;no-witnessing;not-production''"

definition RECEIPT_BYTES_MAX :: nat where
  "RECEIPT_BYTES_MAX = 16 * 1024"

definition STATEMENT_BYTES_MAX :: nat where
  "STATEMENT_BYTES_MAX = 8 * 1024"

definition TRUST_BYTES_MAX :: nat where
  "TRUST_BYTES_MAX = 1024"

definition TEXT_BYTES_MAX :: nat where
  "TEXT_BYTES_MAX = 512"

record InspectionLimits =
  il_receipt_bytes_max :: nat
  il_statement_bytes_max :: nat
  il_trust_bytes_max :: nat
  il_text_bytes_max :: nat

definition default_limits :: InspectionLimits where
  "default_limits = \<lparr>il_receipt_bytes_max = RECEIPT_BYTES_MAX,
     il_statement_bytes_max = STATEMENT_BYTES_MAX, il_trust_bytes_max = TRUST_BYTES_MAX,
     il_text_bytes_max = TEXT_BYTES_MAX\<rparr>"

definition limits_validate :: "InspectionLimits \<Rightarrow> (ReceiptError, unit) result" where
  "limits_validate l =
     (if il_receipt_bytes_max l = 0 \<or> il_receipt_bytes_max l > RECEIPT_BYTES_MAX
         \<or> il_statement_bytes_max l = 0 \<or> il_statement_bytes_max l > STATEMENT_BYTES_MAX
         \<or> il_trust_bytes_max l = 0 \<or> il_trust_bytes_max l > TRUST_BYTES_MAX
         \<or> il_text_bytes_max l = 0 \<or> il_text_bytes_max l > TEXT_BYTES_MAX
      then Inl LimitExceeded else Inr ())"

definition bounded :: "bytes \<Rightarrow> nat \<Rightarrow> (ReceiptError, unit) result" where
  "bounded input maximum_bytes = (if length input > maximum_bytes then Inl LimitExceeded else Inr ())"

section \<open>The record framing of receipts\<close>

definition rpush :: "bytes \<Rightarrow> byte \<Rightarrow> bytes \<Rightarrow> nat \<Rightarrow> (ReceiptError, bytes) result" where
  "rpush output tag val maximum_bytes =
     rbind (require (length val < 2 ^ 32) LimitExceeded) (\<lambda>_.
     let encoded_end = Option.bind (checked_add (length output) 5)
                         (\<lambda>header_end. checked_add header_end (length val))
     in if (case encoded_end of None \<Rightarrow> True | Some end_ \<Rightarrow> end_ > maximum_bytes)
        then Inl LimitExceeded
        else Inr (output @ [tag] @ be_bytes 4 (length val) @ val))"

definition validate_text :: "string \<Rightarrow> bool \<Rightarrow> (ReceiptError, unit) result" where
  "validate_text value allow_empty =
     (if (\<not> allow_empty \<and> value = []) \<or> length value > TEXT_BYTES_MAX \<or> \<not> text_is_ascii value
      then Inl InvalidValue else Inr ())"

definition push_text :: "bytes \<Rightarrow> byte \<Rightarrow> string \<Rightarrow> nat \<Rightarrow> (ReceiptError, bytes) result" where
  "push_text output tag value maximum_bytes =
     rbind (validate_text value False) (\<lambda>_. rpush output tag (as_bytes value) maximum_bytes)"

definition push_optional_text :: "bytes \<Rightarrow> byte \<Rightarrow> string option \<Rightarrow> nat \<Rightarrow> (ReceiptError, bytes) result" where
  "push_optional_text output tag value maximum_bytes =
     (case value of
        Some v \<Rightarrow> rbind (validate_text v False) (\<lambda>_. rpush output tag (as_bytes v) maximum_bytes)
      | None \<Rightarrow> rpush output tag [] maximum_bytes)"

definition push_i64 :: "bytes \<Rightarrow> byte \<Rightarrow> i64 option \<Rightarrow> nat \<Rightarrow> (ReceiptError, bytes) result" where
  "push_i64 output tag value maximum_bytes =
     rpush output tag (word_be (case value of None \<Rightarrow> - 1 | Some v \<Rightarrow> v)) maximum_bytes"

definition push_i32 :: "bytes \<Rightarrow> byte \<Rightarrow> i32 option \<Rightarrow> nat \<Rightarrow> (ReceiptError, bytes) result" where
  "push_i32 output tag value maximum_bytes =
     rpush output tag (word_be (case value of None \<Rightarrow> - 1 | Some v \<Rightarrow> v)) maximum_bytes"

record RRecords =
  rr_input :: bytes
  rr_offset :: nat
  rr_next_tag :: byte
  rr_maximum_text_bytes :: nat

definition rrecords_new :: "bytes \<Rightarrow> bytes \<Rightarrow> nat \<Rightarrow> (ReceiptError, RRecords) result" where
  "rrecords_new input magic maximum_text_bytes =
     (if \<not> starts_with input magic then Inl InvalidRecord
      else Inr \<lparr>rr_input = input, rr_offset = length magic, rr_next_tag = 1,
                rr_maximum_text_bytes = maximum_text_bytes\<rparr>)"

definition array :: "nat \<Rightarrow> bytes \<Rightarrow> (ReceiptError, bytes) result" where
  "array n input = (if length input = n then Inr input else Inl InvalidValue)"

definition rtake :: "byte \<Rightarrow> RRecords \<Rightarrow> (ReceiptError, bytes \<times> RRecords) result" where
  "rtake expected_tag r =
     (if expected_tag \<noteq> rr_next_tag r then Inl InvalidRecord
      else rbind (ok_or LimitExceeded (checked_add (rr_offset r) 5)) (\<lambda>header_end.
        if header_end > length (rr_input r) then Inl InvalidRecord
        else if rr_input r ! rr_offset r \<noteq> expected_tag then Inl InvalidRecord
        else rbind (array 4 (slice (rr_offset r + 1) header_end (rr_input r))) (\<lambda>header.
          rbind (ok_or LimitExceeded (checked_add header_end (from_be header))) (\<lambda>value_end.
            if value_end > length (rr_input r) then Inl InvalidRecord
            else rbind (ok_or InvalidRecord (next_tag_after (rr_next_tag r))) (\<lambda>t.
              Inr (slice header_end value_end (rr_input r),
                   r\<lparr>rr_offset := value_end, rr_next_tag := t\<rparr>))))))"

definition rtext :: "byte \<Rightarrow> RRecords \<Rightarrow> (ReceiptError, string \<times> RRecords) result" where
  "rtext expected_tag r =
     rbind (rtake expected_tag r) (\<lambda>(bs, r').
       if length bs > rr_maximum_text_bytes r then Inl LimitExceeded
       else if \<not> is_ascii bs then Inl InvalidValue
       else rbind (ok_or InvalidValue (from_utf8 bs)) (\<lambda>text. Inr (text, r')))"

definition rfinish :: "RRecords \<Rightarrow> (ReceiptError, unit) result" where
  "rfinish r = (if rr_offset r = length (rr_input r) then Inr () else Inl InvalidRecord)"

section \<open>Field decoders and validators\<close>

definition decode_generation :: "bytes \<Rightarrow> (ReceiptError, i64 option) result" where
  "decode_generation value =
     rbind (array 8 value) (\<lambda>a.
     let decoded = (word_from_be a :: i64) in
     if decoded = - 1 then Inr None
     else if sint decoded \<ge> 0 then Inr (Some decoded)
     else Inl InvalidValue)"

definition decode_replica_count :: "bytes \<Rightarrow> (ReceiptError, i32 option) result" where
  "decode_replica_count value =
     rbind (array 4 value) (\<lambda>a.
     let decoded = (word_from_be a :: i32) in
     if decoded = - 1 then Inr None
     else if sint decoded \<ge> 0 then Inr (Some decoded)
     else Inl InvalidValue)"

definition empty_as_none :: "string \<Rightarrow> string option" where
  "empty_as_none value = (if value = [] then None else Some value)"

fun as_receipt_bytes :: "OperationResult \<Rightarrow> bytes" where
  "as_receipt_bytes Succeeded = as_bytes ''SUCCEEDED''"
| "as_receipt_bytes Failed = as_bytes ''FAILED''"
| "as_receipt_bytes Unknown = as_bytes ''UNKNOWN''"

definition from_receipt_bytes :: "bytes \<Rightarrow> (ReceiptError, OperationResult) result" where
  "from_receipt_bytes value =
     (if value = as_bytes ''SUCCEEDED'' then Inr Succeeded
      else if value = as_bytes ''FAILED'' then Inr Failed
      else if value = as_bytes ''UNKNOWN'' then Inr Unknown
      else Inl InvalidValue)"

definition validate_key_id :: "string \<Rightarrow> (ReceiptError, unit) result" where
  "validate_key_id value = (if identity_is_valid value then Inr () else Inl InvalidValue)"

definition validate_digest :: "string \<Rightarrow> (ReceiptError, unit) result" where
  "validate_digest value =
     (if length value \<noteq> 64 \<or> \<not> list_all is_lowercase_hex (as_bytes value)
      then Inl InvalidValue else Inr ())"

definition validate_kubernetes_fact :: "string \<Rightarrow> (ReceiptError, unit) result" where
  "validate_kubernetes_fact value =
     (if value = [] \<or> length value > KUBERNETES_FACT_BYTES_MAX \<or> \<not> text_is_ascii value
      then Inl InvalidValue else Inr ())"

section \<open>Validation of a statement\<close>

definition receipt_request :: "ReceiptStatement \<Rightarrow> SetDeploymentImageRequest" where
  "receipt_request s =
     \<lparr>rq_operation_id = rs_operation_id s, rq_namespace = rs_namespace s,
      rq_deployment = rs_deployment s, rq_container = rs_container s,
      rq_immutable_image_digest = rs_immutable_image_digest s\<rparr>"

definition receipt_apply_outcome :: "ReceiptStatement \<Rightarrow> ApplyOutcome" where
  "receipt_apply_outcome s =
     \<lparr>ao_accepted = False, ao_requested_generation = rs_requested_generation s,
      ao_deployment_uid = Some (rs_target_uid s),
      ao_resource_version = Some (rs_target_resource_version s)\<rparr>"

definition receipt_observation :: "ReceiptStatement \<Rightarrow> ReceiverObservation" where
  "receipt_observation s =
     \<lparr>ro_deployment_uid = rs_receiver_uid s, ro_resource_version = rs_observed_resource_version s,
      ro_current_generation = rs_current_generation s,
      ro_observed_generation = rs_observed_generation s, ro_image = rs_observed_image s,
      ro_operation_marker = rs_observed_operation_marker s,
      ro_desired_replicas = rs_desired_replicas s, ro_updated_replicas = rs_updated_replicas s,
      ro_available_replicas = rs_available_replicas s,
      ro_unavailable_replicas = rs_unavailable_replicas s,
      ro_rollout_condition_type = rs_rollout_condition_type s,
      ro_rollout_condition_status = rs_rollout_condition_status s,
      ro_rollout_condition_reason = rs_rollout_condition_reason s\<rparr>"

definition receipt_validate :: "ReceiptStatement \<Rightarrow> (ReceiptError, unit) result" where
  "receipt_validate s =
     rbind (map_err (\<lambda>_. InvalidValue) (validate_identity IF_OperationId (rs_operation_id s))) (\<lambda>_.
     rbind (try_all (\<lambda>identity. map_err (\<lambda>_. InvalidValue) (validate_identity IF_AuthorizationId identity))
       [rs_authorization_id s, rs_authorization_signer_key_id s]) (\<lambda>_.
     rbind (validate_digest (rs_authorization_grant_digest s)) (\<lambda>_.
     if (case rs_approved_target s of
           None \<Rightarrow> False
         | Some target \<Rightarrow> \<not> approved_target_is_valid target \<or> at_uid target \<noteq> rs_target_uid s
             \<or> at_resource_version target \<noteq> rs_target_resource_version s)
     then Inl InvalidValue
     else
     rbind (map_err (\<lambda>_. InvalidValue) (validate_dns_label IF_Namespace (rs_namespace s))) (\<lambda>_.
     rbind (map_err (\<lambda>_. InvalidValue) (validate_dns_subdomain IF_Deployment (rs_deployment s))) (\<lambda>_.
     rbind (map_err (\<lambda>_. InvalidValue) (validate_dns_label IF_Container (rs_container s))) (\<lambda>_.
     rbind (map_err (\<lambda>_. InvalidValue) (validate_immutable_image (rs_immutable_image_digest s))) (\<lambda>_.
     if rs_write_strategy s \<noteq> WRITE_STRATEGY then Inl InvalidValue
     else
     rbind (try_all (\<lambda>value. case value of None \<Rightarrow> Inr () | Some v \<Rightarrow> validate_kubernetes_fact v)
       [Some (rs_target_uid s), Some (rs_target_resource_version s), rs_receiver_uid s,
        rs_observed_operation_marker s, rs_observed_resource_version s, rs_rollout_condition_type s,
        rs_rollout_condition_status s, rs_rollout_condition_reason s]) (\<lambda>_.
     rbind (case rs_observed_image s of
         None \<Rightarrow> Inr ()
       | Some img \<Rightarrow> map_err (\<lambda>_. InvalidValue) (validate_immutable_image img)) (\<lambda>_.
     let observation = receipt_observation s in
     rbind (map_err (\<lambda>_. InvalidValue) (observation_validate observation)) (\<lambda>_.
     rbind (map_err (\<lambda>_. InvalidValue) (validated_request_try_from (receipt_request s))) (\<lambda>request.
     let recomputed_result = classify observation request (receipt_apply_outcome s) in
     if recomputed_result \<noteq> rs_result s then Inl InvalidValue else Inr ())))))))))))"

section \<open>The statement codec\<close>

definition receipt_encode :: "ReceiptStatement \<Rightarrow> (ReceiptError, bytes) result" where
  "receipt_encode s =
     rbind (receipt_validate s) (\<lambda>_.
     let output = (if rs_approved_target s \<noteq> None then R_SNAPSHOT_STATEMENT_MAGIC else STATEMENT_MAGIC) in
     rbind (try_fold (\<lambda>(tag, val) out. push_text out tag val STATEMENT_BYTES_MAX)
       [(1, rs_operation_id s),
        (2, rs_authorization_id s),
        (3, rs_authorization_signer_key_id s),
        (4, rs_authorization_grant_digest s),
        (5, rs_namespace s),
        (6, rs_deployment s),
        (7, rs_container s),
        (8, rs_immutable_image_digest s),
        (9, rs_write_strategy s),
        (10, rs_target_uid s),
        (11, rs_target_resource_version s)] output) (\<lambda>output.
     rbind (push_optional_text output 12 (rs_receiver_uid s) STATEMENT_BYTES_MAX) (\<lambda>output.
     rbind (push_optional_text output 13 (rs_observed_image s) STATEMENT_BYTES_MAX) (\<lambda>output.
     rbind (push_optional_text output 14 (rs_observed_operation_marker s) STATEMENT_BYTES_MAX) (\<lambda>output.
     rbind (push_i64 output 15 (rs_current_generation s) STATEMENT_BYTES_MAX) (\<lambda>output.
     rbind (push_i64 output 16 (rs_requested_generation s) STATEMENT_BYTES_MAX) (\<lambda>output.
     rbind (push_i64 output 17 (rs_observed_generation s) STATEMENT_BYTES_MAX) (\<lambda>output.
     rbind (push_optional_text output 18 (rs_observed_resource_version s) STATEMENT_BYTES_MAX) (\<lambda>output.
     rbind (push_i32 output 19 (rs_desired_replicas s) STATEMENT_BYTES_MAX) (\<lambda>output.
     rbind (push_i32 output 20 (rs_updated_replicas s) STATEMENT_BYTES_MAX) (\<lambda>output.
     rbind (push_i32 output 21 (rs_available_replicas s) STATEMENT_BYTES_MAX) (\<lambda>output.
     rbind (push_i32 output 22 (rs_unavailable_replicas s) STATEMENT_BYTES_MAX) (\<lambda>output.
     rbind (push_optional_text output 23 (rs_rollout_condition_type s) STATEMENT_BYTES_MAX) (\<lambda>output.
     rbind (push_optional_text output 24 (rs_rollout_condition_status s) STATEMENT_BYTES_MAX) (\<lambda>output.
     rbind (push_optional_text output 25 (rs_rollout_condition_reason s) STATEMENT_BYTES_MAX) (\<lambda>output.
     rbind (rpush output 26 (as_receipt_bytes (rs_result s)) STATEMENT_BYTES_MAX) (\<lambda>output.
     rbind (rpush output 27 (as_bytes NON_CLAIMS) STATEMENT_BYTES_MAX) (\<lambda>output.
     case rs_approved_target s of
       None \<Rightarrow> Inr output
     | Some approved \<Rightarrow>
         rbind (push_text output 28 (at_uid approved) STATEMENT_BYTES_MAX) (\<lambda>output.
         push_text output 29 (at_resource_version approved) STATEMENT_BYTES_MAX)))))))))))))))))))"

definition rtake_approved :: "bool \<Rightarrow> RRecords \<Rightarrow> (ReceiptError, ApprovedTarget option \<times> RRecords) result" where
  "rtake_approved snapshot_bound r =
     (if snapshot_bound then
        pbind (rtext 28) (\<lambda>uid.
        pbind (rtext 29) (\<lambda>resource_version r'.
          Inr (Some \<lparr>at_uid = uid, at_resource_version = resource_version\<rparr>, r'))) r
      else Inr (None, r))"

definition receipt_fields :: "bool \<Rightarrow> RRecords \<Rightarrow> (ReceiptError, ReceiptStatement) result" where
  "receipt_fields snapshot_bound =
     pbind (rtext 1) (\<lambda>operation_id.
     pbind (rtext 2) (\<lambda>authorization_id.
     pbind (rtext 3) (\<lambda>authorization_signer_key_id.
     pbind (rtext 4) (\<lambda>authorization_grant_digest.
     pbind (rtext 5) (\<lambda>namespace.
     pbind (rtext 6) (\<lambda>deployment.
     pbind (rtext 7) (\<lambda>container.
     pbind (rtext 8) (\<lambda>immutable_image_digest.
     pbind (rtext 9) (\<lambda>write_strategy.
     pbind (rtext 10) (\<lambda>target_uid.
     pbind (rtext 11) (\<lambda>target_resource_version.
     pbind (pcheck (rtext 12) (\<lambda>v. Inr (empty_as_none v))) (\<lambda>receiver_uid.
     pbind (pcheck (rtext 13) (\<lambda>v. Inr (empty_as_none v))) (\<lambda>observed_image.
     pbind (pcheck (rtext 14) (\<lambda>v. Inr (empty_as_none v))) (\<lambda>observed_operation_marker.
     pbind (pcheck (rtake 15) decode_generation) (\<lambda>current_generation.
     pbind (pcheck (rtake 16) decode_generation) (\<lambda>requested_generation.
     pbind (pcheck (rtake 17) decode_generation) (\<lambda>observed_generation.
     pbind (pcheck (rtext 18) (\<lambda>v. Inr (empty_as_none v))) (\<lambda>observed_resource_version.
     pbind (pcheck (rtake 19) decode_replica_count) (\<lambda>desired_replicas.
     pbind (pcheck (rtake 20) decode_replica_count) (\<lambda>updated_replicas.
     pbind (pcheck (rtake 21) decode_replica_count) (\<lambda>available_replicas.
     pbind (pcheck (rtake 22) decode_replica_count) (\<lambda>unavailable_replicas.
     pbind (pcheck (rtext 23) (\<lambda>v. Inr (empty_as_none v))) (\<lambda>rollout_condition_type.
     pbind (pcheck (rtext 24) (\<lambda>v. Inr (empty_as_none v))) (\<lambda>rollout_condition_status.
     pbind (pcheck (rtext 25) (\<lambda>v. Inr (empty_as_none v))) (\<lambda>rollout_condition_reason.
     pbind (pcheck (rtake 26) from_receipt_bytes) (\<lambda>result.
     pbind (pcheck (rtake 27) (\<lambda>v. if v \<noteq> as_bytes NON_CLAIMS then Inl InvalidValue else Inr ())) (\<lambda>_.
     pbind (rtake_approved snapshot_bound) (\<lambda>approved_target r.
          let statement = \<lparr>rs_approved_target = approved_target,
            rs_operation_id = operation_id,
            rs_authorization_id = authorization_id,
            rs_authorization_signer_key_id = authorization_signer_key_id,
            rs_authorization_grant_digest = authorization_grant_digest,
            rs_namespace = namespace,
            rs_deployment = deployment,
            rs_container = container,
            rs_immutable_image_digest = immutable_image_digest,
            rs_write_strategy = write_strategy,
            rs_target_uid = target_uid,
            rs_target_resource_version = target_resource_version,
            rs_receiver_uid = receiver_uid,
            rs_observed_image = observed_image,
            rs_observed_operation_marker = observed_operation_marker,
            rs_current_generation = current_generation,
            rs_requested_generation = requested_generation,
            rs_observed_generation = observed_generation,
            rs_observed_resource_version = observed_resource_version,
            rs_desired_replicas = desired_replicas,
            rs_updated_replicas = updated_replicas,
            rs_available_replicas = available_replicas,
            rs_unavailable_replicas = unavailable_replicas,
            rs_rollout_condition_type = rollout_condition_type,
            rs_rollout_condition_status = rollout_condition_status,
            rs_rollout_condition_reason = rollout_condition_reason,
            rs_result = result\<rparr> in
          rbind (rfinish r) (\<lambda>_.
          rbind (receipt_validate statement) (\<lambda>_.
          Inr statement))))))))))))))))))))))))))))))"

definition receipt_parse :: "bytes \<Rightarrow> InspectionLimits \<Rightarrow> (ReceiptError, ReceiptStatement) result" where
  "receipt_parse input limits =
     rbind (limits_validate limits) (\<lambda>_.
     rbind (bounded input (il_statement_bytes_max limits)) (\<lambda>_.
     let snapshot_bound = starts_with input R_SNAPSHOT_STATEMENT_MAGIC in
     rbind (rrecords_new input (if snapshot_bound then R_SNAPSHOT_STATEMENT_MAGIC else STATEMENT_MAGIC)
         (il_text_bytes_max limits))
       (receipt_fields snapshot_bound)))"

section \<open>Trust, envelopes and inspection\<close>

record ReceiptTrust =
  gt_key_id :: string
  gt_public_key :: bytes
  gt_accepted_purpose :: string
  gt_not_before_unix_s :: i64
  gt_not_after_unix_s :: i64

fun map_receipt_trust_error :: "ReceiptTrustError \<Rightarrow> ReceiptError" where
  "map_receipt_trust_error TrustLimitExceeded = LimitExceeded"
| "map_receipt_trust_error TrustInvalidValue = InvalidValue"
| "map_receipt_trust_error TrustInvalidRecord = InvalidRecord"

definition receipt_trust_encode :: "ReceiptTrust \<Rightarrow> (ReceiptError, bytes) result" where
  "receipt_trust_encode t =
     map_err map_receipt_trust_error (encode_receipt_trust
       \<lparr>rt_key_id = gt_key_id t, rt_public_key = gt_public_key t,
        rt_accepted_purpose = gt_accepted_purpose t, rt_not_before_unix_s = gt_not_before_unix_s t,
        rt_not_after_unix_s = gt_not_after_unix_s t\<rparr>)"

definition receipt_trust_parse :: "bytes \<Rightarrow> InspectionLimits \<Rightarrow> (ReceiptError, ReceiptTrust) result" where
  "receipt_trust_parse input limits =
     rbind (limits_validate limits) (\<lambda>_.
     rbind (map_err map_receipt_trust_error (parse_receipt_trust input
       \<lparr>tl_trust_bytes_max = il_trust_bytes_max limits, tl_text_bytes_max = il_text_bytes_max limits\<rparr>))
       (\<lambda>trust.
     Inr \<lparr>gt_key_id = rt_key_id trust, gt_public_key = rt_public_key trust,
          gt_accepted_purpose = rt_accepted_purpose trust,
          gt_not_before_unix_s = rt_not_before_unix_s trust,
          gt_not_after_unix_s = rt_not_after_unix_s trust\<rparr>))"

definition statement_purpose :: "bytes \<Rightarrow> string" where
  "statement_purpose statement =
     (if starts_with statement R_SNAPSHOT_STATEMENT_MAGIC then R_SNAPSHOT_PURPOSE else PURPOSE)"

definition sign_envelope ::
    "crypto \<Rightarrow> bytes \<Rightarrow> bytes \<Rightarrow> string \<Rightarrow> bytes \<Rightarrow> string \<Rightarrow> (ReceiptError, bytes) result" where
  "sign_envelope C statement magic purpose seed key_id =
     (let signature = sign_with C seed (signature_input purpose statement) in
      rbind (push_text magic 1 purpose RECEIPT_BYTES_MAX) (\<lambda>output.
      rbind (push_text output 2 key_id RECEIPT_BYTES_MAX) (\<lambda>output.
      rbind (rpush output 3 statement RECEIPT_BYTES_MAX) (\<lambda>output.
      rpush output 4 signature RECEIPT_BYTES_MAX))))"

definition sign_statement :: "crypto \<Rightarrow> ReceiptStatement \<Rightarrow> bytes \<Rightarrow> string \<Rightarrow> (ReceiptError, bytes) result" where
  "sign_statement C s seed key_id =
     rbind (validate_key_id key_id) (\<lambda>_.
     rbind (receipt_encode s) (\<lambda>statement_bytes.
     sign_envelope C statement_bytes
       (if rs_approved_target s \<noteq> None then SNAPSHOT_RECEIPT_MAGIC else RECEIPT_MAGIC)
       (statement_purpose statement_bytes) seed key_id))"

record 's ReceiptEnvelope =
  env_accepted_purpose :: string
  env_key_id :: string
  env_statement_bytes :: bytes
  env_statement :: 's
  env_signature :: bytes

datatype InspectionStatus = StructureRejected | SignatureRejected | UntrustedSignerStatus | Inspected

definition authenticate ::
    "crypto \<Rightarrow> 's ReceiptEnvelope \<Rightarrow> ReceiptTrust \<Rightarrow> i64 \<Rightarrow> (ReceiptError, InspectionStatus) result" where
  "authenticate C e trust time =
     (if \<not> key_valid C (gt_public_key trust) then Inl InvalidValue
      else if \<not> verify_strict C (gt_public_key trust)
                (signature_input (env_accepted_purpose e) (env_statement_bytes e)) (env_signature e)
      then Inl BadSignature
      else
        let trust_rejects_signer =
          gt_accepted_purpose trust \<noteq> env_accepted_purpose e \<or> gt_key_id trust \<noteq> env_key_id e
          \<or> sint time < sint (gt_not_before_unix_s trust) \<or> sint time \<ge> sint (gt_not_after_unix_s trust)
        in Inr (if trust_rejects_signer then UntrustedSignerStatus else Inspected))"

definition parse_envelope ::
    "bytes \<Rightarrow> bytes \<Rightarrow> string \<Rightarrow> InspectionLimits \<Rightarrow> (bytes \<Rightarrow> (ReceiptError, 's) result) \<Rightarrow>
      (ReceiptError, 's ReceiptEnvelope) result" where
  "parse_envelope receipt magic purpose limits parse_st =
     rbind (limits_validate limits) (\<lambda>_.
     rbind (bounded receipt (il_receipt_bytes_max limits)) (\<lambda>_.
     rbind (rrecords_new receipt magic (il_text_bytes_max limits))
       (pbind (pcheck (rtext 1) (\<lambda>v. if v \<noteq> purpose then Inl InvalidValue else Inr ())) (\<lambda>_.
        pbind (pcheck (rtext 2) (\<lambda>v. rbind (validate_key_id v) (\<lambda>_. Inr v))) (\<lambda>key_id.
        pbind (pcheck (rtake 3) (\<lambda>v. rbind (parse_st v) (\<lambda>st. Inr (v, st)))) (\<lambda>(statement_bytes, statement).
        pbind (pcheck (rtake 4) (array 64)) (\<lambda>signature r.
          rbind (rfinish r) (\<lambda>_.
          Inr \<lparr>env_accepted_purpose = purpose, env_key_id = key_id,
               env_statement_bytes = statement_bytes, env_statement = statement,
               env_signature = signature\<rparr>))))))))"

definition parse_receipt_envelope ::
    "bytes \<Rightarrow> InspectionLimits \<Rightarrow> (ReceiptError, ReceiptStatement ReceiptEnvelope) result" where
  "parse_receipt_envelope receipt limits =
     (let snapshot_bound = starts_with receipt SNAPSHOT_RECEIPT_MAGIC in
      parse_envelope receipt
        (if snapshot_bound then SNAPSHOT_RECEIPT_MAGIC else RECEIPT_MAGIC)
        (if snapshot_bound then R_SNAPSHOT_PURPOSE else PURPOSE)
        limits
        (\<lambda>bs. rbind (receipt_parse bs limits) (\<lambda>statement.
           if (rs_approved_target statement \<noteq> None) \<noteq> snapshot_bound then Inl InvalidValue
           else Inr statement)))"

definition decode_frozen_receipt :: "bytes \<Rightarrow> (ReceiptError, string \<times> ReceiptStatement) result" where
  "decode_frozen_receipt receipt =
     rbind (parse_receipt_envelope receipt default_limits) (\<lambda>envelope.
     Inr (env_key_id envelope, env_statement envelope))"

record InspectionReport =
  ir_status :: InspectionStatus
  ir_statement :: "ReceiptStatement option"

definition inspect_inner ::
    "crypto \<Rightarrow> bytes \<Rightarrow> bytes \<Rightarrow> i64 \<Rightarrow> InspectionLimits \<Rightarrow> (ReceiptError, ReceiptStatement) result" where
  "inspect_inner C receipt trust evaluation_time_unix_s limits =
     rbind (parse_receipt_envelope receipt limits) (\<lambda>envelope.
     rbind (receipt_trust_parse trust limits) (\<lambda>parsed_trust.
     rbind (authenticate C envelope parsed_trust evaluation_time_unix_s) (\<lambda>authentication_status.
     if authentication_status = UntrustedSignerStatus
     then Inl (UntrustedSigner (env_statement envelope))
     else Inr (env_statement envelope))))"

definition inspect_receipt ::
    "crypto \<Rightarrow> bytes \<Rightarrow> bytes \<Rightarrow> i64 \<Rightarrow> InspectionLimits \<Rightarrow> InspectionReport" where
  "inspect_receipt C receipt trust evaluation_time_unix_s limits =
     (case inspect_inner C receipt trust evaluation_time_unix_s limits of
        Inr statement \<Rightarrow> \<lparr>ir_status = Inspected, ir_statement = Some statement\<rparr>
      | Inl BadSignature \<Rightarrow> \<lparr>ir_status = SignatureRejected, ir_statement = None\<rparr>
      | Inl (UntrustedSigner statement) \<Rightarrow>
          \<lparr>ir_status = UntrustedSignerStatus, ir_statement = Some statement\<rparr>
      | Inl _ \<Rightarrow> \<lparr>ir_status = StructureRejected, ir_statement = None\<rparr>)"

section \<open>The second copy of the framing\<close>

text \<open>
  The receipt module's reader and writer are the authority package's, with other error classes:
  each operation is the shared one followed by a translation of its error.
\<close>

fun receipt_frame_error :: "FrameError \<Rightarrow> ReceiptError" where
  "receipt_frame_error FLength = LimitExceeded"
| "receipt_frame_error FLengthConversion = LimitExceeded"
| "receipt_frame_error FHeaderConversion = InvalidValue"
| "receipt_frame_error FHeader = InvalidRecord"
| "receipt_frame_error FOrder = InvalidRecord"

definition framing_of :: "RRecords \<Rightarrow> Records" where
  "framing_of r = \<lparr>rec_bytes = rr_input r, rec_offset = rr_offset r, rec_next_tag = rr_next_tag r\<rparr>"

definition with_framing :: "RRecords \<Rightarrow> Records \<Rightarrow> RRecords" where
  "with_framing r f = \<lparr>rr_input = rec_bytes f, rr_offset = rec_offset f, rr_next_tag = rec_next_tag f,
     rr_maximum_text_bytes = rr_maximum_text_bytes r\<rparr>"

lemma rpush_is_push: "rpush output tag val maximum = map_err receipt_frame_error (push output tag val maximum)"
  by (simp add: rpush_def push_def require_def Let_def)

lemma rtake_is_take: "rtake t r = map_err receipt_frame_error
    (rbind (records_take (framing_of r) t) (\<lambda>(v, f). Inr (v, with_framing r f)))"
proof (cases "checked_add (rr_offset r) 5")
  case None
  then show ?thesis by (simp add: rtake_def records_take_def framing_of_def)
next
  case (Some h)
  let ?header = "slice (rr_offset r + 1) h (rr_input r)"
  show ?thesis
  proof (cases "checked_add h (from_be ?header)")
    case None
    with Some show ?thesis
      by (simp add: rtake_def records_take_def framing_of_def array_def Let_def del: checked_add_eq_Some)
  next
    case ve: (Some e)
    with Some show ?thesis
      by (cases "next_tag_after (rr_next_tag r)")
        (simp_all add: rtake_def records_take_def framing_of_def with_framing_def array_def Let_def
          del: checked_add_eq_Some)
  qed
qed

definition rcur :: "nat \<Rightarrow> bytes \<Rightarrow> bytes \<Rightarrow> byte \<Rightarrow> RRecords" where
  "rcur m pre rest t = \<lparr>rr_input = pre @ rest, rr_offset = length pre, rr_next_tag = t,
     rr_maximum_text_bytes = m\<rparr>"

lemma framing_of_rcur [simp]: "framing_of (rcur m pre rest t) = cur pre rest t"
  by (simp add: framing_of_def rcur_def cur_def)

lemma with_framing_rcur [simp]: "with_framing (rcur m a b s) (cur pre rest t) = rcur m pre rest t"
  by (simp add: with_framing_def rcur_def cur_def)

lemma rcur_text_bound [simp]: "rr_maximum_text_bytes (rcur m pre rest t) = m"
  by (simp add: rcur_def)

interpretation rr: frame_codec "\<lambda>bs magic. rrecords_new bs magic m" "\<lambda>r t. rtake t r" rfinish "rcur m" rpush for m
proof unfold_locales
  fix bs magic and r :: RRecords
  show "rrecords_new bs magic m = Inr r \<longleftrightarrow> (\<exists>rest. bs = magic @ rest \<and> r = rcur m magic rest 1)"
    by (auto simp: rrecords_new_def rcur_def starts_with_iff)
next
  fix pre rest v :: bytes and t :: byte
  assume "small (pre @ frame t v @ rest)" "t \<noteq> 255"
  then show "rtake t (rcur m pre (frame t v @ rest) t) = Inr (v, rcur m (pre @ frame t v) rest (t + 1))"
    by (simp add: rtake_is_take ar.take_frame)
next
  fix pre rest :: bytes and t s :: byte and v r
  assume take: "rtake s (rcur m pre rest t) = Inr (v, r)" and sm: "small (pre @ rest)"
  then obtain f where "records_take (cur pre rest t) s = Inr (v, f)" "r = with_framing (rcur m pre rest t) f"
    by (auto simp: rtake_is_take result_simps)
  with ar.take_sound [OF this(1) sm] show "s = t \<and> t \<noteq> 255 \<and>
      (\<exists>rest'. rest = frame t v @ rest' \<and> r = rcur m (pre @ frame t v) rest' (t + 1))"
    by auto
next
  fix pre rest :: bytes and t :: byte and u
  show "rfinish (rcur m pre rest t) = Inr u \<longleftrightarrow> rest = []"
    by (simp add: rfinish_def rcur_def)
next
  fix maximum :: nat and out v out' :: bytes and t :: byte
  assume "maximum < 2 ^ 32"
  then show "rpush out t v maximum = Inr out' \<longleftrightarrow>
      length out + 5 + length v \<le> maximum \<and> out' = out @ frame t v"
    by (simp add: rpush_is_push ar.push_one_iff)
qed

section \<open>Readers of single fields\<close>

lemma rtake_read [simp]:
  "small (pre @ frame t v @ rest) \<Longrightarrow> t \<noteq> 255 \<Longrightarrow>
    rtake t (rcur m pre (frame t v @ rest) t) = Inr (v, rcur m (pre @ frame t v) rest (t + 1))"
  "small (pre @ frame t v) \<Longrightarrow> t \<noteq> 255 \<Longrightarrow>
    rtake t (rcur m pre (frame t v) t) = Inr (v, rcur m (pre @ frame t v) [] (t + 1))"
  using rr.take_frame [of pre t v rest m] rr.take_frame [of pre t v "[]" m] by simp_all

lemma rtake_sound:
  assumes "rtake t (rcur m pre rest t) = Inr (v, r)" "small (pre @ rest)"
  shows "\<exists>rest'. rest = frame t v @ rest' \<and> r = rcur m (pre @ frame t v) rest' (t + 1)"
  using rr.take_sound [OF assms] by blast

lemma rtext_read [simp]:
  assumes "t \<noteq> 255" "length s \<le> m" "text_is_ascii s"
  shows "small (pre @ frame t (as_bytes s) @ rest) \<Longrightarrow>
      rtext t (rcur m pre (frame t (as_bytes s) @ rest) t) =
      Inr (s, rcur m (pre @ frame t (as_bytes s)) rest (t + 1))"
    and "small (pre @ frame t (as_bytes s)) \<Longrightarrow>
      rtext t (rcur m pre (frame t (as_bytes s)) t) =
      Inr (s, rcur m (pre @ frame t (as_bytes s)) [] (t + 1))"
  using assms by (simp_all add: rtext_def text_is_ascii_def)

lemma rtext_sound:
  assumes "rtext t (rcur m pre rest t) = Inr (s, r)" "small (pre @ rest)"
  shows "\<exists>rest'. rest = frame t (as_bytes s) @ rest' \<and> r = rcur m (pre @ frame t (as_bytes s)) rest' (t + 1) \<and>
    length s \<le> m \<and> text_is_ascii s"
proof -
  from assms(1) obtain bs where "rtake t (rcur m pre rest t) = Inr (bs, r)" "length bs \<le> m"
    "is_ascii bs" "bs = as_bytes s"
    by (auto simp: rtext_def result_simps from_utf8_eq_Some split: if_splits)
  with rtake_sound [of t m pre rest bs r] assms(2) show ?thesis
    by (auto simp: text_is_ascii_def)
qed

lemma rfinish_done [simp]: "rfinish (rcur m pre [] t) = Inr ()"
  using rr.finish_iff [of m pre "[]" t "()"] by simp

lemma rfinish_iff [simp]: "rfinish (rcur m pre rest t) = Inr u \<longleftrightarrow> rest = []"
  by (rule rr.finish_iff)

lemma rnew_magic [simp]: "rrecords_new (magic @ rest) magic m = Inr (rcur m magic rest 1)"
  by (rule rr.new_magic)

text \<open>The bytes of an optional text and of an optional integer field.\<close>

definition text_field :: "string option \<Rightarrow> bytes" where
  "text_field v = (case v of None \<Rightarrow> [] | Some s \<Rightarrow> as_bytes s)"

definition word_field :: "'a::len word option \<Rightarrow> bytes" where
  "word_field v = word_be (case v of None \<Rightarrow> - 1 | Some w \<Rightarrow> w)"

lemma text_field_simps [simp]: "text_field None = []" "text_field (Some s) = as_bytes s"
  by (simp_all add: text_field_def)

lemma length_word_field [simp]: "length (word_field (v :: 'a::len word option)) = LENGTH('a) div 8"
  by (simp add: word_field_def)

lemma array_iff [simp]: "array n bs = Inr v \<longleftrightarrow> v = bs \<and> length bs = n"
  by (auto simp: array_def)

lemma decode_generation_iff:
  "decode_generation bs = Inr g \<longleftrightarrow> bs = word_field g \<and> pred_option (\<lambda>w. 0 \<le> sint w) g"
proof -
  have inj: "word_be w = bs \<longleftrightarrow> length bs = 8 \<and> w = word_from_be bs" for w :: i64
    by auto
  show ?thesis
    by (cases g) (auto simp: decode_generation_def word_field_def result_simps Let_def inj eq_commute [of bs]
      split: if_splits)
qed

lemma decode_replica_count_iff:
  "decode_replica_count bs = Inr g \<longleftrightarrow> bs = word_field g \<and> pred_option (\<lambda>w. 0 \<le> sint w) g"
proof -
  have inj: "word_be w = bs \<longleftrightarrow> length bs = 4 \<and> w = word_from_be bs" for w :: i32
    by auto
  show ?thesis
    by (cases g) (auto simp: decode_replica_count_def word_field_def result_simps Let_def inj eq_commute [of bs]
      split: if_splits)
qed

lemma from_receipt_bytes_iff: "from_receipt_bytes bs = Inr res \<longleftrightarrow> bs = as_receipt_bytes res"
  by (cases res) (auto simp: from_receipt_bytes_def)

section \<open>Valid statements\<close>

lemma validate_text_iff [simp]: "validate_text v False = Inr u \<longleftrightarrow> ascii_text 512 v"
  by (auto simp: validate_text_def ascii_text_def TEXT_BYTES_MAX_def)

lemma validate_key_id_iff [simp]: "validate_key_id v = Inr u \<longleftrightarrow> identity_is_valid v"
  by (simp add: validate_key_id_def)

lemma validate_digest_iff [simp]:
  "validate_digest v = Inr u \<longleftrightarrow> length v = 64 \<and> list_all is_lowercase_hex (as_bytes v)"
  by (auto simp: validate_digest_def)

lemma validate_kubernetes_fact_iff [simp]: "validate_kubernetes_fact v = Inr u \<longleftrightarrow> ascii_text 128 v"
  by (auto simp: validate_kubernetes_fact_def ascii_text_def KUBERNETES_FACT_BYTES_MAX_def)

lemma optional_case_iff [simp]:
  "(case v of None \<Rightarrow> Inr () | Some x \<Rightarrow> f x) = Inr () \<longleftrightarrow> pred_option (\<lambda>x. f x = Inr ()) v"
  by (cases v) simp_all

definition receipt_validated_request :: "ReceiptStatement \<Rightarrow> ValidatedRequest" where
  "receipt_validated_request s = \<lparr>vr_operation_id = rs_operation_id s, vr_namespace = rs_namespace s,
     vr_deployment = rs_deployment s, vr_container = rs_container s,
     vr_immutable_image = rs_immutable_image_digest s\<rparr>"

lemma receipt_request_adapter: "receipt_request s = to_adapter_request (receipt_validated_request s)"
  by (simp add: receipt_request_def receipt_validated_request_def to_adapter_request_def)

lemma request_adapter_inject [simp]: "to_adapter_request a = to_adapter_request b \<longleftrightarrow> a = b"
  by (cases a; cases b) (simp add: to_adapter_request_def)

definition approved_agrees :: "ReceiptStatement \<Rightarrow> bool" where
  "approved_agrees s \<longleftrightarrow> (case rs_approved_target s of None \<Rightarrow> True
     | Some t \<Rightarrow> approved_target_is_valid t \<and> at_uid t = rs_target_uid s \<and>
         at_resource_version t = rs_target_resource_version s)"

lemma approved_agrees_iff: "(case rs_approved_target s of
           None \<Rightarrow> False
         | Some target \<Rightarrow> \<not> approved_target_is_valid target \<or> at_uid target \<noteq> rs_target_uid s
             \<or> at_resource_version target \<noteq> rs_target_resource_version s) \<longleftrightarrow> \<not> approved_agrees s"
  by (simp add: approved_agrees_def split: option.splits)

lemma if_error_iff: "(if P then Inl e else m) = Inr u \<longleftrightarrow> \<not> P \<and> m = Inr u"
  by simp

lemma receipt_validate_iff: "receipt_validate s = Inr u \<longleftrightarrow>
    identity_is_valid (rs_authorization_id s) \<and> identity_is_valid (rs_authorization_signer_key_id s) \<and>
    length (rs_authorization_grant_digest s) = 64 \<and>
    list_all is_lowercase_hex (as_bytes (rs_authorization_grant_digest s)) \<and>
    approved_agrees s \<and> request_valid (receipt_validated_request s) \<and>
    rs_write_strategy s = WRITE_STRATEGY \<and>
    ascii_text 128 (rs_target_uid s) \<and> ascii_text 128 (rs_target_resource_version s) \<and>
    observation_validate (receipt_observation s) = Inr () \<and>
    classify (receipt_observation s) (receipt_validated_request s) (receipt_apply_outcome s) = rs_result s"
proof -
  have "pred_option (ascii_text 128) (rs_receiver_uid s)" "pred_option (ascii_text 128) (rs_observed_operation_marker s)"
    "pred_option (ascii_text 128) (rs_observed_resource_version s)"
    "pred_option (ascii_text 128) (rs_rollout_condition_type s)"
    "pred_option (ascii_text 128) (rs_rollout_condition_status s)"
    "pred_option (ascii_text 128) (rs_rollout_condition_reason s)"
    "pred_option immutable_image_is_valid (rs_observed_image s)"
    if "observation_validate (receipt_observation s) = Inr ()"
    using that by (simp_all add: observation_validate_iff receipt_observation_def)
  then show ?thesis
    unfolding receipt_validate_def rbind_eq_Inr approved_agrees_iff if_error_iff Let_def try_all_eq_Inr
      receipt_request_adapter map_err_eq_Inr validated_request_iff request_adapter_inject
    by (auto simp: request_valid_def receipt_validated_request_def [of s])
qed

section \<open>The canonical bytes of a statement\<close>

lemmas receipt_bounds = RECEIPT_BYTES_MAX_def STATEMENT_BYTES_MAX_def TRUST_BYTES_MAX_def TEXT_BYTES_MAX_def

lemmas receipt_magics = STATEMENT_MAGIC_def RECEIPT_MAGIC_def R_SNAPSHOT_STATEMENT_MAGIC_def
  SNAPSHOT_RECEIPT_MAGIC_def

lemma length_receipt_constants [simp]:
  "length STATEMENT_MAGIC = 32" "length R_SNAPSHOT_STATEMENT_MAGIC = 32" "length RECEIPT_MAGIC = 30"
  "length SNAPSHOT_RECEIPT_MAGIC = 30" "length NON_CLAIMS = 97" "length WRITE_STRATEGY = 33"
  "length PURPOSE = 43" "length R_SNAPSHOT_PURPOSE = 43"
  by (simp_all add: receipt_magics NON_CLAIMS_def WRITE_STRATEGY_def PURPOSE_def R_SNAPSHOT_PURPOSE_def)

lemma receipt_magic_prefix [simp]:
  "starts_with (STATEMENT_MAGIC @ rest) R_SNAPSHOT_STATEMENT_MAGIC \<longleftrightarrow> False"
  "starts_with (RECEIPT_MAGIC @ rest) SNAPSHOT_RECEIPT_MAGIC \<longleftrightarrow> False"
  by (simp_all add: starts_with_same_length) (simp_all add: receipt_magics)

definition receipt_image :: "ReceiptStatement \<Rightarrow> bytes" where
  "receipt_image s =
     (if rs_approved_target s \<noteq> None then R_SNAPSHOT_STATEMENT_MAGIC else STATEMENT_MAGIC) @
     frame 1 (as_bytes (rs_operation_id s)) @
     frame 2 (as_bytes (rs_authorization_id s)) @
     frame 3 (as_bytes (rs_authorization_signer_key_id s)) @
     frame 4 (as_bytes (rs_authorization_grant_digest s)) @
     frame 5 (as_bytes (rs_namespace s)) @
     frame 6 (as_bytes (rs_deployment s)) @
     frame 7 (as_bytes (rs_container s)) @
     frame 8 (as_bytes (rs_immutable_image_digest s)) @
     frame 9 (as_bytes (rs_write_strategy s)) @
     frame 10 (as_bytes (rs_target_uid s)) @
     frame 11 (as_bytes (rs_target_resource_version s)) @
     frame 12 (text_field (rs_receiver_uid s)) @
     frame 13 (text_field (rs_observed_image s)) @
     frame 14 (text_field (rs_observed_operation_marker s)) @
     frame 15 (word_field (rs_current_generation s)) @
     frame 16 (word_field (rs_requested_generation s)) @
     frame 17 (word_field (rs_observed_generation s)) @
     frame 18 (text_field (rs_observed_resource_version s)) @
     frame 19 (word_field (rs_desired_replicas s)) @
     frame 20 (word_field (rs_updated_replicas s)) @
     frame 21 (word_field (rs_available_replicas s)) @
     frame 22 (word_field (rs_unavailable_replicas s)) @
     frame 23 (text_field (rs_rollout_condition_type s)) @
     frame 24 (text_field (rs_rollout_condition_status s)) @
     frame 25 (text_field (rs_rollout_condition_reason s)) @
     frame 26 (as_receipt_bytes (rs_result s)) @ frame 27 (as_bytes NON_CLAIMS) @
     (case rs_approved_target s of
        None \<Rightarrow> []
      | Some t \<Rightarrow> frame 28 (as_bytes (at_uid t)) @ frame 29 (as_bytes (at_resource_version t)))"

text \<open>Every text field is non-empty ASCII within the receipt text bound.\<close>

definition statement_texts :: "ReceiptStatement \<Rightarrow> string list" where
  "statement_texts s = [rs_operation_id s, rs_authorization_id s, rs_authorization_signer_key_id s, rs_authorization_grant_digest s, rs_namespace s, rs_deployment s, rs_container s, rs_immutable_image_digest s, rs_write_strategy s, rs_target_uid s, rs_target_resource_version s] @
     (case rs_approved_target s of None \<Rightarrow> [] | Some t \<Rightarrow> [at_uid t, at_resource_version t])"

definition statement_optional_texts :: "ReceiptStatement \<Rightarrow> string option list" where
  "statement_optional_texts s = [rs_receiver_uid s, rs_observed_image s, rs_observed_operation_marker s, rs_observed_resource_version s, rs_rollout_condition_type s, rs_rollout_condition_status s, rs_rollout_condition_reason s]"

lemma lowercase_hex_ascii: "list_all is_lowercase_hex (as_bytes s) \<Longrightarrow> text_is_ascii s"
  unfolding text_is_ascii_def by (rule is_ascii_mono [of is_lowercase_hex]) (rule ascii_class_below_128)

lemma statement_texts_ascii:
  assumes "receipt_validate s = Inr u"
  shows "list_all (ascii_text 512) (statement_texts s)"
proof -
  note v = assms [unfolded receipt_validate_iff]
  have req: "identity_is_valid (rs_operation_id s)" "dns_label_is_valid (rs_namespace s)"
    "dns_subdomain_is_valid (rs_deployment s)" "dns_label_is_valid (rs_container s)"
    "immutable_image_is_valid (rs_immutable_image_digest s)"
    using v by (simp_all add: request_valid_def receipt_validated_request_def)
  have "ascii_text 512 (rs_authorization_grant_digest s)"
    using v by (auto simp: ascii_text_def lowercase_hex_ascii)
  moreover have "ascii_text 512 (rs_write_strategy s)"
    using v by (simp, code_simp)
  moreover have "list_all (ascii_text 512)
      (case rs_approved_target s of None \<Rightarrow> [] | Some t \<Rightarrow> [at_uid t, at_resource_version t])"
    using v by (auto simp: approved_agrees_def ascii_text_mono split: option.splits)
  ultimately show ?thesis
    using v req unfolding statement_texts_def
    by (auto intro: ascii_text_mono identity_ascii [THEN ascii_text_mono]
        dns_label_ascii [THEN ascii_text_mono] dns_subdomain_ascii [THEN ascii_text_mono]
        immutable_image_ascii)
qed

lemma statement_optional_ascii:
  assumes "receipt_validate s = Inr u"
  shows "list_all (pred_option (ascii_text 512)) (statement_optional_texts s)"
proof -
  have mono: "pred_option (ascii_text 128) v \<Longrightarrow> pred_option (ascii_text 512) v" for v
    by (cases v) (simp_all add: ascii_text_mono)
  have img: "pred_option immutable_image_is_valid v \<Longrightarrow> pred_option (ascii_text 512) v" for v
    by (cases v) (simp_all add: immutable_image_ascii)
  have "observation_validate (receipt_observation s) = Inr ()"
    using assms by (simp add: receipt_validate_iff)
  then show ?thesis
    by (simp add: observation_validate_iff receipt_observation_def statement_optional_texts_def mono img)
qed

lemma push_text_iff:
  assumes "maximum < 2 ^ 32"
  shows "push_text out t v maximum = Inr out' \<longleftrightarrow>
    ascii_text 512 v \<and> length out + 5 + length v \<le> maximum \<and> out' = out @ frame t (as_bytes v)"
  using assms by (simp add: push_text_def result_simps rr.push_one_iff)

lemma push_optional_text_iff:
  assumes "maximum < 2 ^ 32"
  shows "push_optional_text out t v maximum = Inr out' \<longleftrightarrow> pred_option (ascii_text 512) v \<and>
    length out + 5 + length (text_field v) \<le> maximum \<and> out' = out @ frame t (text_field v)"
  using assms by (cases v) (simp_all add: push_optional_text_def result_simps rr.push_one_iff)

lemma push_word_iff:
  assumes "maximum < 2 ^ 32"
  shows "push_i64 out t g maximum = Inr out' \<longleftrightarrow>
      length out + 13 \<le> maximum \<and> out' = out @ frame t (word_field g)"
    and "push_i32 out t r maximum = Inr out' \<longleftrightarrow>
      length out + 9 \<le> maximum \<and> out' = out @ frame t (word_field r)"
  using assms by (simp_all add: push_i64_def push_i32_def word_field_def rr.push_one_iff add.commute)

lemmas push_field_iffs = push_text_iff push_optional_text_iff push_word_iff rr.push_one_iff

lemma length_as_receipt_bytes: "length (as_receipt_bytes r) \<le> 9"
  by (cases r) simp_all

lemma length_text_field: "pred_option (ascii_text n) v \<Longrightarrow> length (text_field v) \<le> n"
  by (cases v) (simp_all add: ascii_text_def)

lemma receipt_field_lengths:
  assumes "receipt_validate s = Inr u"
  shows "length (rs_operation_id s) \<le> 128" "length (rs_authorization_id s) \<le> 128"
    "length (rs_authorization_signer_key_id s) \<le> 128" "length (rs_authorization_grant_digest s) = 64"
    "length (rs_namespace s) \<le> 63" "length (rs_deployment s) \<le> 253" "length (rs_container s) \<le> 63"
    "length (rs_immutable_image_digest s) \<le> 512" "length (rs_write_strategy s) = 33"
    "length (rs_target_uid s) \<le> 128" "length (rs_target_resource_version s) \<le> 128"
proof -
  note v = assms [unfolded receipt_validate_iff request_valid_def receipt_validated_request_def, simplified]
  show "length (rs_operation_id s) \<le> 128" "length (rs_authorization_id s) \<le> 128"
    "length (rs_authorization_signer_key_id s) \<le> 128" "length (rs_authorization_grant_digest s) = 64"
    "length (rs_namespace s) \<le> 63" "length (rs_deployment s) \<le> 253" "length (rs_container s) \<le> 63"
    "length (rs_immutable_image_digest s) \<le> 512" "length (rs_write_strategy s) = 33"
    "length (rs_target_uid s) \<le> 128" "length (rs_target_resource_version s) \<le> 128"
    using v identity_ascii dns_label_ascii dns_subdomain_ascii immutable_image_ascii
    by (simp_all add: ascii_text_def)
qed

lemma receipt_optional_lengths:
  assumes "receipt_validate s = Inr u"
  shows "length (text_field (rs_receiver_uid s)) \<le> 128" "length (text_field (rs_observed_image s)) \<le> 512"
    "length (text_field (rs_observed_operation_marker s)) \<le> 128"
    "length (text_field (rs_observed_resource_version s)) \<le> 128"
    "length (text_field (rs_rollout_condition_type s)) \<le> 128"
    "length (text_field (rs_rollout_condition_status s)) \<le> 128"
    "length (text_field (rs_rollout_condition_reason s)) \<le> 128"
proof -
  have "observation_validate (receipt_observation s) = Inr ()"
    using assms by (simp add: receipt_validate_iff)
  moreover have "pred_option immutable_image_is_valid v \<Longrightarrow> pred_option (ascii_text 512) v" for v
    by (cases v) (simp_all add: immutable_image_ascii)
  ultimately show "length (text_field (rs_receiver_uid s)) \<le> 128" "length (text_field (rs_observed_image s)) \<le> 512"
    "length (text_field (rs_observed_operation_marker s)) \<le> 128"
    "length (text_field (rs_observed_resource_version s)) \<le> 128"
    "length (text_field (rs_rollout_condition_type s)) \<le> 128"
    "length (text_field (rs_rollout_condition_status s)) \<le> 128"
    "length (text_field (rs_rollout_condition_reason s)) \<le> 128"
    by (simp_all add: observation_validate_iff receipt_observation_def length_text_field)
qed

lemma receipt_approved_lengths:
  assumes "receipt_validate s = Inr u" "rs_approved_target s = Some t"
  shows "length (at_uid t) \<le> 128" "length (at_resource_version t) \<le> 128"
  using assms by (simp_all add: receipt_validate_iff approved_agrees_def ascii_text_def)

lemma length_receipt_image:
  assumes "receipt_validate s = Inr u"
  shows "length (receipt_image s) \<le> 3487"
  using receipt_field_lengths [OF assms] receipt_optional_lengths [OF assms]
    length_as_receipt_bytes [of "rs_result s"] receipt_approved_lengths [OF assms]
  by (cases "rs_approved_target s") (simp_all add: receipt_image_def)

lemma receipt_encode_image:
  assumes "receipt_validate s = Inr u"
  shows "receipt_encode s = Inr (receipt_image s)"
  using length_receipt_image [OF assms] statement_texts_ascii [OF assms]
    statement_optional_ascii [OF assms] assms
  by (cases "rs_approved_target s")
    (simp_all add: receipt_encode_def receipt_image_def result_simps Let_def push_field_iffs
      statement_texts_def statement_optional_texts_def STATEMENT_BYTES_MAX_def)

lemma receipt_encode_iff:
  "receipt_encode s = Inr bs \<longleftrightarrow> receipt_validate s = Inr () \<and> bs = receipt_image s"
  using receipt_encode_image [of s "()"] by (auto simp: receipt_encode_def result_simps)

definition limits_admit :: "InspectionLimits \<Rightarrow> ReceiptStatement \<Rightarrow> bool" where
  "limits_admit l s \<longleftrightarrow> limits_validate l = Inr () \<and> length (receipt_image s) \<le> il_statement_bytes_max l \<and>
     list_all (\<lambda>v. length v \<le> il_text_bytes_max l) (statement_texts s) \<and>
     list_all (\<lambda>v. length (text_field v) \<le> il_text_bytes_max l) (statement_optional_texts s)"

lemma rtext_field_read:
  assumes "t \<noteq> 255" "length (text_field v) \<le> m" "pred_option (ascii_text 512) v"
    "small (pre @ frame t (text_field v) @ rest)"
  shows "pcheck (rtext t) (\<lambda>x. Inr (empty_as_none x)) (rcur m pre (frame t (text_field v) @ rest) t) =
    Inr (v, rcur m (pre @ frame t (text_field v)) rest (t + 1))"
proof (cases v)
  case None
  have "text_is_ascii []" by (simp add: text_is_ascii_def as_bytes_def)
  with None assms rtext_read(1) [of t "[]" m pre rest] show ?thesis
    by (simp add: pcheck_def empty_as_none_def as_bytes_def)
next
  case (Some s)
  with assms show ?thesis
    by (simp add: pcheck_def empty_as_none_def ascii_text_def)
qed

lemma generation_field_read:
  assumes "t \<noteq> 255" "pred_option (\<lambda>w. 0 \<le> sint w) g" "small (pre @ frame t (word_field g) @ rest)"
  shows "pcheck (rtake t) decode_generation (rcur m pre (frame t (word_field g) @ rest) t) =
    Inr (g, rcur m (pre @ frame t (word_field g)) rest (t + 1))"
  using assms decode_generation_iff [of "word_field g" g] by (simp add: pcheck_def)

lemma replica_field_read:
  assumes "t \<noteq> 255" "pred_option (\<lambda>w. 0 \<le> sint w) g" "small (pre @ frame t (word_field g) @ rest)"
  shows "pcheck (rtake t) decode_replica_count (rcur m pre (frame t (word_field g) @ rest) t) =
    Inr (g, rcur m (pre @ frame t (word_field g)) rest (t + 1))"
  using assms decode_replica_count_iff [of "word_field g" g] by (simp add: pcheck_def)

lemma result_field_read:
  assumes "t \<noteq> 255" "small (pre @ frame t (as_receipt_bytes res) @ rest)"
  shows "pcheck (rtake t) from_receipt_bytes (rcur m pre (frame t (as_receipt_bytes res) @ rest) t) =
    Inr (res, rcur m (pre @ frame t (as_receipt_bytes res)) rest (t + 1))"
  using assms from_receipt_bytes_iff [of "as_receipt_bytes res" res] by (simp add: pcheck_def)

lemma constant_field_read:
  assumes "t \<noteq> 255"
  shows "small (pre @ frame t v @ rest) \<Longrightarrow>
      pcheck (rtake t) (\<lambda>x. if x \<noteq> v then Inl e else Inr ()) (rcur m pre (frame t v @ rest) t) =
      Inr ((), rcur m (pre @ frame t v) rest (t + 1))"
    and "small (pre @ frame t v) \<Longrightarrow>
      pcheck (rtake t) (\<lambda>x. if x \<noteq> v then Inl e else Inr ()) (rcur m pre (frame t v) t) =
      Inr ((), rcur m (pre @ frame t v) [] (t + 1))"
  using assms by (simp_all add: pcheck_def)

lemmas field_reads = rtext_field_read generation_field_read replica_field_read result_field_read
  constant_field_read

lemma receipt_generations_nonneg:
  assumes "receipt_validate s = Inr u"
  shows "pred_option (\<lambda>w. 0 \<le> sint w) (rs_current_generation s)"
    "pred_option (\<lambda>w. 0 \<le> sint w) (rs_observed_generation s)"
    "pred_option (\<lambda>w. 0 \<le> sint w) (rs_desired_replicas s)"
    "pred_option (\<lambda>w. 0 \<le> sint w) (rs_updated_replicas s)"
    "pred_option (\<lambda>w. 0 \<le> sint w) (rs_available_replicas s)"
    "pred_option (\<lambda>w. 0 \<le> sint w) (rs_unavailable_replicas s)"
  using assms by (simp_all add: receipt_validate_iff observation_validate_iff receipt_observation_def)

lemma receipt_parse_image:
  assumes valid: "receipt_validate s = Inr u" and lim: "limits_admit l s"
    and gen: "pred_option (\<lambda>w. 0 \<le> sint w) (rs_requested_generation s)"
  shows "receipt_parse (receipt_image s) l = Inr s"
proof -
  have sm: "small (receipt_image s)"
    by (rule smallI [OF length_receipt_image [OF valid]]) simp
  have ascii: "text_is_ascii v" if "v \<in> set (statement_texts s)" for v
    using statement_texts_ascii [OF valid] that by (auto simp: list_all_iff ascii_text_def)
  note facts = statement_optional_ascii [OF valid] receipt_generations_nonneg [OF valid]
  have "bounded (receipt_image s) (il_statement_bytes_max l) = Inr ()"
    using lim by (simp add: bounded_def limits_admit_def)
  moreover have "limits_validate l = Inr ()" "il_text_bytes_max l = m" if "m = il_text_bytes_max l" for m
    using lim that by (simp_all add: limits_admit_def)
  ultimately show ?thesis
    using sm facts lim gen valid ascii
    by (cases s; cases "rs_approved_target s")
      (simp_all add: receipt_parse_def receipt_fields_def receipt_image_def limits_admit_def pbind_def Let_def
      statement_texts_def statement_optional_texts_def field_reads rtake_approved_def bounded_def)
qed

section \<open>Parsed bytes are canonical\<close>

text \<open>
  \<open>reads f m pre rest t y\<close>: running \<open>f\<close> on the reader that has consumed \<open>pre\<close>, has \<open>rest\<close> left and
  expects tag \<open>t\<close> succeeds with \<open>y\<close>. The elimination rules peel one field from a parser.
\<close>

definition reads :: "(RRecords \<Rightarrow> (ReceiptError, 'y) result) \<Rightarrow> nat \<Rightarrow> bytes \<Rightarrow> bytes \<Rightarrow> byte \<Rightarrow> 'y \<Rightarrow> bool" where
  "reads f m pre rest t y \<longleftrightarrow> f (rcur m pre rest t) = Inr y \<and> small (pre @ rest)"

lemma reads_takeE:
  assumes "reads (pbind (pcheck (rtake s) g) f) m pre rest t y"
  obtains v x rest' where "rest = frame s v @ rest'" "g v = Inr x"
    "reads (f x) m (pre @ frame s v) rest' (t + 1) y"
proof -
  from assms obtain v x r where take: "rtake s (rcur m pre rest t) = Inr (v, r)" and g: "g v = Inr x"
    and f: "f x r = Inr y" and sm: "small (pre @ rest)"
    by (auto simp: reads_def result_simps)
  from rr.take_sound [OF take sm] obtain rest' where "s = t" "rest = frame s v @ rest'"
    "r = rcur m (pre @ frame s v) rest' (t + 1)" by auto
  with that g f sm show thesis by (simp add: reads_def)
qed

lemma reads_textE:
  assumes "reads (pbind (rtext s) f) m pre rest t y"
  obtains v rest' where "rest = frame s (as_bytes v) @ rest'" "length v \<le> m"
    "reads (f v) m (pre @ frame s (as_bytes v)) rest' (t + 1) y"
proof -
  let ?g = "\<lambda>bs. if length bs \<le> m \<and> is_ascii bs then ok_or InvalidValue (from_utf8 bs) else Inl InvalidValue"
  from assms obtain bs v r where "rtake s (rcur m pre rest t) = Inr (bs, r)" "length bs \<le> m" "is_ascii bs"
    "from_utf8 bs = Some v" "f v r = Inr y" "small (pre @ rest)"
    by (auto simp: reads_def pbind_eq_Inr rtext_def rbind_eq_Inr split: if_splits)
  then have "reads (pbind (pcheck (rtake s) ?g) f) m pre rest t y"
    by (simp add: reads_def pbind_def pcheck_def)
  then show thesis
  proof (rule reads_takeE)
    fix bs x rest'
    assume "rest = frame s bs @ rest'" "?g bs = Inr x" "reads (f x) m (pre @ frame s bs) rest' (t + 1) y"
    then show thesis
      using that [of x rest'] by (auto simp: from_utf8_eq_Some split: if_splits)
  qed
qed

lemma reads_optionalE:
  assumes "reads (pbind (pcheck (rtext s) (\<lambda>x. Inr (empty_as_none x))) f) m pre rest t y"
  obtains v rest' where "rest = frame s (text_field v) @ rest'" "length (text_field v) \<le> m"
    "reads (f v) m (pre @ frame s (text_field v)) rest' (t + 1) y"
proof -
  have "reads (pbind (rtext s) (\<lambda>x. f (empty_as_none x))) m pre rest t y"
    using assms by (auto simp: reads_def pbind_eq_Inr pcheck_eq_Inr)
  then show thesis
  proof (rule reads_textE)
    fix v rest'
    assume "rest = frame s (as_bytes v) @ rest'" "length v \<le> m"
      "reads (f (empty_as_none v)) m (pre @ frame s (as_bytes v)) rest' (t + 1) y"
    moreover have "text_field (empty_as_none v) = as_bytes v"
      by (simp add: empty_as_none_def as_bytes_def)
    ultimately show thesis using that [of "empty_as_none v" rest'] by simp
  qed
qed

definition approved_frames :: "ApprovedTarget option \<Rightarrow> bytes" where
  "approved_frames a = (case a of None \<Rightarrow> []
     | Some t \<Rightarrow> frame 28 (as_bytes (at_uid t)) @ frame 29 (as_bytes (at_resource_version t)))"

lemma reads_approvedE:
  assumes "reads (pbind (rtake_approved b) f) m pre rest t y"
  obtains a rest' t' where "rest = approved_frames a @ rest'" "b \<longleftrightarrow> a \<noteq> None"
    "list_all (\<lambda>v. length v \<le> m) (case a of None \<Rightarrow> [] | Some t \<Rightarrow> [at_uid t, at_resource_version t])"
    "reads (f a) m (pre @ approved_frames a) rest' t' y"
proof (cases b)
  case False
  with assms that [of None rest t] show thesis
    by (simp add: reads_def pbind_def rtake_approved_def approved_frames_def)
next
  case True
  with assms have "reads (pbind (rtext 28) (\<lambda>uid. pbind (rtext 29) (\<lambda>version.
      f (Some \<lparr>at_uid = uid, at_resource_version = version\<rparr>)))) m pre rest t y"
    by (auto simp: reads_def pbind_def rtake_approved_def rbind_assoc split_def)
  then show thesis
    by (elim reads_textE)
      (rule that [of "Some \<lparr>at_uid = v, at_resource_version = w\<rparr>" for v w],
        use True in \<open>simp_all add: approved_frames_def\<close>)
qed

lemmas reads_elims = reads_takeE reads_textE reads_optionalE reads_approvedE

lemma receipt_parse_sound:
  assumes parse: "receipt_parse bs l = Inr s"
  shows "bs = receipt_image s \<and> receipt_validate s = Inr () \<and> limits_admit l s \<and>
    pred_option (\<lambda>w. 0 \<le> sint w) (rs_requested_generation s)"
proof -
  from parse have lim: "limits_validate l = Inr ()" "length bs \<le> il_statement_bytes_max l"
    by (auto simp: receipt_parse_def result_simps bounded_def split: if_splits)
  then have "length bs \<le> 8192"
    by (auto simp: limits_validate_def receipt_bounds split: if_splits)
  then have sm: "small bs" by (rule smallI) simp
  define b where "b = starts_with bs R_SNAPSHOT_STATEMENT_MAGIC"
  from parse lim obtain rest where bs: "bs = (if b then R_SNAPSHOT_STATEMENT_MAGIC else STATEMENT_MAGIC) @ rest"
    and "receipt_fields b (rcur (il_text_bytes_max l) (if b then R_SNAPSHOT_STATEMENT_MAGIC else STATEMENT_MAGIC) rest 1) = Inr s"
    by (auto simp: receipt_parse_def b_def [symmetric] rbind_eq_Inr rr.new_iff Let_def)
  with sm have "reads (receipt_fields b) (il_text_bytes_max l)
      (if b then R_SNAPSHOT_STATEMENT_MAGIC else STATEMENT_MAGIC) rest 1 s"
    by (simp add: reads_def)
  then show ?thesis
    unfolding receipt_fields_def
    apply (elim reads_elims)
    apply (simp only: reads_def Let_def rbind_eq_Inr rfinish_iff decode_generation_iff decode_replica_count_iff
      from_receipt_bytes_iff)
    apply clarify
    using bs lim
    apply (simp add: if_error_iff receipt_image_def limits_admit_def approved_frames_def
        statement_texts_def statement_optional_texts_def)
    done
qed

lemma receipt_parse_iff: "receipt_parse bs l = Inr s \<longleftrightarrow>
    bs = receipt_image s \<and> receipt_validate s = Inr () \<and> limits_admit l s \<and>
    pred_option (\<lambda>w. 0 \<le> sint w) (rs_requested_generation s)"
  using receipt_parse_sound receipt_parse_image by blast

section \<open>Envelopes\<close>

definition envelope_image :: "bytes \<Rightarrow> string \<Rightarrow> string \<Rightarrow> bytes \<Rightarrow> bytes \<Rightarrow> bytes" where
  "envelope_image magic purpose key_id statement sig =
     magic @ frame 1 (as_bytes purpose) @ frame 2 (as_bytes key_id) @ frame 3 statement @ frame 4 sig"

lemma length_envelope_image [simp]: "length (envelope_image magic purpose key_id statement sig) =
    length magic + length purpose + length key_id + length statement + length sig + 20"
  by (simp add: envelope_image_def)

lemma sign_envelope_image:
  assumes "length magic + length purpose + length key_id + length statement \<le> 16000"
    "ascii_text 512 purpose" "ascii_text 512 key_id"
    "length (sign_with C seed (signature_input purpose statement)) = 64"
  shows "sign_envelope C statement magic purpose seed key_id = Inr (envelope_image magic purpose key_id statement
    (sign_with C seed (signature_input purpose statement)))"
  using assms
  by (simp add: sign_envelope_def Let_def result_simps push_field_iffs envelope_image_def receipt_bounds)

definition envelope_of :: "string \<Rightarrow> string \<Rightarrow> bytes \<Rightarrow> 's \<Rightarrow> bytes \<Rightarrow> 's ReceiptEnvelope" where
  "envelope_of purpose key_id statement st sig =
     \<lparr>env_accepted_purpose = purpose, env_key_id = key_id, env_statement_bytes = statement,
      env_statement = st, env_signature = sig\<rparr>"

lemma limits_small:
  assumes "limits_validate l = Inr u" "length bs \<le> il_receipt_bytes_max l"
  shows "small bs"
proof -
  have "length bs \<le> 16384"
    using assms by (auto simp: limits_validate_def receipt_bounds split: if_splits)
  then show ?thesis by (rule smallI) simp
qed

lemma parse_envelope_image:
  assumes "limits_validate l = Inr u" "length (envelope_image magic purpose key_id statement sig) \<le> il_receipt_bytes_max l"
    "length purpose \<le> il_text_bytes_max l" "text_is_ascii purpose" "length key_id \<le> il_text_bytes_max l"
    "identity_is_valid key_id" "parse_st statement = Inr st" "length sig = 64"
  shows "parse_envelope (envelope_image magic purpose key_id statement sig) magic purpose l parse_st =
    Inr (envelope_of purpose key_id statement st sig)"
proof -
  have "small (envelope_image magic purpose key_id statement sig)"
    using assms by (intro limits_small)
  moreover have "text_is_ascii key_id"
    using identity_ascii [OF assms(6)] by (simp add: ascii_text_def)
  ultimately show ?thesis
    using assms
    by (simp add: parse_envelope_def bounded_def envelope_image_def pbind_def pcheck_def array_def
        validate_key_id_def envelope_of_def)
qed

lemma parse_envelope_sound:
  assumes "parse_envelope bs magic purpose l parse_st = Inr e"
  shows "\<exists>key_id statement st sig. bs = envelope_image magic purpose key_id statement sig \<and>
    e = envelope_of purpose key_id statement st sig \<and> limits_validate l = Inr () \<and>
    length bs \<le> il_receipt_bytes_max l \<and> length purpose \<le> il_text_bytes_max l \<and>
    length key_id \<le> il_text_bytes_max l \<and> identity_is_valid key_id \<and>
    parse_st statement = Inr st \<and> length sig = 64"
proof -
  from assms have lim: "limits_validate l = Inr ()" "length bs \<le> il_receipt_bytes_max l"
    by (auto simp: parse_envelope_def result_simps bounded_def split: if_splits)
  then have "small bs" by (rule limits_small)
  with assms lim show ?thesis
    by (auto simp: parse_envelope_def result_simps rr.new_iff if_error_iff envelope_image_def envelope_of_def
        dest!: rtext_sound rtake_sound)
qed

definition receipt_purpose :: "ReceiptStatement \<Rightarrow> string" where
  "receipt_purpose s = (if rs_approved_target s \<noteq> None then R_SNAPSHOT_PURPOSE else PURPOSE)"

definition signed_image :: "ReceiptStatement \<Rightarrow> string \<Rightarrow> bytes \<Rightarrow> bytes" where
  "signed_image s key_id sig =
     envelope_image (if rs_approved_target s \<noteq> None then SNAPSHOT_RECEIPT_MAGIC else RECEIPT_MAGIC)
       (receipt_purpose s) key_id (receipt_image s) sig"

text \<open>What the code that freezes a statement guarantees of it.\<close>

definition frozen_statement :: "ReceiptStatement \<Rightarrow> bool" where
  "frozen_statement s \<longleftrightarrow> receipt_validate s = Inr () \<and>
     pred_option (\<lambda>w. 0 \<le> sint w) (rs_requested_generation s)"

lemma statement_purpose_image [simp]: "statement_purpose (receipt_image s) = receipt_purpose s"
  by (auto simp: statement_purpose_def receipt_image_def receipt_purpose_def)

lemma receipt_purpose_ascii: "ascii_text 512 (receipt_purpose s)" "length (receipt_purpose s) = 43"
proof -
  have "ascii_text 512 R_SNAPSHOT_PURPOSE" "ascii_text 512 PURPOSE" by code_simp+
  then show "ascii_text 512 (receipt_purpose s)" "length (receipt_purpose s) = 43"
    by (simp_all add: receipt_purpose_def)
qed

lemma sign_statement_image:
  assumes "receipt_validate s = Inr u" "identity_is_valid key_id"
    "length (sign_with C seed (signature_input (receipt_purpose s) (receipt_image s))) = 64"
  shows "sign_statement C s seed key_id =
    Inr (signed_image s key_id (sign_with C seed (signature_input (receipt_purpose s) (receipt_image s))))"
proof -
  have "ascii_text 128 key_id" using assms(2) by (rule identity_ascii)
  then have "ascii_text 512 key_id" "length key_id \<le> 128"
    by (auto simp: ascii_text_def)
  then show ?thesis
    using sign_envelope_image [of _ "receipt_purpose s" key_id "receipt_image s" C seed] assms
      length_receipt_image [OF assms(1)] receipt_purpose_ascii [of s]
    by (simp add: sign_statement_def receipt_encode_image validate_key_id_def signed_image_def)
qed

lemma default_limits_valid [simp]: "limits_validate default_limits = Inr ()"
  by (simp add: limits_validate_def default_limits_def receipt_bounds)

lemma default_limits_admit: "receipt_validate s = Inr u \<Longrightarrow> limits_admit default_limits s"
  using length_receipt_image [of s u] statement_texts_ascii [of s u] statement_optional_ascii [of s u]
  by (auto simp: limits_admit_def list_all_iff ascii_text_def intro: length_text_field)
    (auto simp: default_limits_def receipt_bounds dest!: length_text_field bspec)

definition limits_admit_receipt :: "InspectionLimits \<Rightarrow> ReceiptStatement \<Rightarrow> string \<Rightarrow> bytes \<Rightarrow> bool" where
  "limits_admit_receipt l s key_id sig \<longleftrightarrow> limits_admit l s \<and>
     length (signed_image s key_id sig) \<le> il_receipt_bytes_max l \<and>
     length (receipt_purpose s) \<le> il_text_bytes_max l \<and> length key_id \<le> il_text_bytes_max l"

lemma parse_receipt_envelope_iff: "parse_receipt_envelope bs l = Inr e \<longleftrightarrow>
    (\<exists>s key_id sig. bs = signed_image s key_id sig \<and>
      e = envelope_of (receipt_purpose s) key_id (receipt_image s) s sig \<and>
      frozen_statement s \<and> identity_is_valid key_id \<and> length sig = 64 \<and> limits_admit_receipt l s key_id sig)"
  (is "?l \<longleftrightarrow> ?r")
proof
  let ?b = "starts_with bs SNAPSHOT_RECEIPT_MAGIC"
  assume ?l
  then have "parse_envelope bs (if ?b then SNAPSHOT_RECEIPT_MAGIC else RECEIPT_MAGIC)
      (if ?b then R_SNAPSHOT_PURPOSE else PURPOSE) l
      (\<lambda>bs. rbind (receipt_parse bs l) (\<lambda>statement.
         if (rs_approved_target statement \<noteq> None) \<noteq> ?b then Inl InvalidValue else Inr statement)) = Inr e"
    unfolding parse_receipt_envelope_def Let_def .
  from parse_envelope_sound [OF this] obtain key_id statement s sig where
    bs: "bs = envelope_image (if ?b then SNAPSHOT_RECEIPT_MAGIC else RECEIPT_MAGIC)
      (if ?b then R_SNAPSHOT_PURPOSE else PURPOSE) key_id statement sig"
    and e: "e = envelope_of (if ?b then R_SNAPSHOT_PURPOSE else PURPOSE) key_id statement s sig"
    and len: "length bs \<le> il_receipt_bytes_max l"
      "length (if ?b then R_SNAPSHOT_PURPOSE else PURPOSE) \<le> il_text_bytes_max l"
      "length key_id \<le> il_text_bytes_max l" "identity_is_valid key_id" "length sig = 64"
    and "rbind (receipt_parse statement l) (\<lambda>statement.
         if (rs_approved_target statement \<noteq> None) \<noteq> ?b then Inl InvalidValue else Inr statement) = Inr s"
    by (elim exE conjE)
  then have parse: "receipt_parse statement l = Inr s" and snap: "?b \<longleftrightarrow> rs_approved_target s \<noteq> None"
    by (auto simp: rbind_eq_Inr if_error_iff)
  show ?r
    using bs e len parse unfolding snap
    by (intro exI [of _ s] exI [of _ key_id] exI [of _ sig])
      (simp add: receipt_parse_iff signed_image_def receipt_purpose_def frozen_statement_def limits_admit_receipt_def)
next
  assume ?r
  then obtain s key_id sig where r: "bs = signed_image s key_id sig"
      "e = envelope_of (receipt_purpose s) key_id (receipt_image s) s sig"
      "frozen_statement s" "identity_is_valid key_id" "length sig = 64" "limits_admit_receipt l s key_id sig"
    by blast
  have b: "starts_with bs SNAPSHOT_RECEIPT_MAGIC \<longleftrightarrow> rs_approved_target s \<noteq> None"
    using r(1) by (auto simp: signed_image_def envelope_image_def)
  have "receipt_parse (receipt_image s) l = Inr s"
    using r by (simp add: receipt_parse_iff frozen_statement_def limits_admit_receipt_def)
  moreover have "limits_validate l = Inr ()" "text_is_ascii (receipt_purpose s)"
    using r receipt_purpose_ascii [of s] by (simp_all add: limits_admit_receipt_def limits_admit_def ascii_text_def)
  ultimately show ?l
    using r b unfolding parse_receipt_envelope_def Let_def b signed_image_def limits_admit_receipt_def
    by (simp add: parse_envelope_image receipt_purpose_def split: if_splits)
qed

lemma default_limits_admit_receipt:
  assumes "receipt_validate s = Inr u" "identity_is_valid key_id" "length sig = 64"
  shows "limits_admit_receipt default_limits s key_id sig"
proof -
  have "length key_id \<le> 128"
    using identity_ascii [OF assms(2)] by (simp add: ascii_text_def)
  then show ?thesis
    using default_limits_admit [OF assms(1)] length_receipt_image [OF assms(1)] assms(3)
      receipt_purpose_ascii(2) [of s]
    by (simp add: limits_admit_receipt_def signed_image_def) (simp add: default_limits_def receipt_bounds)
qed

lemma decode_frozen_receipt_iff: "decode_frozen_receipt bs = Inr (key_id, s) \<longleftrightarrow>
    (\<exists>sig. bs = signed_image s key_id sig \<and> frozen_statement s \<and> identity_is_valid key_id \<and> length sig = 64)"
  (is "?l \<longleftrightarrow> ?r")
proof
  assume ?l
  then show ?r
    by (auto simp: decode_frozen_receipt_def rbind_eq_Inr parse_receipt_envelope_iff envelope_of_def)
next
  assume ?r
  then obtain sig where r: "bs = signed_image s key_id sig" "frozen_statement s" "identity_is_valid key_id"
    "length sig = 64" by blast
  then have "parse_receipt_envelope bs default_limits =
      Inr (envelope_of (receipt_purpose s) key_id (receipt_image s) s sig)"
    using default_limits_admit_receipt [of s "()" key_id sig]
    by (auto simp: parse_receipt_envelope_iff frozen_statement_def)
  then show ?l
    by (simp add: decode_frozen_receipt_def envelope_of_def)
qed

text \<open>The trust document accepts the key for the purpose at this time.\<close>

definition trust_accepts :: "ReceiptTrust \<Rightarrow> string \<Rightarrow> string \<Rightarrow> i64 \<Rightarrow> bool" where
  "trust_accepts t purpose key_id time \<longleftrightarrow> gt_accepted_purpose t = purpose \<and> gt_key_id t = key_id \<and>
     sint (gt_not_before_unix_s t) \<le> sint time \<and> sint time < sint (gt_not_after_unix_s t)"

lemma authenticate_inspected: "authenticate C (envelope_of p k m s sig) t time = Inr st \<and> st \<noteq> UntrustedSignerStatus \<longleftrightarrow>
    st = Inspected \<and> key_valid C (gt_public_key t) \<and>
    verify_strict C (gt_public_key t) (signature_input p m) sig \<and> trust_accepts t p k time"
  by (cases st) (auto simp: authenticate_def envelope_of_def trust_accepts_def Let_def)

lemma env_statement_of [simp]: "env_statement (envelope_of p k m s sig) = s"
  by (simp add: envelope_of_def)

definition receipt_accepted ::
    "crypto \<Rightarrow> bytes \<Rightarrow> bytes \<Rightarrow> i64 \<Rightarrow> InspectionLimits \<Rightarrow> ReceiptStatement \<Rightarrow> string \<Rightarrow> bytes \<Rightarrow> ReceiptTrust \<Rightarrow> bool" where
  "receipt_accepted C bs trust time l s key_id sig t \<longleftrightarrow>
     bs = signed_image s key_id sig \<and> frozen_statement s \<and> identity_is_valid key_id \<and>
     length sig = 64 \<and> limits_admit_receipt l s key_id sig \<and> receipt_trust_parse trust l = Inr t \<and>
     key_valid C (gt_public_key t) \<and>
     verify_strict C (gt_public_key t) (signature_input (receipt_purpose s) (receipt_image s)) sig \<and>
     trust_accepts t (receipt_purpose s) key_id time"

lemma inspect_inner_iff: "inspect_inner C bs trust time l = Inr s \<longleftrightarrow>
    (\<exists>key_id sig t. receipt_accepted C bs trust time l s key_id sig t)"
  (is "?l \<longleftrightarrow> ?r")
proof
  assume ?l
  then obtain e t st where e: "parse_receipt_envelope bs l = Inr e" and t: "receipt_trust_parse trust l = Inr t"
    and st: "authenticate C e t time = Inr st" "st \<noteq> UntrustedSignerStatus" and s: "env_statement e = s"
    by (auto simp: inspect_inner_def rbind_eq_Inr if_error_iff)
  from e s obtain key_id sig where r: "bs = signed_image s key_id sig"
    "e = envelope_of (receipt_purpose s) key_id (receipt_image s) s sig" "frozen_statement s"
    "identity_is_valid key_id" "length sig = 64" "limits_admit_receipt l s key_id sig"
    by (auto simp: parse_receipt_envelope_iff)
  with st t authenticate_inspected show ?r
    unfolding receipt_accepted_def by metis
next
  assume ?r
  then obtain key_id sig t where r: "receipt_accepted C bs trust time l s key_id sig t"
    by blast
  let ?e = "envelope_of (receipt_purpose s) key_id (receipt_image s) s sig"
  from r have "parse_receipt_envelope bs l = Inr ?e"
    by (auto simp: parse_receipt_envelope_iff receipt_accepted_def)
  moreover have "authenticate C ?e t time = Inr Inspected"
    using r authenticate_inspected [of C _ _ _ s sig t time Inspected] by (simp add: receipt_accepted_def)
  ultimately show ?l
    using r by (simp add: inspect_inner_def receipt_accepted_def)
qed

section \<open>Properties\<close>

text \<open>
  Receipt statements are canonical: bytes parse to a statement exactly when they are the
  encoding of that statement, it fits the caller's limits and its requested generation is not
  negative. Parsing includes validation, so every parsed result was recomputed from the
  disclosed facts.
\<close>

theorem receipt_statement_canonical:
  "receipt_parse bs l = Inr s \<longleftrightarrow>
    receipt_encode s = Inr bs \<and> limits_admit l s \<and>
    pred_option (\<lambda>w. 0 \<le> sint w) (rs_requested_generation s)"
  by (auto simp: receipt_parse_iff receipt_encode_iff)

text \<open>
  A frozen statement can always be signed and read back: for a valid statement with a
  non-negative requested generation and a valid key identity, signing produces at most
  16 KiB, and decoding those bytes returns the key identity and exactly that statement.
\<close>

theorem frozen_receipt_roundtrip:
  assumes "crypto_ok C" "length seed = 32" "frozen_statement s" "identity_is_valid key_id"
  shows "\<exists>bs. sign_statement C s seed key_id = Inr bs \<and> length bs \<le> RECEIPT_BYTES_MAX \<and>
    decode_frozen_receipt bs = Inr (key_id, s)"
proof -
  let ?sig = "sign_with C seed (signature_input (receipt_purpose s) (receipt_image s))"
  have valid: "receipt_validate s = Inr ()"
    using assms(3) by (simp add: frozen_statement_def)
  have sig: "length ?sig = 64"
    using crypto_okD(3) [OF assms(1,2)] .
  then have "sign_statement C s seed key_id = Inr (signed_image s key_id ?sig)"
    using sign_statement_image [OF valid assms(4)] by blast
  moreover have "length (signed_image s key_id ?sig) \<le> RECEIPT_BYTES_MAX"
    using default_limits_admit_receipt [OF valid assms(4) sig]
    by (simp add: limits_admit_receipt_def default_limits_def)
  moreover have "decode_frozen_receipt (signed_image s key_id ?sig) = Inr (key_id, s)"
    using assms sig by (auto simp: decode_frozen_receipt_iff)
  ultimately show ?thesis by blast
qed

text \<open>
  C14. The inspector reports \<open>Inspected\<close> with a statement exactly when the bytes are the canonical
  envelope of that valid statement, the supplied trust parses within the limits, the trust's
  key strictly verifies the signature over the statement under its version's purpose, and the
  trust names that key and purpose with the evaluation time inside its half-open interval.
\<close>

theorem inspected_iff:
  "inspect_receipt C bs trust time l = \<lparr>ir_status = Inspected, ir_statement = Some s\<rparr> \<longleftrightarrow>
    (\<exists>key_id sig t. receipt_accepted C bs trust time l s key_id sig t)"
proof -
  have "inspect_receipt C bs trust time l = \<lparr>ir_status = Inspected, ir_statement = Some s\<rparr> \<longleftrightarrow>
      inspect_inner C bs trust time l = Inr s"
    by (auto simp: inspect_receipt_def split: sum.splits ReceiptError.splits)
  then show ?thesis by (simp add: inspect_inner_iff)
qed

definition example_statement :: ReceiptStatement where
  "example_statement = \<lparr>
     rs_approved_target = Some \<lparr>at_uid = ''uid-1'', at_resource_version = ''42''\<rparr>,
     rs_operation_id = ''op-1'', rs_authorization_id = ''grant-1'',
     rs_authorization_signer_key_id = ''operator'',
     rs_authorization_grant_digest = replicate 64 (CHR ''0''),
     rs_namespace = ''prod'', rs_deployment = ''web.api'', rs_container = ''app'',
     rs_immutable_image_digest = ''reg/app@sha256:'' @ replicate 64 (CHR ''a''),
     rs_write_strategy = WRITE_STRATEGY, rs_target_uid = ''uid-1'', rs_target_resource_version = ''42'',
     rs_receiver_uid = Some ''uid-1'',
     rs_observed_image = Some (''reg/app@sha256:'' @ replicate 64 (CHR ''a'')),
     rs_observed_operation_marker = Some ''op-1'',
     rs_current_generation = Some 8, rs_requested_generation = Some 8, rs_observed_generation = Some 8,
     rs_observed_resource_version = Some ''50'',
     rs_desired_replicas = Some 2, rs_updated_replicas = Some 2, rs_available_replicas = Some 2,
     rs_unavailable_replicas = Some 0, rs_rollout_condition_type = Some ''Available'',
     rs_rollout_condition_status = Some ''True'', rs_rollout_condition_reason = None,
     rs_result = Succeeded\<rparr>"

lemma example_statement_frozen: "frozen_statement example_statement"
proof -
  have "receipt_validate example_statement = Inr ()" by code_simp
  moreover have "pred_option (\<lambda>w. 0 \<le> sint w) (rs_requested_generation example_statement)"
    by (simp add: example_statement_def)
  ultimately show ?thesis by (simp add: frozen_statement_def)
qed

theorem frozen_receipt_roundtrip_witness:
  "\<exists>bs. sign_statement example_crypto example_statement (replicate 32 9) ''receipt-key'' = Inr bs \<and>
    length bs \<le> RECEIPT_BYTES_MAX \<and> decode_frozen_receipt bs = Inr (''receipt-key'', example_statement)"
proof -
  have "identity_is_valid ''receipt-key''" by code_simp
  then show ?thesis
    using frozen_receipt_roundtrip [OF example_crypto_ok _ example_statement_frozen, of "replicate 32 9"]
    by simp
qed

end
