(* ===== verification/GitReceipt.thy ===== *)
theory GitReceipt
  imports GitFacts Receipt
begin

text \<open>
  Git evidence, \<open>src/gateway/receipt/git.rs\<close>: the statement of one attempted transition, its canonical
  codec, signing under a purpose of its own and offline inspection. The envelope, the trust
  document and the limits are those of the Kubernetes receipts.
\<close>

section \<open>Statements\<close>

definition GIT_RECEIPT_STATEMENT_MAGIC :: bytes where
  "GIT_RECEIPT_STATEMENT_MAGIC = as_bytes ''KAPSEL-GIT-REF-STATEMENT-V1'' @ [0]"

definition GIT_RECEIPT_MAGIC :: bytes where
  "GIT_RECEIPT_MAGIC = as_bytes ''KAPSEL-GIT-REF-RECEIPT-V1'' @ [0]"

definition GIT_PURPOSE :: string where
  "GIT_PURPOSE = ''kapsel.git-ref-transition-receipt.v1''"

definition GIT_NON_CLAIMS :: string where
  "GIT_NON_CLAIMS = ''no-hook-delivery;no-ci;no-deployment;no-complete-capture;no-witnessing;not-production''"

record GitStatement =
  gs_authorization :: GitRefAuthorization
  gs_authorization_signer :: string
  gs_authorization_digest :: string
  gs_acknowledgement :: Acknowledgement
  gs_observed :: ObservedRef

definition attribution :: "GitStatement \<Rightarrow> string" where
  "attribution s = (if gs_acknowledgement s = Updated then ''acknowledged_update'' else ''not_established'')"

definition git_result :: "GitStatement \<Rightarrow> OperationResult" where
  "git_result s =
     (case gs_acknowledgement s of
        Updated \<Rightarrow> Succeeded
      | RejectedBeforeSend \<Rightarrow> Failed
      | ReceiverRejected \<Rightarrow> Failed
      | AckUnknown \<Rightarrow> Unknown)"

definition observed_fields :: "ObservedRef \<Rightarrow> (ReceiptError, string \<times> string) result" where
  "observed_fields observed =
     (case observed of
        Commit c \<Rightarrow> if git_commit_id_is_valid c then Inr (''commit'', c) else Inl InvalidValue
      | Missing \<Rightarrow> Inr (''missing'', [])
      | RefUnknown \<Rightarrow> Inr (''unknown'', []))"

fun result_text :: "OperationResult \<Rightarrow> string" where
  "result_text Succeeded = ''SUCCEEDED''"
| "result_text Failed = ''FAILED''"
| "result_text Unknown = ''UNKNOWN''"

definition git_push_field :: "byte \<times> string \<Rightarrow> bytes \<Rightarrow> (ReceiptError, bytes) result" where
  "git_push_field f out = (case f of (tag, val) \<Rightarrow>
     if tag = 12 then rpush out tag (as_bytes val) STATEMENT_BYTES_MAX
     else push_text out tag val STATEMENT_BYTES_MAX)"

definition git_encode :: "GitStatement \<Rightarrow> (ReceiptError, bytes) result" where
  "git_encode s =
     (if \<not> git_authorization_is_valid (gs_authorization s) then Inl InvalidValue
      else
      rbind (validate_key_id (gs_authorization_signer s)) (\<lambda>_.
      rbind (validate_digest (gs_authorization_digest s)) (\<lambda>_.
      rbind (observed_fields (gs_observed s)) (\<lambda>(observed_kind, observed_commit).
      let authorization = gs_authorization s in
      try_fold git_push_field
        (zip [1, 2, 3, 4, 5, 6, 7, 8, 9, 10, 11, 12, 13, 14, 15]
          [ga_operation_id authorization, ga_authorization_id authorization, gs_authorization_signer s,
           gs_authorization_digest s, ga_repository_id authorization, ga_reference authorization,
           ga_old_commit authorization, ga_new_commit authorization, ''git-exact-lease'',
           ack_as_str (gs_acknowledgement s), observed_kind, observed_commit, attribution s,
           result_text (git_result s), GIT_NON_CLAIMS])
        GIT_RECEIPT_STATEMENT_MAGIC))))"

definition observed_from :: "string \<Rightarrow> string \<Rightarrow> (ReceiptError, ObservedRef) result" where
  "observed_from kind commit =
     (if kind = ''commit'' \<and> git_commit_id_is_valid commit then Inr (Commit commit)
      else if kind = ''missing'' \<and> commit = [] then Inr Missing
      else if kind = ''unknown'' \<and> commit = [] then Inr RefUnknown
      else Inl InvalidValue)"

text \<open>The records of a statement, up to the end of the input.\<close>

definition git_fields :: "RRecords \<Rightarrow> (ReceiptError, GitStatement) result" where
  "git_fields =
       (pbind (rtext 1) (\<lambda>operation_id.
        pbind (rtext 2) (\<lambda>authorization_id.
        pbind (rtext 3) (\<lambda>authorization_signer.
        pbind (rtext 4) (\<lambda>authorization_digest.
        pbind (rtext 5) (\<lambda>repository_id.
        pbind (rtext 6) (\<lambda>reference.
        pbind (rtext 7) (\<lambda>old_commit.
        pbind (rtext 8) (\<lambda>new_commit.
        pbind (pcheck (rtext 9) (\<lambda>v. if v \<noteq> ''git-exact-lease'' then Inl InvalidValue else Inr ())) (\<lambda>_.
        pbind (pcheck (rtext 10) (\<lambda>v. ok_or InvalidValue (ack_parse v))) (\<lambda>acknowledgement.
        pbind (rtext 11) (\<lambda>observed_kind.
        pbind (pcheck (rtext 12) (observed_from observed_kind)) (\<lambda>observed.
        pbind (rtext 13) (\<lambda>encoded_attribution.
        pbind (rtext 14) (\<lambda>encoded_result.
        pbind (rtext 15) (\<lambda>encoded_non_claims r.
          rbind (rfinish r) (\<lambda>_.
          Inr \<lparr>gs_authorization = \<lparr>ga_authorization_id = authorization_id,
                ga_operation_id = operation_id, ga_repository_id = repository_id, ga_reference = reference,
                ga_old_commit = old_commit, ga_new_commit = new_commit\<rparr>,
                gs_authorization_signer = authorization_signer, gs_authorization_digest = authorization_digest,
                gs_acknowledgement = acknowledgement, gs_observed = observed\<rparr>)))))))))))))))))"

definition git_parse :: "bytes \<Rightarrow> InspectionLimits \<Rightarrow> (ReceiptError, GitStatement) result" where
  "git_parse bs limits =
     rbind (bounded bs (il_statement_bytes_max limits)) (\<lambda>_.
     rbind (rrecords_new bs GIT_RECEIPT_STATEMENT_MAGIC (il_text_bytes_max limits)) (\<lambda>records.
     rbind (git_fields records) (\<lambda>statement.
     rbind (git_encode statement) (\<lambda>canonical_statement.
     if canonical_statement \<noteq> bs then Inl InvalidValue else Inr statement))))"

section \<open>Receipts\<close>

definition git_sign :: "crypto \<Rightarrow> GitStatement \<Rightarrow> bytes \<Rightarrow> string \<Rightarrow> (ReceiptError, bytes) result" where
  "git_sign C s seed key_id =
     rbind (validate_key_id key_id) (\<lambda>_.
     rbind (git_encode s) (\<lambda>statement.
     sign_envelope C statement GIT_RECEIPT_MAGIC GIT_PURPOSE seed key_id))"

definition git_envelope :: "bytes \<Rightarrow> InspectionLimits \<Rightarrow> (ReceiptError, GitStatement ReceiptEnvelope) result" where
  "git_envelope bs limits = parse_envelope bs GIT_RECEIPT_MAGIC GIT_PURPOSE limits (\<lambda>statement. git_parse statement limits)"

definition git_decode :: "bytes \<Rightarrow> (ReceiptError, string \<times> GitStatement) result" where
  "git_decode bs =
     rbind (git_envelope bs default_limits) (\<lambda>parsed. Inr (env_key_id parsed, env_statement parsed))"

definition git_inspect ::
    "crypto \<Rightarrow> bytes \<Rightarrow> bytes \<Rightarrow> i64 \<Rightarrow> InspectionLimits \<Rightarrow> InspectionStatus \<times> GitStatement option" where
  "git_inspect C bs trust time limits =
     (case git_envelope bs limits of
        Inl _ \<Rightarrow> (StructureRejected, None)
      | Inr envelope \<Rightarrow>
          (case receipt_trust_parse trust limits of
             Inl _ \<Rightarrow> (StructureRejected, None)
           | Inr trust \<Rightarrow>
               (case authenticate C envelope trust time of
                  Inr status \<Rightarrow> (status, Some (env_statement envelope))
                | Inl BadSignature \<Rightarrow> (SignatureRejected, None)
                | Inl _ \<Rightarrow> (StructureRejected, None))))"

record GitInspectionReport =
  gr_status :: InspectionStatus
  gr_statement :: "GitStatement option"

definition inspect_git_receipt :: "crypto \<Rightarrow> bytes \<Rightarrow> bytes \<Rightarrow> i64 \<Rightarrow> InspectionLimits \<Rightarrow> GitInspectionReport" where
  "inspect_git_receipt C bs trust time limits =
     (case git_inspect C bs trust time limits of (status, statement) \<Rightarrow>
        \<lparr>gr_status = status, gr_statement = statement\<rparr>)"

section \<open>The canonical statement\<close>

lemma length_git_receipt_constants [simp]:
  "length GIT_RECEIPT_STATEMENT_MAGIC = 28" "length GIT_RECEIPT_MAGIC = 26" "length GIT_PURPOSE = 36" "length GIT_NON_CLAIMS = 85"
  by (simp_all add: GIT_RECEIPT_STATEMENT_MAGIC_def GIT_RECEIPT_MAGIC_def GIT_PURPOSE_def GIT_NON_CLAIMS_def)

fun observed_kind :: "ObservedRef \<Rightarrow> string" where
  "observed_kind (Commit c) = ''commit''"
| "observed_kind Missing = ''missing''"
| "observed_kind RefUnknown = ''unknown''"

fun observed_commit :: "ObservedRef \<Rightarrow> string" where
  "observed_commit (Commit c) = c"
| "observed_commit Missing = []"
| "observed_commit RefUnknown = []"

definition git_statement_valid :: "GitStatement \<Rightarrow> bool" where
  "git_statement_valid s \<longleftrightarrow> git_authorization_is_valid (gs_authorization s) \<and>
     identity_is_valid (gs_authorization_signer s) \<and> validate_digest (gs_authorization_digest s) = Inr () \<and>
     (case gs_observed s of Commit c \<Rightarrow> git_commit_id_is_valid c | _ \<Rightarrow> True)"

definition git_receipt_texts :: "GitStatement \<Rightarrow> string list" where
  "git_receipt_texts s =
     [ga_operation_id (gs_authorization s), ga_authorization_id (gs_authorization s), gs_authorization_signer s,
      gs_authorization_digest s, ga_repository_id (gs_authorization s), ga_reference (gs_authorization s),
      ga_old_commit (gs_authorization s), ga_new_commit (gs_authorization s), ''git-exact-lease'',
      ack_as_str (gs_acknowledgement s), observed_kind (gs_observed s), observed_commit (gs_observed s),
      attribution s, result_text (git_result s), GIT_NON_CLAIMS]"

definition git_receipt_image :: "GitStatement \<Rightarrow> bytes" where
  "git_receipt_image s = GIT_RECEIPT_STATEMENT_MAGIC @
     concat (map (\<lambda>(tag, v). frame tag (as_bytes v))
       (zip [1, 2, 3, 4, 5, 6, 7, 8, 9, 10, 11, 12, 13, 14, 15] (git_receipt_texts s)))"

lemma observed_fields_iff: "observed_fields ob = Inr (k, c) \<longleftrightarrow>
    k = observed_kind ob \<and> c = observed_commit ob \<and> (case ob of Commit c \<Rightarrow> git_commit_id_is_valid c | _ \<Rightarrow> True)"
  by (cases ob) (auto simp: observed_fields_def)

lemma observed_from_fields:
  "(case ob of Commit c \<Rightarrow> git_commit_id_is_valid c | _ \<Rightarrow> True) \<Longrightarrow>
    observed_from (observed_kind ob) (observed_commit ob) = Inr ob"
  by (cases ob) (simp_all add: observed_from_def)

lemma git_fixed_texts [simp]:
  "text_is_ascii ''git-exact-lease''" "text_is_ascii (ack_as_str a)" "text_is_ascii (observed_kind ob)"
  "text_is_ascii (attribution s)" "text_is_ascii (result_text r)" "text_is_ascii GIT_NON_CLAIMS" "text_is_ascii GIT_PURPOSE"
proof -
  show "text_is_ascii ''git-exact-lease''" "text_is_ascii GIT_NON_CLAIMS" "text_is_ascii GIT_PURPOSE" by code_simp+
  show "text_is_ascii (ack_as_str a)" by (cases a; simp; code_simp)
  show "text_is_ascii (observed_kind ob)" by (cases ob; simp; code_simp)
  show "text_is_ascii (result_text r)" by (cases r; simp; code_simp)
  have "text_is_ascii ''acknowledged_update''" "text_is_ascii ''not_established''" by code_simp+
  then show "text_is_ascii (attribution s)" by (simp add: attribution_def)
qed

lemma git_fixed_lengths:
  "length (ack_as_str a) \<le> 20" "ack_as_str a \<noteq> []" "length (observed_kind ob) \<le> 7" "observed_kind ob \<noteq> []"
  "length (attribution s) \<le> 19" "attribution s \<noteq> []" "length (result_text r) \<le> 9" "result_text r \<noteq> []"
  by (cases a; cases ob; cases r; simp add: attribution_def)+

lemma git_statement_texts:
  assumes "git_statement_valid s"
  shows "list_all text_is_ascii (git_receipt_texts s)" "list_all (\<lambda>v. length v \<le> 128) (git_receipt_texts s)"
    "list_all (\<lambda>v. v \<noteq> []) (take 11 (git_receipt_texts s) @ drop 12 (git_receipt_texts s))"
proof -
  have a: "git_authorization_is_valid (gs_authorization s)" using assms by (simp add: git_statement_valid_def)
  note texts = git_authorization_ascii [OF a, unfolded ascii_text_def] git_fixed_lengths
  have digest: "text_is_ascii (gs_authorization_digest s)" "length (gs_authorization_digest s) = 64"
    using assms by (auto simp: git_statement_valid_def text_is_ascii_def is_ascii_def list_all_iff intro: ascii_class_below_128)
  have signer: "ascii_text 128 (gs_authorization_signer s)"
    using assms identity_ascii by (auto simp: git_statement_valid_def)
  have commit: "text_is_ascii (observed_commit (gs_observed s)) \<and> length (observed_commit (gs_observed s)) \<le> 40"
    using assms git_commit_ascii by (cases "gs_observed s") (auto simp: git_statement_valid_def ascii_text_def text_is_ascii_def is_ascii_def as_bytes_def)
  have ge: "GIT_NON_CLAIMS \<noteq> []" by (simp add: GIT_NON_CLAIMS_def)
  show "list_all text_is_ascii (git_receipt_texts s)"
    using texts digest signer commit by (simp add: git_receipt_texts_def ascii_text_def)
  have le: "length v \<le> n \<Longrightarrow> n \<le> 128 \<Longrightarrow> length v \<le> 128" for v :: string and n by simp
  show "list_all (\<lambda>v. length v \<le> 128) (git_receipt_texts s)"
    using texts digest signer commit by (auto simp: git_receipt_texts_def ascii_text_def intro: le git_fixed_lengths(1,3,5,7) [THEN le_trans])
  show "list_all (\<lambda>v. v \<noteq> []) (take 11 (git_receipt_texts s) @ drop 12 (git_receipt_texts s))"
    using texts digest signer ge by (auto simp: git_receipt_texts_def ascii_text_def)
qed

lemma git_push_field_iff: "git_push_field (t, v) out = Inr out' \<longleftrightarrow>
    (t = 12 \<or> ascii_text 512 v) \<and> length out + 5 + length v \<le> 8192 \<and> out' = out @ frame t (as_bytes v)"
  by (auto simp: git_push_field_def push_text_def rbind_eq_Inr rr.push_one_iff STATEMENT_BYTES_MAX_def)

lemma length_git_receipt_image: "git_statement_valid s \<Longrightarrow> length (git_receipt_image s) \<le> 2023"
  using git_statement_texts(2) [of s] by (simp add: git_receipt_image_def git_receipt_texts_def)

lemma git_encode_iff: "git_encode s = Inr bs \<longleftrightarrow> git_statement_valid s \<and> bs = git_receipt_image s"
proof (cases "git_statement_valid s")
  case False
  then show ?thesis
    by (auto simp: git_encode_def git_statement_valid_def rbind_eq_Inr observed_fields_iff split: prod.splits)
next
  case True
  have ascii: "list_all (ascii_text 512) (take 11 (git_receipt_texts s) @ drop 12 (git_receipt_texts s))"
    using git_statement_texts [OF True] by (auto simp: git_receipt_texts_def ascii_text_def)
  have "try_fold git_push_field (zip [1, 2, 3, 4, 5, 6, 7, 8, 9, 10, 11, 12, 13, 14, 15] (git_receipt_texts s))
      GIT_RECEIPT_STATEMENT_MAGIC = Inr (git_receipt_image s)"
    using ascii length_git_receipt_image [OF True]
    by (simp add: git_receipt_image_def git_receipt_texts_def rbind_eq_Inr git_push_field_iff)
  moreover have "observed_fields (gs_observed s) = Inr (observed_kind (gs_observed s), observed_commit (gs_observed s))"
    using True by (auto simp: observed_fields_iff git_statement_valid_def)
  ultimately have "git_encode s = Inr (git_receipt_image s)"
    using True by (simp add: git_encode_def git_statement_valid_def git_receipt_texts_def Let_def validate_key_id_def
        validate_digest_def)
  with True show ?thesis by auto
qed

definition git_limits_admit :: "InspectionLimits \<Rightarrow> GitStatement \<Rightarrow> bool" where
  "git_limits_admit l s \<longleftrightarrow> length (git_receipt_image s) \<le> il_statement_bytes_max l \<and>
     list_all (\<lambda>v. length v \<le> il_text_bytes_max l) (git_receipt_texts s)"

lemma git_parse_image:
  assumes valid: "git_statement_valid s" and lim: "git_limits_admit l s"
  shows "git_parse (git_receipt_image s) l = Inr s"
proof -
  have sm: "small (git_receipt_image s)" by (rule smallI [OF length_git_receipt_image [OF valid]]) simp
  have obs: "observed_from (observed_kind (gs_observed s)) (observed_commit (gs_observed s)) = Inr (gs_observed s)"
    using valid by (intro observed_from_fields) (simp add: git_statement_valid_def)
  have ack: "ack_parse (ack_as_str (gs_acknowledgement s)) = Some (gs_acknowledgement s)"
    by (simp add: ack_parse_iff)
  have enc: "git_encode s = Inr (git_receipt_image s)" using valid by (simp add: git_encode_iff)
  have eta: "\<lparr>gs_authorization = \<lparr>ga_authorization_id = ga_authorization_id (gs_authorization s),
      ga_operation_id = ga_operation_id (gs_authorization s), ga_repository_id = ga_repository_id (gs_authorization s),
      ga_reference = ga_reference (gs_authorization s), ga_old_commit = ga_old_commit (gs_authorization s),
      ga_new_commit = ga_new_commit (gs_authorization s)\<rparr>, gs_authorization_signer = gs_authorization_signer s,
      gs_authorization_digest = gs_authorization_digest s, gs_acknowledgement = gs_acknowledgement s,
      gs_observed = gs_observed s\<rparr> = s" by simp
  have "bounded (git_receipt_image s) (il_statement_bytes_max l) = Inr ()"
    using lim by (simp add: bounded_def git_limits_admit_def)
  then show ?thesis
    using sm git_statement_texts(1) [OF valid] lim obs ack enc
    unfolding git_parse_def git_fields_def
    by (simp add: git_receipt_image_def git_receipt_texts_def git_limits_admit_def pbind_def pcheck_def eta)
qed

lemma reads_checked_textE:
  assumes "reads (pbind (pcheck (rtext s) g) f) m pre rest t y"
  obtains v x rest' where "rest = frame s (as_bytes v) @ rest'" "length v \<le> m" "g v = Inr x"
    "reads (f x) m (pre @ frame s (as_bytes v)) rest' (t + 1) y"
proof -
  have "reads (pbind (rtext s) (\<lambda>v r. rbind (g v) (\<lambda>x. f x r))) m pre rest t y"
    using assms by (auto simp: reads_def pbind_eq_Inr pcheck_eq_Inr rbind_eq_Inr)
  then show thesis
    by (rule reads_textE) (use that in \<open>auto simp: reads_def rbind_eq_Inr\<close>)
qed

lemma observed_from_iff: "observed_from k c = Inr ob \<Longrightarrow> k = observed_kind ob \<and> c = observed_commit ob"
  by (auto simp: observed_from_def split: if_splits)

lemma git_parse_sound:
  assumes parse: "git_parse bs l = Inr s" and lim: "limits_validate l = Inr ()"
  shows "git_encode s = Inr bs \<and> git_limits_admit l s"
proof -
  have len: "length bs \<le> il_statement_bytes_max l"
    using parse by (auto simp: git_parse_def rbind_eq_Inr bounded_def split: if_splits)
  then have "length bs \<le> 8192" using lim by (auto simp: limits_validate_def receipt_bounds split: if_splits)
  then have sm: "small bs" by (rule smallI) simp
  from parse obtain rest where enc: "git_encode s = Inr bs" and rest: "bs = GIT_RECEIPT_STATEMENT_MAGIC @ rest"
    and f: "git_fields (rcur (il_text_bytes_max l) GIT_RECEIPT_STATEMENT_MAGIC rest 1) = Inr s"
    by (auto simp: git_parse_def rbind_eq_Inr rr.new_iff split: if_splits)
  let ?m = "il_text_bytes_max l"
  have "?m \<le> 512" using lim by (auto simp: limits_validate_def receipt_bounds split: if_splits)
  then have m: "length v < 4294967296" if "length v \<le> ?m" for v :: string using that by simp
  have derived: "length (attribution x) \<le> ?m \<and> length (result_text y) \<le> ?m \<and> length GIT_NON_CLAIMS \<le> ?m"
    if "frame 13 (as_bytes a) @ frame 14 (as_bytes b) @ frame 15 (as_bytes c) =
        frame 13 (as_bytes (attribution x)) @ frame 14 (as_bytes (result_text y)) @ frame 15 (as_bytes GIT_NON_CLAIMS)"
      "length a \<le> ?m" "length b \<le> ?m" "length c \<le> ?m" for a b c x y
  proof -
    have "length (attribution x) < 4294967296" "length (result_text y) < 4294967296"
      using git_fixed_lengths(5) [of x] git_fixed_lengths(7) [of y] by linarith+
    then have "as_bytes a = as_bytes (attribution x) \<and> as_bytes b = as_bytes (result_text y) \<and> as_bytes c = as_bytes GIT_NON_CLAIMS"
      using that m frame_append_inject [of "as_bytes c" "as_bytes GIT_NON_CLAIMS" 15 "[]" 15 "[]"]
      by (simp add: frame_append_inject)
    then show ?thesis using that by (metis length_as_bytes)
  qed
  have img: "bs = git_receipt_image s" and valid: "git_statement_valid s" using enc by (simp_all add: git_encode_iff)
  have "reads git_fields ?m GIT_RECEIPT_STATEMENT_MAGIC rest 1 s"
    using f sm rest by (simp add: reads_def)
  then have "list_all (\<lambda>v. length v \<le> ?m) (git_receipt_texts s)"
    unfolding git_fields_def
    apply (elim reads_textE reads_checked_textE)
    apply (simp only: reads_def rbind_eq_Inr rfinish_iff)
    apply clarify
    apply (drule observed_from_iff)
    using img [unfolded rest git_receipt_image_def]
    apply (simp add: git_receipt_texts_def ack_parse_iff if_error_iff)
    apply (rule derived [unfolded length_git_receipt_constants], assumption+)
    done
  then show ?thesis using enc len img by (simp add: git_limits_admit_def)
qed

lemma git_parse_iff:
  "limits_validate l = Inr () \<Longrightarrow> git_parse bs l = Inr s \<longleftrightarrow>
    git_statement_valid s \<and> bs = git_receipt_image s \<and> git_limits_admit l s"
  using git_parse_sound [of bs l s] git_parse_image [of s l] by (auto simp: git_encode_iff)

section \<open>Envelopes\<close>

definition git_signed_image :: "GitStatement \<Rightarrow> string \<Rightarrow> bytes \<Rightarrow> bytes" where
  "git_signed_image s key_id sig = envelope_image GIT_RECEIPT_MAGIC GIT_PURPOSE key_id (git_receipt_image s) sig"

definition git_limits_admit_receipt :: "InspectionLimits \<Rightarrow> GitStatement \<Rightarrow> string \<Rightarrow> bytes \<Rightarrow> bool" where
  "git_limits_admit_receipt l s key_id sig \<longleftrightarrow> limits_validate l = Inr () \<and> git_limits_admit l s \<and>
     length (git_signed_image s key_id sig) \<le> il_receipt_bytes_max l \<and>
     length GIT_PURPOSE \<le> il_text_bytes_max l \<and> length key_id \<le> il_text_bytes_max l"

lemma git_envelope_iff: "git_envelope bs l = Inr e \<longleftrightarrow>
    (\<exists>s key_id sig. bs = git_signed_image s key_id sig \<and>
      e = envelope_of GIT_PURPOSE key_id (git_receipt_image s) s sig \<and> git_statement_valid s \<and>
      identity_is_valid key_id \<and> length sig = 64 \<and> git_limits_admit_receipt l s key_id sig)"
  (is "?l \<longleftrightarrow> ?r")
proof
  assume ?l
  from parse_envelope_sound [OF this [unfolded git_envelope_def]] obtain key_id statement s sig where
    e: "bs = envelope_image GIT_RECEIPT_MAGIC GIT_PURPOSE key_id statement sig"
      "e = envelope_of GIT_PURPOSE key_id statement s sig" and lim: "limits_validate l = Inr ()"
    and len: "length bs \<le> il_receipt_bytes_max l" "length GIT_PURPOSE \<le> il_text_bytes_max l"
      "length key_id \<le> il_text_bytes_max l" "identity_is_valid key_id" "length sig = 64"
    and parse: "git_parse statement l = Inr s" by blast
  have "git_statement_valid s \<and> statement = git_receipt_image s \<and> git_limits_admit l s"
    using parse git_parse_iff [OF lim] by blast
  with e lim len show ?r
    unfolding git_signed_image_def git_limits_admit_receipt_def by blast
next
  assume ?r
  then obtain s key_id sig where r: "bs = git_signed_image s key_id sig"
    "e = envelope_of GIT_PURPOSE key_id (git_receipt_image s) s sig" "git_statement_valid s"
    "identity_is_valid key_id" "length sig = 64" "git_limits_admit_receipt l s key_id sig" by blast
  then have "git_parse (git_receipt_image s) l = Inr s"
    by (intro git_parse_image) (simp_all add: git_limits_admit_receipt_def)
  with r show ?l
    unfolding git_envelope_def git_signed_image_def git_limits_admit_receipt_def
    by (simp add: parse_envelope_image)
qed

lemma git_default_limits:
  assumes "git_statement_valid s" "identity_is_valid key_id" "length sig = 64"
  shows "git_limits_admit_receipt default_limits s key_id sig"
proof -
  have "length key_id \<le> 128" using identity_ascii [OF assms(2)] by (simp add: ascii_text_def)
  moreover have "list_all (\<lambda>v. length v \<le> 512) (git_receipt_texts s)"
    using git_statement_texts(2) [OF assms(1)] by (auto simp: list_all_iff)
  ultimately show ?thesis
    using length_git_receipt_image [OF assms(1)] assms(3)
    by (simp add: git_limits_admit_receipt_def git_limits_admit_def git_signed_image_def)
      (simp add: default_limits_def receipt_bounds)
qed

lemma git_decode_iff: "git_decode bs = Inr (key_id, s) \<longleftrightarrow>
    (\<exists>sig. bs = git_signed_image s key_id sig \<and> git_statement_valid s \<and> identity_is_valid key_id \<and> length sig = 64)"
  (is "?l \<longleftrightarrow> ?r")
proof
  assume ?l
  then show ?r by (auto simp: git_decode_def rbind_eq_Inr git_envelope_iff envelope_of_def)
next
  assume ?r
  then obtain sig where r: "bs = git_signed_image s key_id sig" "git_statement_valid s" "identity_is_valid key_id"
    "length sig = 64" by blast
  then have "git_envelope bs default_limits = Inr (envelope_of GIT_PURPOSE key_id (git_receipt_image s) s sig)"
    using git_default_limits [of s key_id sig] unfolding git_envelope_iff by blast
  then show ?l by (simp add: git_decode_def envelope_of_def)
qed

lemma git_sign_image:
  assumes "git_statement_valid s" "identity_is_valid key_id"
    "length (sign_with C seed (signature_input GIT_PURPOSE (git_receipt_image s))) = 64"
  shows "git_sign C s seed key_id =
    Inr (git_signed_image s key_id (sign_with C seed (signature_input GIT_PURPOSE (git_receipt_image s))))"
proof -
  have "ascii_text 512 key_id" "length key_id \<le> 128"
    using identity_ascii [OF assms(2)] by (auto simp: ascii_text_def)
  moreover have "ascii_text 512 GIT_PURPOSE" by code_simp
  moreover have "git_encode s = Inr (git_receipt_image s)" using assms(1) by (simp add: git_encode_iff)
  ultimately show ?thesis
    using sign_envelope_image [of GIT_RECEIPT_MAGIC GIT_PURPOSE key_id "git_receipt_image s" C seed] assms
      length_git_receipt_image [OF assms(1)]
    by (simp add: git_sign_def validate_key_id_def git_signed_image_def)
qed

section \<open>Properties\<close>

text \<open>
  Git evidence can always be signed and read back: for a valid statement and key identity,
  signing succeeds within the receipt bound, and decoding the bytes returns the key identity and
  exactly that statement.
\<close>

theorem git_receipt_roundtrip:
  assumes "crypto_ok C" "length seed = 32" "git_statement_valid s" "identity_is_valid key_id"
  shows "\<exists>bs. git_sign C s seed key_id = Inr bs \<and> length bs \<le> RECEIPT_BYTES_MAX \<and> git_decode bs = Inr (key_id, s)"
proof -
  let ?sig = "sign_with C seed (signature_input GIT_PURPOSE (git_receipt_image s))"
  have sig: "length ?sig = 64" using crypto_okD(3) [OF assms(1,2)] .
  have "length (git_signed_image s key_id ?sig) \<le> RECEIPT_BYTES_MAX"
    using git_default_limits [OF assms(3,4) sig] by (simp add: git_limits_admit_receipt_def default_limits_def)
  with git_sign_image [OF assms(3,4) sig] git_decode_iff [of "git_signed_image s key_id ?sig" key_id s] assms sig
  show ?thesis by blast
qed

definition example_git_statement :: GitStatement where
  "example_git_statement = \<lparr>gs_authorization = example_git_authorization, gs_authorization_signer = ''operator'',
     gs_authorization_digest = replicate 64 (CHR ''0''), gs_acknowledgement = AckUnknown,
     gs_observed = Commit (replicate 40 (CHR ''b''))\<rparr>"

theorem git_receipt_roundtrip_witness:
  "\<exists>bs. git_sign example_crypto example_git_statement (replicate 32 9) ''receipt-key'' = Inr bs \<and>
    length bs \<le> RECEIPT_BYTES_MAX \<and> git_decode bs = Inr (''receipt-key'', example_git_statement)"
proof -
  have "git_statement_valid example_git_statement" "identity_is_valid ''receipt-key''" by code_simp+
  then show ?thesis using git_receipt_roundtrip [OF example_crypto_ok, of "replicate 32 9"] by simp
qed

text \<open>
  C22. The Git inspector reports \<open>Inspected\<close> with a statement exactly when the bytes are the canonical
  envelope of that valid statement within the limits, the trust document parses, its key verifies
  the signature over the Git purpose and the canonical statement, and it accepts that key and
  purpose at the evaluation time. A success in an accepted statement is always an acknowledged
  update, never an inference from the observed ref.
\<close>

theorem git_inspected_iff:
  "(inspect_git_receipt C bs trust time l = \<lparr>gr_status = Inspected, gr_statement = Some s\<rparr> \<longleftrightarrow>
     (\<exists>key_id sig t. bs = git_signed_image s key_id sig \<and> git_statement_valid s \<and> identity_is_valid key_id \<and>
       length sig = 64 \<and> git_limits_admit_receipt l s key_id sig \<and> receipt_trust_parse trust l = Inr t \<and>
       key_valid C (gt_public_key t) \<and>
       verify_strict C (gt_public_key t) (signature_input GIT_PURPOSE (git_receipt_image s)) sig \<and>
       trust_accepts t GIT_PURPOSE key_id time)) \<and>
   (git_result s = Succeeded \<longleftrightarrow> gs_acknowledgement s = Updated)"
proof -
  have "inspect_git_receipt C bs trust time l = \<lparr>gr_status = Inspected, gr_statement = Some s\<rparr> \<longleftrightarrow>
      (\<exists>e t. git_envelope bs l = Inr e \<and> receipt_trust_parse trust l = Inr t \<and>
        (authenticate C e t time = Inr Inspected \<and> Inspected \<noteq> UntrustedSignerStatus) \<and> env_statement e = s)"
    by (auto simp: inspect_git_receipt_def git_inspect_def split: sum.splits ReceiptError.splits prod.splits)
  also have "\<dots> \<longleftrightarrow> (\<exists>key_id sig t. bs = git_signed_image s key_id sig \<and> git_statement_valid s \<and> identity_is_valid key_id \<and>
       length sig = 64 \<and> git_limits_admit_receipt l s key_id sig \<and> receipt_trust_parse trust l = Inr t \<and>
       key_valid C (gt_public_key t) \<and>
       verify_strict C (gt_public_key t) (signature_input GIT_PURPOSE (git_receipt_image s)) sig \<and>
       trust_accepts t GIT_PURPOSE key_id time)" (is "?l \<longleftrightarrow> ?r")
  proof
    assume ?l
    then obtain s' key_id sig t where "bs = git_signed_image s' key_id sig" "git_statement_valid s'" "identity_is_valid key_id"
      "length sig = 64" "git_limits_admit_receipt l s' key_id sig" "receipt_trust_parse trust l = Inr t" "s' = s"
      and a: "authenticate C (envelope_of GIT_PURPOSE key_id (git_receipt_image s') s' sig) t time = Inr Inspected \<and>
        Inspected \<noteq> UntrustedSignerStatus"
      unfolding git_envelope_iff by auto
    moreover note a [unfolded authenticate_inspected]
    ultimately show ?r by blast
  next
    assume ?r
    then obtain key_id sig t where r: "git_envelope bs l = Inr (envelope_of GIT_PURPOSE key_id (git_receipt_image s) s sig)"
      "receipt_trust_parse trust l = Inr t" "key_valid C (gt_public_key t)"
      "verify_strict C (gt_public_key t) (signature_input GIT_PURPOSE (git_receipt_image s)) sig"
      "trust_accepts t GIT_PURPOSE key_id time" unfolding git_envelope_iff by blast
    moreover have "authenticate C (envelope_of GIT_PURPOSE key_id (git_receipt_image s) s sig) t time = Inr Inspected \<and>
        Inspected \<noteq> UntrustedSignerStatus"
      unfolding authenticate_inspected using r by blast
    ultimately show ?l by (metis env_statement_of)
  qed
  finally show ?thesis by (auto simp: git_result_def split: Acknowledgement.splits)
qed

end
