(* ===== verification/Rows.thy ===== *)
theory Rows
  imports Receipt
begin

text \<open>
  The record store of the journal, \<open>src/gateway/journal/records.rs\<close>, \<open>schema.rs\<close> and
  \<open>capacity.rs\<close>: typed rows addressed by column name, the bounded read of one row, and the
  conditional replacement of one row inside a transaction.

  A database is the two tables' rows. SQLite itself is outside the sources; what the code relies
  on is modelled: a table holds rows, a statement selects and updates the rows whose primary key
  is given, and a transaction takes effect at its commit or not at all. Whether a commit took
  effect and whether its acknowledgement arrived is the parameter \<open>Delivery\<close>, with the three
  cases the repository's own storage control enumerates. The tables are STRICT and have TEXT,
  INTEGER and BLOB columns only, so a stored value is one of these or NULL.
\<close>

section \<open>Rows\<close>

datatype Value = Null | Integer i64 | Text string | Blob bytes

datatype Table = Kubernetes | Git

definition CURRENT_COLUMNS :: "string list" where
  "CURRENT_COLUMNS =
    [''operation_id'', ''namespace'', ''deployment'', ''container'', ''immutable_image_digest'',
     ''authorization_id'', ''authorization_signer_key_id'', ''authorization_grant_digest'',
     ''signed_authorization_grant'', ''state'', ''write_strategy'', ''target_rejection'',
     ''target_read_failures'', ''apply_attempted'', ''target_uid'', ''target_resource_version'',
     ''apply_accepted'', ''requested_generation'', ''apply_resource_version'', ''receiver_uid'',
     ''receiver_image'', ''receiver_operation_marker'', ''current_generation'',
     ''observed_generation'', ''receiver_resource_version'', ''desired_replicas'',
     ''updated_replicas'', ''available_replicas'', ''unavailable_replicas'',
     ''available_condition'', ''progress_deadline_exceeded'', ''result'', ''receipt_digest'',
     ''receipt_bytes'', ''receipt_key_id'', ''rollout_condition_type'',
     ''rollout_condition_status'', ''rollout_condition_reason'', ''approved_uid'',
     ''approved_resource_version'', ''preflight_uid'', ''preflight_resource_version'']"

definition GIT_COLUMNS :: "string list" where
  "GIT_COLUMNS =
    [''operation_id'', ''repository_id'', ''ref_name'', ''old_commit'', ''new_commit'',
     ''authorization_id'', ''authorization_signer_key_id'', ''authorization_grant_digest'',
     ''signed_authorization_grant'', ''state'', ''target_rejection'', ''acknowledgement'',
     ''observed_ref_kind'', ''observed_commit'', ''receipt_digest'', ''receipt_bytes'',
     ''receipt_key_id'']"

fun columns :: "Table \<Rightarrow> string list" where
  "columns Kubernetes = CURRENT_COLUMNS"
| "columns Git = GIT_COLUMNS"

fun other :: "Table \<Rightarrow> Table" where
  "other Kubernetes = Git"
| "other Git = Kubernetes"

record Record =
  row_values :: "Value list"
  row_table :: Table

text \<open>\<open>Iterator::position\<close>; the length of the list when nothing matches.\<close>

fun position :: "'a \<Rightarrow> 'a list \<Rightarrow> nat" where
  "position x [] = 0"
| "position x (y # ys) = (if y = x then 0 else Suc (position x ys))"

definition row_index :: "Record \<Rightarrow> string \<Rightarrow> nat" where
  "row_index r f = position f (columns (row_table r))"

definition field :: "Record \<Rightarrow> string \<Rightarrow> Value" where
  "field r f = row_values r ! row_index r f"

definition row_set :: "string \<Rightarrow> Value \<Rightarrow> Record \<Rightarrow> Record" where
  "row_set f v r = r\<lparr>row_values := (row_values r)[row_index r f := v]\<rparr>"

definition set_optional :: "string \<Rightarrow> Value option \<Rightarrow> Record \<Rightarrow> Record" where
  "set_optional f v r = row_set f (case v of None \<Rightarrow> Null | Some x \<Rightarrow> x) r"

definition has_value :: "Record \<Rightarrow> string \<Rightarrow> bool" where
  "has_value r f \<longleftrightarrow> field r f \<noteq> Null"

definition row_empty :: "string \<Rightarrow> Record" where
  "row_empty ident =
     fold (\<lambda>f. row_set f (Integer 0)) [''target_read_failures'', ''apply_attempted'']
       (row_set ''operation_id'' (Text ident)
         \<lparr>row_values = replicate (length CURRENT_COLUMNS) Null, row_table = Kubernetes\<rparr>)"

definition git_empty :: "string \<Rightarrow> Record" where
  "git_empty ident =
     row_set ''operation_id'' (Text ident)
       \<lparr>row_values = replicate (length GIT_COLUMNS) Null, row_table = Git\<rparr>"

section \<open>Typed reads of a field\<close>

text \<open>
  \<open>Record::get::<T>\<close> for the types the journal asks for. A value of another type is
  \<open>InvalidPersistedState\<close>; an optional type reads NULL as \<open>None\<close>; a 32-bit read checks the range.
\<close>

fun from_text :: "Value \<Rightarrow> (GatewayError, string) result" where
  "from_text (Text s) = Inr s"
| "from_text _ = Inl InvalidPersistedState"

fun from_integer :: "Value \<Rightarrow> (GatewayError, i64) result" where
  "from_integer (Integer i) = Inr i"
| "from_integer _ = Inl InvalidPersistedState"

definition i32_of_i64 :: "i64 \<Rightarrow> (GatewayError, i32) result" where
  "i32_of_i64 i = (if - (2 ^ 31) \<le> sint i \<and> sint i < 2 ^ 31 then Inr (word_of_int (sint i))
     else Inl InvalidPersistedState)"

definition i64_of_i32 :: "i32 \<Rightarrow> i64" where
  "i64_of_i32 i = word_of_int (sint i)"

fun from_integer32 :: "Value \<Rightarrow> (GatewayError, i32) result" where
  "from_integer32 (Integer i) = i32_of_i64 i"
| "from_integer32 _ = Inl InvalidPersistedState"

fun from_blob :: "Value \<Rightarrow> (GatewayError, bytes) result" where
  "from_blob (Blob b) = Inr b"
| "from_blob _ = Inl InvalidPersistedState"

definition optional :: "(Value \<Rightarrow> (GatewayError, 'a) result) \<Rightarrow> Value \<Rightarrow> (GatewayError, 'a option) result" where
  "optional conv v = (if v = Null then Inr None else rbind (conv v) (\<lambda>x. Inr (Some x)))"

definition row_get :: "(Value \<Rightarrow> (GatewayError, 'a) result) \<Rightarrow> Record \<Rightarrow> string \<Rightarrow> (GatewayError, 'a) result" where
  "row_get conv r f = conv (field r f)"

section \<open>Bounds of a persisted row\<close>

definition PERSISTED_VALUE_BYTES_MAX :: nat where
  "PERSISTED_VALUE_BYTES_MAX = 16 * 1024"

definition PERSISTED_ROW_BYTES_MAX :: nat where
  "PERSISTED_ROW_BYTES_MAX = 64 * 1024"

definition field_limit :: "string \<Rightarrow> nat" where
  "field_limit f = (if f = ''signed_authorization_grant'' then 4096 else PERSISTED_VALUE_BYTES_MAX)"

text \<open>\<open>length(CAST(value AS BLOB))\<close>: an integer is measured as its decimal text.\<close>

fun decimal_digits :: "nat \<Rightarrow> nat" where
  "decimal_digits n = (if n < 10 then 1 else 1 + decimal_digits (n div 10))"

declare decimal_digits.simps [simp del]

definition decimal_length :: "int \<Rightarrow> nat" where
  "decimal_length i = (if i < 0 then 1 + decimal_digits (nat (- i)) else decimal_digits (nat i))"

fun value_length :: "Value \<Rightarrow> nat" where
  "value_length Null = 0"
| "value_length (Text s) = length s"
| "value_length (Blob b) = length b"
| "value_length (Integer i) = decimal_length (sint i)"

definition row_bounded :: "Record \<Rightarrow> bool" where
  "row_bounded r \<longleftrightarrow>
     list_all (\<lambda>(v, f). value_length v \<le> field_limit f) (zip (row_values r) (columns (row_table r)))
     \<and> sum_list (map value_length (row_values r)) \<le> PERSISTED_ROW_BYTES_MAX"

section \<open>The database\<close>

record Db =
  kubernetes_rows :: "Record list"
  git_rows :: "Record list"

fun table_rows :: "Table \<Rightarrow> Db \<Rightarrow> Record list" where
  "table_rows Kubernetes db = kubernetes_rows db"
| "table_rows Git db = git_rows db"

fun with_table :: "Table \<Rightarrow> (Record list \<Rightarrow> Record list) \<Rightarrow> Db \<Rightarrow> Db" where
  "with_table Kubernetes g db = db\<lparr>kubernetes_rows := g (kubernetes_rows db)\<rparr>"
| "with_table Git g db = db\<lparr>git_rows := g (git_rows db)\<rparr>"

definition has_id :: "string \<Rightarrow> Record \<Rightarrow> bool" where
  "has_id ident r \<longleftrightarrow> field r ''operation_id'' = Text ident"

definition read_table :: "Db \<Rightarrow> string \<Rightarrow> Table \<Rightarrow> (GatewayError, Record option) result" where
  "read_table db ident t =
     (case find (has_id ident) (table_rows t db) of
        None \<Rightarrow> Inr None
      | Some r \<Rightarrow> if row_bounded r then Inr (Some r) else Inl InvalidPersistedState)"

definition record_read :: "Db \<Rightarrow> string \<Rightarrow> (GatewayError, Record option) result" where
  "record_read db ident = read_table db ident Kubernetes"

definition record_read_git :: "Db \<Rightarrow> string \<Rightarrow> (GatewayError, Record option) result" where
  "record_read_git db ident = read_table db ident Git"

definition id_exists :: "Db \<Rightarrow> Table \<Rightarrow> string \<Rightarrow> bool" where
  "id_exists db t ident \<longleftrightarrow> list_ex (has_id ident) (table_rows t db)"

subsection \<open>Capacity\<close>

definition PAGE_BYTES :: int where
  "PAGE_BYTES = 4096"

definition DATABASE_PAGES :: int where
  "DATABASE_PAGES = 16384"

definition IDENTITY_PAGES :: int where
  "IDENTITY_PAGES = 32"

definition COMPLETION_HEADROOM_PAGES :: int where
  "COMPLETION_HEADROOM_PAGES = 256"

definition IDENTITY_CAPACITY :: int where
  "IDENTITY_CAPACITY = (DATABASE_PAGES - COMPLETION_HEADROOM_PAGES) div IDENTITY_PAGES"

definition UNFINISHED_CAPACITY :: int where
  "UNFINISHED_CAPACITY = 32"

definition state_unfinished :: "Record \<Rightarrow> bool" where
  "state_unfinished r \<longleftrightarrow>
     field r ''state'' \<in> Text ` set [''requested'', ''authorized'', ''apply_started'', ''receiver_observed'']"

definition counts :: "Db \<Rightarrow> int \<times> int" where
  "counts db = (let rows = kubernetes_rows db @ git_rows db in
     (int (length rows), int (length (filter state_unfinished rows))))"

definition require_admission :: "Db \<Rightarrow> (GatewayError, unit) result" where
  "require_admission db =
     (let (retained_identities, unfinished_identities) = counts db in
      if retained_identities \<ge> IDENTITY_CAPACITY \<or> unfinished_identities \<ge> UNFINISHED_CAPACITY
      then Inl JournalFull else Inr ())"

subsection \<open>Conditional replacement of one row\<close>

datatype Delivery = NoCommit | Confirmed | LostAcknowledgement

fun delivery_result :: "Delivery \<Rightarrow> (GatewayError, unit) result" where
  "delivery_result Confirmed = Inr ()"
| "delivery_result NoCommit = Inl InjectedFault"
| "delivery_result LostAcknowledgement = Inl InjectedFault"

definition changed_one :: "nat \<Rightarrow> (GatewayError, unit) result" where
  "changed_one changed = (if changed = 1 then Inr () else Inl InvalidTransition)"

text \<open>
  \<open>UPDATE t SET c1 = v1, ... WHERE operation_id = id\<close> for the columns whose values differ: the
  assignments are the pairs of column index and new value.
\<close>

definition changed_columns :: "Record \<Rightarrow> Record \<Rightarrow> (nat \<times> Value) list" where
  "changed_columns previous nxt =
     map (\<lambda>i. (i, row_values nxt ! i))
       (filter (\<lambda>i. row_values previous ! i \<noteq> row_values nxt ! i) [0 ..< length (columns (row_table nxt))])"

definition assign_columns :: "(nat \<times> Value) list \<Rightarrow> Record \<Rightarrow> Record" where
  "assign_columns assignments r = r\<lparr>row_values := fold (\<lambda>(i, v) vs. vs[i := v]) assignments (row_values r)\<rparr>"

definition update_changed_columns :: "Db \<Rightarrow> Record \<Rightarrow> Record \<Rightarrow> string \<Rightarrow> (GatewayError, Db) result" where
  "update_changed_columns db previous nxt ident =
     (let changes = changed_columns previous nxt in
      if changes = [] then Inl InvalidTransition
      else
        let rows = table_rows (row_table nxt) db;
            db' = with_table (row_table nxt)
              (map (\<lambda>r. if has_id ident r then assign_columns changes r else r)) db
        in rbind (changed_one (length (filter (has_id ident) rows))) (\<lambda>_. Inr db'))"

definition transaction_body :: "Db \<Rightarrow> Record option \<Rightarrow> Record \<Rightarrow> (GatewayError, Db) result" where
  "transaction_body db expected nxt =
     rbind (row_get from_text nxt ''operation_id'') (\<lambda>ident.
     rbind (read_table db ident (row_table nxt)) (\<lambda>retained.
     if retained \<noteq> expected then Inl InvalidTransition
     else case expected of
       Some previous \<Rightarrow> update_changed_columns db previous nxt ident
     | None \<Rightarrow>
         if id_exists db (other (row_table nxt)) ident then Inl OperationIdentityConflict
         else rbind (require_admission db) (\<lambda>_.
           Inr (with_table (row_table nxt) (\<lambda>rows. rows @ [nxt]) db))))"

text \<open>An error inside the transaction rolls it back; otherwise the delivery decides.\<close>

definition replace :: "Delivery \<Rightarrow> Record option \<Rightarrow> Record \<Rightarrow> Db \<Rightarrow> (GatewayError, unit) result \<times> Db" where
  "replace d expected nxt db =
     (case transaction_body db expected nxt of
        Inl e \<Rightarrow> (Inl e, db)
      | Inr db' \<Rightarrow> (delivery_result d, if d = NoCommit then db else db'))"

section \<open>Fields of a row\<close>

lemma position_le: "position x xs \<le> length xs"
  by (induction xs) auto

lemma position_less: "x \<in> set xs \<Longrightarrow> position x xs < length xs"
  by (induction xs) auto

lemma position_less_iff: "position x xs < length xs \<longleftrightarrow> x \<in> set xs"
  by (induction xs) auto

lemma nth_position: "x \<in> set xs \<Longrightarrow> xs ! position x xs = x"
  by (induction xs) auto

lemma position_inject: "x \<in> set xs \<Longrightarrow> position x xs = position y xs \<longleftrightarrow> x = y"
  by (metis nth_position position_less position_less_iff)

definition row_wf :: "Record \<Rightarrow> bool" where
  "row_wf r \<longleftrightarrow> length (row_values r) = length (columns (row_table r))"

text \<open>
  What the journal relies on when it addresses a row by column name: a written column reads back,
  the other columns keep their values, and the shape of the row does not change.
\<close>

locale column_store =
  fixes get :: "'r \<Rightarrow> 'c \<Rightarrow> 'v" and put :: "'c \<Rightarrow> 'v \<Rightarrow> 'r \<Rightarrow> 'r" and cols :: "'r \<Rightarrow> 'c set"
    and wf :: "'r \<Rightarrow> bool"
  assumes get_put_same: "wf r \<Longrightarrow> c \<in> cols r \<Longrightarrow> get (put c v r) c = v"
    and get_put_other: "wf r \<Longrightarrow> c \<noteq> d \<Longrightarrow> get (put c v r) d = get r d"
    and cols_put: "cols (put c v r) = cols r"
    and wf_put: "wf r \<Longrightarrow> wf (put c v r)"
begin

text \<open>The last of a sequence of writes to a column is the one that is read.\<close>

lemma get_put: "wf r \<Longrightarrow> c \<in> cols r \<Longrightarrow> get (put c v r) d = (if d = c then v else get r d)"
  by (simp add: get_put_same get_put_other)

lemma wf_put_all: "wf r \<Longrightarrow> wf (fold (\<lambda>(c, v). put c v) cvs r)"
  by (induction cvs arbitrary: r) (auto simp: wf_put)

lemma cols_put_all: "cols (fold (\<lambda>(c, v). put c v) cvs r) = cols r"
  by (induction cvs arbitrary: r) (auto simp: cols_put)

lemma get_put_all_other:
  assumes "wf r" "d \<notin> fst ` set cvs"
  shows "get (fold (\<lambda>(c, v). put c v) cvs r) d = get r d"
  using assms by (induction cvs arbitrary: r) (auto simp: wf_put get_put_other)

lemma get_put_all:
  assumes "wf r" "fst ` set cvs \<subseteq> cols r"
  shows "get (fold (\<lambda>(c, v). put c v) cvs r) d =
    (case map_of (rev cvs) d of None \<Rightarrow> get r d | Some v \<Rightarrow> v)"
  using assms
proof (induction cvs arbitrary: r)
  case (Cons cv cvs)
  obtain c v where cv: "cv = (c, v)" by (cases cv)
  have "get (fold (\<lambda>(c, v). put c v) cvs (put c v r)) d =
      (case map_of (rev cvs) d of None \<Rightarrow> get (put c v r) d | Some v \<Rightarrow> v)"
    using Cons by (intro Cons.IH) (auto simp: cv wf_put cols_put)
  then show ?case
    using Cons.prems by (auto simp: cv get_put map_add_def split: option.splits)
qed simp

end

lemma row_table_set [simp]: "row_table (row_set f v r) = row_table r"
  by (simp add: row_set_def)

lemma row_wf_set [simp]: "row_wf (row_set f v r) \<longleftrightarrow> row_wf r"
  by (simp add: row_wf_def row_set_def)

interpretation row: column_store field row_set "\<lambda>r. set (columns (row_table r))" row_wf
proof unfold_locales
  fix r c v
  assume "row_wf r" "c \<in> set (columns (row_table r))"
  then show "field (row_set c v r) c = v"
    by (simp add: field_def row_set_def row_index_def row_wf_def position_less)
next
  fix r c d v
  assume "row_wf r" "c \<noteq> (d :: string)"
  then show "field (row_set c v r) d = field r d"
    by (cases "c \<in> set (columns (row_table r))")
      (simp_all add: field_def row_set_def row_index_def row_wf_def position_inject position_less_iff
        list_update_beyond not_less [symmetric])
qed simp_all

lemma columns_member [simp]:
  "f \<in> set CURRENT_COLUMNS \<Longrightarrow> f \<in> set (columns Kubernetes)"
  "f \<in> set GIT_COLUMNS \<Longrightarrow> f \<in> set (columns Git)"
  by simp_all

text \<open>The values of the fields determine a row of a table.\<close>

lemma columns_distinct: "distinct (columns t)"
  by (cases t) (simp_all add: CURRENT_COLUMNS_def GIT_COLUMNS_def)

lemma position_nth: "distinct xs \<Longrightarrow> i < length xs \<Longrightarrow> position (xs ! i) xs = i"
  by (metis nth_eq_iff_index_eq nth_mem nth_position position_less)

lemma row_eqI:
  assumes "row_wf r" "row_wf s" "row_table r = row_table s"
    and fields: "\<And>f. f \<in> set (columns (row_table s)) \<Longrightarrow> field r f = field s f"
  shows "r = s"
proof -
  have "row_values r ! i = row_values s ! i" if "i < length (row_values r)" for i
    using fields [of "columns (row_table s) ! i"] that assms(1-3)
    by (simp add: field_def row_index_def row_wf_def position_nth columns_distinct)
  then have "row_values r = row_values s"
    using assms by (intro nth_equalityI) (simp_all add: row_wf_def)
  with assms(3) show ?thesis by simp
qed

section \<open>One conditional replacement\<close>

lemma nth_fold_assign:
  "j < length vs \<Longrightarrow> fold (\<lambda>(i, v) vs. vs[i := v]) (map (\<lambda>i. (i, g i)) js) vs ! j = (if j \<in> set js then g j else vs ! j)"
  by (induction js arbitrary: vs) auto

lemma length_fold_assign [simp]: "length (fold (\<lambda>(i, v) vs. vs[i := v]) cs vs) = length vs"
  by (induction cs arbitrary: vs) auto

text \<open>Assigning only the differing columns produces the complete next row.\<close>

lemma assign_changed_columns:
  assumes "row_wf prev" "row_wf nxt" "row_table prev = row_table nxt"
  shows "assign_columns (changed_columns prev nxt) prev = nxt"
proof -
  let ?vs = "row_values (assign_columns (changed_columns prev nxt) prev)"
  have "?vs ! i = row_values nxt ! i" if "i < length (row_values nxt)" for i
    using that assms
    by (auto simp: assign_columns_def changed_columns_def row_wf_def nth_fold_assign)
  moreover have "length ?vs = length (row_values nxt)"
    using assms by (simp add: assign_columns_def row_wf_def)
  ultimately have "?vs = row_values nxt"
    by (intro nth_equalityI) simp_all
  moreover have "row_table (assign_columns (changed_columns prev nxt) prev) = row_table nxt"
    using assms by (simp add: assign_columns_def)
  ultimately show ?thesis by (cases nxt) simp
qed

lemma changed_columns_eq_Nil:
  assumes "row_wf prev" "row_wf nxt" "row_table prev = row_table nxt"
  shows "changed_columns prev nxt = [] \<longleftrightarrow> prev = nxt"
proof
  assume "changed_columns prev nxt = []"
  then show "prev = nxt"
    using assign_changed_columns [OF assms] by (simp add: assign_columns_def)
qed (simp add: changed_columns_def)

text \<open>
  The journal's invariant: rows have the shape of their table and a textual identity, an identity
  names at most one row, and no identity is in both tables.
\<close>

definition row_ok :: "Table \<Rightarrow> Record \<Rightarrow> bool" where
  "row_ok t r \<longleftrightarrow> row_wf r \<and> row_table r = t \<and> (\<exists>ident. has_id ident r)"

definition table_ok :: "Table \<Rightarrow> Db \<Rightarrow> bool" where
  "table_ok t db \<longleftrightarrow> list_all (row_ok t) (table_rows t db) \<and>
     distinct (map (\<lambda>r. field r ''operation_id'') (table_rows t db))"

definition db_ok :: "Db \<Rightarrow> bool" where
  "db_ok db \<longleftrightarrow> table_ok Kubernetes db \<and> table_ok Git db \<and>
     (\<forall>ident. \<not> (id_exists db Kubernetes ident \<and> id_exists db Git ident))"

definition row_of :: "Table \<Rightarrow> Db \<Rightarrow> string \<Rightarrow> Record option" where
  "row_of t db ident = find (has_id ident) (table_rows t db)"

lemma row_of_Some: "row_of t db ident = Some r \<Longrightarrow> has_id ident r \<and> r \<in> set (table_rows t db)"
  by (auto simp: row_of_def find_Some_iff)

lemma id_exists_iff: "id_exists db t ident \<longleftrightarrow> row_of t db ident \<noteq> None"
  by (auto simp: id_exists_def row_of_def list_ex_iff find_None_iff)

lemma has_id_unique: "has_id a r \<Longrightarrow> has_id b r \<longleftrightarrow> a = b"
  by (auto simp: has_id_def)

lemma read_table_iff:
  "read_table db ident t = Inr (Some r) \<longleftrightarrow> row_of t db ident = Some r \<and> row_bounded r"
  "read_table db ident t = Inr None \<longleftrightarrow> row_of t db ident = None"
  by (auto simp: read_table_def row_of_def split: option.splits)

lemma table_rows_with_table [simp]:
  "table_rows t (with_table t g db) = g (table_rows t db)"
  "t \<noteq> s \<Longrightarrow> table_rows s (with_table t g db) = table_rows s db"
  by (cases t; cases s; simp)+

lemma row_of_with_other: "t \<noteq> s \<Longrightarrow> row_of s (with_table t g db) = row_of s db"
  by (simp add: row_of_def fun_eq_iff)

lemma find_map_replace:
  assumes "has_id k nxt"
  shows "find (has_id i) (map (\<lambda>r. if has_id k r then nxt else r) rows) =
    (if i = k then (if list_ex (has_id k) rows then Some nxt else None) else find (has_id i) rows)"
  using assms by (induction rows) (auto simp: has_id_def)

lemma filter_id_unique:
  assumes "distinct (map (\<lambda>r. field r ''operation_id'') rows)" "find (has_id k) rows = Some r"
  shows "filter (has_id k) rows = [r]"
  using assms
proof (induction rows)
  case (Cons x rows)
  show ?case
  proof (cases "has_id k x")
    case True
    then have "filter (has_id k) rows = []"
      using Cons.prems(1) by (fastforce simp: filter_empty_conv has_id_def image_iff)
    with True Cons.prems show ?thesis by simp
  next
    case False
    with Cons show ?thesis by simp
  qed
qed simp

lemma map_replace_unique:
  assumes "distinct (map (\<lambda>r. field r ''operation_id'') rows)" "find (has_id k) rows = Some prev"
  shows "map (\<lambda>r. if has_id k r then g r else r) rows = map (\<lambda>r. if has_id k r then g prev else r) rows"
proof (rule map_cong [OF refl])
  fix r assume "r \<in> set rows"
  moreover have "prev \<in> set rows" "has_id k prev"
    using assms(2) by (auto simp: find_Some_iff)
  ultimately have "r = prev" if "has_id k r"
    using that assms(1) by (auto simp: distinct_map has_id_def inj_on_def)
  then show "(if has_id k r then g r else r) = (if has_id k r then g prev else r)" by simp
qed

lemma distinct_ids_replace:
  assumes "has_id k nxt"
  shows "map (\<lambda>r. field r ''operation_id'') (map (\<lambda>r. if has_id k r then nxt else r) rows) =
    map (\<lambda>r. field r ''operation_id'') rows"
  using assms by (induction rows) (auto simp: has_id_def)

lemma other_table_differs [simp]: "t \<noteq> other t" "other t \<noteq> t"
  by (cases t; simp)+

lemma db_ok_tables: "db_ok db \<Longrightarrow> table_ok t db"
  by (cases t) (simp_all add: db_ok_def)

lemma db_okI:
  assumes "table_ok t db" "table_ok (other t) db"
    and "\<And>i. row_of t db i \<noteq> None \<Longrightarrow> row_of (other t) db i = None"
  shows "db_ok db"
proof -
  have "\<not> (id_exists db Kubernetes i \<and> id_exists db Git i)" for i
    using assms(3) [of i] unfolding id_exists_iff by (cases t) fastforce+
  then show ?thesis
    using assms(1,2) by (cases t) (simp_all add: db_ok_def)
qed

lemma db_ok_exclusive: "db_ok db \<Longrightarrow> row_of t db i \<noteq> None \<Longrightarrow> row_of (other t) db i = None"
  unfolding db_ok_def id_exists_iff by (cases t) (metis other.simps)+

text \<open>\<open>stored t k nxt db db'\<close>: the row of \<open>k\<close> in table \<open>t\<close> is now \<open>nxt\<close>, and nothing else changed.\<close>

definition stored :: "Table \<Rightarrow> string \<Rightarrow> Record \<Rightarrow> Db \<Rightarrow> Db \<Rightarrow> bool" where
  "stored t k nxt db db' \<longleftrightarrow> row_of t db' = (row_of t db)(k \<mapsto> nxt) \<and>
     row_of (other t) db' = row_of (other t) db \<and> db_ok db'"

lemma update_stored:
  assumes ok: "db_ok db" and nxt: "row_ok t nxt" "has_id k nxt" and prev: "row_of t db k = Some prev"
    and rows: "table_rows t db' = map (\<lambda>r. if has_id k r then nxt else r) (table_rows t db)"
      "table_rows (other t) db' = table_rows (other t) db"
  shows "stored t k nxt db db'"
proof -
  have "list_ex (has_id k) (table_rows t db)"
    using prev id_exists_iff [of db t k] by (simp add: id_exists_def)
  then have upd: "row_of t db' = (row_of t db)(k \<mapsto> nxt)"
    by (simp add: fun_eq_iff row_of_def rows find_map_replace [OF nxt(2)])
  have oth: "row_of (other t) db' = row_of (other t) db"
    by (simp add: fun_eq_iff row_of_def rows)
  have "db_ok db'"
  proof (rule db_okI [of t])
    show "table_ok t db'"
      using db_ok_tables [OF ok, of t] nxt by (auto simp: table_ok_def rows distinct_ids_replace list_all_iff simp del: map_map)
    show "table_ok (other t) db'"
      using db_ok_tables [OF ok, of "other t"] by (simp add: table_ok_def rows)
    show "row_of (other t) db' i = None" if "row_of t db' i \<noteq> None" for i
      using db_ok_exclusive [OF ok, of t i] prev that by (auto simp: upd oth split: if_splits)
  qed
  with upd oth show ?thesis by (simp add: stored_def)
qed

lemma insert_stored:
  assumes ok: "db_ok db" and nxt: "row_ok t nxt" "has_id k nxt"
    and free: "row_of t db k = None" "row_of (other t) db k = None"
    and rows: "table_rows t db' = table_rows t db @ [nxt]" "table_rows (other t) db' = table_rows (other t) db"
  shows "stored t k nxt db db'"
proof -
  have fresh: "\<not> has_id k r" if "r \<in> set (table_rows t db)" for r
    using free(1) that by (auto simp: row_of_def find_None_iff)
  have upd: "row_of t db' = (row_of t db)(k \<mapsto> nxt)"
  proof
    fix i
    have "find (has_id i) (xs @ [nxt]) = (if i = k \<and> find (has_id i) xs = None then Some nxt else find (has_id i) xs)" for xs
      using nxt(2) by (induction xs) (auto simp: has_id_unique)
    with free(1) show "row_of t db' i = ((row_of t db)(k \<mapsto> nxt)) i"
      by (simp add: row_of_def rows)
  qed
  have oth: "row_of (other t) db' = row_of (other t) db"
    by (simp add: fun_eq_iff row_of_def rows)
  have "db_ok db'"
  proof (rule db_okI [of t])
    show "table_ok t db'"
      using db_ok_tables [OF ok, of t] nxt fresh
      by (fastforce simp: table_ok_def rows list_all_iff has_id_def)
    show "table_ok (other t) db'"
      using db_ok_tables [OF ok, of "other t"] by (simp add: table_ok_def rows)
    show "row_of (other t) db' i = None" if "row_of t db' i \<noteq> None" for i
      using db_ok_exclusive [OF ok, of t i] free that by (auto simp: upd oth split: if_splits)
  qed
  with upd oth show ?thesis by (simp add: stored_def)
qed

lemma transaction_body_update:
  assumes ok: "db_ok db" and nxt: "row_ok t nxt" "has_id k nxt"
  shows "transaction_body db (Some prev) nxt = Inr db' \<longleftrightarrow>
    row_of t db k = Some prev \<and> row_bounded prev \<and> prev \<noteq> nxt \<and>
    db' = with_table t (map (\<lambda>r. if has_id k r then nxt else r)) db"
proof -
  have t: "row_table nxt = t" and key: "row_get from_text nxt ''operation_id'' = Inr k"
    using nxt by (simp_all add: row_get_def has_id_def row_ok_def)
  have upd: "update_changed_columns db prev nxt k = Inr db' \<longleftrightarrow> prev \<noteq> nxt \<and>
      db' = with_table t (map (\<lambda>r. if has_id k r then nxt else r)) db"
    if prev: "row_of t db k = Some prev"
  proof -
    have wf: "row_wf prev" "row_wf nxt" "row_table prev = row_table nxt"
      using db_ok_tables [OF ok, of t] row_of_Some [OF prev] nxt
      by (auto simp: table_ok_def list_all_iff row_ok_def)
    have dist: "distinct (map (\<lambda>r. field r ''operation_id'') (table_rows t db))"
      and find: "find (has_id k) (table_rows t db) = Some prev"
      using db_ok_tables [OF ok, of t] prev by (simp_all add: table_ok_def row_of_def)
    have "with_table t (map (\<lambda>r. if has_id k r then assign_columns (changed_columns prev nxt) r else r)) db =
        with_table t (map (\<lambda>r. if has_id k r then nxt else r)) db"
      using map_replace_unique [OF dist find, of "assign_columns (changed_columns prev nxt)"]
        assign_changed_columns [OF wf] by (cases t) simp_all
    then show ?thesis
      using filter_id_unique [OF dist find] changed_columns_eq_Nil [OF wf]
      by (auto simp: update_changed_columns_def t Let_def changed_one_def)
  qed
  show ?thesis
    using upd by (auto simp: transaction_body_def key t rbind_eq_Inr read_table_iff split: if_splits)
qed

lemma transaction_body_insert:
  assumes nxt: "row_ok t nxt" "has_id k nxt"
  shows "transaction_body db None nxt = Inr db' \<longleftrightarrow>
    row_of t db k = None \<and> row_of (other t) db k = None \<and> require_admission db = Inr () \<and>
    db' = with_table t (\<lambda>rows. rows @ [nxt]) db"
proof -
  have t: "row_table nxt = t" and key: "row_get from_text nxt ''operation_id'' = Inr k"
    using nxt by (simp_all add: row_get_def has_id_def row_ok_def)
  show ?thesis
    by (auto simp: transaction_body_def key t rbind_eq_Inr read_table_iff id_exists_iff split: if_splits)
qed

lemma transaction_body_stored:
  assumes ok: "db_ok db" and nxt: "row_ok t nxt" "has_id k nxt"
    and body: "transaction_body db expected nxt = Inr db'"
  shows "row_of t db k = expected \<and> stored t k nxt db db'"
proof (cases expected)
  case None
  with body transaction_body_insert [OF nxt] show ?thesis
    using insert_stored [OF ok nxt] by auto
next
  case (Some prev)
  with body transaction_body_update [OF ok nxt] show ?thesis
    using update_stored [OF ok nxt] by auto
qed

section \<open>The contract of the conditional store\<close>

text \<open>
  What the lifecycle relies on: a write names the row it replaces. Either it leaves the store as
  it was, or the store held exactly the named row and now holds the new one, every other row
  unchanged. Confirmation means the latter; a failure can mean either.
\<close>

locale conditional_store =
  fixes rd :: "'s \<Rightarrow> 'k \<Rightarrow> 'r option"
    and wr :: "'d \<Rightarrow> 'r option \<Rightarrow> 'r \<Rightarrow> 's \<Rightarrow> ('e, unit) result \<times> 's"
    and key :: "'k \<Rightarrow> 'r \<Rightarrow> bool" and good :: "'r \<Rightarrow> bool" and inv :: "'s \<Rightarrow> bool"
  assumes wr_cases: "inv s \<Longrightarrow> good nxt \<Longrightarrow> key k nxt \<Longrightarrow> wr d expected nxt s = (res, s') \<Longrightarrow>
      (s' = s \<and> res \<noteq> Inr ()) \<or> (rd s k = expected \<and> rd s' = (rd s)(k \<mapsto> nxt) \<and> inv s')"
begin

lemma wr_inv: "inv s \<Longrightarrow> good nxt \<Longrightarrow> key k nxt \<Longrightarrow> wr d expected nxt s = (res, s') \<Longrightarrow> inv s'"
  using wr_cases by blast

lemma wr_confirmed:
  assumes "inv s" "good nxt" "key k nxt" "wr d expected nxt s = (Inr (), s')"
  shows "rd s k = expected" "rd s' = (rd s)(k \<mapsto> nxt)"
  using wr_cases [OF assms] by auto

lemma wr_frame:
  assumes "inv s" "good nxt" "key k nxt" "wr d expected nxt s = (res, s')" "j \<noteq> k"
  shows "rd s' j = rd s j"
  using wr_cases [OF assms(1-4)] assms(5) by auto

text \<open>A writer whose expectation is stale changes nothing and is told so.\<close>

lemma wr_stale:
  assumes "inv s" "good nxt" "key k nxt" "wr d expected nxt s = (res, s')" "rd s k \<noteq> expected"
  shows "s' = s" "res \<noteq> Inr ()"
  using wr_cases [OF assms(1-4)] assms(5) by auto

text \<open>Of two writers that start from the same row and change it, only the first can be confirmed.\<close>

lemma wr_once:
  assumes "inv s" "good a" "key k a" "wr d expected a s = (Inr (), s')" "Some a \<noteq> expected"
    and "good b" "key k b" "wr d' expected b s' = (res, s'')"
  shows "res \<noteq> Inr ()" "s'' = s'"
proof -
  have "rd s' k = Some a"
    using wr_confirmed [OF assms(1-4)] by simp
  with assms(5) have "rd s' k \<noteq> expected" by simp
  with wr_stale [OF wr_inv [OF assms(1-4)] assms(6-8)] show "res \<noteq> Inr ()" "s'' = s'" by simp_all
qed

text \<open>A relation that every permitted change of a row satisfies holds between the rows around a write.\<close>

lemma wr_related:
  assumes "inv s" "good nxt" "key k nxt" "wr d expected nxt s = (res, s')"
    and "\<And>x. R x x" "R expected (Some nxt)"
  shows "R (rd s j) (rd s' j)"
  using wr_cases [OF assms(1-4)] assms(5,6) by auto

end

lemma replace_cases:
  assumes "db_ok db" "row_ok t nxt" "has_id k nxt" "replace d expected nxt db = (res, db')"
  shows "(db' = db \<and> res \<noteq> Inr ()) \<or> (row_of t db k = expected \<and> stored t k nxt db db')"
  using assms(4) transaction_body_stored [OF assms(1-3)]
  by (cases d) (auto simp: replace_def split: sum.splits if_splits)

interpretation rs: conditional_store "row_of t" replace has_id "row_ok t" db_ok for t
  using replace_cases by unfold_locales (fastforce simp: stored_def)

lemma replace_confirmed:
  assumes "db_ok db" "row_ok t nxt" "has_id k nxt" "replace d expected nxt db = (Inr (), db')"
  shows "row_of t db k = expected \<and> stored t k nxt db db'"
  using replace_cases [OF assms] by auto

section \<open>Properties\<close>

text \<open>
  Writing only the columns that differ is the same as replacing the whole row: inside the
  transaction, an update from a row is accepted exactly when the table holds that very row
  for the identity, it is within the persisted bounds and it differs from the next one; the
  resulting database has the complete next row in its place and every other row as it was.
\<close>

theorem column_update_is_row_replacement:
  assumes "db_ok db" "row_ok t nxt" "has_id ident nxt"
  shows "transaction_body db (Some previous) nxt = Inr db' \<longleftrightarrow>
    row_of t db ident = Some previous \<and> row_bounded previous \<and> previous \<noteq> nxt \<and>
    db' = with_table t (map (\<lambda>r. if has_id ident r then nxt else r)) db"
  by (rule transaction_body_update [OF assms])

text \<open>
  Conditional writes are exclusive: when a write from some expected row is confirmed, a second
  write from the same expectation, whatever becomes of its commit, is refused and leaves the
  database unchanged. A stale snapshot can never advance history.
\<close>

theorem conditional_write_exclusive:
  assumes "db_ok db" "row_ok t a" "has_id ident a" "row_ok t b" "has_id ident b" "Some a \<noteq> expected"
    and "replace d expected a db = (Inr (), db')" "replace d' expected b db' = (res, db'')"
  shows "res \<noteq> Inr () \<and> db'' = db'"
  using rs.wr_once [OF assms(1-3) assms(7) assms(6) assms(4,5) assms(8)] by simp

definition example_row :: Record where
  "example_row = row_set ''state'' (Text ''requested'') (row_empty ''op-1'')"

definition example_next :: Record where
  "example_next = row_set ''state'' (Text ''authorized'') example_row"

definition example_db :: Db where
  "example_db = \<lparr>kubernetes_rows = [example_row], git_rows = []\<rparr>"

lemma example_rows_ok: "row_ok Kubernetes example_row" "has_id ''op-1'' example_row"
  "row_ok Kubernetes example_next" "has_id ''op-1'' example_next" "db_ok example_db"
proof -
  have id: "has_id ''op-1'' example_row" "has_id ''op-1'' example_next" by code_simp+
  moreover have "row_wf example_row" "row_wf example_next"
    "row_table example_row = Kubernetes" "row_table example_next = Kubernetes" by code_simp+
  ultimately show ok: "row_ok Kubernetes example_row" "row_ok Kubernetes example_next"
    by (auto simp: row_ok_def)
  show "has_id ''op-1'' example_row" "has_id ''op-1'' example_next" by (fact id)+
  show "db_ok example_db"
    using ok by (simp add: db_ok_def table_ok_def id_exists_def example_db_def)
qed

lemma example_next_differs: "example_row \<noteq> example_next"
  by code_simp

lemma example_row_read: "row_of Kubernetes example_db ''op-1'' = Some example_row" "row_bounded example_row"
proof -
  show "row_of Kubernetes example_db ''op-1'' = Some example_row"
    using example_rows_ok(2) by (simp add: row_of_def example_db_def)
  show "row_bounded example_row"
    by (simp add: row_bounded_def example_row_def row_empty_def row_set_def row_index_def CURRENT_COLUMNS_def
        field_limit_def decimal_length_def decimal_digits.simps PERSISTED_VALUE_BYTES_MAX_def
        PERSISTED_ROW_BYTES_MAX_def)
qed

theorem column_update_is_row_replacement_witness:
  "transaction_body example_db (Some example_row) example_next =
    Inr \<lparr>kubernetes_rows = [example_next], git_rows = []\<rparr>"
proof -
  show ?thesis
    using example_row_read column_update_is_row_replacement [OF example_rows_ok(5,3,4), of example_row] example_next_differs
      example_rows_ok(2) by (simp add: example_db_def)
qed

theorem conditional_write_exclusive_witness:
  "fst (replace Confirmed (Some example_row) example_next
     (snd (replace Confirmed (Some example_row) example_next example_db))) \<noteq> Inr ()"
proof -
  have "transaction_body example_db (Some example_row) example_next =
      Inr (with_table Kubernetes (map (\<lambda>r. if has_id ''op-1'' r then example_next else r)) example_db)"
    using transaction_body_update [OF example_rows_ok(5,3,4), of example_row] example_row_read
      example_next_differs by blast
  then have "replace Confirmed (Some example_row) example_next example_db =
      (Inr (), snd (replace Confirmed (Some example_row) example_next example_db))"
    by (simp add: replace_def)
  moreover have "Some example_next \<noteq> Some example_row"
    using example_next_differs by simp
  ultimately show ?thesis
    using conditional_write_exclusive [OF example_rows_ok(5,3,4,3,4)] by (metis prod.collapse)
qed

end
