(* ===== verification/Phases.thy ===== *)
theory Phases
  imports Rows
begin

text \<open>
  The typed phases of a journal row, \<open>src/gateway/journal/mod.rs\<close> and the row decoder of
  \<open>records.rs\<close>: every retained combination of facts either decodes to exactly one phase of the
  lifecycle or is refused as an invalid persisted state. Decoding rechecks the facts of every
  phase, recomputes the receipt statement's result and, for a finalized row, the receipt's
  digest and embedded statement.
\<close>

section \<open>Receipt digests\<close>

unbundle bit_operations_syntax

text \<open>\<open>receipt/publication.rs\<close>.\<close>

definition receipt_hex_digit :: "byte \<Rightarrow> char" where
  "receipt_hex_digit v = (if v \<le> 9 then char_of (48 + unat v)
     else if v \<le> 15 then char_of (97 + unat v - 10) else CHR ''?'')"

definition receipt_digest_hex :: "crypto \<Rightarrow> bytes \<Rightarrow> string" where
  "receipt_digest_hex C receipt =
     concat (map (\<lambda>b. [receipt_hex_digit (drop_bit 4 b), receipt_hex_digit (b AND 15)]) (sha256 C receipt))"

lemma unat_nibbles: "unat (drop_bit 4 b :: byte) = unat b div 16" "unat (b AND 15 :: byte) = unat b mod 16"
proof -
  show "unat (drop_bit 4 b :: byte) = unat b div 16"
    by (simp only: unat_drop_bit_eq) (simp add: drop_bit_eq_div)
  have "b AND 15 = take_bit 4 b"
    by (simp add: take_bit_eq_mask mask_eq_exp_minus_1)
  then have "unat (b AND 15 :: byte) = take_bit 4 (unat b)"
    by (simp only: unsigned_take_bit_eq)
  then show "unat (b AND 15 :: byte) = unat b mod 16"
    by (simp add: take_bit_eq_mod)
qed

lemma receipt_hex_digit_eq: "unat v < 16 \<Longrightarrow> receipt_hex_digit v = hex_digit (unat v)"
  by (auto simp: receipt_hex_digit_def hex_digit_def word_le_nat_alt)

text \<open>The two hexadecimal printers of the repository agree.\<close>

lemma receipt_digest_hex_eq: "receipt_digest_hex C bs = digest_hex C bs"
proof -
  have "[receipt_hex_digit (drop_bit 4 b), receipt_hex_digit (b AND 15)] = hex_byte b" for b :: byte
    using byte_unat_less [of b]
    by (simp add: hex_byte_def receipt_hex_digit_eq unat_nibbles less_mult_imp_div_less del: byte_unat_less)
  then show ?thesis
    by (simp add: receipt_digest_hex_def digest_hex_def hex_text_def)
qed

section \<open>Typed facts and phases\<close>

record RequestFacts =
  rf_approved_target :: "ApprovedTarget option"
  rf_preflight_target :: "ApprovedTarget option"
  rf_request :: ValidatedRequest

record AuthorizationFacts =
  af_authorization_id :: string
  af_signer_key_id :: string
  af_grant_digest :: string

record ApplyResponseFacts =
  ar_accepted :: bool
  ar_requested_generation :: "i64 option"
  ar_resource_version :: string

record AttemptFacts =
  att_target :: ValidatedTargetIdentity
  att_response :: "ApplyResponseFacts option"

record FrozenReceipt =
  fr_operation_id :: string
  fr_bytes :: bytes
  fr_digest :: string
  fr_key_id :: string

record AuthorizedOperation =
  azo_request :: RequestFacts
  azo_authorization :: AuthorizationFacts

record ApplyStartedOperation =
  aso_authorized :: AuthorizedOperation
  aso_attempt :: AttemptFacts

record ReceiverObservedOperation =
  obo_apply_started :: ApplyStartedOperation
  obo_statement :: ReceiptStatement

datatype LoadedOperation =
  LRequested RequestFacts
| LAuthorized AuthorizedOperation
| LNotAttempted AuthorizedOperation TargetRejection
| LApplyStarted ApplyStartedOperation
| LReceiverObserved ReceiverObservedOperation
| LFinalized ReceiverObservedOperation FrozenReceipt

fun loaded_state :: "LoadedOperation \<Rightarrow> OperationState" where
  "loaded_state (LRequested _) = Requested"
| "loaded_state (LAuthorized _) = Authorized"
| "loaded_state (LNotAttempted _ _) = NotAttempted"
| "loaded_state (LApplyStarted _) = ApplyStarted"
| "loaded_state (LReceiverObserved _) = ReceiverObserved"
| "loaded_state (LFinalized _ _) = Finalized"

fun request_facts :: "LoadedOperation \<Rightarrow> RequestFacts" where
  "request_facts (LRequested facts) = facts"
| "request_facts (LAuthorized op) = azo_request op"
| "request_facts (LNotAttempted op _) = azo_request op"
| "request_facts (LApplyStarted op) = azo_request (aso_authorized op)"
| "request_facts (LReceiverObserved op) = azo_request (aso_authorized (obo_apply_started op))"
| "request_facts (LFinalized op _) = azo_request (aso_authorized (obo_apply_started op))"

fun loaded_result :: "LoadedOperation \<Rightarrow> OperationResult option" where
  "loaded_result (LReceiverObserved op) = Some (rs_result (obo_statement op))"
| "loaded_result (LFinalized op _) = Some (rs_result (obo_statement op))"
| "loaded_result _ = None"

fun loaded_rejection :: "LoadedOperation \<Rightarrow> TargetRejection option" where
  "loaded_rejection (LNotAttempted _ rejection) = Some rejection"
| "loaded_rejection _ = None"

definition classification_outcome :: "ApplyStartedOperation \<Rightarrow> ApplyOutcome" where
  "classification_outcome op =
     (let response = att_response (aso_attempt op); target = att_target (aso_attempt op) in
      \<lparr>ao_accepted = (case response of None \<Rightarrow> False | Some r \<Rightarrow> ar_accepted r),
       ao_requested_generation = Option.bind response ar_requested_generation,
       ao_deployment_uid = Some (vt_deployment_uid target),
       ao_resource_version = Some (case response of None \<Rightarrow> vt_resource_version target
         | Some r \<Rightarrow> ar_resource_version r)\<rparr>)"

record ObservedTarget =
  obt_uid :: "string option"
  obt_resource_version :: "string option"

record KubernetesTargets =
  kt_approved_target :: "ApprovedTarget option"
  kt_observed_target :: "ObservedTarget option"
  kt_attempt_target :: "ApprovedTarget option"

fun loaded_attempt :: "LoadedOperation \<Rightarrow> AttemptFacts option" where
  "loaded_attempt (LApplyStarted op) = Some (aso_attempt op)"
| "loaded_attempt (LReceiverObserved op) = Some (aso_attempt (obo_apply_started op))"
| "loaded_attempt (LFinalized op _) = Some (aso_attempt (obo_apply_started op))"
| "loaded_attempt _ = None"

fun loaded_statement :: "LoadedOperation \<Rightarrow> ReceiptStatement option" where
  "loaded_statement (LReceiverObserved op) = Some (obo_statement op)"
| "loaded_statement (LFinalized op _) = Some (obo_statement op)"
| "loaded_statement _ = None"

definition targets :: "LoadedOperation \<Rightarrow> KubernetesTargets" where
  "targets op =
     (let request = request_facts op in
      \<lparr>kt_approved_target = rf_approved_target request,
       kt_observed_target = (case loaded_statement op of
           None \<Rightarrow> map_option (\<lambda>target. \<lparr>obt_uid = Some (at_uid target),
              obt_resource_version = Some (at_resource_version target)\<rparr>) (rf_preflight_target request)
         | Some statement \<Rightarrow> Some \<lparr>obt_uid = rs_receiver_uid statement,
              obt_resource_version = rs_observed_resource_version statement\<rparr>),
       kt_attempt_target = map_option (\<lambda>attempt. \<lparr>at_uid = vt_deployment_uid (att_target attempt),
          at_resource_version = vt_resource_version (att_target attempt)\<rparr>) (loaded_attempt op)\<rparr>)"

section \<open>Stored vocabulary\<close>

fun state_as_sql :: "OperationState \<Rightarrow> string" where
  "state_as_sql Requested = ''requested''"
| "state_as_sql Authorized = ''authorized''"
| "state_as_sql NotAttempted = ''not_attempted''"
| "state_as_sql ApplyStarted = ''apply_started''"
| "state_as_sql ReceiverObserved = ''receiver_observed''"
| "state_as_sql Finalized = ''finalized''"

definition state_from_sql :: "string \<Rightarrow> (GatewayError, OperationState) result" where
  "state_from_sql value =
     (if value = ''requested'' then Inr Requested
      else if value = ''authorized'' then Inr Authorized
      else if value = ''not_attempted'' then Inr NotAttempted
      else if value = ''apply_started'' then Inr ApplyStarted
      else if value = ''receiver_observed'' then Inr ReceiverObserved
      else if value = ''finalized'' then Inr Finalized
      else Inl InvalidPersistedState)"

fun rejection_as_sql :: "TargetRejection \<Rightarrow> string" where
  "rejection_as_sql DeploymentNotFound = ''deployment_not_found''"
| "rejection_as_sql ContainerNotFound = ''container_not_found''"
| "rejection_as_sql InvalidTarget = ''invalid_target''"
| "rejection_as_sql StaleApproval = ''stale_approval''"
| "rejection_as_sql GitStaleRef = ''git_stale_ref''"
| "rejection_as_sql GitInvalidObjects = ''git_invalid_objects''"

definition rejection_from_sql :: "string \<Rightarrow> (GatewayError, TargetRejection) result" where
  "rejection_from_sql value =
     (if value = ''deployment_not_found'' then Inr DeploymentNotFound
      else if value = ''container_not_found'' then Inr ContainerNotFound
      else if value = ''invalid_target'' then Inr InvalidTarget
      else if value = ''stale_approval'' then Inr StaleApproval
      else Inl InvalidPersistedState)"

fun result_as_sql :: "OperationResult \<Rightarrow> string" where
  "result_as_sql Succeeded = ''SUCCEEDED''"
| "result_as_sql Failed = ''FAILED''"
| "result_as_sql Unknown = ''UNKNOWN''"

definition result_from_sql :: "string \<Rightarrow> (GatewayError, OperationResult) result" where
  "result_from_sql value =
     (if value = ''SUCCEEDED'' then Inr Succeeded
      else if value = ''FAILED'' then Inr Failed
      else if value = ''UNKNOWN'' then Inr Unknown
      else Inl InvalidPersistedState)"

lemma state_from_sql_iff: "state_from_sql s = Inr st \<longleftrightarrow> s = state_as_sql st"
  by (cases st) (auto simp: state_from_sql_def)

lemma result_from_sql_iff: "result_from_sql s = Inr res \<longleftrightarrow> s = result_as_sql res"
  by (cases res) (auto simp: result_from_sql_def)

lemma rejection_from_sql_iff: "rejection_from_sql s = Inr rej \<longleftrightarrow>
    s = rejection_as_sql rej \<and> rej \<notin> {GitStaleRef, GitInvalidObjects}"
  by (cases rej) (auto simp: rejection_from_sql_def)

lemma state_as_sql_inject [simp]: "state_as_sql a = state_as_sql b \<longleftrightarrow> a = b"
  by (cases a; cases b) simp_all

definition decode_sql_bool :: "i64 \<Rightarrow> (GatewayError, bool) result" where
  "decode_sql_bool value = (if value = 0 then Inr False else if value = 1 then Inr True
     else Inl InvalidPersistedState)"

lemma decode_sql_bool_iff: "decode_sql_bool v = Inr b \<longleftrightarrow> v = (if b then 1 else 0)"
  by (auto simp: decode_sql_bool_def)

section \<open>The snapshot of a row\<close>

record SnapshotRow =
  sn_approved_uid :: "string option"
  sn_approved_resource_version :: "string option"
  sn_preflight_uid :: "string option"
  sn_preflight_resource_version :: "string option"
  sn_operation_id :: string
  sn_namespace :: string
  sn_deployment :: string
  sn_container :: string
  sn_immutable_image_digest :: string
  sn_state :: string
  sn_result :: "string option"
  sn_target_rejection :: "string option"
  sn_authorization_id :: "string option"
  sn_authorization_signer_key_id :: "string option"
  sn_authorization_grant_digest :: "string option"
  sn_write_strategy :: "string option"
  sn_apply_attempted :: i64
  sn_target_uid :: "string option"
  sn_target_resource_version :: "string option"
  sn_apply_accepted :: "i64 option"
  sn_requested_generation :: "i64 option"
  sn_apply_resource_version :: "string option"
  sn_receiver_facts_present :: bool
  sn_receipt_digest :: "string option"
  sn_receipt_bytes :: "bytes option"
  sn_receipt_key_id :: "string option"

definition snapshot_target :: "string option \<Rightarrow> string option \<Rightarrow> (GatewayError, ApprovedTarget option) result" where
  "snapshot_target uid resource_version =
     (case (uid, resource_version) of
        (None, None) \<Rightarrow> Inr None
      | (Some uid, Some resource_version) \<Rightarrow>
          let target = \<lparr>at_uid = uid, at_resource_version = resource_version\<rparr> in
          if \<not> approved_target_is_valid target then Inl InvalidPersistedState else Inr (Some target)
      | _ \<Rightarrow> Inl InvalidPersistedState)"

definition sha256_digest_try_from :: "string \<Rightarrow> (GatewayError, string) result" where
  "sha256_digest_try_from value =
     (if length value = 64 \<and> list_all is_lowercase_hex (as_bytes value) then Inr value
      else Inl InvalidPersistedState)"

definition validate_snapshot_authorization ::
    "string option \<Rightarrow> string option \<Rightarrow> string option \<Rightarrow> (GatewayError, AuthorizationFacts option) result" where
  "validate_snapshot_authorization authorization_id signer_key_id grant_digest =
     (case (authorization_id, signer_key_id, grant_digest) of
        (None, None, None) \<Rightarrow> Inr None
      | (Some authorization_id, Some signer_key_id, Some grant_digest) \<Rightarrow>
          rbind (map_err (\<lambda>_. InvalidPersistedState) (validate_identity IF_AuthorizationId authorization_id)) (\<lambda>_.
          rbind (map_err (\<lambda>_. InvalidPersistedState) (validate_identity IF_AuthorizationId signer_key_id)) (\<lambda>_.
          rbind (sha256_digest_try_from grant_digest) (\<lambda>grant_digest.
          Inr (Some \<lparr>af_authorization_id = authorization_id, af_signer_key_id = signer_key_id,
                     af_grant_digest = grant_digest\<rparr>))))
      | _ \<Rightarrow> Inl InvalidPersistedState)"

definition validate_snapshot_attempt_facts ::
    "OperationState \<Rightarrow> string option \<Rightarrow> string option \<Rightarrow> string option \<Rightarrow> bool option \<Rightarrow> i64 option \<Rightarrow>
      string option \<Rightarrow> (GatewayError, AttemptFacts option) result" where
  "validate_snapshot_attempt_facts state write_strategy target_uid target_resource_version
       apply_accepted generation apply_resource_version =
     rbind (case (write_strategy, target_uid, target_resource_version) of
        (Some strategy, Some deployment_uid, Some resource_version) \<Rightarrow>
          if strategy = WRITE_STRATEGY then
            rbind (map_err (\<lambda>_. InvalidPersistedState) (validated_target_try_from
              \<lparr>ti_deployment_uid = deployment_uid, ti_resource_version = resource_version\<rparr>))
              (\<lambda>target. Inr (Some target))
          else Inl InvalidPersistedState
      | (None, None, None) \<Rightarrow> Inr None
      | _ \<Rightarrow> Inl InvalidPersistedState) (\<lambda>target.
     case target of
       None \<Rightarrow>
         if apply_accepted = None \<and> generation = None \<and> apply_resource_version = None
         then Inr None else Inl InvalidPersistedState
     | Some target \<Rightarrow>
         rbind (case (apply_accepted, apply_resource_version) of
            (None, None) \<Rightarrow>
              if state \<noteq> ApplyStarted \<or> generation = None then Inr None
              else Inl InvalidPersistedState
          | (Some accepted, Some resource_version) \<Rightarrow>
              rbind (map_err (\<lambda>_. InvalidPersistedState) (apply_outcome_validate
                \<lparr>ao_accepted = accepted, ao_requested_generation = generation,
                 ao_deployment_uid = Some (vt_deployment_uid target),
                 ao_resource_version = Some resource_version\<rparr>)) (\<lambda>_.
              Inr (Some \<lparr>ar_accepted = accepted, ar_requested_generation = generation,
                         ar_resource_version = resource_version\<rparr>))
          | _ \<Rightarrow> Inl InvalidPersistedState) (\<lambda>response.
         Inr (Some \<lparr>att_target = target, att_response = response\<rparr>)))"

definition validate_frozen_receipt :: "crypto \<Rightarrow> FrozenReceipt \<Rightarrow> (GatewayError, FrozenReceipt) result" where
  "validate_frozen_receipt C receipt =
     (if length (fr_bytes receipt) > RECEIPT_BYTES_MAX \<or> receipt_digest_hex C (fr_bytes receipt) \<noteq> fr_digest receipt
      then Inl ReceiptDigestMismatch
      else rbind (map_err (\<lambda>_. InvalidPersistedState) (validate_identity IF_AuthorizationId (fr_key_id receipt)))
        (\<lambda>_. Inr receipt))"

definition snapshot_frozen_receipt ::
    "crypto \<Rightarrow> string \<Rightarrow> string option \<Rightarrow> bytes option \<Rightarrow> string option \<Rightarrow> ReceiptStatement option \<Rightarrow>
      (GatewayError, FrozenReceipt option) result" where
  "snapshot_frozen_receipt C operation_id digest receipt_bytes key_id statement =
     (case (digest, receipt_bytes, key_id) of
        (None, None, None) \<Rightarrow> Inr None
      | (Some digest, Some receipt_bytes, Some key_id) \<Rightarrow>
          rbind (validate_frozen_receipt C \<lparr>fr_operation_id = operation_id, fr_bytes = receipt_bytes,
            fr_digest = digest, fr_key_id = key_id\<rparr>) (\<lambda>receipt.
          rbind (ok_or InvalidPersistedState statement) (\<lambda>expected_statement.
          rbind (map_err GReceipt (decode_frozen_receipt (fr_bytes receipt))) (\<lambda>(embedded_key_id, embedded_statement).
          if embedded_key_id \<noteq> fr_key_id receipt \<or> embedded_statement \<noteq> expected_statement
          then Inl InvalidPersistedState
          else Inr (Some receipt))))
      | _ \<Rightarrow> Inl InvalidPersistedState)"

text \<open>The exhaustive match of phase and facts at the end of \<open>SnapshotRow::into_operation\<close>.\<close>

definition select_phase ::
    "OperationState \<Rightarrow> bool \<Rightarrow> RequestFacts \<Rightarrow> AuthorizationFacts option \<Rightarrow> TargetRejection option \<Rightarrow>
      AttemptFacts option \<Rightarrow> OperationResult option \<Rightarrow> ReceiptStatement option \<Rightarrow> FrozenReceipt option \<Rightarrow> bool \<Rightarrow>
      (GatewayError, LoadedOperation) result" where
  "select_phase state apply_attempted request authorization rejection attempt result receiver receipt
       receiver_facts_present =
     (case state of
        Requested \<Rightarrow>
          if \<not> apply_attempted \<and> rejection = None \<and> attempt = None \<and> result = None \<and> receiver = None
             \<and> receipt = None \<and> \<not> receiver_facts_present
          then Inr (LRequested request) else Inl InvalidPersistedState
      | Authorized \<Rightarrow>
          if \<not> apply_attempted \<and> authorization \<noteq> None \<and> rejection = None \<and> attempt = None \<and> result = None
             \<and> receiver = None \<and> receipt = None \<and> \<not> receiver_facts_present
          then Inr (LAuthorized \<lparr>azo_request = request, azo_authorization = the authorization\<rparr>)
          else Inl InvalidPersistedState
      | NotAttempted \<Rightarrow>
          if \<not> apply_attempted \<and> authorization \<noteq> None \<and> rejection \<noteq> None \<and> attempt = None \<and> result = None
             \<and> receiver = None \<and> receipt = None \<and> \<not> receiver_facts_present
          then Inr (LNotAttempted \<lparr>azo_request = request, azo_authorization = the authorization\<rparr>
                     (the rejection))
          else Inl InvalidPersistedState
      | ApplyStarted \<Rightarrow>
          if authorization \<noteq> None \<and> rejection = None \<and> apply_attempted \<and> attempt \<noteq> None \<and> result = None
             \<and> receiver = None \<and> receipt = None \<and> \<not> receiver_facts_present
          then Inr (LApplyStarted
            \<lparr>aso_authorized = \<lparr>azo_request = request, azo_authorization = the authorization\<rparr>,
             aso_attempt = the attempt\<rparr>)
          else Inl InvalidPersistedState
      | ReceiverObserved \<Rightarrow>
          if authorization \<noteq> None \<and> rejection = None \<and> apply_attempted \<and> attempt \<noteq> None \<and> result \<noteq> None
             \<and> receiver \<noteq> None \<and> receipt = None
          then Inr (LReceiverObserved
            \<lparr>obo_apply_started =
               \<lparr>aso_authorized = \<lparr>azo_request = request, azo_authorization = the authorization\<rparr>,
                aso_attempt = the attempt\<rparr>,
             obo_statement = the receiver\<rparr>)
          else Inl InvalidPersistedState
      | Finalized \<Rightarrow>
          if authorization \<noteq> None \<and> rejection = None \<and> apply_attempted \<and> attempt \<noteq> None \<and> result \<noteq> None
             \<and> receiver \<noteq> None \<and> receipt \<noteq> None
          then Inr (LFinalized
            \<lparr>obo_apply_started =
               \<lparr>aso_authorized = \<lparr>azo_request = request, azo_authorization = the authorization\<rparr>,
                aso_attempt = the attempt\<rparr>,
             obo_statement = the receiver\<rparr> (the receipt))
          else Inl InvalidPersistedState)"

text \<open>The approval, the attempt and the preflight read must agree.\<close>

definition approval_violated ::
    "RequestFacts \<Rightarrow> AuthorizationFacts option \<Rightarrow> AttemptFacts option \<Rightarrow> bool" where
  "approval_violated request authorization attempt =
     (case rf_approved_target request of
        None \<Rightarrow> False
      | Some approved \<Rightarrow>
          authorization = None
          \<or> (case attempt of None \<Rightarrow> False
             | Some attempt \<Rightarrow> vt_deployment_uid (att_target attempt) \<noteq> at_uid approved
                 \<or> vt_resource_version (att_target attempt) \<noteq> at_resource_version approved)
          \<or> (attempt \<noteq> None \<and> rf_preflight_target request \<noteq> Some approved))"

definition into_operation ::
    "crypto \<Rightarrow> SnapshotRow \<Rightarrow> ReceiptStatement option \<Rightarrow> (GatewayError, LoadedOperation) result" where
  "into_operation C sn statement =
     rbind (state_from_sql (sn_state sn)) (\<lambda>state.
     rbind (decode_sql_bool (sn_apply_attempted sn)) (\<lambda>apply_attempted.
     rbind (transpose_map decode_sql_bool (sn_apply_accepted sn)) (\<lambda>apply_accepted.
     rbind (snapshot_target (sn_approved_uid sn) (sn_approved_resource_version sn)) (\<lambda>approved_target.
     rbind (snapshot_target (sn_preflight_uid sn) (sn_preflight_resource_version sn)) (\<lambda>preflight_target.
     if preflight_target \<noteq> None \<and> (state = Requested \<or> state = Authorized) then Inl InvalidPersistedState
     else
     rbind (map_err (\<lambda>_. InvalidPersistedState) (validated_request_try_from
       \<lparr>rq_operation_id = sn_operation_id sn, rq_namespace = sn_namespace sn,
        rq_deployment = sn_deployment sn, rq_container = sn_container sn,
        rq_immutable_image_digest = sn_immutable_image_digest sn\<rparr>)) (\<lambda>validated.
     let request = \<lparr>rf_approved_target = approved_target, rf_preflight_target = preflight_target,
                    rf_request = validated\<rparr> in
     rbind (transpose_map result_from_sql (sn_result sn)) (\<lambda>result.
     rbind (transpose_map rejection_from_sql (sn_target_rejection sn)) (\<lambda>rejection.
     rbind (validate_snapshot_authorization (sn_authorization_id sn) (sn_authorization_signer_key_id sn)
       (sn_authorization_grant_digest sn)) (\<lambda>authorization.
     rbind (validate_snapshot_attempt_facts state (sn_write_strategy sn) (sn_target_uid sn)
       (sn_target_resource_version sn) apply_accepted (sn_requested_generation sn)
       (sn_apply_resource_version sn)) (\<lambda>attempt.
     if approval_violated request authorization attempt then Inl InvalidPersistedState
     else if rejection = Some StaleApproval
        \<and> (rf_approved_target request = None \<or> rf_preflight_target request = None
           \<or> rf_approved_target request = rf_preflight_target request) then Inl InvalidPersistedState
     else if state = NotAttempted \<and> rejection \<noteq> Some StaleApproval \<and> rf_preflight_target request \<noteq> None
     then Inl InvalidPersistedState
     else if map_option rs_result statement \<noteq> result then Inl InvalidPersistedState
     else
     rbind (snapshot_frozen_receipt C (vr_operation_id validated) (sn_receipt_digest sn)
       (sn_receipt_bytes sn) (sn_receipt_key_id sn) statement) (\<lambda>receipt.
     select_phase state apply_attempted request authorization rejection attempt result statement receipt
       (sn_receiver_facts_present sn))))))))))))"

section \<open>Decoding a row\<close>

definition RECEIVER_FIELDS :: "string list" where
  "RECEIVER_FIELDS =
    [''receiver_uid'', ''receiver_image'', ''receiver_operation_marker'', ''current_generation'',
     ''observed_generation'', ''receiver_resource_version'', ''desired_replicas'',
     ''updated_replicas'', ''available_replicas'', ''unavailable_replicas'',
     ''rollout_condition_type'', ''rollout_condition_status'', ''rollout_condition_reason'']"

definition snapshot_row :: "Record \<Rightarrow> (GatewayError, SnapshotRow) result" where
  "snapshot_row r =
     rbind (row_get (optional from_text) r ''approved_uid'') (\<lambda>v_approved_uid.
     rbind (row_get (optional from_text) r ''approved_resource_version'') (\<lambda>v_approved_resource_version.
     rbind (row_get (optional from_text) r ''preflight_uid'') (\<lambda>v_preflight_uid.
     rbind (row_get (optional from_text) r ''preflight_resource_version'') (\<lambda>v_preflight_resource_version.
     rbind (row_get from_text r ''operation_id'') (\<lambda>v_operation_id.
     rbind (row_get from_text r ''namespace'') (\<lambda>v_namespace.
     rbind (row_get from_text r ''deployment'') (\<lambda>v_deployment.
     rbind (row_get from_text r ''container'') (\<lambda>v_container.
     rbind (row_get from_text r ''immutable_image_digest'') (\<lambda>v_immutable_image_digest.
     rbind (row_get from_text r ''state'') (\<lambda>v_state.
     rbind (row_get (optional from_text) r ''result'') (\<lambda>v_result.
     rbind (row_get (optional from_text) r ''target_rejection'') (\<lambda>v_target_rejection.
     rbind (row_get (optional from_text) r ''authorization_id'') (\<lambda>v_authorization_id.
     rbind (row_get (optional from_text) r ''authorization_signer_key_id'') (\<lambda>v_authorization_signer_key_id.
     rbind (row_get (optional from_text) r ''authorization_grant_digest'') (\<lambda>v_authorization_grant_digest.
     rbind (row_get (optional from_text) r ''write_strategy'') (\<lambda>v_write_strategy.
     rbind (row_get from_integer r ''apply_attempted'') (\<lambda>v_apply_attempted.
     rbind (row_get (optional from_text) r ''target_uid'') (\<lambda>v_target_uid.
     rbind (row_get (optional from_text) r ''target_resource_version'') (\<lambda>v_target_resource_version.
     rbind (row_get (optional from_integer) r ''apply_accepted'') (\<lambda>v_apply_accepted.
     rbind (row_get (optional from_integer) r ''requested_generation'') (\<lambda>v_requested_generation.
     rbind (row_get (optional from_text) r ''apply_resource_version'') (\<lambda>v_apply_resource_version.
     let receiver_facts_present = list_ex (has_value r) RECEIVER_FIELDS in
     rbind (row_get (optional from_text) r ''receipt_digest'') (\<lambda>v_receipt_digest.
     rbind (row_get (optional from_blob) r ''receipt_bytes'') (\<lambda>v_receipt_bytes.
     rbind (row_get (optional from_text) r ''receipt_key_id'') (\<lambda>v_receipt_key_id.
     Inr \<lparr>sn_approved_uid = v_approved_uid,
          sn_approved_resource_version = v_approved_resource_version,
          sn_preflight_uid = v_preflight_uid,
          sn_preflight_resource_version = v_preflight_resource_version,
          sn_operation_id = v_operation_id,
          sn_namespace = v_namespace,
          sn_deployment = v_deployment,
          sn_container = v_container,
          sn_immutable_image_digest = v_immutable_image_digest,
          sn_state = v_state,
          sn_result = v_result,
          sn_target_rejection = v_target_rejection,
          sn_authorization_id = v_authorization_id,
          sn_authorization_signer_key_id = v_authorization_signer_key_id,
          sn_authorization_grant_digest = v_authorization_grant_digest,
          sn_write_strategy = v_write_strategy,
          sn_apply_attempted = v_apply_attempted,
          sn_target_uid = v_target_uid,
          sn_target_resource_version = v_target_resource_version,
          sn_apply_accepted = v_apply_accepted,
          sn_requested_generation = v_requested_generation,
          sn_apply_resource_version = v_apply_resource_version,
          sn_receiver_facts_present = receiver_facts_present,
          sn_receipt_digest = v_receipt_digest,
          sn_receipt_bytes = v_receipt_bytes,
          sn_receipt_key_id = v_receipt_key_id\<rparr>)))))))))))))))))))))))))"

text \<open>
  \<open>ReceiptRow\<close> and \<open>into_statement\<close>: the typed fields of an observed row, in the order they are
  read, then the statement built from them and validated.
\<close>

record ReceiptRow =
  rw_approved_uid :: "string option"
  rw_approved_resource_version :: "string option"
  rw_operation_id :: string
  rw_authorization_id :: "string option"
  rw_authorization_signer_key_id :: "string option"
  rw_authorization_grant_digest :: "string option"
  rw_namespace :: string
  rw_deployment :: string
  rw_container :: string
  rw_immutable_image_digest :: string
  rw_write_strategy :: "string option"
  rw_target_uid :: "string option"
  rw_target_resource_version :: "string option"
  rw_receiver_uid :: "string option"
  rw_observed_image :: "string option"
  rw_observed_operation_marker :: "string option"
  rw_current_generation :: "i64 option"
  rw_requested_generation :: "i64 option"
  rw_observed_generation :: "i64 option"
  rw_observed_resource_version :: "string option"
  rw_desired_replicas :: "i32 option"
  rw_updated_replicas :: "i32 option"
  rw_available_replicas :: "i32 option"
  rw_unavailable_replicas :: "i32 option"
  rw_rollout_condition_type :: "string option"
  rw_rollout_condition_status :: "string option"
  rw_rollout_condition_reason :: "string option"
  rw_result :: string

definition receipt_row :: "Record \<Rightarrow> (GatewayError, ReceiptRow) result" where
  "receipt_row r =
     rbind (row_get (optional from_text) r ''approved_uid'') (\<lambda>v_approved_uid.
     rbind (row_get (optional from_text) r ''approved_resource_version'') (\<lambda>v_approved_resource_version.
     rbind (row_get from_text r ''operation_id'') (\<lambda>v_operation_id.
     rbind (row_get (optional from_text) r ''authorization_id'') (\<lambda>v_authorization_id.
     rbind (row_get (optional from_text) r ''authorization_signer_key_id'') (\<lambda>v_authorization_signer_key_id.
     rbind (row_get (optional from_text) r ''authorization_grant_digest'') (\<lambda>v_authorization_grant_digest.
     rbind (row_get from_text r ''namespace'') (\<lambda>v_namespace.
     rbind (row_get from_text r ''deployment'') (\<lambda>v_deployment.
     rbind (row_get from_text r ''container'') (\<lambda>v_container.
     rbind (row_get from_text r ''immutable_image_digest'') (\<lambda>v_immutable_image_digest.
     rbind (row_get (optional from_text) r ''write_strategy'') (\<lambda>v_write_strategy.
     rbind (row_get (optional from_text) r ''target_uid'') (\<lambda>v_target_uid.
     rbind (row_get (optional from_text) r ''target_resource_version'') (\<lambda>v_target_resource_version.
     rbind (row_get (optional from_text) r ''receiver_uid'') (\<lambda>v_receiver_uid.
     rbind (row_get (optional from_text) r ''receiver_image'') (\<lambda>v_observed_image.
     rbind (row_get (optional from_text) r ''receiver_operation_marker'') (\<lambda>v_observed_operation_marker.
     rbind (row_get (optional from_integer) r ''current_generation'') (\<lambda>v_current_generation.
     rbind (row_get (optional from_integer) r ''requested_generation'') (\<lambda>v_requested_generation.
     rbind (row_get (optional from_integer) r ''observed_generation'') (\<lambda>v_observed_generation.
     rbind (row_get (optional from_text) r ''receiver_resource_version'') (\<lambda>v_observed_resource_version.
     rbind (row_get (optional from_integer32) r ''desired_replicas'') (\<lambda>v_desired_replicas.
     rbind (row_get (optional from_integer32) r ''updated_replicas'') (\<lambda>v_updated_replicas.
     rbind (row_get (optional from_integer32) r ''available_replicas'') (\<lambda>v_available_replicas.
     rbind (row_get (optional from_integer32) r ''unavailable_replicas'') (\<lambda>v_unavailable_replicas.
     rbind (row_get (optional from_text) r ''rollout_condition_type'') (\<lambda>v_rollout_condition_type.
     rbind (row_get (optional from_text) r ''rollout_condition_status'') (\<lambda>v_rollout_condition_status.
     rbind (row_get (optional from_text) r ''rollout_condition_reason'') (\<lambda>v_rollout_condition_reason.
     rbind (row_get from_text r ''result'') (\<lambda>v_result.
     Inr \<lparr>rw_approved_uid = v_approved_uid,
          rw_approved_resource_version = v_approved_resource_version,
          rw_operation_id = v_operation_id,
          rw_authorization_id = v_authorization_id,
          rw_authorization_signer_key_id = v_authorization_signer_key_id,
          rw_authorization_grant_digest = v_authorization_grant_digest,
          rw_namespace = v_namespace,
          rw_deployment = v_deployment,
          rw_container = v_container,
          rw_immutable_image_digest = v_immutable_image_digest,
          rw_write_strategy = v_write_strategy,
          rw_target_uid = v_target_uid,
          rw_target_resource_version = v_target_resource_version,
          rw_receiver_uid = v_receiver_uid,
          rw_observed_image = v_observed_image,
          rw_observed_operation_marker = v_observed_operation_marker,
          rw_current_generation = v_current_generation,
          rw_requested_generation = v_requested_generation,
          rw_observed_generation = v_observed_generation,
          rw_observed_resource_version = v_observed_resource_version,
          rw_desired_replicas = v_desired_replicas,
          rw_updated_replicas = v_updated_replicas,
          rw_available_replicas = v_available_replicas,
          rw_unavailable_replicas = v_unavailable_replicas,
          rw_rollout_condition_type = v_rollout_condition_type,
          rw_rollout_condition_status = v_rollout_condition_status,
          rw_rollout_condition_reason = v_rollout_condition_reason,
          rw_result = v_result\<rparr>))))))))))))))))))))))))))))"

definition into_statement :: "ReceiptRow \<Rightarrow> (GatewayError, ReceiptStatement) result" where
  "into_statement w =
     rbind (snapshot_target (rw_approved_uid w) (rw_approved_resource_version w)) (\<lambda>approved_target.
     rbind (ok_or InvalidPersistedState (rw_authorization_id w)) (\<lambda>v_authorization_id.
     rbind (ok_or InvalidPersistedState (rw_authorization_signer_key_id w)) (\<lambda>v_authorization_signer_key_id.
     rbind (ok_or InvalidPersistedState (rw_authorization_grant_digest w)) (\<lambda>v_authorization_grant_digest.
     rbind (ok_or InvalidPersistedState (rw_write_strategy w)) (\<lambda>v_write_strategy.
     rbind (ok_or InvalidPersistedState (rw_target_uid w)) (\<lambda>v_target_uid.
     rbind (ok_or InvalidPersistedState (rw_target_resource_version w)) (\<lambda>v_target_resource_version.
     rbind (result_from_sql (rw_result w)) (\<lambda>v_result.
     let statement = \<lparr>rs_approved_target = approved_target,
          rs_operation_id = rw_operation_id w,
          rs_authorization_id = v_authorization_id,
          rs_authorization_signer_key_id = v_authorization_signer_key_id,
          rs_authorization_grant_digest = v_authorization_grant_digest,
          rs_namespace = rw_namespace w,
          rs_deployment = rw_deployment w,
          rs_container = rw_container w,
          rs_immutable_image_digest = rw_immutable_image_digest w,
          rs_write_strategy = v_write_strategy,
          rs_target_uid = v_target_uid,
          rs_target_resource_version = v_target_resource_version,
          rs_receiver_uid = rw_receiver_uid w,
          rs_observed_image = rw_observed_image w,
          rs_observed_operation_marker = rw_observed_operation_marker w,
          rs_current_generation = rw_current_generation w,
          rs_requested_generation = rw_requested_generation w,
          rs_observed_generation = rw_observed_generation w,
          rs_observed_resource_version = rw_observed_resource_version w,
          rs_desired_replicas = rw_desired_replicas w,
          rs_updated_replicas = rw_updated_replicas w,
          rs_available_replicas = rw_available_replicas w,
          rs_unavailable_replicas = rw_unavailable_replicas w,
          rs_rollout_condition_type = rw_rollout_condition_type w,
          rs_rollout_condition_status = rw_rollout_condition_status w,
          rs_rollout_condition_reason = rw_rollout_condition_reason w,
          rs_result = v_result\<rparr> in
     rbind (map_err (\<lambda>_. InvalidPersistedState) (receipt_validate statement)) (\<lambda>_.
     Inr statement)))))))))"

definition decode :: "crypto \<Rightarrow> Record \<Rightarrow> (GatewayError, LoadedOperation) result" where
  "decode C r =
     rbind (snapshot_row r) (\<lambda>snapshot.
     rbind (if sn_state snapshot = ''receiver_observed'' \<or> sn_state snapshot = ''finalized''
       then rbind (receipt_row r) (\<lambda>w. rbind (into_statement w) (\<lambda>statement. Inr (Some statement)))
       else Inr None) (\<lambda>statement.
     into_operation C snapshot statement))"

section \<open>Stored values\<close>

definition opt_text :: "string option \<Rightarrow> Value" where
  "opt_text v = (case v of None \<Rightarrow> Null | Some s \<Rightarrow> Text s)"

definition opt_integer :: "i64 option \<Rightarrow> Value" where
  "opt_integer v = (case v of None \<Rightarrow> Null | Some i \<Rightarrow> Integer i)"

definition opt_integer32 :: "i32 option \<Rightarrow> Value" where
  "opt_integer32 v = opt_integer (map_option i64_of_i32 v)"

definition opt_blob :: "bytes option \<Rightarrow> Value" where
  "opt_blob v = (case v of None \<Rightarrow> Null | Some b \<Rightarrow> Blob b)"

lemma opt_value_simps [simp]:
  "opt_text None = Null" "opt_text (Some s) = Text s"
  "opt_integer None = Null" "opt_integer (Some i) = Integer i"
  "opt_integer32 None = Null" "opt_integer32 (Some j) = Integer (i64_of_i32 j)"
  "opt_blob None = Null" "opt_blob (Some b) = Blob b"
  by (simp_all add: opt_text_def opt_integer_def opt_integer32_def opt_blob_def)

lemma sint_of_int_range:
  "- (2 ^ 63) \<le> k \<Longrightarrow> k < 2 ^ 63 \<Longrightarrow> sint (word_of_int k :: i64) = k"
  "- (2 ^ 31) \<le> k \<Longrightarrow> k < 2 ^ 31 \<Longrightarrow> sint (word_of_int k :: i32) = k"
  by (simp_all add: signed_of_int signed_take_bit_int_eq_self)

lemma i32_range: "- (2 ^ 31) \<le> sint (j :: i32)" "sint j < 2 ^ 31"
  using sint_greater_eq [of j] sint_less [of j] by simp_all

lemma sint_i64_of_i32 [simp]: "sint (i64_of_i32 j) = sint j"
  unfolding i64_of_i32_def using i32_range [of j] by (intro sint_of_int_range(1)) simp_all

lemma i32_of_i64_iff: "i32_of_i64 i = Inr j \<longleftrightarrow> i = i64_of_i32 j"
proof
  assume "i = i64_of_i32 j"
  then show "i32_of_i64 i = Inr j"
    using i32_range [of j] by (simp add: i32_of_i64_def)
next
  assume "i32_of_i64 i = Inr j"
  then have range: "- (2 ^ 31) \<le> sint i" "sint i < 2 ^ 31" and j: "j = word_of_int (sint i)"
    by (auto simp: i32_of_i64_def split: if_splits)
  have "sint j = sint i"
    unfolding j using range by (rule sint_of_int_range(2))
  then have "sint (i64_of_i32 j) = sint i" by simp
  then show "i = i64_of_i32 j" by (metis signed_word_eqI)
qed

lemma row_get_iff [simp]:
  "row_get from_text r f = Inr s \<longleftrightarrow> field r f = Text s"
  "row_get from_integer r f = Inr i \<longleftrightarrow> field r f = Integer i"
  "row_get (optional from_text) r f = Inr ot \<longleftrightarrow> field r f = opt_text ot"
  "row_get (optional from_integer) r f = Inr oi \<longleftrightarrow> field r f = opt_integer oi"
  "row_get (optional from_blob) r f = Inr ob \<longleftrightarrow> field r f = opt_blob ob"
  "row_get (optional from_integer32) r f = Inr oj \<longleftrightarrow> field r f = opt_integer32 oj"
  "row_get from_blob r f = Inr b \<longleftrightarrow> field r f = Blob b"
  by (cases "field r f"; cases ot; cases oi; cases ob; cases oj;
      simp add: row_get_def optional_def rbind_eq_Inr i32_of_i64_iff)+

lemma snapshot_row_iff: "snapshot_row r = Inr sn \<longleftrightarrow>
    field r ''approved_uid'' = opt_text (sn_approved_uid sn) \<and>
    field r ''approved_resource_version'' = opt_text (sn_approved_resource_version sn) \<and>
    field r ''preflight_uid'' = opt_text (sn_preflight_uid sn) \<and>
    field r ''preflight_resource_version'' = opt_text (sn_preflight_resource_version sn) \<and>
    field r ''operation_id'' = Text (sn_operation_id sn) \<and>
    field r ''namespace'' = Text (sn_namespace sn) \<and>
    field r ''deployment'' = Text (sn_deployment sn) \<and>
    field r ''container'' = Text (sn_container sn) \<and>
    field r ''immutable_image_digest'' = Text (sn_immutable_image_digest sn) \<and>
    field r ''state'' = Text (sn_state sn) \<and>
    field r ''result'' = opt_text (sn_result sn) \<and>
    field r ''target_rejection'' = opt_text (sn_target_rejection sn) \<and>
    field r ''authorization_id'' = opt_text (sn_authorization_id sn) \<and>
    field r ''authorization_signer_key_id'' = opt_text (sn_authorization_signer_key_id sn) \<and>
    field r ''authorization_grant_digest'' = opt_text (sn_authorization_grant_digest sn) \<and>
    field r ''write_strategy'' = opt_text (sn_write_strategy sn) \<and>
    field r ''apply_attempted'' = Integer (sn_apply_attempted sn) \<and>
    field r ''target_uid'' = opt_text (sn_target_uid sn) \<and>
    field r ''target_resource_version'' = opt_text (sn_target_resource_version sn) \<and>
    field r ''apply_accepted'' = opt_integer (sn_apply_accepted sn) \<and>
    field r ''requested_generation'' = opt_integer (sn_requested_generation sn) \<and>
    field r ''apply_resource_version'' = opt_text (sn_apply_resource_version sn) \<and>
    field r ''receipt_digest'' = opt_text (sn_receipt_digest sn) \<and>
    field r ''receipt_bytes'' = opt_blob (sn_receipt_bytes sn) \<and>
    field r ''receipt_key_id'' = opt_text (sn_receipt_key_id sn) \<and>
    sn_receiver_facts_present sn = list_ex (has_value r) RECEIVER_FIELDS"
  by (cases sn) (auto simp: snapshot_row_def rbind_eq_Inr Let_def)

lemma receipt_row_iff: "receipt_row r = Inr w \<longleftrightarrow>
    field r ''approved_uid'' = opt_text (rw_approved_uid w) \<and>
    field r ''approved_resource_version'' = opt_text (rw_approved_resource_version w) \<and>
    field r ''operation_id'' = Text (rw_operation_id w) \<and>
    field r ''authorization_id'' = opt_text (rw_authorization_id w) \<and>
    field r ''authorization_signer_key_id'' = opt_text (rw_authorization_signer_key_id w) \<and>
    field r ''authorization_grant_digest'' = opt_text (rw_authorization_grant_digest w) \<and>
    field r ''namespace'' = Text (rw_namespace w) \<and>
    field r ''deployment'' = Text (rw_deployment w) \<and>
    field r ''container'' = Text (rw_container w) \<and>
    field r ''immutable_image_digest'' = Text (rw_immutable_image_digest w) \<and>
    field r ''write_strategy'' = opt_text (rw_write_strategy w) \<and>
    field r ''target_uid'' = opt_text (rw_target_uid w) \<and>
    field r ''target_resource_version'' = opt_text (rw_target_resource_version w) \<and>
    field r ''receiver_uid'' = opt_text (rw_receiver_uid w) \<and>
    field r ''receiver_image'' = opt_text (rw_observed_image w) \<and>
    field r ''receiver_operation_marker'' = opt_text (rw_observed_operation_marker w) \<and>
    field r ''current_generation'' = opt_integer (rw_current_generation w) \<and>
    field r ''requested_generation'' = opt_integer (rw_requested_generation w) \<and>
    field r ''observed_generation'' = opt_integer (rw_observed_generation w) \<and>
    field r ''receiver_resource_version'' = opt_text (rw_observed_resource_version w) \<and>
    field r ''desired_replicas'' = opt_integer32 (rw_desired_replicas w) \<and>
    field r ''updated_replicas'' = opt_integer32 (rw_updated_replicas w) \<and>
    field r ''available_replicas'' = opt_integer32 (rw_available_replicas w) \<and>
    field r ''unavailable_replicas'' = opt_integer32 (rw_unavailable_replicas w) \<and>
    field r ''rollout_condition_type'' = opt_text (rw_rollout_condition_type w) \<and>
    field r ''rollout_condition_status'' = opt_text (rw_rollout_condition_status w) \<and>
    field r ''rollout_condition_reason'' = opt_text (rw_rollout_condition_reason w) \<and>
    field r ''result'' = Text (rw_result w)"
  by (cases w) (auto simp: receipt_row_def rbind_eq_Inr)

section \<open>What a decoded phase means\<close>

text \<open>The facts of a decoded row, as the decoder computes them before it selects the phase.\<close>

record PhaseFacts =
  pf_state :: OperationState
  pf_attempted :: bool
  pf_accepted :: "bool option"
  pf_request :: RequestFacts
  pf_result :: "OperationResult option"
  pf_rejection :: "TargetRejection option"
  pf_authorization :: "AuthorizationFacts option"
  pf_attempt :: "AttemptFacts option"
  pf_receipt :: "FrozenReceipt option"

definition snapshot_facts :: "crypto \<Rightarrow> SnapshotRow \<Rightarrow> ReceiptStatement option \<Rightarrow> PhaseFacts \<Rightarrow> bool" where
  "snapshot_facts C sn st p \<longleftrightarrow>
     sn_state sn = state_as_sql (pf_state p) \<and>
     sn_apply_attempted sn = (if pf_attempted p then 1 else 0) \<and>
     transpose_map decode_sql_bool (sn_apply_accepted sn) = Inr (pf_accepted p) \<and>
     snapshot_target (sn_approved_uid sn) (sn_approved_resource_version sn) = Inr (rf_approved_target (pf_request p)) \<and>
     snapshot_target (sn_preflight_uid sn) (sn_preflight_resource_version sn) = Inr (rf_preflight_target (pf_request p)) \<and>
     (rf_preflight_target (pf_request p) = None \<or> pf_state p \<notin> {Requested, Authorized}) \<and>
     to_adapter_request (rf_request (pf_request p)) =
       \<lparr>rq_operation_id = sn_operation_id sn, rq_namespace = sn_namespace sn,
        rq_deployment = sn_deployment sn, rq_container = sn_container sn,
        rq_immutable_image_digest = sn_immutable_image_digest sn\<rparr> \<and>
     request_valid (rf_request (pf_request p)) \<and>
     transpose_map result_from_sql (sn_result sn) = Inr (pf_result p) \<and>
     transpose_map rejection_from_sql (sn_target_rejection sn) = Inr (pf_rejection p) \<and>
     validate_snapshot_authorization (sn_authorization_id sn) (sn_authorization_signer_key_id sn)
       (sn_authorization_grant_digest sn) = Inr (pf_authorization p) \<and>
     validate_snapshot_attempt_facts (pf_state p) (sn_write_strategy sn) (sn_target_uid sn)
       (sn_target_resource_version sn) (pf_accepted p) (sn_requested_generation sn)
       (sn_apply_resource_version sn) = Inr (pf_attempt p) \<and>
     \<not> approval_violated (pf_request p) (pf_authorization p) (pf_attempt p) \<and>
     \<not> (pf_rejection p = Some StaleApproval \<and> (rf_approved_target (pf_request p) = None \<or>
          rf_preflight_target (pf_request p) = None \<or>
          rf_approved_target (pf_request p) = rf_preflight_target (pf_request p))) \<and>
     \<not> (pf_state p = NotAttempted \<and> pf_rejection p \<noteq> Some StaleApproval \<and> rf_preflight_target (pf_request p) \<noteq> None) \<and>
     map_option rs_result st = pf_result p \<and>
     snapshot_frozen_receipt C (vr_operation_id (rf_request (pf_request p))) (sn_receipt_digest sn)
       (sn_receipt_bytes sn) (sn_receipt_key_id sn) st = Inr (pf_receipt p)"

abbreviation phase_selected :: "PhaseFacts \<Rightarrow> SnapshotRow \<Rightarrow> ReceiptStatement option \<Rightarrow> LoadedOperation \<Rightarrow> bool" where
  "phase_selected p sn st op \<equiv> select_phase (pf_state p) (pf_attempted p) (pf_request p) (pf_authorization p)
     (pf_rejection p) (pf_attempt p) (pf_result p) st (pf_receipt p) (sn_receiver_facts_present sn) = Inr op"

lemma into_operation_iff: "into_operation C sn st = Inr op \<longleftrightarrow>
    (\<exists>p. snapshot_facts C sn st p \<and> phase_selected p sn st op)"
  (is "?l \<longleftrightarrow> ?r")
proof
  assume ?l
  then obtain state attempted accepted approved preflight validated result rejection authorization attempt receipt
    where f: "state_from_sql (sn_state sn) = Inr state" "decode_sql_bool (sn_apply_attempted sn) = Inr attempted"
      "transpose_map decode_sql_bool (sn_apply_accepted sn) = Inr accepted"
      "snapshot_target (sn_approved_uid sn) (sn_approved_resource_version sn) = Inr approved"
      "snapshot_target (sn_preflight_uid sn) (sn_preflight_resource_version sn) = Inr preflight"
      "\<not> (preflight \<noteq> None \<and> (state = Requested \<or> state = Authorized))"
      "validated_request_try_from \<lparr>rq_operation_id = sn_operation_id sn, rq_namespace = sn_namespace sn,
        rq_deployment = sn_deployment sn, rq_container = sn_container sn,
        rq_immutable_image_digest = sn_immutable_image_digest sn\<rparr> = Inr validated"
      "transpose_map result_from_sql (sn_result sn) = Inr result"
      "transpose_map rejection_from_sql (sn_target_rejection sn) = Inr rejection"
      "validate_snapshot_authorization (sn_authorization_id sn) (sn_authorization_signer_key_id sn)
         (sn_authorization_grant_digest sn) = Inr authorization"
      "validate_snapshot_attempt_facts state (sn_write_strategy sn) (sn_target_uid sn)
         (sn_target_resource_version sn) accepted (sn_requested_generation sn) (sn_apply_resource_version sn) = Inr attempt"
      and request: "\<not> approval_violated \<lparr>rf_approved_target = approved, rf_preflight_target = preflight, rf_request = validated\<rparr>
         authorization attempt"
      "\<not> (rejection = Some StaleApproval \<and> (approved = None \<or> preflight = None \<or> approved = preflight))"
      "\<not> (state = NotAttempted \<and> rejection \<noteq> Some StaleApproval \<and> preflight \<noteq> None)"
      "map_option rs_result st = result"
      "snapshot_frozen_receipt C (vr_operation_id validated) (sn_receipt_digest sn)
         (sn_receipt_bytes sn) (sn_receipt_key_id sn) st = Inr receipt"
      "select_phase state attempted \<lparr>rf_approved_target = approved, rf_preflight_target = preflight, rf_request = validated\<rparr>
         authorization rejection attempt result st receipt (sn_receiver_facts_present sn) = Inr op"
    unfolding into_operation_def Let_def rbind_eq_Inr if_error_iff map_err_eq_Inr
      RequestFacts.select_convs by blast
  let ?p = "\<lparr>pf_state = state, pf_attempted = attempted, pf_accepted = accepted,
    pf_request = \<lparr>rf_approved_target = approved, rf_preflight_target = preflight, rf_request = validated\<rparr>,
    pf_result = result, pf_rejection = rejection, pf_authorization = authorization, pf_attempt = attempt,
    pf_receipt = receipt\<rparr>"
  have "snapshot_facts C sn st ?p"
    using f request by (simp add: snapshot_facts_def state_from_sql_iff decode_sql_bool_iff validated_request_iff)
  moreover have "phase_selected ?p sn st op"
    using request by simp
  ultimately show ?r by blast
next
  assume ?r
  then obtain p where p: "snapshot_facts C sn st p" "phase_selected p sn st op" by blast
  obtain approved preflight validated where
    r: "pf_request p = \<lparr>rf_approved_target = approved, rf_preflight_target = preflight, rf_request = validated\<rparr>"
    by (cases "pf_request p")
  from p(1) have
    "state_from_sql (sn_state sn) = Inr (pf_state p)" "decode_sql_bool (sn_apply_attempted sn) = Inr (pf_attempted p)"
    "validated_request_try_from \<lparr>rq_operation_id = sn_operation_id sn, rq_namespace = sn_namespace sn,
        rq_deployment = sn_deployment sn, rq_container = sn_container sn,
        rq_immutable_image_digest = sn_immutable_image_digest sn\<rparr> = Inr validated"
    by (auto simp: snapshot_facts_def state_from_sql_iff decode_sql_bool_iff validated_request_iff r)
  with p r show ?l
    by (simp add: into_operation_def snapshot_facts_def Let_def)
qed

lemma select_phase_state:
  "select_phase st att rq au rej atm res rcv rcp present = Inr op \<Longrightarrow> loaded_state op = st \<and> request_facts op = rq"
  by (cases st) (auto simp: select_phase_def split: if_splits)

lemma select_phase_iffs:
  "select_phase st att rq au rej atm res rcv rcp present = Inr (LRequested facts) \<longleftrightarrow>
    st = Requested \<and> facts = rq \<and> \<not> att \<and> rej = None \<and> atm = None \<and> res = None \<and> rcv = None \<and> rcp = None \<and> \<not> present"
  "select_phase st att rq au rej atm res rcv rcp present = Inr (LAuthorized azo) \<longleftrightarrow>
    st = Authorized \<and> azo_request azo = rq \<and> au = Some (azo_authorization azo) \<and> \<not> att \<and> rej = None \<and> atm = None \<and>
    res = None \<and> rcv = None \<and> rcp = None \<and> \<not> present"
  "select_phase st att rq au rej atm res rcv rcp present = Inr (LNotAttempted azo rejection) \<longleftrightarrow>
    st = NotAttempted \<and> azo_request azo = rq \<and> au = Some (azo_authorization azo) \<and> \<not> att \<and> rej = Some rejection \<and>
    atm = None \<and> res = None \<and> rcv = None \<and> rcp = None \<and> \<not> present"
  "select_phase st att rq au rej atm res rcv rcp present = Inr (LApplyStarted aso) \<longleftrightarrow>
    st = ApplyStarted \<and> azo_request (aso_authorized aso) = rq \<and> au = Some (azo_authorization (aso_authorized aso)) \<and>
    att \<and> rej = None \<and> atm = Some (aso_attempt aso) \<and> res = None \<and> rcv = None \<and> rcp = None \<and> \<not> present"
  "select_phase st att rq au rej atm res rcv rcp present = Inr (LReceiverObserved obo) \<longleftrightarrow>
    st = ReceiverObserved \<and> azo_request (aso_authorized (obo_apply_started obo)) = rq \<and>
    au = Some (azo_authorization (aso_authorized (obo_apply_started obo))) \<and> att \<and> rej = None \<and>
    atm = Some (aso_attempt (obo_apply_started obo)) \<and> res \<noteq> None \<and> rcv = Some (obo_statement obo) \<and> rcp = None"
  "select_phase st att rq au rej atm res rcv rcp present = Inr (LFinalized obo receipt) \<longleftrightarrow>
    st = Finalized \<and> azo_request (aso_authorized (obo_apply_started obo)) = rq \<and>
    au = Some (azo_authorization (aso_authorized (obo_apply_started obo))) \<and> att \<and> rej = None \<and>
    atm = Some (aso_attempt (obo_apply_started obo)) \<and> res \<noteq> None \<and> rcv = Some (obo_statement obo) \<and>
    rcp = Some receipt"
  by (cases st; cases azo; cases aso; cases obo; cases "aso_authorized aso"; cases "obo_apply_started obo";
      auto simp: select_phase_def)+

definition row_statement :: "Record \<Rightarrow> string \<Rightarrow> ReceiptStatement option \<Rightarrow> bool" where
  "row_statement r state st \<longleftrightarrow>
     (if state = ''receiver_observed'' \<or> state = ''finalized''
      then \<exists>w s. receipt_row r = Inr w \<and> into_statement w = Inr s \<and> st = Some s
      else st = None)"

lemma row_statement_iff:
  "(if state = ''receiver_observed'' \<or> state = ''finalized''
     then rbind (receipt_row r) (\<lambda>w. rbind (into_statement w) (\<lambda>statement. Inr (Some statement)))
     else Inr None) = Inr st \<longleftrightarrow> row_statement r state st"
  unfolding row_statement_def by (auto simp: rbind_eq_Inr)

lemma decode_iff: "decode C r = Inr op \<longleftrightarrow>
    (\<exists>sn st p. snapshot_row r = Inr sn \<and> row_statement r (sn_state sn) st \<and>
      snapshot_facts C sn st p \<and> phase_selected p sn st op)"
  unfolding decode_def rbind_eq_Inr row_statement_iff into_operation_iff by blast

lemma decode_state:
  assumes "decode C r = Inr op"
  shows "field r ''state'' = Text (state_as_sql (loaded_state op))"
    and "field r ''operation_id'' = Text (vr_operation_id (rf_request (request_facts op)))"
proof -
  from assms obtain sn st p where sn: "snapshot_row r = Inr sn" and p: "snapshot_facts C sn st p"
    and sel: "phase_selected p sn st op"
    unfolding decode_iff by blast
  have "loaded_state op = pf_state p" "request_facts op = pf_request p"
    using select_phase_state [OF sel] by simp_all
  with sn p show "field r ''state'' = Text (state_as_sql (loaded_state op))"
    "field r ''operation_id'' = Text (vr_operation_id (rf_request (request_facts op)))"
    by (simp_all add: snapshot_row_iff snapshot_facts_def to_adapter_request_def)
qed

text \<open>A decoded receipt embeds the statement the row's columns give, under the stored key and digest.\<close>

lemma decode_finalized_receipt:
  assumes "decode C r = Inr (LFinalized op receipt)"
  shows "decode_frozen_receipt (fr_bytes receipt) = Inr (fr_key_id receipt, obo_statement op)"
    and "fr_digest receipt = receipt_digest_hex C (fr_bytes receipt)"
    and "length (fr_bytes receipt) \<le> RECEIPT_BYTES_MAX"
    and "fr_operation_id receipt = vr_operation_id (rf_request (azo_request (aso_authorized (obo_apply_started op))))"
proof -
  from assms obtain sn st p where p: "snapshot_facts C sn st p" and sel: "phase_selected p sn st (LFinalized op receipt)"
    unfolding decode_iff by blast
  from sel have "st = Some (obo_statement op)" "pf_receipt p = Some receipt"
    "pf_request p = azo_request (aso_authorized (obo_apply_started op))"
    by (simp_all add: select_phase_iffs)
  with p have "snapshot_frozen_receipt C (vr_operation_id (rf_request (azo_request (aso_authorized (obo_apply_started op)))))
      (sn_receipt_digest sn) (sn_receipt_bytes sn) (sn_receipt_key_id sn) (Some (obo_statement op)) = Inr (Some receipt)"
    by (simp add: snapshot_facts_def)
  then show "decode_frozen_receipt (fr_bytes receipt) = Inr (fr_key_id receipt, obo_statement op)"
    "fr_digest receipt = receipt_digest_hex C (fr_bytes receipt)"
    "length (fr_bytes receipt) \<le> RECEIPT_BYTES_MAX"
    "fr_operation_id receipt = vr_operation_id (rf_request (azo_request (aso_authorized (obo_apply_started op))))"
    by (auto simp: snapshot_frozen_receipt_def validate_frozen_receipt_def rbind_eq_Inr if_error_iff
        split: option.splits)
qed

lemma decode_approved_attempt:
  assumes "decode C r = Inr op" "rf_approved_target (request_facts op) = Some approved"
    and "loaded_attempt op = Some attempt"
  shows "vt_deployment_uid (att_target attempt) = at_uid approved"
    "vt_resource_version (att_target attempt) = at_resource_version approved"
proof -
  from assms(1) obtain sn st p where p: "snapshot_facts C sn st p" and sel: "phase_selected p sn st op"
    unfolding decode_iff by blast
  from sel assms(3) have "pf_attempt p = Some attempt"
    by (cases op) (auto simp: select_phase_iffs)
  moreover have "rf_approved_target (pf_request p) = Some approved"
    using select_phase_state [OF sel] assms(2) by simp
  moreover have "\<not> approval_violated (pf_request p) (pf_authorization p) (pf_attempt p)"
    using p by (simp add: snapshot_facts_def)
  ultimately show "vt_deployment_uid (att_target attempt) = at_uid approved"
    "vt_resource_version (att_target attempt) = at_resource_version approved"
    by (simp_all add: approval_violated_def)
qed

end
