(* ===== verification/Action.thy ===== *)
theory Action
  imports Prelude
begin

text \<open>
  Stateful code with early return: an action maps a state to a result and the state it leaves,
  so an error returned half-way keeps the changes made before it, as the sources do. \<open>abind\<close> is
  sequencing through the \<open>?\<close> operator. Triples \<open>valid P m Q\<close> and the preservation predicate
  \<open>moves R m\<close> carry the proofs about the journal and the gateway.
\<close>

named_theorems action_rules \<open>rules that decompose a triple along the action\<close>

type_synonym ('s, 'e, 'a) action = "'s \<Rightarrow> ('e, 'a) result \<times> 's"

definition lift :: "('e, 'a) result \<Rightarrow> ('s, 'e, 'a) action" where
  "lift m s = (m, s)"

abbreviation areturn :: "'a \<Rightarrow> ('s, 'e, 'a) action" where
  "areturn x \<equiv> lift (Inr x)"

abbreviation throw :: "'e \<Rightarrow> ('s, 'e, 'a) action" where
  "throw e \<equiv> lift (Inl e)"

definition abind :: "('s, 'e, 'a) action \<Rightarrow> ('a \<Rightarrow> ('s, 'e, 'b) action) \<Rightarrow> ('s, 'e, 'b) action" where
  "abind m f s = (case m s of (Inl e, s') \<Rightarrow> (Inl e, s') | (Inr x, s') \<Rightarrow> f x s')"

text \<open>A read of the state that may fail and changes nothing.\<close>

definition reads :: "('s \<Rightarrow> ('e, 'a) result) \<Rightarrow> ('s, 'e, 'a) action" where
  "reads f s = (f s, s)"

definition amap_err :: "('e \<Rightarrow> 'f) \<Rightarrow> ('s, 'e, 'a) action \<Rightarrow> ('s, 'f, 'a) action" where
  "amap_err g m s = (case m s of (r, s') \<Rightarrow> (map_err g r, s'))"

text \<open>An early error return under a condition.\<close>

definition throw_if :: "bool \<Rightarrow> 'e \<Rightarrow> ('s, 'e, unit) action" where
  "throw_if b e = (if b then throw e else areturn ())"

lemma action_simps [simp]:
  "lift m s = (m, s)"
  "abind (lift (Inr x)) f = f x"
  "abind (lift (Inl e)) f = lift (Inl e)"
  "reads g s = (g s, s)"
  by (simp_all add: lift_def abind_def reads_def fun_eq_iff)

lemma abind_eq: "abind m f s = (case m s of (Inl e, s') \<Rightarrow> (Inl e, s') | (Inr x, s') \<Rightarrow> f x s')"
  by (fact abind_def)

lemma abind_assoc: "abind (abind m f) g = abind m (\<lambda>x. abind (f x) g)"
  by (auto simp: abind_def fun_eq_iff split: prod.splits sum.splits)

lemma abind_Inr:
  "abind m f s = (Inr y, s'') \<longleftrightarrow> (\<exists>x s'. m s = (Inr x, s') \<and> f x s' = (Inr y, s''))"
  by (auto simp: abind_def split: prod.splits sum.splits)

lemma amap_err_Inr [simp]: "amap_err g m s = (Inr y, s') \<longleftrightarrow> m s = (Inr y, s')"
  by (auto simp: amap_err_def split: prod.splits)

lemma snd_amap_err [simp]: "snd (amap_err g m s) = snd (m s)"
  by (simp add: amap_err_def split: prod.splits)

lemma throw_if_simps [simp]: "throw_if True e = throw e" "throw_if False e = areturn ()"
  by (simp_all add: throw_if_def)

lemma abind_run: "m s = (Inl e, s') \<Longrightarrow> abind m f s = (Inl e, s')" "m s = (Inr x, s') \<Longrightarrow> abind m f s = f x s'"
  by (simp_all add: abind_def)

section \<open>Triples\<close>

definition valid :: "('s \<Rightarrow> bool) \<Rightarrow> ('s, 'e, 'a) action \<Rightarrow> (('e, 'a) result \<Rightarrow> 's \<Rightarrow> bool) \<Rightarrow> bool" where
  "valid P m Q \<longleftrightarrow> (\<forall>s. P s \<longrightarrow> Q (fst (m s)) (snd (m s)))"

lemma validI: "(\<And>s r s'. P s \<Longrightarrow> m s = (r, s') \<Longrightarrow> Q r s') \<Longrightarrow> valid P m Q"
  by (simp add: valid_def)

lemma validD: "valid P m Q \<Longrightarrow> P s \<Longrightarrow> m s = (r, s') \<Longrightarrow> Q r s'"
  by (auto simp: valid_def)

lemma valid_weaken: "valid P m Q \<Longrightarrow> (\<And>s. P' s \<Longrightarrow> P s) \<Longrightarrow> (\<And>r s. Q r s \<Longrightarrow> Q' r s) \<Longrightarrow> valid P' m Q'"
  by (simp add: valid_def)

lemma valid_lift: "(\<And>s. P s \<Longrightarrow> Q m s) \<Longrightarrow> valid P (lift m) Q"
  by (simp add: valid_def)

lemma valid_reads: "(\<And>s. P s \<Longrightarrow> Q (g s) s) \<Longrightarrow> valid P (reads g) Q"
  by (simp add: valid_def)

lemma valid_abind:
  assumes "valid P m M" "\<And>s e. M (Inl e) s \<Longrightarrow> Q (Inl e) s" "\<And>x. valid (M (Inr x)) (f x) Q"
  shows "valid P (abind m f) Q"
proof (rule validI)
  fix s r s'
  assume "P s" "abind m f s = (r, s')"
  then show "Q r s'"
    using validD [OF assms(1), of s] validD [OF assms(3)] assms(2)
    by (auto simp: abind_def split: prod.splits sum.splits)
qed

lemma valid_amap_err: "valid P m (\<lambda>r. Q (map_err g r)) \<Longrightarrow> valid P (amap_err g m) Q"
  by (auto simp: valid_def amap_err_def split: prod.splits)

lemma valid_conj: "valid P m Q \<Longrightarrow> valid P m R \<Longrightarrow> valid P m (\<lambda>r s. Q r s \<and> R r s)"
  by (simp add: valid_def)

section \<open>Preservation\<close>

definition moves :: "('s \<Rightarrow> 's \<Rightarrow> bool) \<Rightarrow> ('s, 'e, 'a) action \<Rightarrow> bool" where
  "moves R m \<longleftrightarrow> (\<forall>s. R s (snd (m s)))"

lemma movesD: "moves R m \<Longrightarrow> m s = (r, s') \<Longrightarrow> R s s'"
  by (auto simp: moves_def) (metis snd_conv)

lemma movesI: "(\<And>s r s'. m s = (r, s') \<Longrightarrow> R s s') \<Longrightarrow> moves R m"
  by (simp add: moves_def) (metis prod.collapse)

lemma moves_lift [action_rules]: "reflp R \<Longrightarrow> moves R (lift m)"
  by (simp add: moves_def reflpD)

lemma moves_reads [action_rules]: "reflp R \<Longrightarrow> moves R (reads g)"
  by (simp add: moves_def reflpD)

lemma moves_throw_if [action_rules]: "reflp R \<Longrightarrow> moves R (throw_if b e)"
  by (simp add: throw_if_def moves_lift)

lemma moves_abind [action_rules]:
  assumes "transp R" "moves R m" "\<And>x. moves R (f x)"
  shows "moves R (abind m f)"
proof (rule movesI)
  fix s r s'
  assume step: "abind m f s = (r, s')"
  obtain a t where m: "m s = (a, t)" by fastforce
  have "R s t" using movesD [OF assms(2) m] .
  with step m show "R s s'"
    using movesD [OF assms(3)] transpD [OF assms(1)]
    by (cases a) (auto simp: abind_def)
qed

lemma moves_amap_err [action_rules]: "moves R m \<Longrightarrow> moves R (amap_err g m)"
  by (simp add: moves_def)

lemma moves_if [action_rules]: "moves R a \<Longrightarrow> moves R b \<Longrightarrow> moves R (if c then a else b)"
  by simp

lemma moves_option [action_rules]:
  "moves R a \<Longrightarrow> (\<And>x. moves R (g x)) \<Longrightarrow> moves R (case v of None \<Rightarrow> a | Some x \<Rightarrow> g x)"
  by (cases v) simp_all

section \<open>Logs of effects on the outside\<close>

text \<open>
  A world holds a store and a log of effects. \<open>safe_log\<close> is what every action keeps: nothing
  dispatched or recorded is forgotten, and the effects an action adds are at most one per key,
  only for keys it dispatched itself, each recorded in the store; the rest does not change.
\<close>

definition safe_log ::
    "('w \<Rightarrow> 's) \<Rightarrow> ('w \<Rightarrow> 'p list) \<Rightarrow> ('p \<Rightarrow> 'k) \<Rightarrow> ('k \<Rightarrow> 's \<Rightarrow> bool) \<Rightarrow> ('p \<Rightarrow> 's \<Rightarrow> bool) \<Rightarrow> ('s \<Rightarrow> bool) \<Rightarrow>
      ('w \<Rightarrow> 'f) \<Rightarrow> 'w \<Rightarrow> 'w \<Rightarrow> bool" where
  "safe_log st lg key dispatched recorded good rest w w' \<longleftrightarrow> (good (st w) \<longrightarrow> good (st w') \<and>
     (\<forall>k. dispatched k (st w) \<longrightarrow> dispatched k (st w')) \<and>
     (\<forall>p. recorded p (st w) \<longrightarrow> recorded p (st w')) \<and>
     (\<exists>new. lg w' = lg w @ new \<and>
        (\<forall>k. length (filter (\<lambda>p. key p = k) new) \<le> (if dispatched k (st w') \<and> \<not> dispatched k (st w) then 1 else 0)) \<and>
        (\<forall>p \<in> set new. recorded p (st w'))) \<and>
     rest w' = rest w)"

lemma safe_log_refl: "reflp (safe_log st lg key dispatched recorded good rest)"
  by (auto simp: reflp_def safe_log_def)

lemma safe_log_trans: "transp (safe_log st lg key dispatched recorded good rest)" (is "transp ?R")
proof (rule transpI)
  fix a b c
  assume ab: "?R a b" and bc: "?R b c"
  show "?R a c"
  proof (cases "good (st a)")
    case True
    with ab obtain m where m: "good (st b)" "\<And>k. dispatched k (st a) \<Longrightarrow> dispatched k (st b)"
      "\<And>p. recorded p (st a) \<Longrightarrow> recorded p (st b)" "lg b = lg a @ m"
      "\<And>k. length (filter (\<lambda>p. key p = k) m) \<le> (if dispatched k (st b) \<and> \<not> dispatched k (st a) then 1 else 0)"
      "\<And>p. p \<in> set m \<Longrightarrow> recorded p (st b)" "rest b = rest a" unfolding safe_log_def by blast
    with bc obtain n where n: "good (st c)" "\<And>k. dispatched k (st b) \<Longrightarrow> dispatched k (st c)"
      "\<And>p. recorded p (st b) \<Longrightarrow> recorded p (st c)" "lg c = lg b @ n"
      "\<And>k. length (filter (\<lambda>p. key p = k) n) \<le> (if dispatched k (st c) \<and> \<not> dispatched k (st b) then 1 else 0)"
      "\<And>p. p \<in> set n \<Longrightarrow> recorded p (st c)" "rest c = rest b" unfolding safe_log_def by blast
    have "length (filter (\<lambda>p. key p = k) (m @ n)) \<le> (if dispatched k (st c) \<and> \<not> dispatched k (st a) then 1 else 0)" for k
    proof -
      have "length (filter (\<lambda>p. key p = k) (m @ n)) = length (filter (\<lambda>p. key p = k) m) + length (filter (\<lambda>p. key p = k) n)"
        by simp
      then show ?thesis
        using m(2) [of k] m(5) [of k] n(2) [of k] n(5) [of k]
        by (cases "dispatched k (st a)"; cases "dispatched k (st b)"; cases "dispatched k (st c)") simp_all
    qed
    moreover have "lg c = lg a @ m @ n" using m(4) n(4) by simp
    moreover have "recorded p (st c)" if "p \<in> set (m @ n)" for p
      using that m(6) n(3,6) by auto
    ultimately have "\<exists>new. lg c = lg a @ new \<and>
        (\<forall>k. length (filter (\<lambda>p. key p = k) new) \<le> (if dispatched k (st c) \<and> \<not> dispatched k (st a) then 1 else 0)) \<and>
        (\<forall>p \<in> set new. recorded p (st c))"
      by blast
    with m(2,3,7) n(1-3,7) show ?thesis unfolding safe_log_def by force
  qed (simp add: safe_log_def)
qed

section \<open>Sequences of calls that may grant a permission\<close>

text \<open>
  A store is called repeatedly; a call that succeeds may return a permission. \<open>run_calls\<close> collects
  the permissions in order.
\<close>

fun run_calls :: "('c \<Rightarrow> ('s, 'e, 'p option) action) \<Rightarrow> 'c list \<Rightarrow> 's \<Rightarrow> 'p list \<times> 's" where
  "run_calls step [] s = ([], s)"
| "run_calls step (c # cs) s =
     (case step c s of (r, s') \<Rightarrow> (case run_calls step cs s' of (ps, s'') \<Rightarrow>
        (case r of Inr (Some p) \<Rightarrow> (p # ps, s'') | _ \<Rightarrow> (ps, s''))))"

lemma snd_run_calls [simp]: "snd (run_calls step (c # cs) s) = snd (run_calls step cs (snd (step c s)))"
  by (auto split: prod.splits sum.splits option.splits)

text \<open>
  What at-most-once dispatch relies on: a key, once dispatched, stays so, and a permission is
  granted only on the step that makes its key dispatched.
\<close>

locale single_dispatch =
  fixes step :: "'c \<Rightarrow> ('s, 'e, 'p option) action" and key :: "'p \<Rightarrow> 'k"
    and dispatched :: "'k \<Rightarrow> 's \<Rightarrow> bool" and inv :: "'s \<Rightarrow> bool"
  assumes inv_step: "inv s \<Longrightarrow> step c s = (r, s') \<Longrightarrow> inv s'"
    and dispatched_step: "inv s \<Longrightarrow> step c s = (r, s') \<Longrightarrow> dispatched k s \<Longrightarrow> dispatched k s'"
    and permission_fresh: "inv s \<Longrightarrow> step c s = (Inr (Some p), s') \<Longrightarrow> \<not> dispatched (key p) s \<and> dispatched (key p) s'"
begin

lemma run_inv: "inv s \<Longrightarrow> inv (snd (run_calls step cs s))"
proof (induction cs arbitrary: s)
  case (Cons c cs)
  then show ?case using inv_step [of s c] by (simp del: run_calls.simps) (metis prod.collapse)
qed simp

lemma run_dispatched: "inv s \<Longrightarrow> dispatched k s \<Longrightarrow> dispatched k (snd (run_calls step cs s))"
proof (induction cs arbitrary: s)
  case (Cons c cs)
  then show ?case
    using inv_step [of s c] dispatched_step [of s c] by (simp del: run_calls.simps) (metis prod.collapse)
qed simp

lemma run_permissions:
  assumes "inv s"
  shows "length (filter (\<lambda>p. key p = k) (fst (run_calls step cs s))) \<le> (if dispatched k s then 0 else 1)"
  using assms
proof (induction cs arbitrary: s)
  case (Cons c cs)
  obtain r s' where st: "step c s = (r, s')" by fastforce
  obtain ps s'' where run: "run_calls step cs s' = (ps, s'')" by fastforce
  have ih: "length (filter (\<lambda>p. key p = k) ps) \<le> (if dispatched k s' then 0 else 1)"
    using Cons.IH [of s'] inv_step [OF Cons.prems st] by (simp add: run)
  show ?case
  proof (cases "\<exists>p. r = Inr (Some p) \<and> key p = k")
    case True
    then obtain p where "r = Inr (Some p)" "key p = k" by blast
    with st run ih permission_fresh [OF Cons.prems] show ?thesis by auto
  next
    case False
    then have "filter (\<lambda>p. key p = k) (fst (run_calls step (c # cs) s)) = filter (\<lambda>p. key p = k) ps"
      using st run by (auto split: sum.splits option.splits)
    with ih dispatched_step [OF Cons.prems st, of k] show ?thesis by (auto split: if_splits)
  qed
qed simp

text \<open>A relation between states that every step respects holds around a whole sequence.\<close>

lemma run_related:
  assumes "inv s" "reflp R" "transp R" "\<And>s c r s'. inv s \<Longrightarrow> step c s = (r, s') \<Longrightarrow> R s s'"
  shows "R s (snd (run_calls step cs s))"
  using assms(1)
proof (induction cs arbitrary: s)
  case Nil
  then show ?case using reflpD [OF assms(2)] by simp
next
  case (Cons c cs)
  obtain r s' where st: "step c s = (r, s')" by fastforce
  with Cons inv_step have "R s' (snd (run_calls step cs s'))" by blast
  with assms(4) [OF Cons.prems st] transpD [OF assms(3)] st show ?case
    by (simp del: run_calls.simps)
qed

end

end
