(* ===== verification/Journal.thy ===== *)
theory Journal
  imports Phases Action
begin

text \<open>
  The operations of the journal, \<open>src/gateway/journal/mod.rs\<close>. Every write names the complete
  row it was derived from: it re-reads and re-decodes the row, compares the typed phase the
  caller holds, builds the next row by setting columns, and replaces the row conditionally.
  Reads are functions of the database; writes are actions on it with the delivery of their
  commit as a parameter.

  \<open>connection.transaction\<close> opens a deferred read transaction, so the reads of one function see one
  database; the hook called between the two reads of \<open>authorized_record_on\<close> does nothing outside
  tests.
\<close>

section \<open>Reads\<close>

type_synonym 'a journal_write = "(Db, GatewayError, 'a) action"

record DispatchPermission =
  dp_request :: ValidatedRequest
  dp_target :: ValidatedTargetIdentity

definition into_payload :: "DispatchPermission \<Rightarrow> SetDeploymentImageRequest \<times> TargetIdentity" where
  "into_payload p = (to_adapter_request (dp_request p), to_adapter_target (dp_target p))"

definition operation :: "crypto \<Rightarrow> Db \<Rightarrow> string \<Rightarrow> (GatewayError, LoadedOperation option) result" where
  "operation C db operation_id =
     rbind (record_read db operation_id) (\<lambda>record. transpose_map (decode C) record)"

definition bound_record :: "crypto \<Rightarrow> string \<Rightarrow> LoadedOperation \<Rightarrow> Db \<Rightarrow> (GatewayError, Record) result" where
  "bound_record C ident op db =
     rbind (rbind (record_read db ident) (ok_or InvalidTransition)) (\<lambda>record.
     rbind (decode C record) (\<lambda>decoded.
     if decoded \<noteq> op then Inl InvalidTransition else Inr record))"

record RetainedBinding =
  rb_namespace :: string
  rb_deployment :: string
  rb_container :: string
  rb_image :: string
  rb_authorization_id :: "string option"
  rb_authorization_signer_key_id :: "string option"
  rb_authorization_grant_digest :: "string option"
  rb_state :: string
  rb_signed_grant :: "bytes option"

definition retained_binding :: "Record \<Rightarrow> (GatewayError, RetainedBinding) result" where
  "retained_binding record =
     rbind (row_get from_text record ''namespace'') (\<lambda>namespace.
     rbind (row_get from_text record ''deployment'') (\<lambda>deployment.
     rbind (row_get from_text record ''container'') (\<lambda>container.
     rbind (row_get from_text record ''immutable_image_digest'') (\<lambda>img.
     rbind (row_get (optional from_text) record ''authorization_id'') (\<lambda>authorization_id.
     rbind (row_get (optional from_text) record ''authorization_signer_key_id'') (\<lambda>signer_key_id.
     rbind (row_get (optional from_text) record ''authorization_grant_digest'') (\<lambda>grant_digest.
     rbind (row_get from_text record ''state'') (\<lambda>state.
     rbind (row_get (optional from_blob) record ''signed_authorization_grant'') (\<lambda>signed_grant.
     Inr \<lparr>rb_namespace = namespace, rb_deployment = deployment, rb_container = container, rb_image = img,
          rb_authorization_id = authorization_id, rb_authorization_signer_key_id = signer_key_id,
          rb_authorization_grant_digest = grant_digest, rb_state = state,
          rb_signed_grant = signed_grant\<rparr>)))))))))"

definition authorized_record_on ::
    "crypto \<Rightarrow> Db \<Rightarrow> AuthorizedRequest \<Rightarrow> (GatewayError, LoadedOperation option) result" where
  "authorized_record_on C db authorized =
     (let request = aq_request authorized; authorization = aq_authorization authorized in
      rbind (record_read db (vr_operation_id request)) (\<lambda>existing_record.
      rbind (transpose_map retained_binding existing_record) (\<lambda>binding.
      case binding of
        None \<Rightarrow> if id_exists db Git (vr_operation_id request) then Inl OperationIdentityConflict else Inr None
      | Some b \<Rightarrow>
          rbind (ok_or InvalidPersistedState (rb_signed_grant b)) (\<lambda>signed_grant.
          let grant_changed = signed_grant \<noteq> va_signed_grant authorization in
          if grant_changed \<or> rb_namespace b \<noteq> vr_namespace request \<or> rb_deployment b \<noteq> vr_deployment request
             \<or> rb_container b \<noteq> vr_container request \<or> rb_image b \<noteq> vr_immutable_image request
          then Inl OperationIdentityConflict
          else rbind (state_from_sql (rb_state b)) (\<lambda>state.
          if state = Requested \<and> rb_authorization_id b = None
             \<and> ea_approved_target (va_authorization authorization) \<noteq> None
          then Inl OperationIdentityConflict
          else if (state \<noteq> Requested \<or> rb_authorization_id b \<noteq> None)
             \<and> (rb_authorization_id b \<noteq> Some (ea_authorization_id (va_authorization authorization))
                \<or> rb_authorization_signer_key_id b \<noteq> Some (va_signer_key_id authorization)
                \<or> rb_authorization_grant_digest b \<noteq> Some (va_grant_digest authorization))
          then Inl OperationIdentityConflict
          else
          rbind (rbind (rbind (record_read db (vr_operation_id request)) (transpose_map (decode C)))
            (ok_or InvalidPersistedState)) (\<lambda>loaded.
          if rf_approved_target (request_facts loaded) \<noteq> ea_approved_target (va_authorization authorization)
          then Inl OperationIdentityConflict
          else if loaded_state loaded \<noteq> state then Inl InvalidPersistedState
          else Inr (Some loaded)))))))"

definition authorized_operation ::
    "crypto \<Rightarrow> AuthorizedRequest \<Rightarrow> Db \<Rightarrow> (GatewayError, LoadedOperation option) result" where
  "authorized_operation C authorized db = authorized_record_on C db authorized"

definition existing_submission ::
    "crypto \<Rightarrow> AuthorizedRequest \<Rightarrow> Db \<Rightarrow> (GatewayError, OperationState option) result" where
  "existing_submission C authorized db =
     rbind (authorized_operation C authorized db) (\<lambda>op. Inr (map_option loaded_state op))"

record RetainedOperation =
  rt_request :: SetDeploymentImageRequest
  rt_signed_grant :: bytes
  rt_operation :: LoadedOperation

definition journal_retained_operation ::
    "crypto \<Rightarrow> string \<Rightarrow> (bytes \<Rightarrow> (GatewayError, AuthorizedRequest) result) \<Rightarrow> Db \<Rightarrow>
      (GatewayError, RetainedOperation option) result" where
  "journal_retained_operation C operation_id authorize db =
     rbind (record_read db operation_id) (\<lambda>record.
     case record of
       None \<Rightarrow> Inr None
     | Some record \<Rightarrow>
         rbind (row_get from_blob record ''signed_authorization_grant'') (\<lambda>bs.
         if bs = [] \<or> length bs > 4096 then Inl InvalidPersistedState
         else
         rbind (authorize bs) (\<lambda>authorized.
         rbind (rbind (authorized_record_on C db authorized) (ok_or InvalidPersistedState)) (\<lambda>op.
         Inr (Some \<lparr>rt_request = to_adapter_request (aq_request authorized), rt_signed_grant = bs,
                    rt_operation = op\<rparr>)))))"

section \<open>Writes\<close>

definition requested_record :: "AuthorizedRequest \<Rightarrow> Record" where
  "requested_record authorized =
     (let request = aq_request authorized; authority = aq_authorization authorized;
          approved = ea_approved_target (va_authorization authority) in
      fold (\<lambda>(f, v). row_set f v)
        [(''namespace'', Text (vr_namespace request)),
         (''deployment'', Text (vr_deployment request)),
         (''container'', Text (vr_container request)),
         (''immutable_image_digest'', Text (vr_immutable_image request)),
         (''state'', Text (state_as_sql Requested)),
         (''authorization_id'', Text (ea_authorization_id (va_authorization authority))),
         (''authorization_signer_key_id'', Text (va_signer_key_id authority)),
         (''authorization_grant_digest'', Text (va_grant_digest authority)),
         (''signed_authorization_grant'', Blob (va_signed_grant authority)),
         (''approved_uid'', opt_text (map_option at_uid approved)),
         (''approved_resource_version'', opt_text (map_option at_resource_version approved))]
        (row_empty (vr_operation_id request)))"

definition insert_requested :: "Delivery \<Rightarrow> AuthorizedRequest \<Rightarrow> unit journal_write" where
  "insert_requested d authorized = replace d None (requested_record authorized)"

text \<open>
  The writes that follow share one shape: the row bound to the phase the caller holds, a list
  of columns set on a copy of it, and the conditional replacement.
\<close>

definition set_columns :: "(string \<times> Value) list \<Rightarrow> Record \<Rightarrow> Record" where
  "set_columns cvs r = fold (\<lambda>(f, v). row_set f v) cvs r"

definition advance_row ::
    "crypto \<Rightarrow> Delivery \<Rightarrow> string \<Rightarrow> LoadedOperation \<Rightarrow> (string \<times> Value) list \<Rightarrow> unit journal_write" where
  "advance_row C d ident op cvs =
     abind (reads (bound_record C ident op)) (\<lambda>expected.
     replace d (Some expected) (set_columns cvs expected))"

definition authorization_columns :: "VerifiedAuthorization \<Rightarrow> (string \<times> Value) list" where
  "authorization_columns authorization =
     [(''state'', Text (state_as_sql Authorized)),
      (''authorization_id'', Text (ea_authorization_id (va_authorization authorization))),
      (''authorization_signer_key_id'', Text (va_signer_key_id authorization)),
      (''authorization_grant_digest'', Text (va_grant_digest authorization))]"

definition mark_authorized ::
    "crypto \<Rightarrow> Delivery \<Rightarrow> RequestFacts \<Rightarrow> AuthorizedRequest \<Rightarrow> unit journal_write" where
  "mark_authorized C d op authorized =
     (if rf_request op \<noteq> aq_request authorized then throw InvalidTransition
      else abind (reads (existing_submission C authorized)) (\<lambda>existing.
        if existing \<noteq> Some Requested then throw InvalidTransition
        else advance_row C d (vr_operation_id (rf_request op)) (LRequested op)
          (authorization_columns (aq_authorization authorized))))"

abbreviation azo_operation_id :: "AuthorizedOperation \<Rightarrow> string" where
  "azo_operation_id op \<equiv> vr_operation_id (rf_request (azo_request op))"

abbreviation aso_operation_id :: "ApplyStartedOperation \<Rightarrow> string" where
  "aso_operation_id op \<equiv> azo_operation_id (aso_authorized op)"

abbreviation obo_operation_id :: "ReceiverObservedOperation \<Rightarrow> string" where
  "obo_operation_id op \<equiv> aso_operation_id (obo_apply_started op)"

definition receipt_columns :: "FrozenReceipt \<Rightarrow> (string \<times> Value) list" where
  "receipt_columns receipt =
     [(''state'', Text (state_as_sql Finalized)),
      (''receipt_digest'', Text (fr_digest receipt)),
      (''receipt_bytes'', Blob (fr_bytes receipt)),
      (''receipt_key_id'', Text (fr_key_id receipt))]"

definition commit_receipt ::
    "crypto \<Rightarrow> Delivery \<Rightarrow> ReceiverObservedOperation \<Rightarrow> FrozenReceipt \<Rightarrow> unit journal_write" where
  "commit_receipt C d op receipt =
     (if fr_operation_id receipt \<noteq> obo_operation_id op then throw InvalidTransition
      else
      abind (reads (bound_record C (obo_operation_id op) (LReceiverObserved op))) (\<lambda>expected.
      abind (lift (map_err GReceipt (decode_frozen_receipt (fr_bytes receipt)))) (\<lambda>(key_id, statement).
      if statement \<noteq> obo_statement op \<or> key_id \<noteq> fr_key_id receipt
         \<or> receipt_digest_hex C (fr_bytes receipt) \<noteq> fr_digest receipt
      then throw InvalidPersistedState
      else replace d (Some expected) (set_columns (receipt_columns receipt) expected))))"

definition rejection_columns :: "TargetRejection \<Rightarrow> (string \<times> Value) list" where
  "rejection_columns rejection =
     [(''state'', Text (state_as_sql NotAttempted)),
      (''target_rejection'', Text (rejection_as_sql rejection))]"

definition mark_not_attempted ::
    "crypto \<Rightarrow> Delivery \<Rightarrow> AuthorizedOperation \<Rightarrow> TargetRejection \<Rightarrow> unit journal_write" where
  "mark_not_attempted C d op rejection =
     advance_row C d (azo_operation_id op) (LAuthorized op) (rejection_columns rejection)"

definition stale_columns :: "ValidatedTargetIdentity \<Rightarrow> (string \<times> Value) list" where
  "stale_columns observed =
     [(''state'', Text ''not_attempted''),
      (''target_rejection'', Text ''stale_approval''),
      (''preflight_uid'', Text (vt_deployment_uid observed)),
      (''preflight_resource_version'', Text (vt_resource_version observed))]"

definition mark_stale_approval ::
    "crypto \<Rightarrow> Delivery \<Rightarrow> AuthorizedOperation \<Rightarrow> ValidatedTargetIdentity \<Rightarrow> unit journal_write" where
  "mark_stale_approval C d op observed =
     advance_row C d (azo_operation_id op) (LAuthorized op) (stale_columns observed)"

definition attempt_columns :: "ValidatedTargetIdentity \<Rightarrow> (string \<times> Value) list" where
  "attempt_columns target =
     [(''state'', Text (state_as_sql ApplyStarted)),
      (''write_strategy'', Text WRITE_STRATEGY),
      (''apply_attempted'', Integer 1)] @
     map (\<lambda>f. (f, Text (vt_deployment_uid target))) [''target_uid'', ''preflight_uid''] @
     map (\<lambda>f. (f, Text (vt_resource_version target))) [''target_resource_version'', ''preflight_resource_version'']"

definition mark_apply_started ::
    "crypto \<Rightarrow> Delivery \<Rightarrow> AuthorizedOperation \<Rightarrow> ValidatedTargetIdentity \<Rightarrow> unit journal_write" where
  "mark_apply_started C d op target =
     advance_row C d (azo_operation_id op) (LAuthorized op) (attempt_columns target)"

datatype FaultPoint =
  RequestedCommitted | AuthorizedCommitted | TargetRejectedCommitted | ApplyStartedCommitted
  | AttemptCommitAcknowledgementLost | TargetObserved | ApplyReturned | ApplyOutcomeCommitted
  | ReceiverRead | ReceiverObservedCommitted | BeforeReceiptCommit
  | ReceiptCommitAcknowledgementLost | FinalizedCommitted

definition begin_attempt ::
    "crypto \<Rightarrow> Delivery \<Rightarrow> AuthorizedOperation \<Rightarrow> ValidatedTargetIdentity \<Rightarrow> FaultPoint option \<Rightarrow>
      DispatchPermission option journal_write" where
  "begin_attempt C d op observed fault =
     abind (reads (bound_record C (azo_operation_id op) (LAuthorized op))) (\<lambda>_.
     let dispatch = (\<lambda>target.
       abind (mark_apply_started C d op target) (\<lambda>_.
       abind (throw_if (fault = Some AttemptCommitAcknowledgementLost) InjectedFault) (\<lambda>_.
       areturn (Some \<lparr>dp_request = rf_request (azo_request op), dp_target = target\<rparr>)))) in
     case rf_approved_target (azo_request op) of
       Some approved \<Rightarrow>
         if vt_deployment_uid observed \<noteq> at_uid approved
            \<or> vt_resource_version observed \<noteq> at_resource_version approved
         then abind (mark_stale_approval C d op observed) (\<lambda>_. areturn None)
         else abind (lift (map_err (\<lambda>_. InvalidPersistedState) (validated_target_try_from
             \<lparr>ti_deployment_uid = at_uid approved, ti_resource_version = at_resource_version approved\<rparr>)))
           dispatch
     | None \<Rightarrow> dispatch observed)"

definition response_columns :: "ApplyOutcome \<Rightarrow> (string \<times> Value) list" where
  "response_columns outcome =
     [(''apply_accepted'', Integer (if ao_accepted outcome then 1 else 0)),
      (''requested_generation'', opt_integer (ao_requested_generation outcome)),
      (''apply_resource_version'', opt_text (ao_resource_version outcome))]"

definition record_apply_outcome ::
    "crypto \<Rightarrow> Delivery \<Rightarrow> ApplyStartedOperation \<Rightarrow> ApplyOutcome \<Rightarrow> unit journal_write" where
  "record_apply_outcome C d op outcome =
     abind (lift (apply_outcome_validate outcome)) (\<lambda>_.
     abind (reads (bound_record C (aso_operation_id op) (LApplyStarted op))) (\<lambda>expected.
     abind (lift (row_get (optional from_text) expected ''target_uid'')) (\<lambda>target_uid.
     if target_uid = None \<or> ao_deployment_uid outcome \<noteq> target_uid \<or> ao_resource_version outcome = None
     then throw InvalidKubernetesFact
     else replace d (Some expected) (set_columns (response_columns outcome) expected))))"

definition observation_columns ::
    "ReceiverObservation \<Rightarrow> OperationResult \<Rightarrow> i64 option \<Rightarrow> (string \<times> Value) list" where
  "observation_columns observation result requested =
     [(''state'', Text (state_as_sql ReceiverObserved)),
      (''receiver_uid'', opt_text (ro_deployment_uid observation)),
      (''receiver_image'', opt_text (ro_image observation)),
      (''receiver_operation_marker'', opt_text (ro_operation_marker observation)),
      (''current_generation'', opt_integer (ro_current_generation observation)),
      (''observed_generation'', opt_integer (ro_observed_generation observation)),
      (''receiver_resource_version'', opt_text (ro_resource_version observation)),
      (''desired_replicas'', opt_integer32 (ro_desired_replicas observation)),
      (''updated_replicas'', opt_integer32 (ro_updated_replicas observation)),
      (''available_replicas'', opt_integer32 (ro_available_replicas observation)),
      (''unavailable_replicas'', opt_integer32 (ro_unavailable_replicas observation)),
      (''result'', Text (result_as_sql result)),
      (''requested_generation'', opt_integer requested),
      (''rollout_condition_type'', opt_text (ro_rollout_condition_type observation)),
      (''rollout_condition_status'', opt_text (ro_rollout_condition_status observation)),
      (''rollout_condition_reason'', opt_text (ro_rollout_condition_reason observation))]"

definition freeze_observation ::
    "crypto \<Rightarrow> Delivery \<Rightarrow> ApplyStartedOperation \<Rightarrow> ReceiverObservation \<Rightarrow> unit journal_write" where
  "freeze_observation C d op observation =
     abind (lift (observation_validate observation)) (\<lambda>_.
     let request = rf_request (azo_request (aso_authorized op));
         outcome = classification_outcome op;
         result = classify observation request outcome;
         requested = requested_generation observation request outcome in
     advance_row C d (vr_operation_id request) (LApplyStarted op)
       (observation_columns observation result requested))"

section \<open>Rows built by a write\<close>

lemmas write_columns = authorization_columns_def receipt_columns_def rejection_columns_def stale_columns_def
  attempt_columns_def response_columns_def observation_columns_def

definition writes_to :: "Table \<Rightarrow> (string \<times> Value) list \<Rightarrow> bool" where
  "writes_to t cvs \<longleftrightarrow> list_all (\<lambda>f. f \<in> set (columns t) \<and> f \<noteq> ''operation_id'') (map fst cvs)"

abbreviation writes_known :: "(string \<times> Value) list \<Rightarrow> bool" where
  "writes_known \<equiv> writes_to Kubernetes"

lemma writes_known [simp]:
  "writes_known (authorization_columns a)" "writes_known (receipt_columns receipt)"
  "writes_known (rejection_columns rejection)" "writes_known (stale_columns target)"
  "writes_known (attempt_columns target)" "writes_known (response_columns outcome)"
  "writes_known (observation_columns ob res g)"
  by (simp_all add: writes_to_def write_columns CURRENT_COLUMNS_def)

lemma field_set_columns:
  assumes "row_ok t r" "writes_to t cvs"
  shows "field (set_columns cvs r) f = (case map_of (rev cvs) f of None \<Rightarrow> field r f | Some v \<Rightarrow> v)"
  unfolding set_columns_def using assms
  by (intro row.get_put_all) (auto simp: row_ok_def writes_to_def list_all_iff)

lemma set_columns_ok:
  assumes "row_ok t r" "writes_to t cvs"
  shows "row_ok t (set_columns cvs r)" "has_id ident (set_columns cvs r) \<longleftrightarrow> has_id ident r"
proof -
  have "row_wf (set_columns cvs r)" "row_table (set_columns cvs r) = row_table r" for cvs
  proof -
    show "row_wf (set_columns cvs r)"
      unfolding set_columns_def using assms by (intro row.wf_put_all) (simp add: row_ok_def)
    show "row_table (set_columns cvs r) = row_table r"
      unfolding set_columns_def by (induction cvs arbitrary: r) auto
  qed
  moreover have "map_of (rev cvs) ''operation_id'' = None"
    using assms(2) by (auto simp: map_of_eq_None_iff writes_to_def list_all_iff)
  then have "field (set_columns cvs r) ''operation_id'' = field r ''operation_id''"
    by (simp add: field_set_columns [OF assms])
  ultimately show "row_ok t (set_columns cvs r)" "has_id ident (set_columns cvs r) \<longleftrightarrow> has_id ident r"
    using assms(1) by (simp_all add: row_ok_def has_id_def)
qed

end
