(* ===== verification/Transitions.thy ===== *)
theory Transitions
  imports Journal
begin

text \<open>
  What each write of the journal means on the typed phases: a row that decodes to the phase a
  write expects is turned into a row that decodes to the next phase, with exactly the facts the
  write was given. These are the write/read round trips of \<open>src/gateway/journal/mod.rs\<close>: no
  write the journal accepts can leave a row its own decoder refuses.
\<close>

section \<open>Facts of a decoded row\<close>

lemma receiver_fields_kept:
  assumes "row_ok Kubernetes r" "writes_known cvs" "\<And>f. f \<in> set RECEIVER_FIELDS \<Longrightarrow> map_of (rev cvs) f = None"
  shows "list_ex (has_value (set_columns cvs r)) RECEIVER_FIELDS = list_ex (has_value r) RECEIVER_FIELDS"
  using assms(3) by (auto simp: list_ex_iff has_value_def field_set_columns [OF assms(1,2)])

definition attempted_operation :: "AuthorizedOperation \<Rightarrow> ValidatedTargetIdentity \<Rightarrow> ApplyStartedOperation" where
  "attempted_operation op target =
     \<lparr>aso_authorized = op\<lparr>azo_request := (azo_request op)\<lparr>rf_preflight_target :=
        Some \<lparr>at_uid = vt_deployment_uid target, at_resource_version = vt_resource_version target\<rparr>\<rparr>\<rparr>,
      aso_attempt = \<lparr>att_target = target, att_response = None\<rparr>\<rparr>"

lemma target_valid_approved:
  "target_valid t \<longleftrightarrow> approved_target_is_valid \<lparr>at_uid = vt_deployment_uid t, at_resource_version = vt_resource_version t\<rparr>"
  by (auto simp: target_valid_def approved_target_is_valid_def ascii_text_def)

lemma snapshot_target_iff: "snapshot_target u v = Inr t \<longleftrightarrow>
    u = map_option at_uid t \<and> v = map_option at_resource_version t \<and> pred_option approved_target_is_valid t"
  by (cases t) (auto simp: snapshot_target_def Let_def split: option.splits if_splits)

lemma early_facts:
  assumes "decode C r = Inr op" "loaded_state op \<notin> {ReceiverObserved, Finalized}"
  shows "\<exists>sn p. snapshot_row r = Inr sn \<and> snapshot_facts C sn None p \<and> phase_selected p sn None op"
proof -
  from assms obtain sn st p where f: "snapshot_row r = Inr sn" "row_statement r (sn_state sn) st"
      "snapshot_facts C sn st p" "phase_selected p sn st op"
    unfolding decode_iff by blast
  then have "pf_state p = loaded_state op" using select_phase_state by metis
  with f have s: "sn_state sn = state_as_sql (loaded_state op)" by (simp add: snapshot_facts_def)
  with f(2) assms(2) have "st = None" by (cases "loaded_state op") (simp_all add: row_statement_def)
  with f s show ?thesis by blast
qed

lemmas set_columns_fields = field_set_columns [OF _ writes_known(1)] field_set_columns [OF _ writes_known(2)]
  field_set_columns [OF _ writes_known(3)] field_set_columns [OF _ writes_known(4)]
  field_set_columns [OF _ writes_known(5)] field_set_columns [OF _ writes_known(6)]
  field_set_columns [OF _ writes_known(7)]

lemma attempt_facts_Some: "validate_snapshot_attempt_facts state strategy uid version accepted g applied = Inr (Some att) \<longleftrightarrow>
    strategy = Some WRITE_STRATEGY \<and> uid = Some (vt_deployment_uid (att_target att)) \<and>
    version = Some (vt_resource_version (att_target att)) \<and> target_valid (att_target att) \<and>
    (case att_response att of
       None \<Rightarrow> accepted = None \<and> applied = None \<and> (state = ApplyStarted \<longrightarrow> g = None)
     | Some response \<Rightarrow> accepted = Some (ar_accepted response) \<and> applied = Some (ar_resource_version response) \<and>
         g = ar_requested_generation response \<and> ascii_text 128 (ar_resource_version response) \<and>
         pred_option (\<lambda>w. 0 \<le> sint w) g)"
proof (cases "strategy = None \<or> uid = None \<or> version = None")
  case True
  then show ?thesis
    by (cases strategy; cases uid; cases version) (auto simp: validate_snapshot_attempt_facts_def rbind_eq_Inr split: if_splits)
next
  case False
  then obtain w u v where some: "strategy = Some w" "uid = Some u" "version = Some v" by auto
  let ?t = "\<lparr>vt_deployment_uid = u, vt_resource_version = v\<rparr>"
  have t: "validated_target_try_from \<lparr>ti_deployment_uid = u, ti_resource_version = v\<rparr> =
      (if target_valid ?t then Inr ?t else Inl InvalidKubernetesFact)"
    by (auto simp: validated_target_try_from_def target_validate_def validate_required_fact_def target_valid_def
        ascii_text_def KUBERNETES_FACT_BYTES_MAX_def)
  have uid: "pred_option (ascii_text 128) (Some u)" if "target_valid ?t"
    using that by (simp add: target_valid_def)
  have tgt: "att_target att = ?t \<longleftrightarrow> vt_deployment_uid (att_target att) = u \<and> vt_resource_version (att_target att) = v"
    by (cases "att_target att") simp
  have att: "\<lparr>att_target = ?t, att_response = m\<rparr> = att \<longleftrightarrow>
      vt_deployment_uid (att_target att) = u \<and> vt_resource_version (att_target att) = v \<and> att_response att = m" for m
    using tgt by (cases att) auto
  have response: "m = \<lparr>ar_accepted = a, ar_requested_generation = g, ar_resource_version = x\<rparr> \<longleftrightarrow>
      ar_accepted m = a \<and> ar_requested_generation m = g \<and> ar_resource_version m = x" for m a x
    by (cases m) simp
  show ?thesis
  proof (cases "w = WRITE_STRATEGY \<and> target_valid ?t")
    case False
    then show ?thesis by (auto simp: validate_snapshot_attempt_facts_def some t target_valid_def)
  next
    case True
    then show ?thesis
      using uid tgt
      by (cases accepted; cases applied; cases "att_response att")
        (auto simp: validate_snapshot_attempt_facts_def some t rbind_eq_Inr apply_outcome_validate_iff att response
          split: if_splits)
  qed
qed

lemma attempt_facts_None: "validate_snapshot_attempt_facts state strategy uid version accepted g applied = Inr None \<longleftrightarrow>
    strategy = None \<and> uid = None \<and> version = None \<and> accepted = None \<and> g = None \<and> applied = None"
  by (cases strategy; cases uid; cases version) (auto simp: validate_snapshot_attempt_facts_def rbind_eq_Inr split: if_splits)

lemmas attempt_facts_iff = attempt_facts_Some attempt_facts_None

lemma decode_attempt_row:
  assumes r: "row_ok Kubernetes r" and dec: "decode C r = Inr (LAuthorized op)" and t: "target_valid target"
    and approved: "rf_approved_target (azo_request op) \<in> {None,
      Some \<lparr>at_uid = vt_deployment_uid target, at_resource_version = vt_resource_version target\<rparr>}"
  shows "decode C (set_columns (attempt_columns target) r) = Inr (LApplyStarted (attempted_operation op target))"
proof -
  obtain sn p where sn: "snapshot_row r = Inr sn" and p: "snapshot_facts C sn None p"
    and sel: "phase_selected p sn None (LAuthorized op)" using early_facts [OF dec] by auto
  let ?t = "\<lparr>at_uid = vt_deployment_uid target, at_resource_version = vt_resource_version target\<rparr>"
  let ?sn = "sn\<lparr>sn_state := ''apply_started'', sn_write_strategy := Some WRITE_STRATEGY, sn_apply_attempted := 1,
    sn_target_uid := Some (vt_deployment_uid target), sn_preflight_uid := Some (vt_deployment_uid target),
    sn_target_resource_version := Some (vt_resource_version target),
    sn_preflight_resource_version := Some (vt_resource_version target)\<rparr>"
  let ?p = "p\<lparr>pf_state := ApplyStarted, pf_attempted := True,
    pf_request := (pf_request p)\<lparr>rf_preflight_target := Some ?t\<rparr>,
    pf_attempt := Some \<lparr>att_target = target, att_response = None\<rparr>\<rparr>"
  have "list_ex (has_value (set_columns (attempt_columns target) r)) RECEIVER_FIELDS = list_ex (has_value r) RECEIVER_FIELDS"
    by (rule receiver_fields_kept [OF r writes_known(5)]) (auto simp: attempt_columns_def RECEIVER_FIELDS_def)
  with sn have "snapshot_row (set_columns (attempt_columns target) r) = Inr ?sn"
    unfolding snapshot_row_iff set_columns_fields(5) [OF r] by (simp add: attempt_columns_def)
  moreover have "snapshot_facts C ?sn None ?p"
    using p sel t approved
    by (auto simp: snapshot_facts_def select_phase_iffs snapshot_target_def target_valid_approved attempt_facts_iff
        approval_violated_def split: option.splits)
  moreover have "phase_selected ?p ?sn None (LApplyStarted (attempted_operation op target))"
    using sel by (simp add: select_phase_iffs attempted_operation_def)
  moreover have "row_statement (set_columns (attempt_columns target) r) (sn_state ?sn) None"
    by (simp add: row_statement_def)
  ultimately show ?thesis unfolding decode_iff by blast
qed


definition verified_facts :: "VerifiedAuthorization \<Rightarrow> AuthorizationFacts" where
  "verified_facts authorization =
     \<lparr>af_authorization_id = ea_authorization_id (va_authorization authorization),
      af_signer_key_id = va_signer_key_id authorization, af_grant_digest = va_grant_digest authorization\<rparr>"

definition authorization_facts_valid :: "AuthorizationFacts \<Rightarrow> bool" where
  "authorization_facts_valid a \<longleftrightarrow> identity_is_valid (af_authorization_id a) \<and>
     identity_is_valid (af_signer_key_id a) \<and> length (af_grant_digest a) = 64 \<and>
     list_all is_lowercase_hex (as_bytes (af_grant_digest a))"

lemma snapshot_authorization_Some: "validate_snapshot_authorization (Some i) (Some k) (Some d) = Inr v \<longleftrightarrow>
    v = Some \<lparr>af_authorization_id = i, af_signer_key_id = k, af_grant_digest = d\<rparr> \<and>
    authorization_facts_valid \<lparr>af_authorization_id = i, af_signer_key_id = k, af_grant_digest = d\<rparr>"
  by (auto simp: validate_snapshot_authorization_def sha256_digest_try_from_def authorization_facts_valid_def rbind_eq_Inr)

lemma decode_authorization_row:
  assumes r: "row_ok Kubernetes r" and dec: "decode C r = Inr (LRequested facts)"
    and a: "authorization_facts_valid (verified_facts authorization)"
  shows "decode C (set_columns (authorization_columns authorization) r) =
    Inr (LAuthorized \<lparr>azo_request = facts, azo_authorization = verified_facts authorization\<rparr>)"
proof -
  let ?r = "set_columns (authorization_columns authorization) r"
  let ?op = "\<lparr>azo_request = facts, azo_authorization = verified_facts authorization\<rparr>"
  obtain sn p where sn: "snapshot_row r = Inr sn" and p: "snapshot_facts C sn None p"
    and sel: "phase_selected p sn None (LRequested facts)" using early_facts [OF dec] by auto
  let ?sn = "sn\<lparr>sn_state := ''authorized'',
    sn_authorization_id := Some (ea_authorization_id (va_authorization authorization)),
    sn_authorization_signer_key_id := Some (va_signer_key_id authorization),
    sn_authorization_grant_digest := Some (va_grant_digest authorization)\<rparr>"
  let ?p = "p\<lparr>pf_state := Authorized, pf_authorization := Some (verified_facts authorization)\<rparr>"
  have "list_ex (has_value ?r) RECEIVER_FIELDS = list_ex (has_value r) RECEIVER_FIELDS"
    by (rule receiver_fields_kept [OF r writes_known(1)]) (auto simp: authorization_columns_def RECEIVER_FIELDS_def)
  with sn have "snapshot_row ?r = Inr ?sn"
    unfolding snapshot_row_iff set_columns_fields(1) [OF r] by (simp add: authorization_columns_def)
  moreover have "snapshot_facts C ?sn None ?p"
    using p sel a
    by (auto simp: snapshot_facts_def select_phase_iffs snapshot_authorization_Some verified_facts_def
        approval_violated_def attempt_facts_iff split: option.splits)
  moreover have "phase_selected ?p ?sn None (LAuthorized ?op)"
    using sel by (simp add: select_phase_iffs)
  moreover have "row_statement ?r (sn_state ?sn) None"
    by (simp add: row_statement_def)
  ultimately show ?thesis unfolding decode_iff by blast
qed

lemma decode_rejection_row:
  assumes r: "row_ok Kubernetes r" and dec: "decode C r = Inr (LAuthorized op)"
    and rej: "rejection \<in> {DeploymentNotFound, ContainerNotFound, InvalidTarget}"
  shows "decode C (set_columns (rejection_columns rejection) r) = Inr (LNotAttempted op rejection)"
proof -
  let ?r = "set_columns (rejection_columns rejection) r"
  obtain sn p where sn: "snapshot_row r = Inr sn" and p: "snapshot_facts C sn None p"
    and sel: "phase_selected p sn None (LAuthorized op)" using early_facts [OF dec] by auto
  let ?sn = "sn\<lparr>sn_state := ''not_attempted'', sn_target_rejection := Some (rejection_as_sql rejection)\<rparr>"
  let ?p = "p\<lparr>pf_state := NotAttempted, pf_rejection := Some rejection\<rparr>"
  have "list_ex (has_value ?r) RECEIVER_FIELDS = list_ex (has_value r) RECEIVER_FIELDS"
    by (rule receiver_fields_kept [OF r writes_known(3)]) (auto simp: rejection_columns_def RECEIVER_FIELDS_def)
  with sn have "snapshot_row ?r = Inr ?sn"
    unfolding snapshot_row_iff set_columns_fields(3) [OF r] by (simp add: rejection_columns_def)
  moreover have "snapshot_facts C ?sn None ?p"
    using p sel rej
    by (auto simp: snapshot_facts_def select_phase_iffs attempt_facts_iff
        rejection_from_sql_def split: option.splits)
  moreover have "phase_selected ?p ?sn None (LNotAttempted op rejection)"
    using sel by (simp add: select_phase_iffs)
  moreover have "row_statement ?r (sn_state ?sn) None"
    by (simp add: row_statement_def)
  ultimately show ?thesis unfolding decode_iff by blast
qed

lemma decode_stale_row:
  assumes r: "row_ok Kubernetes r" and dec: "decode C r = Inr (LAuthorized op)" and t: "target_valid target"
    and approved: "rf_approved_target (azo_request op) = Some approved"
      "approved \<noteq> \<lparr>at_uid = vt_deployment_uid target, at_resource_version = vt_resource_version target\<rparr>"
  shows "decode C (set_columns (stale_columns target) r) =
    Inr (LNotAttempted (aso_authorized (attempted_operation op target)) StaleApproval)"
proof -
  let ?r = "set_columns (stale_columns target) r"
  let ?t = "\<lparr>at_uid = vt_deployment_uid target, at_resource_version = vt_resource_version target\<rparr>"
  obtain sn p where sn: "snapshot_row r = Inr sn" and p: "snapshot_facts C sn None p"
    and sel: "phase_selected p sn None (LAuthorized op)" using early_facts [OF dec] by auto
  let ?sn = "sn\<lparr>sn_state := ''not_attempted'', sn_target_rejection := Some ''stale_approval'',
    sn_preflight_uid := Some (vt_deployment_uid target),
    sn_preflight_resource_version := Some (vt_resource_version target)\<rparr>"
  let ?p = "p\<lparr>pf_state := NotAttempted, pf_rejection := Some StaleApproval,
    pf_request := (pf_request p)\<lparr>rf_preflight_target := Some ?t\<rparr>\<rparr>"
  have "list_ex (has_value ?r) RECEIVER_FIELDS = list_ex (has_value r) RECEIVER_FIELDS"
    by (rule receiver_fields_kept [OF r writes_known(4)]) (auto simp: stale_columns_def RECEIVER_FIELDS_def)
  with sn have "snapshot_row ?r = Inr ?sn"
    unfolding snapshot_row_iff set_columns_fields(4) [OF r] by (simp add: stale_columns_def)
  moreover have "snapshot_facts C ?sn None ?p"
    using p sel t approved
    by (auto simp: snapshot_facts_def select_phase_iffs attempt_facts_iff
        rejection_from_sql_def snapshot_target_def target_valid_approved approval_violated_def split: option.splits)
  moreover have "phase_selected ?p ?sn None (LNotAttempted (aso_authorized (attempted_operation op target)) StaleApproval)"
    using sel by (simp add: select_phase_iffs attempted_operation_def)
  moreover have "row_statement ?r (sn_state ?sn) None"
    by (simp add: row_statement_def)
  ultimately show ?thesis unfolding decode_iff by blast
qed

definition answered_operation :: "ApplyStartedOperation \<Rightarrow> ApplyOutcome \<Rightarrow> ApplyStartedOperation" where
  "answered_operation op outcome = op\<lparr>aso_attempt := (aso_attempt op)\<lparr>att_response :=
     map_option (\<lambda>version. \<lparr>ar_accepted = ao_accepted outcome,
       ar_requested_generation = ao_requested_generation outcome, ar_resource_version = version\<rparr>)
       (ao_resource_version outcome)\<rparr>\<rparr>"


lemma decode_response_row:
  assumes r: "row_ok Kubernetes r" and dec: "decode C r = Inr (LApplyStarted op)"
    and o: "apply_outcome_validate outcome = Inr ()" "ao_resource_version outcome \<noteq> None"
  shows "decode C (set_columns (response_columns outcome) r) = Inr (LApplyStarted (answered_operation op outcome))"
proof -
  let ?r = "set_columns (response_columns outcome) r"
  obtain sn p where sn: "snapshot_row r = Inr sn" and p: "snapshot_facts C sn None p"
    and sel: "phase_selected p sn None (LApplyStarted op)" using early_facts [OF dec] by auto
  obtain version where version: "ao_resource_version outcome = Some version" using o by auto
  let ?sn = "sn\<lparr>sn_apply_accepted := Some (if ao_accepted outcome then 1 else 0),
    sn_requested_generation := ao_requested_generation outcome, sn_apply_resource_version := Some version\<rparr>"
  let ?p = "p\<lparr>pf_accepted := Some (ao_accepted outcome),
    pf_attempt := Some (aso_attempt (answered_operation op outcome))\<rparr>"
  have "list_ex (has_value ?r) RECEIVER_FIELDS = list_ex (has_value r) RECEIVER_FIELDS"
    by (rule receiver_fields_kept [OF r writes_known(6)]) (auto simp: response_columns_def RECEIVER_FIELDS_def)
  with sn have "snapshot_row ?r = Inr ?sn"
    unfolding snapshot_row_iff set_columns_fields(6) [OF r] by (simp add: response_columns_def version)
  moreover have "snapshot_facts C ?sn None ?p"
    using p sel o
    by (auto simp: snapshot_facts_def select_phase_iffs attempt_facts_iff answered_operation_def version
        apply_outcome_validate_iff decode_sql_bool_def approval_violated_def split: option.splits)
  moreover have "phase_selected ?p ?sn None (LApplyStarted (answered_operation op outcome))"
    using sel by (simp add: select_phase_iffs answered_operation_def)
  moreover have "row_statement ?r (sn_state ?sn) None"
    using p sel by (simp add: row_statement_def snapshot_facts_def select_phase_iffs)
  ultimately show ?thesis unfolding decode_iff by blast
qed


text \<open>The phase and the statement a frozen observation gives.\<close>

definition observed_statement :: "ApplyStartedOperation \<Rightarrow> ReceiverObservation \<Rightarrow> ReceiptStatement" where
  "observed_statement op observation =
     (let facts = azo_request (aso_authorized op); authorization = azo_authorization (aso_authorized op);
          request = rf_request facts; target = att_target (aso_attempt op); outcome = classification_outcome op in
      \<lparr>rs_approved_target = rf_approved_target facts,
       rs_operation_id = vr_operation_id request,
       rs_authorization_id = af_authorization_id authorization,
       rs_authorization_signer_key_id = af_signer_key_id authorization,
       rs_authorization_grant_digest = af_grant_digest authorization,
       rs_namespace = vr_namespace request,
       rs_deployment = vr_deployment request,
       rs_container = vr_container request,
       rs_immutable_image_digest = vr_immutable_image request,
       rs_write_strategy = WRITE_STRATEGY,
       rs_target_uid = vt_deployment_uid target,
       rs_target_resource_version = vt_resource_version target,
       rs_receiver_uid = ro_deployment_uid observation,
       rs_observed_image = ro_image observation,
       rs_observed_operation_marker = ro_operation_marker observation,
       rs_current_generation = ro_current_generation observation,
       rs_requested_generation = requested_generation observation request outcome,
       rs_observed_generation = ro_observed_generation observation,
       rs_observed_resource_version = ro_resource_version observation,
       rs_desired_replicas = ro_desired_replicas observation,
       rs_updated_replicas = ro_updated_replicas observation,
       rs_available_replicas = ro_available_replicas observation,
       rs_unavailable_replicas = ro_unavailable_replicas observation,
       rs_rollout_condition_type = ro_rollout_condition_type observation,
       rs_rollout_condition_status = ro_rollout_condition_status observation,
       rs_rollout_condition_reason = ro_rollout_condition_reason observation,
       rs_result = classify observation request outcome\<rparr>)"

definition observed_operation :: "ApplyStartedOperation \<Rightarrow> ReceiverObservation \<Rightarrow> ReceiverObservedOperation" where
  "observed_operation op observation =
     (let requested = requested_generation observation (rf_request (azo_request (aso_authorized op)))
            (classification_outcome op) in
      \<lparr>obo_apply_started = op\<lparr>aso_attempt := (aso_attempt op)\<lparr>att_response :=
         map_option (\<lambda>response. response\<lparr>ar_requested_generation := requested\<rparr>) (att_response (aso_attempt op))\<rparr>\<rparr>,
       obo_statement = observed_statement op observation\<rparr>)"

text \<open>What a decoded attempt has established.\<close>

lemma started_facts:
  assumes "snapshot_facts C sn None p" "phase_selected p sn None (LApplyStarted op)"
  shows "authorization_facts_valid (azo_authorization (aso_authorized op))"
    "request_valid (rf_request (azo_request (aso_authorized op)))"
    "target_valid (att_target (aso_attempt op))"
    "pred_option (\<lambda>t. approved_target_is_valid t \<and> at_uid t = vt_deployment_uid (att_target (aso_attempt op)) \<and>
       at_resource_version t = vt_resource_version (att_target (aso_attempt op)))
      (rf_approved_target (azo_request (aso_authorized op)))"
    "apply_outcome_validate (classification_outcome op) = Inr ()"
    "sn_authorization_id sn = Some (af_authorization_id (azo_authorization (aso_authorized op)))"
    "sn_authorization_signer_key_id sn = Some (af_signer_key_id (azo_authorization (aso_authorized op)))"
    "sn_authorization_grant_digest sn = Some (af_grant_digest (azo_authorization (aso_authorized op)))"
    "sn_write_strategy sn = Some WRITE_STRATEGY"
    "sn_target_uid sn = Some (vt_deployment_uid (att_target (aso_attempt op)))"
    "sn_target_resource_version sn = Some (vt_resource_version (att_target (aso_attempt op)))"
proof -
  from assms have au: "validate_snapshot_authorization (sn_authorization_id sn) (sn_authorization_signer_key_id sn)
       (sn_authorization_grant_digest sn) = Inr (Some (azo_authorization (aso_authorized op)))"
    and at: "validate_snapshot_attempt_facts ApplyStarted (sn_write_strategy sn) (sn_target_uid sn)
       (sn_target_resource_version sn) (pf_accepted p) (sn_requested_generation sn)
       (sn_apply_resource_version sn) = Inr (Some (aso_attempt op))"
    and rq: "request_valid (rf_request (azo_request (aso_authorized op)))"
    and ap: "snapshot_target (sn_approved_uid sn) (sn_approved_resource_version sn) =
       Inr (rf_approved_target (azo_request (aso_authorized op)))"
      "\<not> approval_violated (azo_request (aso_authorized op)) (Some (azo_authorization (aso_authorized op)))
         (Some (aso_attempt op))"
    by (auto simp: snapshot_facts_def select_phase_iffs)
  obtain i k d where ids: "sn_authorization_id sn = Some i" "sn_authorization_signer_key_id sn = Some k"
    "sn_authorization_grant_digest sn = Some d"
    using au by (auto simp: validate_snapshot_authorization_def split: option.splits)
  show "authorization_facts_valid (azo_authorization (aso_authorized op))"
    "sn_authorization_id sn = Some (af_authorization_id (azo_authorization (aso_authorized op)))"
    "sn_authorization_signer_key_id sn = Some (af_signer_key_id (azo_authorization (aso_authorized op)))"
    "sn_authorization_grant_digest sn = Some (af_grant_digest (azo_authorization (aso_authorized op)))"
    using au by (auto simp: ids snapshot_authorization_Some)
  show "request_valid (rf_request (azo_request (aso_authorized op)))" by (fact rq)
  show t: "target_valid (att_target (aso_attempt op))"
    "sn_write_strategy sn = Some WRITE_STRATEGY"
    "sn_target_uid sn = Some (vt_deployment_uid (att_target (aso_attempt op)))"
    "sn_target_resource_version sn = Some (vt_resource_version (att_target (aso_attempt op)))"
    using at by (simp_all add: attempt_facts_iff)
  show "pred_option (\<lambda>t. approved_target_is_valid t \<and> at_uid t = vt_deployment_uid (att_target (aso_attempt op)) \<and>
       at_resource_version t = vt_resource_version (att_target (aso_attempt op)))
      (rf_approved_target (azo_request (aso_authorized op)))"
    using ap by (auto simp: approval_violated_def snapshot_target_def Let_def split: option.splits if_splits)
  show "apply_outcome_validate (classification_outcome op) = Inr ()"
    using at t(1) by (auto simp: apply_outcome_validate_iff classification_outcome_def attempt_facts_iff target_valid_def
        Let_def split: option.splits)
qed

lemma observed_statement_frozen:
  assumes facts: "snapshot_facts C sn None p" "phase_selected p sn None (LApplyStarted op)"
    and ob: "observation_validate observation = Inr ()"
  shows "frozen_statement (observed_statement op observation)"
proof -
  note f = started_facts [OF facts]
  have eq: "receipt_observation (observed_statement op observation) = observation"
    "receipt_validated_request (observed_statement op observation) = rf_request (azo_request (aso_authorized op))"
    by (simp_all add: receipt_observation_def receipt_validated_request_def observed_statement_def Let_def)
  have "classify observation (rf_request (azo_request (aso_authorized op)))
      (receipt_apply_outcome (observed_statement op observation)) =
    classify observation (rf_request (azo_request (aso_authorized op))) (classification_outcome op)"
    by (rule classify_frozen [where uid = "vt_deployment_uid (att_target (aso_attempt op))"])
      (simp_all add: receipt_apply_outcome_def observed_statement_def classification_outcome_def Let_def)
  moreover have "pred_option (\<lambda>w. 0 \<le> sint w) (rs_requested_generation (observed_statement op observation))"
    using requested_generation_nonneg [OF ob f(5)]
    by (simp add: observed_statement_def Let_def pred_option_def)
  ultimately show ?thesis
    using f ob unfolding frozen_statement_def receipt_validate_iff eq
    by (auto simp: observed_statement_def Let_def authorization_facts_valid_def approved_agrees_def target_valid_def
        split: option.splits)
qed


definition statement_row :: "ReceiptStatement \<Rightarrow> ReceiptRow" where
  "statement_row s = \<lparr>rw_approved_uid = map_option at_uid (rs_approved_target s),
      rw_approved_resource_version = map_option at_resource_version (rs_approved_target s),
      rw_operation_id = rs_operation_id s, rw_authorization_id = Some (rs_authorization_id s),
      rw_authorization_signer_key_id = Some (rs_authorization_signer_key_id s),
      rw_authorization_grant_digest = Some (rs_authorization_grant_digest s),
      rw_namespace = rs_namespace s, rw_deployment = rs_deployment s, rw_container = rs_container s,
      rw_immutable_image_digest = rs_immutable_image_digest s, rw_write_strategy = Some (rs_write_strategy s),
      rw_target_uid = Some (rs_target_uid s), rw_target_resource_version = Some (rs_target_resource_version s),
      rw_receiver_uid = rs_receiver_uid s, rw_observed_image = rs_observed_image s,
      rw_observed_operation_marker = rs_observed_operation_marker s,
      rw_current_generation = rs_current_generation s, rw_requested_generation = rs_requested_generation s,
      rw_observed_generation = rs_observed_generation s,
      rw_observed_resource_version = rs_observed_resource_version s,
      rw_desired_replicas = rs_desired_replicas s, rw_updated_replicas = rs_updated_replicas s,
      rw_available_replicas = rs_available_replicas s, rw_unavailable_replicas = rs_unavailable_replicas s,
      rw_rollout_condition_type = rs_rollout_condition_type s,
      rw_rollout_condition_status = rs_rollout_condition_status s,
      rw_rollout_condition_reason = rs_rollout_condition_reason s, rw_result = result_as_sql (rs_result s)\<rparr>"

lemma into_statement_row:
  assumes "receipt_validate s = Inr ()"
  shows "into_statement (statement_row s) = Inr s"
proof -
  have "snapshot_target (map_option at_uid (rs_approved_target s)) (map_option at_resource_version (rs_approved_target s)) =
      Inr (rs_approved_target s)"
    using assms by (auto simp: receipt_validate_iff approved_agrees_def snapshot_target_iff split: option.splits)
  moreover have "result_from_sql (result_as_sql (rs_result s)) = Inr (rs_result s)"
    by (simp add: result_from_sql_iff)
  ultimately show ?thesis
    using assms by (cases s) (simp add: into_statement_def statement_row_def Let_def)
qed

lemma observation_row_statement:
  assumes r: "row_ok Kubernetes r" and sn: "snapshot_row r = Inr sn"
    and facts: "snapshot_facts C sn None p" "phase_selected p sn None (LApplyStarted op)"
    and ob: "observation_validate observation = Inr ()"
  shows "row_statement (set_columns (observation_columns observation
      (classify observation (rf_request (azo_request (aso_authorized op))) (classification_outcome op))
      (requested_generation observation (rf_request (azo_request (aso_authorized op))) (classification_outcome op))) r)
    ''receiver_observed'' (Some (observed_statement op observation))"
proof -
  let ?s = "observed_statement op observation"
  let ?r = "set_columns (observation_columns observation
      (classify observation (rf_request (azo_request (aso_authorized op))) (classification_outcome op))
      (requested_generation observation (rf_request (azo_request (aso_authorized op))) (classification_outcome op))) r"
  note f = started_facts [OF facts]
  let ?w = "statement_row ?s"
  from facts have ap: "snapshot_target (sn_approved_uid sn) (sn_approved_resource_version sn) =
       Inr (rf_approved_target (azo_request (aso_authorized op)))"
    and q: "to_adapter_request (rf_request (azo_request (aso_authorized op))) =
       \<lparr>rq_operation_id = sn_operation_id sn, rq_namespace = sn_namespace sn,
        rq_deployment = sn_deployment sn, rq_container = sn_container sn,
        rq_immutable_image_digest = sn_immutable_image_digest sn\<rparr>"
    by (auto simp: snapshot_facts_def select_phase_iffs)
  have ap': "sn_approved_uid sn = map_option at_uid (rf_approved_target (azo_request (aso_authorized op)))"
    "sn_approved_resource_version sn = map_option at_resource_version (rf_approved_target (azo_request (aso_authorized op)))"
    using ap by (simp_all add: snapshot_target_iff)
  have "receipt_row ?r = Inr ?w"
    using sn q unfolding snapshot_row_iff receipt_row_iff set_columns_fields(7) [OF r]
    by (simp add: observation_columns_def observed_statement_def Let_def ap' f(6-) to_adapter_request_def statement_row_def)
  moreover have "into_statement ?w = Inr ?s"
    using observed_statement_frozen [OF facts ob] by (intro into_statement_row) (simp add: frozen_statement_def)
  ultimately show ?thesis by (auto simp: row_statement_def)
qed


lemma decode_observation_row:
  assumes r: "row_ok Kubernetes r" and dec: "decode C r = Inr (LApplyStarted op)"
    and ob: "observation_validate observation = Inr ()"
  shows "decode C (set_columns (observation_columns observation
      (classify observation (rf_request (azo_request (aso_authorized op))) (classification_outcome op))
      (requested_generation observation (rf_request (azo_request (aso_authorized op))) (classification_outcome op))) r) =
    Inr (LReceiverObserved (observed_operation op observation))"
proof -
  let ?q = "rf_request (azo_request (aso_authorized op))"
  let ?g = "requested_generation observation ?q (classification_outcome op)"
  let ?res = "classify observation ?q (classification_outcome op)"
  let ?r = "set_columns (observation_columns observation ?res ?g) r"
  obtain sn p where sn: "snapshot_row r = Inr sn" and facts: "snapshot_facts C sn None p"
     "phase_selected p sn None (LApplyStarted op)" using early_facts [OF dec] by auto
  let ?sn = "sn\<lparr>sn_state := ''receiver_observed'', sn_result := Some (result_as_sql ?res),
    sn_requested_generation := ?g, sn_receiver_facts_present := list_ex (has_value ?r) RECEIVER_FIELDS\<rparr>"
  let ?p = "p\<lparr>pf_state := ReceiverObserved, pf_result := Some ?res,
    pf_attempt := Some (aso_attempt (obo_apply_started (observed_operation op observation)))\<rparr>"
  have "snapshot_row ?r = Inr ?sn"
    using sn unfolding snapshot_row_iff set_columns_fields(7) [OF r] by (simp add: observation_columns_def)
  moreover have "row_statement ?r (sn_state ?sn) (Some (observed_statement op observation))"
    using observation_row_statement [OF r sn facts ob] by simp
  moreover have "snapshot_facts C ?sn (Some (observed_statement op observation)) ?p"
  proof -
    have "pred_option (\<lambda>w. 0 \<le> sint w) ?g"
      using requested_generation_nonneg [OF ob started_facts(5) [OF facts]] by (simp add: pred_option_def)
    then have "validate_snapshot_attempt_facts ReceiverObserved (sn_write_strategy sn) (sn_target_uid sn)
        (sn_target_resource_version sn) (pf_accepted p) ?g (sn_apply_resource_version sn) = Inr (pf_attempt ?p)"
      using facts by (auto simp: snapshot_facts_def select_phase_iffs attempt_facts_iff observed_operation_def Let_def
          split: option.splits)
    moreover have "rs_result (observed_statement op observation) = ?res"
      by (simp add: observed_statement_def Let_def)
    moreover have "approval_violated q a (pf_attempt ?p) = approval_violated q a (Some (aso_attempt op))" for q a
      by (simp add: approval_violated_def observed_operation_def Let_def split: option.splits)
    ultimately show ?thesis
      using facts by (auto simp: snapshot_facts_def select_phase_iffs result_from_sql_iff rbind_eq_Inr
          snapshot_frozen_receipt_def split: option.splits)
  qed
  moreover have "phase_selected ?p ?sn (Some (observed_statement op observation))
      (LReceiverObserved (observed_operation op observation))"
    using facts by (simp add: select_phase_iffs observed_operation_def Let_def)
  ultimately show ?thesis unfolding decode_iff by blast
qed

lemma decode_receipt_row:
  assumes r: "row_ok Kubernetes r" and dec: "decode C r = Inr (LReceiverObserved op)"
    and receipt: "decode_frozen_receipt (fr_bytes receipt) = Inr (fr_key_id receipt, obo_statement op)"
      "receipt_digest_hex C (fr_bytes receipt) = fr_digest receipt"
      "fr_operation_id receipt = obo_operation_id op"
  shows "decode C (set_columns (receipt_columns receipt) r) = Inr (LFinalized op receipt)"
proof -
  let ?r = "set_columns (receipt_columns receipt) r"
  from dec obtain sn st p where sn: "snapshot_row r = Inr sn" and rst: "row_statement r (sn_state sn) st"
      and facts: "snapshot_facts C sn st p" and sel: "phase_selected p sn st (LReceiverObserved op)"
    unfolding decode_iff by blast
  let ?sn = "sn\<lparr>sn_state := ''finalized'', sn_receipt_digest := Some (fr_digest receipt),
    sn_receipt_bytes := Some (fr_bytes receipt), sn_receipt_key_id := Some (fr_key_id receipt)\<rparr>"
  let ?p = "p\<lparr>pf_state := Finalized, pf_receipt := Some receipt\<rparr>"
  have st: "st = Some (obo_statement op)" using sel by (simp add: select_phase_iffs)
  have "list_ex (has_value ?r) RECEIVER_FIELDS = list_ex (has_value r) RECEIVER_FIELDS"
    by (rule receiver_fields_kept [OF r writes_known(2)]) (auto simp: receipt_columns_def RECEIVER_FIELDS_def)
  with sn have "snapshot_row ?r = Inr ?sn"
    unfolding snapshot_row_iff set_columns_fields(2) [OF r] by (simp add: receipt_columns_def)
  moreover have "row_statement ?r (sn_state ?sn) st"
  proof -
    have "receipt_row ?r = Inr w \<longleftrightarrow> receipt_row r = Inr w" for w
      unfolding receipt_row_iff set_columns_fields(2) [OF r] by (simp add: receipt_columns_def)
    with rst show ?thesis by (auto simp: row_statement_def st split: if_splits)
  qed
  moreover have "snapshot_facts C ?sn st ?p"
  proof -
    obtain sig where "fr_bytes receipt = signed_image (obo_statement op) (fr_key_id receipt) sig"
      "frozen_statement (obo_statement op)" "identity_is_valid (fr_key_id receipt)" "length sig = 64"
      using receipt(1) by (auto simp: decode_frozen_receipt_iff)
    then have "length (fr_bytes receipt) \<le> RECEIPT_BYTES_MAX" "identity_is_valid (fr_key_id receipt)"
      using default_limits_admit_receipt [of "obo_statement op" "()" "fr_key_id receipt" sig]
      by (simp_all add: frozen_statement_def limits_admit_receipt_def limits_admit_def signed_image_def default_limits_def)
    then have "snapshot_frozen_receipt C (obo_operation_id op) (Some (fr_digest receipt)) (Some (fr_bytes receipt))
        (Some (fr_key_id receipt)) (Some (obo_statement op)) = Inr (Some receipt)"
      using receipt by (cases receipt) (simp add: snapshot_frozen_receipt_def validate_frozen_receipt_def validate_identity_def)
    then show ?thesis
      using facts sel by (auto simp: snapshot_facts_def select_phase_iffs attempt_facts_iff st split: option.splits)
  qed
  moreover have "phase_selected ?p ?sn st (LFinalized op receipt)"
    using sel by (simp add: select_phase_iffs)
  ultimately show ?thesis unfolding decode_iff by blast
qed

end
