(* ===== verification/Lifecycle.thy ===== *)
theory Lifecycle
  imports Transitions
begin

text \<open>
  The journal's calls as a state machine. Each call either leaves the database as it was or makes
  exactly one step of the lifecycle on exactly one row; sequences of calls, with any outcome of
  their commits, hand out at most one dispatch permission per operation identity.
\<close>

section \<open>The admitted row\<close>

lemma field_row_empty:
  assumes "f \<in> set CURRENT_COLUMNS"
  shows "field (row_empty ident) f = (if f = ''operation_id'' then Text ident
    else if f \<in> {''target_read_failures'', ''apply_attempted''} then Integer 0 else Null)"
proof -
  let ?base = "\<lparr>row_values = replicate (length CURRENT_COLUMNS) Null, row_table = Kubernetes\<rparr>"
  have "row_wf ?base" by (simp add: row_wf_def)
  moreover have "field ?base f = Null"
    using position_less [OF assms] by (simp add: field_def row_index_def)
  ultimately show ?thesis
    by (simp add: row_empty_def row.get_put CURRENT_COLUMNS_def)
qed

lemma row_empty_ok: "row_ok Kubernetes (row_empty ident)" "has_id ident (row_empty ident)"
proof -
  show "has_id ident (row_empty ident)"
    by (simp add: has_id_def field_row_empty CURRENT_COLUMNS_def)
  then show "row_ok Kubernetes (row_empty ident)"
    by (auto simp: row_ok_def row_empty_def row_wf_def row_set_def)
qed

definition requested_columns :: "AuthorizedRequest \<Rightarrow> (string \<times> Value) list" where
  "requested_columns authorized =
     (let request = aq_request authorized; authority = aq_authorization authorized;
          approved = ea_approved_target (va_authorization authority) in
        [(''namespace'', Text (vr_namespace request)),
         (''deployment'', Text (vr_deployment request)),
         (''container'', Text (vr_container request)),
         (''immutable_image_digest'', Text (vr_immutable_image request)),
         (''state'', Text (state_as_sql Requested)),
         (''authorization_id'', Text (ea_authorization_id (va_authorization authority))),
         (''authorization_signer_key_id'', Text (va_signer_key_id authority)),
         (''authorization_grant_digest'', Text (va_grant_digest authority)),
         (''signed_authorization_grant'', Blob (va_signed_grant authority)),
         (''approved_uid'', opt_text (map_option at_uid approved)),
         (''approved_resource_version'', opt_text (map_option at_resource_version approved))])"

lemma requested_record_columns:
  "requested_record authorized = set_columns (requested_columns authorized) (row_empty (vr_operation_id (aq_request authorized)))"
  by (simp add: requested_record_def requested_columns_def set_columns_def Let_def)

lemma writes_known_requested [simp]: "writes_known (requested_columns authorized)"
  by (simp add: writes_to_def requested_columns_def CURRENT_COLUMNS_def Let_def)

lemmas requested_fields = field_set_columns [OF row_empty_ok(1) writes_known_requested]

definition admitted_facts :: "AuthorizedRequest \<Rightarrow> RequestFacts" where
  "admitted_facts authorized =
     \<lparr>rf_approved_target = ea_approved_target (va_authorization (aq_authorization authorized)),
      rf_preflight_target = None, rf_request = aq_request authorized\<rparr>"

text \<open>What verification and binding guarantee of an authorized request.\<close>

definition authorized_request_valid :: "AuthorizedRequest \<Rightarrow> bool" where
  "authorized_request_valid q \<longleftrightarrow> request_valid (aq_request q) \<and>
     authorization_facts_valid (verified_facts (aq_authorization q)) \<and>
     pred_option approved_target_is_valid (ea_approved_target (va_authorization (aq_authorization q))) \<and>
     length (va_signed_grant (aq_authorization q)) \<le> SIGNED_GRANT_BYTES_MAX"

lemma decode_requested_record:
  assumes "authorized_request_valid authorized"
  shows "decode C (requested_record authorized) = Inr (LRequested (admitted_facts authorized))"
proof -
  let ?q = "aq_request authorized" and ?a = "va_authorization (aq_authorization authorized)"
  let ?v = "verified_facts (aq_authorization authorized)"
  let ?sn = "\<lparr>sn_approved_uid = map_option at_uid (ea_approved_target ?a),
     sn_approved_resource_version = map_option at_resource_version (ea_approved_target ?a),
     sn_preflight_uid = None, sn_preflight_resource_version = None,
     sn_operation_id = vr_operation_id ?q, sn_namespace = vr_namespace ?q, sn_deployment = vr_deployment ?q,
     sn_container = vr_container ?q, sn_immutable_image_digest = vr_immutable_image ?q,
     sn_state = ''requested'', sn_result = None, sn_target_rejection = None,
     sn_authorization_id = Some (af_authorization_id ?v), sn_authorization_signer_key_id = Some (af_signer_key_id ?v),
     sn_authorization_grant_digest = Some (af_grant_digest ?v), sn_write_strategy = None, sn_apply_attempted = 0,
     sn_target_uid = None, sn_target_resource_version = None, sn_apply_accepted = None,
     sn_requested_generation = None, sn_apply_resource_version = None, sn_receiver_facts_present = False,
     sn_receipt_digest = None, sn_receipt_bytes = None, sn_receipt_key_id = None\<rparr>"
  let ?p = "\<lparr>pf_state = Requested, pf_attempted = False, pf_accepted = None, pf_request = admitted_facts authorized,
     pf_result = None, pf_rejection = None, pf_authorization = Some ?v, pf_attempt = None, pf_receipt = None\<rparr>"
  have null: "field (requested_record authorized) f = Null" if "f \<in> set CURRENT_COLUMNS"
    "f \<notin> fst ` set (requested_columns authorized)" "f \<notin> {''operation_id'', ''target_read_failures'', ''apply_attempted''}" for f
  proof -
    have "map_of (rev (requested_columns authorized)) f = None"
      using that by (simp add: map_of_eq_None_iff)
    then show ?thesis
      using that by (simp add: requested_record_columns requested_fields field_row_empty)
  qed
  have "snapshot_row (requested_record authorized) = Inr ?sn"
  proof -
    have "list_ex (has_value (requested_record authorized)) RECEIVER_FIELDS \<longleftrightarrow> False"
      by (simp add: RECEIVER_FIELDS_def has_value_def null CURRENT_COLUMNS_def requested_columns_def Let_def)
    then show ?thesis
      unfolding snapshot_row_iff requested_record_columns requested_fields
      by (simp add: requested_columns_def Let_def field_row_empty CURRENT_COLUMNS_def verified_facts_def)
  qed
  moreover have "snapshot_facts C ?sn None ?p"
    using assms by (auto simp: snapshot_facts_def authorized_request_valid_def admitted_facts_def snapshot_target_iff
        snapshot_authorization_Some to_adapter_request_def attempt_facts_iff approval_violated_def
        snapshot_frozen_receipt_def verified_facts_def split: option.splits)
  moreover have "phase_selected ?p ?sn None (LRequested (admitted_facts authorized))"
    by (simp add: select_phase_iffs)
  moreover have "row_statement (requested_record authorized) (sn_state ?sn) None"
    by (simp add: row_statement_def)
  ultimately show ?thesis unfolding decode_iff by blast
qed


section \<open>One write\<close>

text \<open>The typed phase the journal holds for an identity; \<open>None\<close> when there is no readable one.\<close>

definition phase_of :: "crypto \<Rightarrow> Db \<Rightarrow> string \<Rightarrow> LoadedOperation option" where
  "phase_of C db ident = (case row_of Kubernetes db ident of None \<Rightarrow> None
     | Some r \<Rightarrow> (case decode C r of Inl _ \<Rightarrow> None | Inr op \<Rightarrow> Some op))"

lemma phase_of_iff: "phase_of C db ident = Some op \<longleftrightarrow>
    (\<exists>r. row_of Kubernetes db ident = Some r \<and> decode C r = Inr op)"
  by (auto simp: phase_of_def split: option.splits sum.splits)

lemma bound_record_iff: "bound_record C ident op db = Inr r \<longleftrightarrow>
    row_of Kubernetes db ident = Some r \<and> row_bounded r \<and> decode C r = Inr op"
  by (auto simp: bound_record_def record_read_def rbind_eq_Inr read_table_iff)

lemma db_row_ok: "db_ok db \<Longrightarrow> row_of t db ident = Some r \<Longrightarrow> row_ok t r \<and> has_id ident r"
  using db_ok_tables [of db t] row_of_Some [of t db ident r] by (auto simp: table_ok_def list_all_iff)

text \<open>A write from the row bound to a phase: nothing, or exactly the new row.\<close>

lemma bound_write_cases:
  assumes ok: "db_ok db" and known: "writes_known cvs" and bound: "bound_record C ident op db = Inr r"
    and wr: "replace d (Some r) (set_columns cvs r) db = (res, db')"
  shows "(db' = db \<and> res \<noteq> Inr ()) \<or> stored Kubernetes ident (set_columns cvs r) db db'"
proof -
  have "row_ok Kubernetes r" "has_id ident r"
    using db_row_ok [OF ok] bound by (auto simp: bound_record_iff)
  with replace_cases [OF ok _ _ wr, of Kubernetes ident] set_columns_ok [OF _ known] show ?thesis by blast
qed

lemma advance_row_cases:
  assumes ok: "db_ok db" and known: "writes_known cvs" and wr: "advance_row C d ident op cvs db = (res, db')"
  shows "(db' = db \<and> res \<noteq> Inr ()) \<or> (\<exists>r. row_of Kubernetes db ident = Some r \<and> row_ok Kubernetes r \<and>
     decode C r = Inr op \<and> stored Kubernetes ident (set_columns cvs r) db db')"
proof (cases "bound_record C ident op db")
  case (Inl e)
  with wr show ?thesis by (auto simp: advance_row_def abind_def)
next
  case (Inr r)
  with wr bound_write_cases [OF ok known Inr] db_row_ok [OF ok] show ?thesis
    by (auto simp: advance_row_def abind_def bound_record_iff)
qed

section \<open>Calls of the journal\<close>

text \<open>The calls that change the journal, as one type, so that sequences of them can be quantified over.\<close>

datatype Call =
  InsertRequested AuthorizedRequest
| MarkAuthorized RequestFacts AuthorizedRequest
| MarkNotAttempted AuthorizedOperation TargetRejection
| BeginAttempt AuthorizedOperation ValidatedTargetIdentity "FaultPoint option"
| RecordApplyOutcome ApplyStartedOperation ApplyOutcome
| FreezeObservation ApplyStartedOperation ReceiverObservation
| CommitReceipt ReceiverObservedOperation FrozenReceipt

fun perform :: "crypto \<Rightarrow> Delivery \<Rightarrow> Call \<Rightarrow> (Db, GatewayError, DispatchPermission option) action" where
  "perform C d (InsertRequested q) = abind (insert_requested d q) (\<lambda>_. areturn None)"
| "perform C d (MarkAuthorized op q) = abind (mark_authorized C d op q) (\<lambda>_. areturn None)"
| "perform C d (MarkNotAttempted op rejection) = abind (mark_not_attempted C d op rejection) (\<lambda>_. areturn None)"
| "perform C d (BeginAttempt op target fault) = begin_attempt C d op target fault"
| "perform C d (RecordApplyOutcome op outcome) = abind (record_apply_outcome C d op outcome) (\<lambda>_. areturn None)"
| "perform C d (FreezeObservation op observation) = abind (freeze_observation C d op observation) (\<lambda>_. areturn None)"
| "perform C d (CommitReceipt op receipt) = abind (commit_receipt C d op receipt) (\<lambda>_. areturn None)"

text \<open>The identity a call is about.\<close>

fun call_id :: "Call \<Rightarrow> string" where
  "call_id (InsertRequested q) = vr_operation_id (aq_request q)"
| "call_id (MarkAuthorized op q) = vr_operation_id (rf_request op)"
| "call_id (MarkNotAttempted op rejection) = azo_operation_id op"
| "call_id (BeginAttempt op target fault) = azo_operation_id op"
| "call_id (RecordApplyOutcome op outcome) = aso_operation_id op"
| "call_id (FreezeObservation op observation) = aso_operation_id op"
| "call_id (CommitReceipt op receipt) = obo_operation_id op"

text \<open>What the Rust types guarantee of a call's arguments.\<close>

fun call_valid :: "Call \<Rightarrow> bool" where
  "call_valid (InsertRequested q) \<longleftrightarrow> authorized_request_valid q"
| "call_valid (MarkAuthorized op q) \<longleftrightarrow> authorized_request_valid q"
| "call_valid (MarkNotAttempted op rejection) \<longleftrightarrow> rejection \<in> {DeploymentNotFound, ContainerNotFound, InvalidTarget}"
| "call_valid (BeginAttempt op target fault) \<longleftrightarrow> target_valid target"
| "call_valid _ \<longleftrightarrow> True"

text \<open>The lifecycle of one operation, as the phases show it.\<close>

inductive lifecycle :: "LoadedOperation option \<Rightarrow> LoadedOperation option \<Rightarrow> bool" where
  admit: "lifecycle None (Some (LRequested facts))"
| authorize: "lifecycle (Some (LRequested facts)) (Some (LAuthorized \<lparr>azo_request = facts, azo_authorization = a\<rparr>))"
| reject: "lifecycle (Some (LAuthorized op)) (Some (LNotAttempted op rejection))"
| stale: "rf_approved_target (azo_request op) = Some approved \<Longrightarrow>
    approved \<noteq> \<lparr>at_uid = vt_deployment_uid target, at_resource_version = vt_resource_version target\<rparr> \<Longrightarrow>
    lifecycle (Some (LAuthorized op)) (Some (LNotAttempted (aso_authorized (attempted_operation op target)) StaleApproval))"
| attempt: "rf_approved_target (azo_request op) \<in> {None,
      Some \<lparr>at_uid = vt_deployment_uid target, at_resource_version = vt_resource_version target\<rparr>} \<Longrightarrow>
    lifecycle (Some (LAuthorized op)) (Some (LApplyStarted (attempted_operation op target)))"
| respond: "apply_outcome_validate outcome = Inr () \<Longrightarrow>
    ao_deployment_uid outcome = Some (vt_deployment_uid (att_target (aso_attempt op))) \<Longrightarrow>
    lifecycle (Some (LApplyStarted op)) (Some (LApplyStarted (answered_operation op outcome)))"
| observe: "observation_validate observation = Inr () \<Longrightarrow>
    lifecycle (Some (LApplyStarted op)) (Some (LReceiverObserved (observed_operation op observation)))"
| finalize: "decode_frozen_receipt (fr_bytes receipt) = Inr (fr_key_id receipt, obo_statement op) \<Longrightarrow>
    lifecycle (Some (LReceiverObserved op)) (Some (LFinalized op receipt))"

inductive_cases lifecycle_LNotAttempted: "lifecycle (Some (LNotAttempted op rejection)) x"
inductive_cases lifecycle_LFinalized: "lifecycle (Some (LFinalized op receipt)) x"


text \<open>The row a call replaces and the row it writes.\<close>

inductive row_change :: "crypto \<Rightarrow> Call \<Rightarrow> Record option \<Rightarrow> Record \<Rightarrow> bool" for C where
  "row_change C (InsertRequested q) None (requested_record q)"
| "decode C r = Inr (LRequested op) \<Longrightarrow>
    row_change C (MarkAuthorized op q) (Some r) (set_columns (authorization_columns (aq_authorization q)) r)"
| "decode C r = Inr (LAuthorized op) \<Longrightarrow>
    row_change C (MarkNotAttempted op rejection) (Some r) (set_columns (rejection_columns rejection) r)"
| "decode C r = Inr (LAuthorized op) \<Longrightarrow> rf_approved_target (azo_request op) = Some approved \<Longrightarrow>
    approved \<noteq> \<lparr>at_uid = vt_deployment_uid observed, at_resource_version = vt_resource_version observed\<rparr> \<Longrightarrow>
    row_change C (BeginAttempt op observed fault) (Some r) (set_columns (stale_columns observed) r)"
| "decode C r = Inr (LAuthorized op) \<Longrightarrow>
    rf_approved_target (azo_request op) \<in> {None, Some \<lparr>at_uid = vt_deployment_uid observed, at_resource_version = vt_resource_version observed\<rparr>} \<Longrightarrow>
    row_change C (BeginAttempt op observed fault) (Some r) (set_columns (attempt_columns observed) r)"
| "decode C r = Inr (LApplyStarted op) \<Longrightarrow> apply_outcome_validate outcome = Inr () \<Longrightarrow>
    ao_deployment_uid outcome = Some (vt_deployment_uid (att_target (aso_attempt op))) \<Longrightarrow> ao_resource_version outcome \<noteq> None \<Longrightarrow>
    row_change C (RecordApplyOutcome op outcome) (Some r) (set_columns (response_columns outcome) r)"
| "decode C r = Inr (LApplyStarted op) \<Longrightarrow> observation_validate observation = Inr () \<Longrightarrow>
    row_change C (FreezeObservation op observation) (Some r) (set_columns (observation_columns observation
      (classify observation (rf_request (azo_request (aso_authorized op))) (classification_outcome op))
      (requested_generation observation (rf_request (azo_request (aso_authorized op))) (classification_outcome op))) r)"
| "decode C r = Inr (LReceiverObserved op) \<Longrightarrow>
    decode_frozen_receipt (fr_bytes receipt) = Inr (fr_key_id receipt, obo_statement op) \<Longrightarrow>
    receipt_digest_hex C (fr_bytes receipt) = fr_digest receipt \<Longrightarrow> fr_operation_id receipt = obo_operation_id op \<Longrightarrow>
    row_change C (CommitReceipt op receipt) (Some r) (set_columns (receipt_columns receipt) r)"

text \<open>A call changes nothing, or makes exactly its change to the one row.\<close>

definition effect :: "crypto \<Rightarrow> Call \<Rightarrow> Db \<Rightarrow> Db \<Rightarrow> bool" where
  "effect C call db db' \<longleftrightarrow> (\<exists>nxt. row_change C call (row_of Kubernetes db (call_id call)) nxt \<and>
     stored Kubernetes (call_id call) nxt db db')"

lemma effectI: "row_of Kubernetes db (call_id call) = prev \<Longrightarrow> row_change C call prev nxt \<Longrightarrow>
    stored Kubernetes (call_id call) nxt db db' \<Longrightarrow> effect C call db db'"
  by (auto simp: effect_def)

lemma bound_write_effect:
  assumes "db_ok db" "writes_known cvs" "bound_record C (call_id call) op db = Inr r"
    and "replace d (Some r) (set_columns cvs r) db = (res, db')" "row_change C call (Some r) (set_columns cvs r)"
  shows "(db' = db \<and> res \<noteq> Inr ()) \<or> effect C call db db'"
  using bound_write_cases [OF assms(1-4)] assms(3) effectI [OF _ assms(5)] by (auto simp: bound_record_iff)

lemma advance_effect:
  assumes "db_ok db" "writes_known cvs" "advance_row C d (call_id call) op cvs db = (res, db')"
    and "\<And>r. decode C r = Inr op \<Longrightarrow> row_change C call (Some r) (set_columns cvs r)"
  shows "(db' = db \<and> res \<noteq> Inr ()) \<or> effect C call db db'"
  using advance_row_cases [OF assms(1-3)] assms(4) by (auto intro: effectI)

lemma insert_requested_effect:
  assumes "db_ok db" "insert_requested d q db = (res, db')"
  shows "(db' = db \<and> res \<noteq> Inr ()) \<or> effect C (InsertRequested q) db db'"
proof -
  have "row_ok Kubernetes (requested_record q)" "has_id (vr_operation_id (aq_request q)) (requested_record q)"
    using set_columns_ok [OF row_empty_ok(1) writes_known_requested] row_empty_ok(2)
    by (simp_all add: requested_record_columns)
  from replace_cases [OF assms(1) this assms(2) [unfolded insert_requested_def]] show ?thesis
    by (auto intro: effectI row_change.intros)
qed

lemma mark_authorized_effect:
  assumes ok: "db_ok db" and m: "mark_authorized C d op q db = (res, db')"
  shows "(db' = db \<and> res \<noteq> Inr ()) \<or> effect C (MarkAuthorized op q) db db'"
proof (cases "rf_request op = aq_request q \<and> existing_submission C q db = Inr (Some Requested)")
  case True
  then have "advance_row C d (call_id (MarkAuthorized op q)) (LRequested op)
      (authorization_columns (aq_authorization q)) db = (res, db')"
    using m by (simp add: mark_authorized_def abind_def)
  from advance_effect [OF ok writes_known(1) this] show ?thesis by (simp add: row_change.intros)
next
  case False
  with m show ?thesis
    by (auto simp: mark_authorized_def abind_def split: if_splits sum.splits)
qed

lemma mark_not_attempted_effect:
  assumes ok: "db_ok db" and m: "mark_not_attempted C d op rejection db = (res, db')"
  shows "(db' = db \<and> res \<noteq> Inr ()) \<or> effect C (MarkNotAttempted op rejection) db db'"
  by (rule advance_effect [OF ok writes_known(3)])
    (use m in \<open>auto simp: mark_not_attempted_def intro: row_change.intros\<close>)

lemma record_apply_outcome_effect:
  assumes ok: "db_ok db" and m: "record_apply_outcome C d op outcome db = (res, db')"
  shows "(db' = db \<and> res \<noteq> Inr ()) \<or> effect C (RecordApplyOutcome op outcome) db db'"
proof (cases "apply_outcome_validate outcome = Inr () \<and> (\<exists>r. bound_record C (aso_operation_id op) (LApplyStarted op) db = Inr r)")
  case False
  with m show ?thesis
    by (cases "apply_outcome_validate outcome"; cases "bound_record C (aso_operation_id op) (LApplyStarted op) db")
      (auto simp: record_apply_outcome_def abind_def)
next
  case True
  then obtain r where v: "apply_outcome_validate outcome = Inr ()"
    and r: "bound_record C (aso_operation_id op) (LApplyStarted op) db = Inr r" by blast
  have dec: "decode C r = Inr (LApplyStarted op)" using r by (simp add: bound_record_iff)
  then obtain sn p where sn: "snapshot_row r = Inr sn" and facts: "snapshot_facts C sn None p"
     "phase_selected p sn None (LApplyStarted op)" using early_facts [OF dec] by auto
  have uid: "row_get (optional from_text) r ''target_uid'' = Inr (Some (vt_deployment_uid (att_target (aso_attempt op))))"
    using sn started_facts(10) [OF facts] by (simp add: snapshot_row_iff)
  show ?thesis
  proof (cases "ao_deployment_uid outcome = Some (vt_deployment_uid (att_target (aso_attempt op))) \<and>
      ao_resource_version outcome \<noteq> None")
    case False
    with m v r uid show ?thesis by (auto simp: record_apply_outcome_def abind_def)
  next
    case True
    with m v r uid have "replace d (Some r) (set_columns (response_columns outcome) r) db = (res, db')"
      by (simp add: record_apply_outcome_def abind_def)
    with bound_write_effect [OF ok writes_known(6), of C "RecordApplyOutcome op outcome"] r dec v True show ?thesis
      by (auto simp: row_change.intros)
  qed
qed

lemma freeze_observation_effect:
  assumes ok: "db_ok db" and m: "freeze_observation C d op observation db = (res, db')"
  shows "(db' = db \<and> res \<noteq> Inr ()) \<or> effect C (FreezeObservation op observation) db db'"
proof (cases "observation_validate observation")
  case (Inr u)
  let ?q = "rf_request (azo_request (aso_authorized op))"
  have "advance_row C d (call_id (FreezeObservation op observation)) (LApplyStarted op)
      (observation_columns observation (classify observation ?q (classification_outcome op))
        (requested_generation observation ?q (classification_outcome op))) db = (res, db')"
    using m Inr by (simp add: freeze_observation_def abind_def Let_def)
  from advance_effect [OF ok writes_known(7) this] Inr show ?thesis by (simp add: row_change.intros)
qed (use m in \<open>auto simp: freeze_observation_def abind_def\<close>)

lemma commit_receipt_effect:
  assumes ok: "db_ok db" and m: "commit_receipt C d op receipt db = (res, db')"
  shows "(db' = db \<and> res \<noteq> Inr ()) \<or> effect C (CommitReceipt op receipt) db db'"
proof (cases "fr_operation_id receipt = obo_operation_id op \<and>
    (\<exists>r. bound_record C (obo_operation_id op) (LReceiverObserved op) db = Inr r) \<and>
    decode_frozen_receipt (fr_bytes receipt) = Inr (fr_key_id receipt, obo_statement op) \<and>
    receipt_digest_hex C (fr_bytes receipt) = fr_digest receipt")
  case True
  then obtain r where r: "bound_record C (obo_operation_id op) (LReceiverObserved op) db = Inr r" by blast
  with True m have "replace d (Some r) (set_columns (receipt_columns receipt) r) db = (res, db')"
    by (simp add: commit_receipt_def abind_def)
  with bound_write_effect [OF ok writes_known(2), of C "CommitReceipt op receipt"] r True show ?thesis
    by (auto simp: row_change.intros bound_record_iff)
next
  case False
  with m show ?thesis
    by (auto simp: commit_receipt_def abind_def split: if_splits sum.splits)
qed


text \<open>Beginning an attempt: a permission is returned only after the attempt itself was stored.\<close>

definition permitted :: "crypto \<Rightarrow> AuthorizedOperation \<Rightarrow> ValidatedTargetIdentity \<Rightarrow> Db \<Rightarrow> Db \<Rightarrow> DispatchPermission \<Rightarrow> bool" where
  "permitted C op observed db db' p \<longleftrightarrow>
     p = \<lparr>dp_request = rf_request (azo_request op), dp_target = observed\<rparr> \<and>
     rf_approved_target (azo_request op) \<in> {None,
       Some \<lparr>at_uid = vt_deployment_uid observed, at_resource_version = vt_resource_version observed\<rparr>} \<and>
     (\<exists>r. row_of Kubernetes db (azo_operation_id op) = Some r \<and> decode C r = Inr (LAuthorized op) \<and>
        stored Kubernetes (azo_operation_id op) (set_columns (attempt_columns observed) r) db db')"

lemma dispatch_effect:
  assumes ok: "db_ok db"
    and approved: "rf_approved_target (azo_request op) \<in> {None,
       Some \<lparr>at_uid = vt_deployment_uid observed, at_resource_version = vt_resource_version observed\<rparr>}"
    and m: "abind (mark_apply_started C d op observed) (\<lambda>_.
       abind (throw_if (fault = Some AttemptCommitAcknowledgementLost) InjectedFault) (\<lambda>_.
       areturn (Some \<lparr>dp_request = rf_request (azo_request op), dp_target = observed\<rparr>))) db = (res, db')"
  shows "((db' = db \<and> (\<forall>p. res \<noteq> Inr p)) \<or> effect C (BeginAttempt op observed fault) db db') \<and>
    (\<forall>p. res = Inr p \<longrightarrow> (\<exists>q. p = Some q \<and> permitted C op observed db db' q))"
proof -
  obtain r1 db1 where w: "mark_apply_started C d op observed db = (r1, db1)" by fastforce
  have res: "res = (case r1 of Inl e \<Rightarrow> Inl e | Inr _ \<Rightarrow> if fault = Some AttemptCommitAcknowledgementLost then Inl InjectedFault
      else Inr (Some \<lparr>dp_request = rf_request (azo_request op), dp_target = observed\<rparr>))" "db' = db1"
    using m w by (auto simp: abind_def throw_if_def split: sum.splits if_splits)
  from advance_row_cases [OF ok writes_known(5) w [unfolded mark_apply_started_def]] show ?thesis
  proof
    assume "db1 = db \<and> r1 \<noteq> Inr ()"
    then show ?thesis by (cases r1) (simp_all add: res)
  next
    assume "\<exists>r. row_of Kubernetes db (azo_operation_id op) = Some r \<and> row_ok Kubernetes r \<and>
      decode C r = Inr (LAuthorized op) \<and>
      stored Kubernetes (azo_operation_id op) (set_columns (attempt_columns observed) r) db db1"
    then obtain r where r: "row_of Kubernetes db (azo_operation_id op) = Some r" "decode C r = Inr (LAuthorized op)"
      "stored Kubernetes (azo_operation_id op) (set_columns (attempt_columns observed) r) db db1" by blast
    then have "effect C (BeginAttempt op observed fault) db db'"
      using row_change.intros(5) [OF r(2) approved, of fault]
        effectI [of db "BeginAttempt op observed fault" "Some r" C "set_columns (attempt_columns observed) r" db']
      by (simp add: res)
    moreover have "\<exists>q. p = Some q \<and> permitted C op observed db db' q" if "res = Inr p" for p
      using that r approved by (auto simp: res permitted_def split: sum.splits if_splits)
    ultimately show ?thesis by blast
  qed
qed

lemma begin_attempt_effect:
  assumes ok: "db_ok db" and m: "begin_attempt C d op observed fault db = (res, db')"
  shows "((db' = db \<and> (\<forall>p. res \<noteq> Inr p)) \<or> effect C (BeginAttempt op observed fault) db db') \<and>
    (\<forall>p. res = Inr (Some p) \<longrightarrow> permitted C op observed db db' p)"
proof (cases "bound_record C (azo_operation_id op) (LAuthorized op) db")
  case (Inl e)
  with m show ?thesis by (auto simp: begin_attempt_def abind_def)
next
  case (Inr r)
  let ?t = "\<lparr>at_uid = vt_deployment_uid observed, at_resource_version = vt_resource_version observed\<rparr>"
  let ?stale = "abind (mark_stale_approval C d op observed) (\<lambda>_. areturn None) db"
  let ?dispatch = "abind (mark_apply_started C d op observed) (\<lambda>_.
       abind (throw_if (fault = Some AttemptCommitAcknowledgementLost) InjectedFault) (\<lambda>_.
       areturn (Some \<lparr>dp_request = rf_request (azo_request op), dp_target = observed\<rparr>))) db"
  have split: "vt_deployment_uid observed \<noteq> at_uid approved \<or> vt_resource_version observed \<noteq> at_resource_version approved
      \<longleftrightarrow> approved \<noteq> ?t" for approved
    by (cases approved) auto
  consider (free) "rf_approved_target (azo_request op) = None"
    | (stale) approved where "rf_approved_target (azo_request op) = Some approved" "approved \<noteq> ?t"
    | (exact) "rf_approved_target (azo_request op) = Some ?t"
    by (cases "rf_approved_target (azo_request op)") auto
  then show ?thesis
  proof cases
    case free
    then have "?dispatch = (res, db')"
      using m Inr by (simp add: begin_attempt_def abind_eq [of "reads _"])
    from dispatch_effect [OF ok _ this] free show ?thesis by auto
  next
    case stale
    then have st: "?stale = (res, db')"
      using m Inr split [of approved] by (simp add: begin_attempt_def abind_eq [of "reads _"])
    obtain r1 db1 where w: "mark_stale_approval C d op observed db = (r1, db1)" by fastforce
    have "(db1 = db \<and> r1 \<noteq> Inr ()) \<or> effect C (BeginAttempt op observed fault) db db1"
      by (rule advance_effect [OF ok writes_known(4)])
        (use w stale in \<open>auto simp: mark_stale_approval_def intro: row_change.intros\<close>)
    with st w show ?thesis by (auto simp: abind_def split: sum.splits)
  next
    case exact
    show ?thesis
    proof (cases "target_valid observed")
      case True
      then have "validated_target_try_from \<lparr>ti_deployment_uid = vt_deployment_uid observed,
          ti_resource_version = vt_resource_version observed\<rparr> = Inr observed"
        by (simp add: validated_target_iff to_adapter_target_def)
      then have "?dispatch = (res, db')"
        using m Inr exact by (simp add: begin_attempt_def abind_eq [of "reads _"])
      from dispatch_effect [OF ok _ this] exact show ?thesis by auto
    next
      case False
      have "\<exists>e. validated_target_try_from \<lparr>ti_deployment_uid = vt_deployment_uid observed,
          ti_resource_version = vt_resource_version observed\<rparr> = Inl e"
        using False validated_target_iff [of _ observed] by (cases "validated_target_try_from \<lparr>ti_deployment_uid = vt_deployment_uid observed,
          ti_resource_version = vt_resource_version observed\<rparr>") (auto simp: validated_target_iff to_adapter_target_def target_valid_def)
      then show ?thesis
        using m Inr exact by (auto simp: begin_attempt_def abind_eq [of "reads _"])
    qed
  qed
qed

lemma perform_effect:
  assumes "db_ok db" "perform C d call db = (res, db')"
  shows "((db' = db \<and> (\<forall>p. res \<noteq> Inr p)) \<or> effect C call db db') \<and>
    (\<forall>p. res = Inr (Some p) \<longrightarrow> (\<exists>op observed fault. call = BeginAttempt op observed fault \<and> permitted C op observed db db' p))"
proof -
  note effects = insert_requested_effect mark_authorized_effect mark_not_attempted_effect
    record_apply_outcome_effect freeze_observation_effect commit_receipt_effect
  have quiet: "(db' = db \<and> (\<forall>p. res \<noteq> Inr p)) \<or> effect C call db db'" "\<forall>p. res \<noteq> Inr (Some p)"
    if "abind m (\<lambda>_. areturn None) db = (res, db')"
      "\<And>r s. m db = (r, s) \<Longrightarrow> (s = db \<and> r \<noteq> Inr ()) \<or> effect C call db s" for m :: "unit journal_write"
    using that by (auto simp: abind_def split: prod.splits sum.splits)
  show ?thesis
    using assms begin_attempt_effect [OF assms(1)]
  proof (cases call)
    case (BeginAttempt op observed fault)
    with assms begin_attempt_effect [OF assms(1)] show ?thesis by simp
  qed (use assms effects [OF assms(1)] quiet in \<open>simp; blast\<close>)+
qed


section \<open>Refinement of the lifecycle\<close>

lemma row_change_lifecycle:
  assumes "row_change C call prev nxt" "call_valid call" "\<And>r. prev = Some r \<Longrightarrow> row_ok Kubernetes r"
  shows "\<exists>op'. decode C nxt = Inr op' \<and>
    (case prev of None \<Rightarrow> lifecycle None (Some op')
     | Some r \<Rightarrow> \<exists>op. decode C r = Inr op \<and> lifecycle (Some op) (Some op'))"
  using assms
proof (induction rule: row_change.induct)
  case (1 q)
  then show ?case by (auto simp: decode_requested_record intro: lifecycle.intros)
next
  case (2 r op q)
  then show ?case by (auto simp: decode_authorization_row authorized_request_valid_def intro: lifecycle.intros)
next
  case (3 r op rejection)
  then show ?case using decode_rejection_row [of r C op rejection] by (auto intro: lifecycle.intros)
next
  case (4 r op approved observed fault)
  then show ?case using decode_stale_row [of r C op observed approved] by (auto intro: lifecycle.intros)
next
  case (5 r op observed fault)
  then show ?case using decode_attempt_row [of r C op observed] by (auto intro: lifecycle.intros)
next
  case (6 r op outcome)
  then show ?case using decode_response_row [of r C op outcome] by (auto intro: lifecycle.intros)
next
  case (7 r op observation)
  then show ?case using decode_observation_row [of r C op observation] by (auto intro: lifecycle.intros)
next
  case (8 r op receipt)
  then show ?case using decode_receipt_row [of r C op receipt] by (auto intro: lifecycle.intros)
qed

lemma effect_lifecycle:
  assumes "db_ok db" "call_valid call" "effect C call db db'"
  shows "(row_of Kubernetes db (call_id call) = None \<or> phase_of C db (call_id call) \<noteq> None) \<and>
    lifecycle (phase_of C db (call_id call)) (phase_of C db' (call_id call)) \<and>
    (\<forall>k. k \<noteq> call_id call \<longrightarrow> row_of Kubernetes db' k = row_of Kubernetes db k) \<and>
    row_of Git db' = row_of Git db \<and> db_ok db'"
proof -
  from assms(3) obtain nxt where ch: "row_change C call (row_of Kubernetes db (call_id call)) nxt"
    and st: "stored Kubernetes (call_id call) nxt db db'" by (auto simp: effect_def)
  from row_change_lifecycle [OF ch assms(2)] db_row_ok [OF assms(1)] obtain op' where
    "decode C nxt = Inr op'" and prev: "case row_of Kubernetes db (call_id call) of None \<Rightarrow> lifecycle None (Some op')
     | Some r \<Rightarrow> \<exists>op. decode C r = Inr op \<and> lifecycle (Some op) (Some op')" by blast
  then have "phase_of C db' (call_id call) = Some op'"
    using st by (simp add: phase_of_iff stored_def)
  with prev st show ?thesis
    by (cases "row_of Kubernetes db (call_id call)") (auto simp: phase_of_def stored_def)
qed

section \<open>Dispatch\<close>

text \<open>An attempt for the identity is durable: dispatch may have happened.\<close>

definition dispatched :: "string \<Rightarrow> Db \<Rightarrow> bool" where
  "dispatched k db \<longleftrightarrow> (\<exists>r. row_of Kubernetes db k = Some r \<and>
     field r ''state'' \<in> Text ` {''apply_started'', ''receiver_observed'', ''finalized''})"

lemma state_set_columns:
  assumes "row_ok Kubernetes r"
  shows "field (set_columns (authorization_columns a) r) ''state'' = Text ''authorized''"
    "field (set_columns (receipt_columns receipt) r) ''state'' = Text ''finalized''"
    "field (set_columns (rejection_columns rejection) r) ''state'' = Text ''not_attempted''"
    "field (set_columns (stale_columns target) r) ''state'' = Text ''not_attempted''"
    "field (set_columns (attempt_columns target) r) ''state'' = Text ''apply_started''"
    "field (set_columns (response_columns outcome) r) ''state'' = field r ''state''"
    "field (set_columns (observation_columns ob res g) r) ''state'' = Text ''receiver_observed''"
  unfolding set_columns_fields [OF assms] by (simp_all add: write_columns)

lemma row_change_dispatched:
  assumes "row_change C call (Some r) nxt" "row_ok Kubernetes r"
    and "field r ''state'' \<in> Text ` {''apply_started'', ''receiver_observed'', ''finalized''}"
  shows "field nxt ''state'' \<in> Text ` {''apply_started'', ''receiver_observed'', ''finalized''}"
  using assms
proof (cases rule: row_change.cases)
  case (6 op outcome)
  with assms show ?thesis by (simp add: state_set_columns)
next
  case (7 op observation)
  with assms(2) show ?thesis by (simp add: state_set_columns)
next
  case (8 op receipt)
  with assms(2) show ?thesis by (simp add: state_set_columns)
qed (auto dest: decode_state(1))

lemma effect_db_ok: "effect C call db db' \<Longrightarrow> db_ok db'"
  by (auto simp: effect_def stored_def)

lemma effect_frame:
  assumes "effect C call db db'"
  shows "db_ok db'" "row_of Git db' = row_of Git db"
  using assms by (auto simp: effect_def stored_def)

lemma effect_dispatched:
  assumes "db_ok db" "effect C call db db'" "dispatched k db"
  shows "dispatched k db'"
proof -
  from assms(2) obtain nxt where ch: "row_change C call (row_of Kubernetes db (call_id call)) nxt"
    and st: "stored Kubernetes (call_id call) nxt db db'" by (auto simp: effect_def)
  show ?thesis
  proof (cases "k = call_id call")
    case True
    then obtain r where "row_of Kubernetes db (call_id call) = Some r"
      "field r ''state'' \<in> Text ` {''apply_started'', ''receiver_observed'', ''finalized''}"
      using assms(3) by (auto simp: dispatched_def)
    with row_change_dispatched [of C call r nxt] ch db_row_ok [OF assms(1)] st True show ?thesis
      by (auto simp: dispatched_def stored_def)
  next
    case False
    with assms(3) st show ?thesis by (auto simp: dispatched_def stored_def)
  qed
qed

lemma permitted_fresh:
  assumes "db_ok db" "permitted C op observed db db' p"
  shows "\<not> dispatched (vr_operation_id (dp_request p)) db \<and> dispatched (vr_operation_id (dp_request p)) db'"
proof -
  from assms obtain r where r: "row_of Kubernetes db (azo_operation_id op) = Some r"
    "decode C r = Inr (LAuthorized op)" "row_ok Kubernetes r"
    "stored Kubernetes (azo_operation_id op) (set_columns (attempt_columns observed) r) db db'"
    and p: "dp_request p = rf_request (azo_request op)"
    using db_row_ok by (auto simp: permitted_def)
  have "field r ''state'' = Text ''authorized''"
    using decode_state(1) [OF r(2)] by simp
  moreover have "field (set_columns (attempt_columns observed) r) ''state'' = Text ''apply_started''"
    by (simp add: state_set_columns r)
  ultimately show ?thesis
    using r by (auto simp: p dispatched_def stored_def)
qed

interpretation jd: single_dispatch "\<lambda>(d, call). perform C d call" "\<lambda>p. vr_operation_id (dp_request p)" dispatched db_ok for C
proof (unfold_locales, goal_cases)
  case (1 s c r s')
  with perform_effect [of s C "fst c" "snd c" r s'] effect_db_ok show ?case by (auto split: prod.splits)
next
  case (2 s c r s' k)
  with perform_effect [of s C "fst c" "snd c" r s'] effect_dispatched show ?case by (auto split: prod.splits)
next
  case (3 s c p s')
  with perform_effect [of s C "fst c" "snd c" "Inr (Some p)" s'] permitted_fresh show ?case
    by (auto split: prod.splits)
qed

section \<open>Terminal phases and frozen statements\<close>

text \<open>What no call can undo: a terminal row keeps every column, and an observed statement stays.\<close>

definition settled :: "crypto \<Rightarrow> string \<Rightarrow> Db \<Rightarrow> Db \<Rightarrow> bool" where
  "settled C k db db' \<longleftrightarrow>
     (\<forall>op. phase_of C db k = Some op \<longrightarrow> loaded_state op \<in> {NotAttempted, Finalized} \<longrightarrow>
        row_of Kubernetes db' k = row_of Kubernetes db k) \<and>
     (\<forall>op s. phase_of C db k = Some op \<longrightarrow> loaded_statement op = Some s \<longrightarrow>
        (\<exists>op'. phase_of C db' k = Some op' \<and> loaded_statement op' = Some s))"

lemma settled_refl: "reflp (settled C k)"
  by (auto simp: reflp_def settled_def)

lemma phase_of_cong: "row_of Kubernetes db' k = row_of Kubernetes db k \<Longrightarrow> phase_of C db' k = phase_of C db k"
  by (simp add: phase_of_def)

lemma settled_trans: "transp (settled C k)"
proof (rule transpI)
  fix a b c
  assume ab: "settled C k a b" and bc: "settled C k b c"
  have "row_of Kubernetes c k = row_of Kubernetes a k"
    if "phase_of C a k = Some op" "loaded_state op \<in> {NotAttempted, Finalized}" for op
  proof -
    have "row_of Kubernetes b k = row_of Kubernetes a k" using ab that unfolding settled_def by blast
    with bc that phase_of_cong [OF this, of C] show ?thesis unfolding settled_def by metis
  qed
  moreover have "\<exists>op'. phase_of C c k = Some op' \<and> loaded_statement op' = Some s"
    if "phase_of C a k = Some op" "loaded_statement op = Some s" for op s
    using ab bc that unfolding settled_def by metis
  ultimately show "settled C k a c" unfolding settled_def by blast
qed

lemma row_change_settled:
  assumes "row_change C call (Some r) nxt" "row_ok Kubernetes r" "decode C r = Inr op"
  shows "loaded_state op \<notin> {NotAttempted, Finalized}"
    "loaded_statement op = Some s \<Longrightarrow> \<exists>op'. decode C nxt = Inr op' \<and> loaded_statement op' = Some s"
proof -
  show "loaded_state op \<notin> {NotAttempted, Finalized}"
    using assms by (cases rule: row_change.cases) auto
  assume s: "loaded_statement op = Some s"
  show "\<exists>op'. decode C nxt = Inr op' \<and> loaded_statement op' = Some s"
    using assms(1)
  proof (cases rule: row_change.cases)
    case (8 op' receipt)
    with decode_receipt_row [OF assms(2), of C op' receipt] assms(3) s show ?thesis by auto
  qed (use assms s in auto)
qed

lemma effect_settled:
  assumes "db_ok db" "effect C call db db'"
  shows "settled C k db db'"
proof -
  from assms(2) obtain nxt where ch: "row_change C call (row_of Kubernetes db (call_id call)) nxt"
    and st: "stored Kubernetes (call_id call) nxt db db'" by (auto simp: effect_def)
  show ?thesis
  proof (cases "k = call_id call")
    case True
    show ?thesis
      unfolding settled_def
    proof (intro conjI allI impI)
      fix op assume "phase_of C db k = Some op" "loaded_state op \<in> {NotAttempted, Finalized}"
      with row_change_settled(1) ch db_row_ok [OF assms(1)] True show "row_of Kubernetes db' k = row_of Kubernetes db k"
        by (fastforce simp: phase_of_iff)
    next
      fix op s assume "phase_of C db k = Some op" "loaded_statement op = Some s"
      with row_change_settled(2) ch db_row_ok [OF assms(1)] st True
      show "\<exists>op'. phase_of C db' k = Some op' \<and> loaded_statement op' = Some s"
        by (fastforce simp: phase_of_iff stored_def)
    qed
  next
    case False
    then have "row_of Kubernetes db' k = row_of Kubernetes db k" using st by (simp add: stored_def)
    with phase_of_cong [OF this, of C] show ?thesis by (auto simp: settled_def)
  qed
qed

lemma perform_settled:
  assumes "db_ok db" "perform C d call db = (res, db')"
  shows "settled C k db db'"
  using perform_effect [OF assms] effect_settled [OF assms(1), of C call db' k] reflpD [OF settled_refl, of C k db]
  by auto

end
