(* ===== verification/Invariant.thy ===== *)
theory Invariant
  imports Lifecycle
begin

text \<open>
  The invariant of a healthy journal and progress of its writes: every row decodes, every row is
  within the bounds reads enforce, every call preserves this, and a call made from the phase it
  expects succeeds when its commit is confirmed.
\<close>

section \<open>Bounds of the rows the journal writes\<close>

lemma row_values_fields: "row_ok t r \<Longrightarrow> row_values r = map (field r) (columns t)"
  by (auto simp: row_ok_def row_wf_def field_def row_index_def list_eq_iff_nth_eq position_nth columns_distinct)

text \<open>
  Texts and integers of a row are short; only the grant and the receipt are long, and together
  they are within the bound of a row.
\<close>

definition column_limit :: "string \<Rightarrow> nat" where
  "column_limit f = (if f = ''signed_authorization_grant'' then 4096
     else if f = ''receipt_bytes'' then PERSISTED_VALUE_BYTES_MAX else 512)"

definition row_small :: "Record \<Rightarrow> bool" where
  "row_small r \<longleftrightarrow> (\<forall>f \<in> set (columns (row_table r)). value_length (field r f) \<le> column_limit f)"

lemma row_small_bounded:
  assumes "row_ok t r" "row_small r"
  shows "row_bounded r"
proof -
  have t: "row_table r = t" using assms(1) by (simp add: row_ok_def)
  have small: "value_length (field r f) \<le> column_limit f" if "f \<in> set (columns t)" for f
    using assms(2) that by (simp add: row_small_def t)
  have "column_limit f \<le> field_limit f" for f
    by (simp add: column_limit_def field_limit_def PERSISTED_VALUE_BYTES_MAX_def)
  then have "value_length (field r f) \<le> field_limit f" if "f \<in> set (columns t)" for f
    using small [OF that] le_trans by blast
  then have "list_all (\<lambda>(v, f). value_length v \<le> field_limit f) (zip (row_values r) (columns (row_table r)))"
    unfolding row_values_fields [OF assms(1)] t by (auto simp: list_all_iff zip_map1 zip_same)
  moreover have "sum_list (map value_length (row_values r)) \<le> sum_list (map column_limit (columns t))"
    unfolding row_values_fields [OF assms(1)] map_map using small by (intro sum_list_mono) simp
  moreover have "sum_list (map column_limit (columns t)) \<le> PERSISTED_ROW_BYTES_MAX"
    by (cases t) (simp_all add: CURRENT_COLUMNS_def GIT_COLUMNS_def column_limit_def PERSISTED_VALUE_BYTES_MAX_def
        PERSISTED_ROW_BYTES_MAX_def)
  ultimately show ?thesis by (simp add: row_bounded_def)
qed

lemma row_small_iff: "row_ok t r \<Longrightarrow> row_small r \<longleftrightarrow> (\<forall>f \<in> set (columns t). value_length (field r f) \<le> column_limit f)"
  by (simp add: row_small_def row_ok_def)

lemma row_small_set_columns:
  assumes "row_ok t r" "writes_to t cvs" "row_small r"
    and "list_all (\<lambda>(f, v). value_length v \<le> column_limit f) cvs"
  shows "row_small (set_columns cvs r)"
  unfolding row_small_iff [OF set_columns_ok(1) [OF assms(1,2)]]
proof
  fix f assume "f \<in> set (columns t)"
  with assms(1,3) have "value_length (field r f) \<le> column_limit f" by (simp add: row_small_iff)
  moreover have "value_length v \<le> column_limit f" if "map_of (rev cvs) f = Some v" for v
    using map_of_SomeD [OF that] assms(4) by (auto simp: list_all_iff)
  ultimately show "value_length (field (set_columns cvs r) f) \<le> column_limit f"
    by (simp add: field_set_columns [OF assms(1,2)] split: option.splits)
qed

lemma decimal_digits_le: "n < 10 ^ k \<Longrightarrow> 0 < k \<Longrightarrow> decimal_digits n \<le> k"
proof (induction k arbitrary: n)
  case (Suc k)
  show ?case
  proof (cases "n < 10")
    case False
    then have "k \<noteq> 0" "n div 10 < 10 ^ k" using Suc.prems by (auto intro!: Nat.gr0I simp: less_mult_imp_div_less)
    with Suc.IH [of "n div 10"] False show ?thesis by (simp add: decimal_digits.simps [of n])
  qed (simp add: decimal_digits.simps [of n])
qed simp

lemma integer_small [simp]: "value_length (Integer i) \<le> 512"
proof -
  have "- (2 ^ 63) \<le> sint i" "sint i < 2 ^ 63"
    using sint_greater_eq [of i] sint_less [of i] by simp_all
  then have "nat (- sint i) < 10 ^ 20" "nat (sint i) < 10 ^ 20" by simp_all
  then have "decimal_digits (nat (- sint i)) \<le> 20" "decimal_digits (nat (sint i)) \<le> 20"
    by (auto intro!: decimal_digits_le)
  then show ?thesis by (simp add: decimal_length_def)
qed


lemma opt_small [simp]:
  "value_length (opt_integer g) \<le> 512" "value_length (opt_integer32 h) \<le> 512"
  "pred_option (ascii_text 128) v \<Longrightarrow> value_length (opt_text v) \<le> 512"
  "pred_option immutable_image_is_valid v \<Longrightarrow> value_length (opt_text v) \<le> 512"
proof -
  show "value_length (opt_integer g) \<le> 512" using integer_small by (cases g) (simp_all del: value_length.simps, simp)
  show "value_length (opt_integer32 h) \<le> 512" using integer_small by (cases h) (simp_all del: value_length.simps, simp)
  show "pred_option (ascii_text 128) v \<Longrightarrow> value_length (opt_text v) \<le> 512"
    by (cases v) (auto simp: ascii_text_def)
  show "pred_option immutable_image_is_valid v \<Longrightarrow> value_length (opt_text v) \<le> 512"
    using immutable_image_ascii by (cases v) (auto simp: ascii_text_def)
qed

lemma small_authorization: "authorization_facts_valid (verified_facts a) \<Longrightarrow>
    list_all (\<lambda>(f, v). value_length v \<le> column_limit f) (authorization_columns a)"
  using identity_ascii [of "ea_authorization_id (va_authorization a)"] identity_ascii [of "va_signer_key_id a"]
  by (simp add: authorization_facts_valid_def verified_facts_def authorization_columns_def column_limit_def ascii_text_def)

lemma small_rejection: "list_all (\<lambda>(f, v). value_length v \<le> column_limit f) (rejection_columns rejection)"
  by (cases rejection) (simp_all add: rejection_columns_def column_limit_def)

lemma small_target: "target_valid t \<Longrightarrow> list_all (\<lambda>(f, v). value_length v \<le> column_limit f) (stale_columns t)"
  "target_valid t \<Longrightarrow> list_all (\<lambda>(f, v). value_length v \<le> column_limit f) (attempt_columns t)"
  using integer_small [of 1]
  by (simp_all add: stale_columns_def attempt_columns_def target_valid_def column_limit_def ascii_text_def)

lemma small_response: "apply_outcome_validate outcome = Inr () \<Longrightarrow>
    list_all (\<lambda>(f, v). value_length v \<le> column_limit f) (response_columns outcome)"
  using integer_small [of 0] integer_small [of 1]
  by (simp add: response_columns_def column_limit_def apply_outcome_validate_iff)

lemma small_observation: "observation_validate ob = Inr () \<Longrightarrow>
    list_all (\<lambda>(f, v). value_length v \<le> column_limit f) (observation_columns ob res g)"
  by (cases res) (simp_all add: observation_columns_def column_limit_def observation_validate_iff)

lemma small_receipt:
  assumes "decode_frozen_receipt (fr_bytes receipt) = Inr (fr_key_id receipt, s)"
    and "receipt_digest_hex C (fr_bytes receipt) = fr_digest receipt" "length (sha256 C (fr_bytes receipt)) = 32"
  shows "list_all (\<lambda>(f, v). value_length v \<le> column_limit f) (receipt_columns receipt)"
proof -
  obtain sig where sig: "fr_bytes receipt = signed_image s (fr_key_id receipt) sig"
    "frozen_statement s" "identity_is_valid (fr_key_id receipt)" "length sig = 64"
    using assms(1) by (auto simp: decode_frozen_receipt_iff)
  then have "length (fr_bytes receipt) \<le> PERSISTED_VALUE_BYTES_MAX"
    using default_limits_admit_receipt [of s "()" "fr_key_id receipt" sig]
    by (simp add: frozen_statement_def limits_admit_receipt_def limits_admit_def signed_image_def default_limits_def
        PERSISTED_VALUE_BYTES_MAX_def RECEIPT_BYTES_MAX_def)
  moreover have "length (fr_digest receipt) = 64"
    using assms(3) by (simp add: assms(2) [symmetric] receipt_digest_hex_def length_concat comp_def sum_list_triv)
  moreover have "length (fr_key_id receipt) \<le> 128"
    using identity_ascii [OF sig(3)] by (simp add: ascii_text_def)
  ultimately show ?thesis by (simp add: receipt_columns_def column_limit_def)
qed

lemma small_requested:
  assumes "authorized_request_valid q"
  shows "row_small (requested_record q)"
proof -
  have empty: "row_small (row_empty k)" if "length k \<le> 128" for k
  proof -
    have "value_length (Integer 0) \<le> 512" by (rule integer_small)
    then show ?thesis
      using that unfolding row_small_iff [OF row_empty_ok(1)] by (auto simp: field_row_empty column_limit_def simp del: value_length.simps(4))
  qed
  note v = assms [unfolded authorized_request_valid_def request_valid_def authorization_facts_valid_def verified_facts_def, simplified]
  have "list_all (\<lambda>(f, v). value_length v \<le> column_limit f) (requested_columns q)"
  proof -
    have "value_length (opt_text (map_option at_uid (ea_approved_target (va_authorization (aq_authorization q))))) \<le> 512"
      "value_length (opt_text (map_option at_resource_version (ea_approved_target (va_authorization (aq_authorization q))))) \<le> 512"
      using v by (cases "ea_approved_target (va_authorization (aq_authorization q))";
        auto simp: approved_target_is_valid_def)+
    then show ?thesis
      using v identity_ascii [of "ea_authorization_id (va_authorization (aq_authorization q))"]
        identity_ascii [of "va_signer_key_id (aq_authorization q)"]
        dns_label_ascii [of "vr_namespace (aq_request q)"] dns_subdomain_ascii [of "vr_deployment (aq_request q)"]
        dns_label_ascii [of "vr_container (aq_request q)"] immutable_image_ascii [of "vr_immutable_image (aq_request q)"]
      by (simp add: requested_columns_def Let_def column_limit_def ascii_text_def SIGNED_GRANT_BYTES_MAX_def)
  qed
  then show ?thesis
    using v identity_ascii [of "vr_operation_id (aq_request q)"] unfolding requested_record_columns
    by (intro row_small_set_columns [OF row_empty_ok(1) writes_known_requested empty]) (simp_all add: ascii_text_def)
qed

lemma row_change_small:
  assumes "row_change C call prev nxt" "call_valid call" "\<And>r. prev = Some r \<Longrightarrow> row_ok Kubernetes r \<and> row_small r"
    and "\<And>bs. length (sha256 C bs) = 32"
  shows "row_small nxt"
  using assms
proof (induction rule: row_change.induct)
  case (1 q)
  then show ?case by (simp add: small_requested)
next
  case (2 r op q)
  then show ?case by (intro row_small_set_columns [where t = Kubernetes] small_authorization) (simp_all add: authorized_request_valid_def)
qed (auto intro!: row_small_set_columns [where t = Kubernetes] small_rejection small_target small_response small_observation small_receipt)

text \<open>
  The invariant of a healthy journal: rows have their shape, every row decodes to a phase and
  every row is within the bounds a read enforces.
\<close>

definition journal_ok :: "crypto \<Rightarrow> Db \<Rightarrow> bool" where
  "journal_ok C db \<longleftrightarrow> db_ok db \<and>
     (\<forall>k r. row_of Kubernetes db k = Some r \<longrightarrow> row_small r \<and> (\<exists>op. decode C r = Inr op))"

lemma effect_journal_ok:
  assumes "journal_ok C db" "call_valid call" "effect C call db db'" "\<And>bs. length (sha256 C bs) = 32"
  shows "journal_ok C db'"
proof -
  have ok: "db_ok db" using assms(1) by (simp add: journal_ok_def)
  from assms(3) obtain nxt where ch: "row_change C call (row_of Kubernetes db (call_id call)) nxt"
    and st: "stored Kubernetes (call_id call) nxt db db'" by (auto simp: effect_def)
  have prev: "\<And>r. row_of Kubernetes db (call_id call) = Some r \<Longrightarrow> row_ok Kubernetes r \<and> row_small r"
    using assms(1) db_row_ok [OF ok] by (auto simp: journal_ok_def)
  have "row_small nxt" using row_change_small [OF ch assms(2) prev assms(4)] by blast
  moreover obtain op where "decode C nxt = Inr op"
    using row_change_lifecycle [OF ch assms(2)] prev by blast
  ultimately show ?thesis
    using assms(1) st by (auto simp: journal_ok_def stored_def split: if_splits)
qed

lemma perform_journal_ok:
  assumes "journal_ok C db" "call_valid call" "perform C d call db = (res, db')" "crypto_ok C"
  shows "journal_ok C db'"
  using perform_effect [OF _ assms(3)] effect_journal_ok [OF assms(1,2)] assms(1,4)
  by (auto simp: journal_ok_def crypto_ok_def)

section \<open>Progress\<close>

lemma journal_row:
  assumes "journal_ok C db" "phase_of C db k = Some op"
  obtains r where "row_of Kubernetes db k = Some r" "row_ok Kubernetes r" "has_id k r" "row_bounded r"
    "decode C r = Inr op" "bound_record C k op db = Inr r"
proof -
  from assms(2) obtain r where r: "row_of Kubernetes db k = Some r" "decode C r = Inr op" by (auto simp: phase_of_iff)
  moreover have "row_ok Kubernetes r \<and> has_id k r"
    using db_row_ok r assms(1) by (auto simp: journal_ok_def)
  moreover have "row_bounded r"
    using row_small_bounded [of Kubernetes r] r assms(1) calculation by (auto simp: journal_ok_def)
  ultimately show thesis using that by (auto simp: bound_record_iff)
qed

lemma bound_write_confirmed:
  assumes ok: "journal_ok C db" and ph: "phase_of C db k = Some op" and known: "writes_known cvs"
    and r: "bound_record C k op db = Inr r" and changes: "set_columns cvs r \<noteq> r"
  shows "\<exists>db'. replace Confirmed (Some r) (set_columns cvs r) db = (Inr (), db') \<and>
    stored Kubernetes k (set_columns cvs r) db db'"
proof -
  have db: "db_ok db" using ok by (simp add: journal_ok_def)
  have row: "row_of Kubernetes db k = Some r" "row_bounded r" using r by (simp_all add: bound_record_iff)
  have nxt: "row_ok Kubernetes (set_columns cvs r)" "has_id k (set_columns cvs r)"
    using db_row_ok [OF db row(1)] set_columns_ok [OF _ known] by auto
  obtain db' where "transaction_body db (Some r) (set_columns cvs r) = Inr db'"
    using row changes by (simp add: transaction_body_update [OF db nxt] eq_commute [of r])
  then have rep: "replace Confirmed (Some r) (set_columns cvs r) db = (Inr (), db')" by (simp add: replace_def)
  from replace_confirmed [OF db nxt rep] rep show ?thesis by blast
qed

lemma state_changes:
  assumes "field (set_columns cvs r) ''state'' \<noteq> field r ''state''"
  shows "set_columns cvs r \<noteq> r"
  using assms by metis

lemma begin_attempt_confirmed:
  assumes ok: "journal_ok C db" and ph: "phase_of C db (azo_operation_id op) = Some (LAuthorized op)"
    and t: "target_valid observed"
    and approved: "rf_approved_target (azo_request op) \<in> {None,
       Some \<lparr>at_uid = vt_deployment_uid observed, at_resource_version = vt_resource_version observed\<rparr>}"
    and fault: "fault \<noteq> Some AttemptCommitAcknowledgementLost"
  shows "\<exists>db'. begin_attempt C Confirmed op observed fault db =
      (Inr (Some \<lparr>dp_request = rf_request (azo_request op), dp_target = observed\<rparr>), db') \<and>
    phase_of C db' (azo_operation_id op) = Some (LApplyStarted (attempted_operation op observed))"
proof -
  obtain r where r: "row_of Kubernetes db (azo_operation_id op) = Some r" "row_ok Kubernetes r"
    "decode C r = Inr (LAuthorized op)" "bound_record C (azo_operation_id op) (LAuthorized op) db = Inr r"
    using journal_row [OF ok ph] by metis
  have "set_columns (attempt_columns observed) r \<noteq> r"
    using decode_state(1) [OF r(3)] state_set_columns(5) [OF r(2)] by (intro state_changes) simp
  from bound_write_confirmed [OF ok ph writes_known(5) r(4) this] obtain db' where
    w: "replace Confirmed (Some r) (set_columns (attempt_columns observed) r) db = (Inr (), db')"
      "stored Kubernetes (azo_operation_id op) (set_columns (attempt_columns observed) r) db db'" by blast
  have "validated_target_try_from \<lparr>ti_deployment_uid = vt_deployment_uid observed,
      ti_resource_version = vt_resource_version observed\<rparr> = Inr observed"
    using t by (simp add: validated_target_iff to_adapter_target_def)
  then have "begin_attempt C Confirmed op observed fault db =
      (Inr (Some \<lparr>dp_request = rf_request (azo_request op), dp_target = observed\<rparr>), db')"
    using approved w(1) r(4) fault
    by (cases "rf_approved_target (azo_request op)")
      (simp_all add: begin_attempt_def mark_apply_started_def advance_row_def abind_def throw_if_def)
  moreover have "phase_of C db' (azo_operation_id op) = Some (LApplyStarted (attempted_operation op observed))"
    using w(2) decode_attempt_row [OF r(2,3) t approved] by (simp add: phase_of_def stored_def)
  ultimately show ?thesis by blast
qed


lemma advance_row_confirmed:
  assumes ok: "journal_ok C db" and ph: "phase_of C db k = Some op" and known: "writes_known cvs"
    and state: "\<And>r. row_ok Kubernetes r \<Longrightarrow> field (set_columns cvs r) ''state'' = Text (state_as_sql st)"
    and differs: "loaded_state op \<noteq> st"
  shows "\<exists>r db'. row_ok Kubernetes r \<and> decode C r = Inr op \<and> advance_row C Confirmed k op cvs db = (Inr (), db') \<and>
    stored Kubernetes k (set_columns cvs r) db db'"
proof -
  obtain r where r: "row_ok Kubernetes r" "decode C r = Inr op" "bound_record C k op db = Inr r"
    using journal_row [OF ok ph] by metis
  have "set_columns cvs r \<noteq> r"
    using decode_state(1) [OF r(2)] state [OF r(1)] differs by (intro state_changes) simp
  from bound_write_confirmed [OF ok ph known r(3) this] r show ?thesis
    by (auto simp: advance_row_def abind_def)
qed

lemma stored_phase: "stored Kubernetes k nxt db db' \<Longrightarrow> decode C nxt = Inr op \<Longrightarrow> phase_of C db' k = Some op"
  by (simp add: phase_of_def stored_def)

lemma mark_authorized_confirmed:
  assumes ok: "journal_ok C db" and ph: "phase_of C db (vr_operation_id (rf_request facts)) = Some (LRequested facts)"
    and q: "rf_request facts = aq_request q" "authorized_request_valid q"
      "existing_submission C q db = Inr (Some Requested)"
  shows "\<exists>db'. mark_authorized C Confirmed facts q db = (Inr (), db') \<and>
    phase_of C db' (vr_operation_id (rf_request facts)) =
      Some (LAuthorized \<lparr>azo_request = facts, azo_authorization = verified_facts (aq_authorization q)\<rparr>)"
proof -
  obtain r db' where r: "row_ok Kubernetes r" "decode C r = Inr (LRequested facts)"
    "advance_row C Confirmed (vr_operation_id (rf_request facts)) (LRequested facts)
       (authorization_columns (aq_authorization q)) db = (Inr (), db')"
    "stored Kubernetes (vr_operation_id (rf_request facts)) (set_columns (authorization_columns (aq_authorization q)) r) db db'"
    using advance_row_confirmed [OF ok ph, where cvs = "authorization_columns (aq_authorization q)" and st = Authorized]
    by (auto simp: state_set_columns)
  with q stored_phase [OF r(4) decode_authorization_row [OF r(1,2)]] show ?thesis
    by (simp add: mark_authorized_def abind_def authorized_request_valid_def)
qed

lemma record_apply_outcome_confirmed:
  assumes ok: "journal_ok C db" and ph: "phase_of C db (aso_operation_id op) = Some (LApplyStarted op)"
    and fresh: "att_response (aso_attempt op) = None"
    and out: "apply_outcome_validate outcome = Inr ()" "ao_resource_version outcome \<noteq> None"
      "ao_deployment_uid outcome = Some (vt_deployment_uid (att_target (aso_attempt op)))"
  shows "\<exists>db'. record_apply_outcome C Confirmed op outcome db = (Inr (), db') \<and>
    phase_of C db' (aso_operation_id op) = Some (LApplyStarted (answered_operation op outcome))"
proof -
  obtain r where r: "row_ok Kubernetes r" "decode C r = Inr (LApplyStarted op)"
    "bound_record C (aso_operation_id op) (LApplyStarted op) db = Inr r"
    using journal_row [OF ok ph] by metis
  obtain sn p where sn: "snapshot_row r = Inr sn" and facts: "snapshot_facts C sn None p"
     "phase_selected p sn None (LApplyStarted op)" using early_facts [OF r(2)] by auto
  have uid: "row_get (optional from_text) r ''target_uid'' = Inr (Some (vt_deployment_uid (att_target (aso_attempt op))))"
    using sn started_facts(10) [OF facts] by (simp add: snapshot_row_iff)
  have "field r ''apply_accepted'' = Null"
  proof -
    have "pf_accepted p = None"
      using facts fresh by (simp add: snapshot_facts_def select_phase_iffs attempt_facts_iff)
    with facts(1) have "sn_apply_accepted sn = None"
      by (cases "sn_apply_accepted sn") (simp_all add: snapshot_facts_def rbind_eq_Inr)
    with sn show ?thesis by (simp add: snapshot_row_iff)
  qed
  moreover have "field (set_columns (response_columns outcome) r) ''apply_accepted'' = Integer (if ao_accepted outcome then 1 else 0)"
    unfolding set_columns_fields(6) [OF r(1)] by (simp add: response_columns_def)
  ultimately have "set_columns (response_columns outcome) r \<noteq> r" by auto
  from bound_write_confirmed [OF ok ph writes_known(6) r(3) this] obtain db' where
    w: "replace Confirmed (Some r) (set_columns (response_columns outcome) r) db = (Inr (), db')"
      "stored Kubernetes (aso_operation_id op) (set_columns (response_columns outcome) r) db db'" by blast
  have "record_apply_outcome C Confirmed op outcome db = (Inr (), db')"
    using out uid r(3) w(1) by (simp add: record_apply_outcome_def abind_def del: row_get_iff)
  with stored_phase [OF w(2) decode_response_row [OF r(1,2) out(1,2)]] show ?thesis by blast
qed

lemma freeze_observation_confirmed:
  assumes ok: "journal_ok C db" and ph: "phase_of C db (aso_operation_id op) = Some (LApplyStarted op)"
    and ob: "observation_validate observation = Inr ()"
  shows "\<exists>db'. freeze_observation C Confirmed op observation db = (Inr (), db') \<and>
    phase_of C db' (aso_operation_id op) = Some (LReceiverObserved (observed_operation op observation))"
proof -
  let ?q = "rf_request (azo_request (aso_authorized op))"
  let ?cvs = "observation_columns observation (classify observation ?q (classification_outcome op))
    (requested_generation observation ?q (classification_outcome op))"
  obtain r db' where r: "row_ok Kubernetes r" "decode C r = Inr (LApplyStarted op)"
    "advance_row C Confirmed (aso_operation_id op) (LApplyStarted op) ?cvs db = (Inr (), db')"
    "stored Kubernetes (aso_operation_id op) (set_columns ?cvs r) db db'"
    using advance_row_confirmed [OF ok ph, where cvs = ?cvs and st = ReceiverObserved]
    by (auto simp: state_set_columns)
  with ob stored_phase [OF r(4) decode_observation_row [OF r(1,2) ob]] show ?thesis
    by (simp add: freeze_observation_def abind_def Let_def)
qed

lemma commit_receipt_confirmed:
  assumes ok: "journal_ok C db" and ph: "phase_of C db (obo_operation_id op) = Some (LReceiverObserved op)"
    and receipt: "decode_frozen_receipt (fr_bytes receipt) = Inr (fr_key_id receipt, obo_statement op)"
      "receipt_digest_hex C (fr_bytes receipt) = fr_digest receipt" "fr_operation_id receipt = obo_operation_id op"
  shows "\<exists>db'. commit_receipt C Confirmed op receipt db = (Inr (), db') \<and>
    phase_of C db' (obo_operation_id op) = Some (LFinalized op receipt)"
proof -
  obtain r where r: "row_ok Kubernetes r" "decode C r = Inr (LReceiverObserved op)"
    "bound_record C (obo_operation_id op) (LReceiverObserved op) db = Inr r"
    using journal_row [OF ok ph] by metis
  have "set_columns (receipt_columns receipt) r \<noteq> r"
    using decode_state(1) [OF r(2)] state_set_columns(2) [OF r(1)] by (intro state_changes) simp
  from bound_write_confirmed [OF ok ph writes_known(2) r(3) this] obtain db' where
    w: "replace Confirmed (Some r) (set_columns (receipt_columns receipt) r) db = (Inr (), db')"
      "stored Kubernetes (obo_operation_id op) (set_columns (receipt_columns receipt) r) db db'" by blast
  have "commit_receipt C Confirmed op receipt db = (Inr (), db')"
    using receipt r(3) w(1) by (simp add: commit_receipt_def abind_def)
  with stored_phase [OF w(2) decode_receipt_row [OF r(1,2) receipt]] show ?thesis by blast
qed

lemma insert_requested_confirmed:
  assumes ok: "journal_ok C db" and free: "row_of Kubernetes db (vr_operation_id (aq_request q)) = None"
      "row_of Git db (vr_operation_id (aq_request q)) = None"
    and cap: "require_admission db = Inr ()" and q: "authorized_request_valid q"
  shows "\<exists>db'. insert_requested Confirmed q db = (Inr (), db') \<and>
    phase_of C db' (vr_operation_id (aq_request q)) = Some (LRequested (admitted_facts q))"
proof -
  have nxt: "row_ok Kubernetes (requested_record q)" "has_id (vr_operation_id (aq_request q)) (requested_record q)"
    using set_columns_ok [OF row_empty_ok(1) writes_known_requested] row_empty_ok(2)
    by (simp_all add: requested_record_columns)
  have db: "db_ok db" using ok by (simp add: journal_ok_def)
  obtain db' where "transaction_body db None (requested_record q) = Inr db'"
    using transaction_body_insert [OF nxt] free cap by fastforce
  then have rep: "insert_requested Confirmed q db = (Inr (), db')" by (simp add: insert_requested_def replace_def)
  then have "stored Kubernetes (vr_operation_id (aq_request q)) (requested_record q) db db'"
    using replace_confirmed [OF db nxt] by (simp add: insert_requested_def)
  with rep stored_phase [OF _ decode_requested_record [OF q]] show ?thesis by blast
qed


section \<open>Properties\<close>

abbreviation journal_step :: "crypto \<Rightarrow> Delivery \<times> Call \<Rightarrow> (Db, GatewayError, DispatchPermission option) action" where
  "journal_step C \<equiv> \<lambda>(d, call). perform C d call"

text \<open>
  At most one dispatch permission per operation: over any sequence of journal calls, in any
  order, with any arguments and whatever becomes of each commit (not committed, confirmed, or
  committed with its acknowledgement lost), the permissions handed out for one operation
  identity are at most one.
\<close>

theorem dispatch_at_most_once:
  assumes "db_ok db"
  shows "length (filter (\<lambda>p. vr_operation_id (dp_request p) = ident) (fst (run_calls (journal_step C) calls db))) \<le> 1"
  using jd.run_permissions [OF assms, of ident C calls] by (simp split: if_splits)

text \<open>
  C9. A permission is durable and exact: when a call returns one, the journal already holds the
  attempt for that operation with no response recorded, under exactly the target and the request
  of the permission, and if the owner approved a snapshot of the target, it is this one.
\<close>

theorem permission_is_durable_and_exact:
  assumes "db_ok db" "call_valid call" "perform C d call db = (Inr (Some p), db')"
  shows "\<exists>op. phase_of C db' (vr_operation_id (dp_request p)) = Some (LApplyStarted op) \<and>
    aso_attempt op = \<lparr>att_target = dp_target p, att_response = None\<rparr> \<and>
    rf_request (azo_request (aso_authorized op)) = dp_request p \<and>
    rf_approved_target (azo_request (aso_authorized op)) \<in> {None,
      Some \<lparr>at_uid = vt_deployment_uid (dp_target p), at_resource_version = vt_resource_version (dp_target p)\<rparr>}"
proof -
  from perform_effect [OF assms(1,3)] obtain op observed fault where
    call: "call = BeginAttempt op observed fault" and p: "permitted C op observed db db' p" by blast
  from p obtain r where r: "row_of Kubernetes db (azo_operation_id op) = Some r" "decode C r = Inr (LAuthorized op)"
    "stored Kubernetes (azo_operation_id op) (set_columns (attempt_columns observed) r) db db'"
    by (auto simp: permitted_def)
  have "decode C (set_columns (attempt_columns observed) r) = Inr (LApplyStarted (attempted_operation op observed))"
    using decode_attempt_row [of r C op observed] r p db_row_ok [OF assms(1)] assms(2) call by (auto simp: permitted_def)
  with stored_phase [OF r(3)] p show ?thesis
    by (intro exI [of _ "attempted_operation op observed"]) (auto simp: permitted_def attempted_operation_def)
qed

text \<open>
  C10. The journal refines the lifecycle: a call on valid arguments either leaves the database as it
  was or makes one step of the lifecycle on the typed phase of its own operation. All other rows
  of both tables stay as they were.
\<close>

theorem journal_refines_lifecycle:
  assumes "db_ok db" "call_valid call" "perform C d call db = (res, db')"
  shows "db' = db \<or>
    (lifecycle (phase_of C db (call_id call)) (phase_of C db' (call_id call)) \<and>
     (\<forall>k. k \<noteq> call_id call \<longrightarrow> row_of Kubernetes db' k = row_of Kubernetes db k) \<and>
     row_of Git db' = row_of Git db)"
  using perform_effect [OF assms(1,3)] effect_lifecycle [OF assms(1,2)] by blast

text \<open>
  History is settled: no sequence of journal calls changes any column of a row that is terminal
  (finalized or not attempted), and once receiver facts are frozen, the statement that the row's
  phase carries stays the same for ever.
\<close>

theorem settled_history:
  assumes "db_ok db" "phase_of C db ident = Some op"
  shows "(loaded_state op \<in> {NotAttempted, Finalized} \<longrightarrow>
      row_of Kubernetes (snd (run_calls (journal_step C) calls db)) ident = row_of Kubernetes db ident) \<and>
    (loaded_statement op = Some statement \<longrightarrow>
      (\<exists>op'. phase_of C (snd (run_calls (journal_step C) calls db)) ident = Some op' \<and>
        loaded_statement op' = Some statement))"
proof -
  have step: "settled C ident s s'" if "db_ok s" "journal_step C c s = (r, s')" for s c r s'
    using perform_settled [OF that(1), of C "fst c" "snd c" r s' ident] that(2) by (cases c) simp
  have "settled C ident db (snd (run_calls (journal_step C) calls db))"
    by (rule jd.run_related [OF assms(1) settled_refl settled_trans]) (rule step)
  with assms(2) show ?thesis unfolding settled_def by blast
qed

subsection \<open>Witnesses\<close>

definition example_authorized :: AuthorizedRequest where
  "example_authorized =
     \<lparr>aq_request = \<lparr>vr_operation_id = ''op-1'', vr_namespace = ''prod'', vr_deployment = ''web'', vr_container = ''app'',
        vr_immutable_image = ''r/a@sha256:'' @ replicate 64 (CHR ''a'')\<rparr>,
      aq_authorization = \<lparr>va_authorization = \<lparr>ea_approved_target = Some \<lparr>at_uid = ''uid-1'', at_resource_version = ''7''\<rparr>,
         ea_authorization_id = ''auth-1'', ea_operation_id = ''op-1'', ea_namespace = ''prod'', ea_deployment = ''web'',
         ea_container = ''app'', ea_immutable_image_digest = ''r/a@sha256:'' @ replicate 64 (CHR ''a'')\<rparr>,
        va_signer_key_id = ''owner'', va_grant_digest = replicate 64 (CHR ''b''), va_signed_grant = [1, 2, 3]\<rparr>\<rparr>"

lemma example_authorized_valid: "authorized_request_valid example_authorized"
proof -
  have "request_valid (aq_request example_authorized)"
    "authorization_facts_valid (verified_facts (aq_authorization example_authorized))" by code_simp+
  moreover have "approved_target_is_valid \<lparr>at_uid = ''uid-1'', at_resource_version = ''7''\<rparr>" by code_simp
  ultimately show ?thesis
    by (simp add: authorized_request_valid_def) (simp add: example_authorized_def SIGNED_GRANT_BYTES_MAX_def)
qed

definition example_target :: ValidatedTargetIdentity where
  "example_target = \<lparr>vt_deployment_uid = ''uid-1'', vt_resource_version = ''7''\<rparr>"

definition example_operation :: AuthorizedOperation where
  "example_operation = \<lparr>azo_request = admitted_facts example_authorized,
     azo_authorization = verified_facts (aq_authorization example_authorized)\<rparr>"

definition example_calls :: "(Delivery \<times> Call) list" where
  "example_calls =
     [(Confirmed, InsertRequested example_authorized),
      (Confirmed, MarkAuthorized (admitted_facts example_authorized) example_authorized),
      (Confirmed, BeginAttempt example_operation example_target None),
      (Confirmed, BeginAttempt example_operation example_target None)]"

definition example_journal_row :: Record where
  "example_journal_row = set_columns (authorization_columns (aq_authorization example_authorized)) (requested_record example_authorized)"

definition example_journal :: Db where
  "example_journal = \<lparr>kubernetes_rows = [example_journal_row], git_rows = []\<rparr>"

lemma example_journal_row_ok:
  "row_ok Kubernetes example_journal_row" "has_id ''op-1'' example_journal_row" "row_small example_journal_row"
  "decode C example_journal_row = Inr (LAuthorized example_operation)"
proof -
  have r: "row_ok Kubernetes (requested_record example_authorized)" "has_id ''op-1'' (requested_record example_authorized)"
    using set_columns_ok [OF row_empty_ok(1) writes_known_requested] row_empty_ok(2)
    by (simp_all add: requested_record_columns example_authorized_def)
  have v: "authorization_facts_valid (verified_facts (aq_authorization example_authorized))"
    using example_authorized_valid by (simp add: authorized_request_valid_def)
  show "row_ok Kubernetes example_journal_row" "has_id ''op-1'' example_journal_row"
    using set_columns_ok [OF r(1) writes_known(1)] r by (simp_all add: example_journal_row_def)
  show "row_small example_journal_row"
    unfolding example_journal_row_def
    by (rule row_small_set_columns [OF r(1) writes_known(1) small_requested [OF example_authorized_valid] small_authorization [OF v]])
  show "decode C example_journal_row = Inr (LAuthorized example_operation)"
    unfolding example_journal_row_def example_operation_def
    by (intro decode_authorization_row r(1) decode_requested_record example_authorized_valid v)
qed

lemma example_journal_ok: "journal_ok C example_journal" "db_ok example_journal"
  "phase_of C example_journal ''op-1'' = Some (LAuthorized example_operation)"
proof -
  show db: "db_ok example_journal"
    using example_journal_row_ok(1) by (simp add: db_ok_def table_ok_def id_exists_def example_journal_def)
  have row: "row_of Kubernetes example_journal k = (if k = ''op-1'' then Some example_journal_row else None)" for k
    using has_id_unique [OF example_journal_row_ok(2)] by (simp add: row_of_def example_journal_def)
  then show "journal_ok C example_journal"
    using db example_journal_row_ok by (auto simp: journal_ok_def split: if_splits)
  show "phase_of C example_journal ''op-1'' = Some (LAuthorized example_operation)"
    by (simp add: phase_of_def row example_journal_row_ok(4))
qed

definition example_permission :: DispatchPermission where
  "example_permission = \<lparr>dp_request = aq_request example_authorized, dp_target = example_target\<rparr>"

lemma example_target_valid: "target_valid example_target"
  by code_simp

lemma example_operation_id: "azo_operation_id example_operation = ''op-1''"
  by (simp add: example_operation_def admitted_facts_def example_authorized_def)

lemma example_begin:
  "\<exists>db'. perform C Confirmed (BeginAttempt example_operation example_target None) example_journal =
     (Inr (Some example_permission), db') \<and>
     phase_of C db' ''op-1'' = Some (LApplyStarted (attempted_operation example_operation example_target))"
proof -
  have "rf_approved_target (azo_request example_operation) \<in> {None,
       Some \<lparr>at_uid = vt_deployment_uid example_target, at_resource_version = vt_resource_version example_target\<rparr>}"
    by (simp add: example_operation_def admitted_facts_def example_authorized_def example_target_def)
  from begin_attempt_confirmed [OF example_journal_ok(1) _ example_target_valid this, of C None]
  show ?thesis
    using example_journal_ok(3) unfolding example_operation_id
    by (simp add: example_permission_def) (simp add: example_operation_def admitted_facts_def)
qed

theorem dispatch_at_most_once_witness:
  "length (filter (\<lambda>p. vr_operation_id (dp_request p) = ''op-1'')
     (fst (run_calls (journal_step example_crypto)
       [(Confirmed, BeginAttempt example_operation example_target None),
        (LostAcknowledgement, BeginAttempt example_operation example_target None)] example_journal))) \<le> 1"
  by (rule dispatch_at_most_once [OF example_journal_ok(2)])

theorem permission_is_durable_and_exact_witness:
  "\<exists>db' op. perform example_crypto Confirmed (BeginAttempt example_operation example_target None) example_journal =
      (Inr (Some example_permission), db') \<and>
    phase_of example_crypto db' ''op-1'' = Some (LApplyStarted op) \<and>
    aso_attempt op = \<lparr>att_target = example_target, att_response = None\<rparr>"
proof -
  obtain db' where p: "perform example_crypto Confirmed (BeginAttempt example_operation example_target None) example_journal =
      (Inr (Some example_permission), db')"
    using example_begin by blast
  have "vr_operation_id (dp_request example_permission) = ''op-1''" "dp_target example_permission = example_target"
    by (simp_all add: example_permission_def example_authorized_def)
  with permission_is_durable_and_exact [OF example_journal_ok(2) _ p] example_target_valid p show ?thesis by auto
qed

theorem journal_refines_lifecycle_witness:
  "\<exists>db'. perform example_crypto Confirmed (BeginAttempt example_operation example_target None) example_journal =
      (Inr (Some example_permission), db') \<and>
    lifecycle (phase_of example_crypto example_journal ''op-1'') (phase_of example_crypto db' ''op-1'')"
proof -
  obtain db' where p: "perform example_crypto Confirmed (BeginAttempt example_operation example_target None) example_journal =
      (Inr (Some example_permission), db')"
    and ph: "phase_of example_crypto db' ''op-1'' = Some (LApplyStarted (attempted_operation example_operation example_target))"
    using example_begin by blast
  have "db' \<noteq> example_journal"
    using ph example_journal_ok(3) [of example_crypto] by auto
  with journal_refines_lifecycle [OF example_journal_ok(2) _ p] example_target_valid p show ?thesis
    by (auto simp: example_operation_id)
qed

definition example_rejected :: Db where
  "example_rejected = \<lparr>kubernetes_rows = [set_columns (rejection_columns DeploymentNotFound) example_journal_row],
     git_rows = []\<rparr>"

theorem settled_history_witness:
  "row_of Kubernetes (snd (run_calls (journal_step example_crypto) example_calls example_rejected)) ''op-1'' =
    Some (set_columns (rejection_columns DeploymentNotFound) example_journal_row)"
proof -
  let ?r = "set_columns (rejection_columns DeploymentNotFound) example_journal_row"
  have r: "row_ok Kubernetes ?r" "has_id ''op-1'' ?r"
    using set_columns_ok [OF example_journal_row_ok(1) writes_known(3)] example_journal_row_ok(2) by simp_all
  have db: "db_ok example_rejected"
    using r(1) by (simp add: db_ok_def table_ok_def id_exists_def example_rejected_def)
  have row: "row_of Kubernetes example_rejected ''op-1'' = Some ?r"
    using r(2) by (simp add: row_of_def example_rejected_def)
  have "phase_of example_crypto example_rejected ''op-1'' = Some (LNotAttempted example_operation DeploymentNotFound)"
    using decode_rejection_row [OF example_journal_row_ok(1,4)] by (simp add: phase_of_def row)
  from settled_history [OF db this, of example_calls] row show ?thesis by simp
qed

end
