(* ===== verification/Capacity.thy ===== *)
theory Capacity
  imports Invariant
begin

text \<open>
  The capacity of the journal, \<open>src/gateway/journal/capacity.rs\<close>: the checks made when a database
  is opened (retained counts, live pages, and the walk over the pages SQLite reports), and the
  counts that admission keeps. What \<open>PRAGMA page_count\<close>, \<open>PRAGMA freelist_count\<close> and \<open>dbstat\<close> answer
  is the argument \<open>PageFacts\<close>.
\<close>

section \<open>Checks on opening\<close>

definition INDEX_PAYLOAD_BYTES_MAX :: nat where
  "INDEX_PAYLOAD_BYTES_MAX = PERSISTED_VALUE_BYTES_MAX + 8 + 5"

definition LIVE_PAGES_PER_IDENTITY :: int where
  "LIVE_PAGES_PER_IDENTITY = 23"

definition LIVE_FIXED_PAGES :: int where
  "LIVE_FIXED_PAGES = 76"

definition TREE_DEPTH_MAX :: nat where
  "TREE_DEPTH_MAX = 20"

record PageRow =
  pg_name :: string
  pg_path :: string
  pg_number :: int
  pg_kind :: string
  pg_cells :: int
  pg_payload :: int

record PageFacts =
  pf_page_count :: int
  pf_freelist_count :: int
  pf_rows :: "PageRow list"

record PageWalk =
  pw_seen :: int
  pw_roots :: "int list"
  pw_cells :: "int list"

definition tree_index :: "string \<Rightarrow> (GatewayError, nat) result" where
  "tree_index name =
     (if name = ''kubernetes_image_operations'' then Inr 0
      else if name = ''sqlite_autoindex_kubernetes_image_operations_1'' then Inr 1
      else if name = ''git_ref_operations'' then Inr 2
      else if name = ''sqlite_autoindex_git_ref_operations_1'' then Inr 3
      else if name = ''sqlite_schema'' then Inr 4
      else Inl InvalidPersistedState)"

definition path_depth :: "string \<Rightarrow> nat" where
  "path_depth path = length (filter (\<lambda>c. c = CHR ''/'') path)"

text \<open>
  One row of the walk: the checks of the loop body, then the counters it advances. The counters
  are unbounded here and \<open>i64\<close> in the code; \<open>tree_cells_fit\<close> below bounds them for the answers SQLite
  can give, a cell count being a 16-bit field of the page header.
\<close>

definition page_step :: "int \<Rightarrow> int list \<Rightarrow> PageRow \<Rightarrow> PageWalk \<Rightarrow> (GatewayError, PageWalk) result" where
  "page_step database_pages expected_cells row walk =
     rbind (tree_index (pg_name row)) (\<lambda>index.
     let walk = walk\<lparr>pw_seen := pw_seen walk + 1\<rparr> in
     if pw_seen walk > database_pages \<or> \<not> (1 \<le> pg_number row \<and> pg_number row \<le> database_pages)
        \<or> pg_cells row < 0 \<or> pg_payload row < 0 then Inl InvalidPersistedState
     else if pg_kind row = ''overflow'' then
       (if pg_cells row \<noteq> 0 \<or> pg_payload row \<noteq> 0 then Inl InvalidPersistedState else Inr walk)
     else
       let is_root = pg_path row = ''/'';
           walk = walk\<lparr>pw_roots := (pw_roots walk)[index := pw_roots walk ! index + (if is_root then 1 else 0)]\<rparr>;
           allows_empty_root = is_root \<and>
             ((pg_kind row = ''leaf'' \<and> index \<noteq> 4 \<and> expected_cells ! index = 0)
              \<or> (pg_kind row = ''internal'' \<and> index = 4 \<and> pg_number row = 1));
           payload_limit_bytes = (if index = 1 \<or> index = 3 then int INDEX_PAYLOAD_BYTES_MAX
             else int PERSISTED_ROW_BYTES_MAX) in
       if pg_kind row \<notin> {''leaf'', ''internal''} \<or> (pg_cells row = 0 \<and> \<not> allows_empty_root)
          \<or> path_depth (pg_path row) > TREE_DEPTH_MAX \<or> pg_payload row > payload_limit_bytes
       then Inl InvalidPersistedState
       else Inr (if index = 1 \<or> index = 3 \<or> pg_kind row = ''leaf''
         then walk\<lparr>pw_cells := (pw_cells walk)[index := pw_cells walk ! index + pg_cells row]\<rparr>
         else walk))"

definition require_physical_bounds :: "Db \<Rightarrow> PageFacts \<Rightarrow> int \<Rightarrow> int \<Rightarrow> int \<Rightarrow> (GatewayError, unit) result" where
  "require_physical_bounds db facts retained_identities database_pages live_pages =
     (let kubernetes_identities = int (length (kubernetes_rows db));
          git_identities = int (length (git_rows db)) in
      if kubernetes_identities + git_identities \<noteq> retained_identities then Inl InvalidPersistedState
      else
        let expected_cells = [kubernetes_identities, kubernetes_identities, git_identities, git_identities, 4] in
        rbind (try_fold (page_step database_pages expected_cells) (pf_rows facts)
            \<lparr>pw_seen = 0, pw_roots = replicate 5 0, pw_cells = replicate 5 0\<rparr>) (\<lambda>walk.
        if pw_roots walk \<noteq> replicate 5 1 \<or> pw_cells walk \<noteq> expected_cells \<or> pw_seen walk \<noteq> live_pages
        then Inl InvalidPersistedState else Inr ()))"

definition require_retained_bounds :: "Db \<Rightarrow> PageFacts \<Rightarrow> (GatewayError, unit) result" where
  "require_retained_bounds db facts =
     (let (retained_identities, unfinished_identities) = counts db in
      if retained_identities > IDENTITY_CAPACITY \<or> unfinished_identities > UNFINISHED_CAPACITY
      then Inl InvalidPersistedState
      else
        let database_pages = pf_page_count facts; live_pages = database_pages - pf_freelist_count facts in
        if \<not> (- (2 ^ 63) \<le> live_pages \<and> live_pages < 2 ^ 63) then Inl InvalidPersistedState
        else if live_pages < 0 \<or> live_pages > LIVE_PAGES_PER_IDENTITY * retained_identities + LIVE_FIXED_PAGES
           \<or> database_pages > DATABASE_PAGES
        then Inl InvalidPersistedState
        else require_physical_bounds db facts retained_identities database_pages live_pages)"

section \<open>What an accepted layout is\<close>

text \<open>A page the walk accepts in tree \<open>index\<close>, said without the counters.\<close>

definition page_fits :: "int \<Rightarrow> int list \<Rightarrow> nat \<Rightarrow> PageRow \<Rightarrow> bool" where
  "page_fits database_pages expected_cells index row \<longleftrightarrow>
     1 \<le> pg_number row \<and> pg_number row \<le> database_pages \<and> 0 \<le> pg_cells row \<and> 0 \<le> pg_payload row \<and>
     (if pg_kind row = ''overflow'' then pg_cells row = 0 \<and> pg_payload row = 0
      else pg_kind row \<in> {''leaf'', ''internal''} \<and> path_depth (pg_path row) \<le> TREE_DEPTH_MAX \<and>
        pg_payload row \<le> int (if index \<in> {1, 3} then INDEX_PAYLOAD_BYTES_MAX else PERSISTED_ROW_BYTES_MAX) \<and>
        (pg_cells row = 0 \<longrightarrow> pg_path row = ''/'' \<and>
          (if index = 4 then pg_kind row = ''internal'' \<and> pg_number row = 1
           else pg_kind row = ''leaf'' \<and> expected_cells ! index = 0)))"

definition in_tree :: "nat \<Rightarrow> PageRow \<Rightarrow> bool" where
  "in_tree index row \<longleftrightarrow> tree_index (pg_name row) = Inr index"

definition tree_roots :: "PageRow list \<Rightarrow> nat \<Rightarrow> int" where
  "tree_roots rows index =
     int (length (filter (\<lambda>row. in_tree index row \<and> pg_kind row \<noteq> ''overflow'' \<and> pg_path row = ''/'') rows))"

definition tree_cells :: "PageRow list \<Rightarrow> nat \<Rightarrow> int" where
  "tree_cells rows index = sum_list (map pg_cells (filter (\<lambda>row. in_tree index row \<and> pg_kind row \<noteq> ''overflow'' \<and>
     (index \<in> {1, 3} \<or> pg_kind row = ''leaf'')) rows))"

lemma tree_cells_fit:
  assumes "list_all (\<lambda>row. 0 \<le> pg_cells row \<and> pg_cells row < 2 ^ 16) rows" "int (length rows) \<le> DATABASE_PAGES"
  shows "0 \<le> tree_cells (take n rows) i \<and> tree_cells (take n rows) i < 2 ^ 63"
proof -
  have sum: "0 \<le> sum_list (map pg_cells rs) \<and> sum_list (map pg_cells rs) \<le> 2 ^ 16 * int (length rs)"
    if "list_all (\<lambda>row. 0 \<le> pg_cells row \<and> pg_cells row < 2 ^ 16) rs" for rs
    using that by (induction rs) auto
  let ?seen = "filter (\<lambda>row. in_tree i row \<and> pg_kind row \<noteq> ''overflow'' \<and> (i \<in> {1, 3} \<or> pg_kind row = ''leaf'')) (take n rows)"
  have "list_all (\<lambda>row. 0 \<le> pg_cells row \<and> pg_cells row < 2 ^ 16) ?seen"
    using assms(1) by (auto simp: list_all_iff dest: in_set_takeD)
  from sum [OF this] have "0 \<le> tree_cells (take n rows) i \<and> tree_cells (take n rows) i \<le> 2 ^ 16 * int (length ?seen)"
    unfolding tree_cells_def .
  moreover have "length ?seen \<le> length rows"
    by (rule le_trans [OF length_filter_le]) simp
  then have "2 ^ 16 * int (length ?seen) \<le> 2 ^ 16 * 16384"
    using assms(2) by (simp add: DATABASE_PAGES_def)
  ultimately show ?thesis by simp
qed

lemma tree_index_less: "tree_index name = Inr i \<Longrightarrow> i < 5"
  by (auto simp: tree_index_def split: if_splits)

definition walked :: "PageRow list \<Rightarrow> PageWalk \<Rightarrow> PageWalk" where
  "walked rows walk = \<lparr>pw_seen = pw_seen walk + int (length rows),
     pw_roots = map (\<lambda>i. pw_roots walk ! i + tree_roots rows i) [0 ..< 5],
     pw_cells = map (\<lambda>i. pw_cells walk ! i + tree_cells rows i) [0 ..< 5]\<rparr>"

lemma list_bump:
  assumes "length xs = 5" "i < 5"
  shows "xs[i := xs ! i + (n::int)] = map (\<lambda>j. xs ! j + (if j = i then n else 0)) [0 ..< 5]"
  using assms by (intro nth_equalityI) auto

lemma list_five [simp]: "length xs = 5 \<Longrightarrow> map ((!) xs) [0 ..< 5] = xs"
  using map_nth [of xs] by simp

lemma page_step_iff:
  assumes "length (pw_roots walk) = 5" "length (pw_cells walk) = 5"
  shows "page_step pages expected row walk = Inr walk' \<longleftrightarrow>
    pw_seen walk + 1 \<le> pages \<and> (\<exists>i. in_tree i row \<and> page_fits pages expected i row) \<and> walk' = walked [row] walk"
proof (cases "tree_index (pg_name row)")
  case (Inl e)
  then show ?thesis by (simp add: page_step_def in_tree_def)
next
  case (Inr i)
  have i: "i < 5" using tree_index_less [OF Inr] .
  have roots: "tree_roots [row] j = (if j = i \<and> pg_kind row \<noteq> ''overflow'' \<and> pg_path row = ''/'' then 1 else 0)"
    and cells: "tree_cells [row] j = (if j = i \<and> pg_kind row \<noteq> ''overflow'' \<and> (i \<in> {1, 3} \<or> pg_kind row = ''leaf'')
      then pg_cells row else 0)" for j
    using Inr by (auto simp: tree_roots_def tree_cells_def in_tree_def)
  have walked_row: "walked [row] walk = \<lparr>pw_seen = pw_seen walk + 1,
      pw_roots = (if pg_kind row = ''overflow'' then pw_roots walk
        else (pw_roots walk)[i := pw_roots walk ! i + (if pg_path row = ''/'' then 1 else 0)]),
      pw_cells = (if pg_kind row = ''overflow'' \<or> \<not> (i \<in> {1, 3} \<or> pg_kind row = ''leaf'') then pw_cells walk
        else (pw_cells walk)[i := pw_cells walk ! i + pg_cells row])\<rparr>"
    using assms i
    by (auto simp: walked_def roots cells list_bump intro!: nth_equalityI)
  have tree: "(\<exists>k. in_tree k row \<and> page_fits pages expected k row) \<longleftrightarrow> page_fits pages expected i row"
    using Inr by (auto simp: in_tree_def)
  show ?thesis
  proof (cases "pg_kind row = ''overflow''")
    case True
    then show ?thesis
      unfolding tree walked_row by (cases walk) (auto simp: page_step_def Inr page_fits_def Let_def)
  next
    case False
    then show ?thesis
      unfolding tree walked_row
      by (cases "pg_kind row = ''leaf''"; cases "i = 4"; cases "i = 1 \<or> i = 3"; cases "pg_path row = ''/''")
        (cases walk, auto simp: page_step_def Inr page_fits_def Let_def)+
  qed
qed

lemma walked_Cons:
  assumes "length (pw_roots walk) = 5" "length (pw_cells walk) = 5"
  shows "walked rows (walked [row] walk) = walked (row # rows) walk"
  using assms by (auto simp: walked_def tree_roots_def tree_cells_def)

lemma walk_iff:
  assumes "length (pw_roots walk) = 5" "length (pw_cells walk) = 5" "pw_seen walk \<le> pages"
  shows "try_fold (page_step pages expected) rows walk = Inr walk' \<longleftrightarrow>
    pw_seen walk + int (length rows) \<le> pages \<and>
    (\<forall>row \<in> set rows. \<exists>i. in_tree i row \<and> page_fits pages expected i row) \<and> walk' = walked rows walk"
  using assms
proof (induction rows arbitrary: walk)
  case Nil
  then show ?case
    by (cases walk) (auto simp: walked_def tree_roots_def tree_cells_def)
next
  case (Cons row rows)
  have len: "length (pw_roots (walked [row] walk)) = 5" "length (pw_cells (walked [row] walk)) = 5"
    and seen: "pw_seen (walked [row] walk) = pw_seen walk + 1" by (simp_all add: walked_def)
  show ?case
    using Cons.IH [OF len] Cons.prems
    by (auto simp: rbind_eq_Inr page_step_iff [OF Cons.prems(1,2)] seen walked_Cons)
qed

lemma roots_cells_sequence:
  "walked rows \<lparr>pw_seen = 0, pw_roots = replicate 5 0, pw_cells = replicate 5 0\<rparr> =
    \<lparr>pw_seen = int (length rows), pw_roots = map (tree_roots rows) [0 ..< 5], pw_cells = map (tree_cells rows) [0 ..< 5]\<rparr>"
  by (simp add: walked_def)

definition identity_cells :: "Db \<Rightarrow> int list" where
  "identity_cells db = (let k = int (length (kubernetes_rows db)); g = int (length (git_rows db)) in [k, k, g, g, 4])"

lemma require_physical_bounds_iff:
  assumes "0 \<le> pages" "retained = fst (counts db)"
  shows "require_physical_bounds db facts retained pages live = Inr () \<longleftrightarrow>
    int (length (pf_rows facts)) = live \<and> live \<le> pages \<and>
    list_all (\<lambda>row. \<exists>i. in_tree i row \<and> page_fits pages (identity_cells db) i row) (pf_rows facts) \<and>
    map (tree_roots (pf_rows facts)) [0 ..< 5] = replicate 5 1 \<and>
    map (tree_cells (pf_rows facts)) [0 ..< 5] = identity_cells db"
proof -
  have "int (length (kubernetes_rows db)) + int (length (git_rows db)) = retained"
    using assms(2) by (simp add: counts_def)
  moreover have "try_fold (page_step pages (identity_cells db)) (pf_rows facts)
      \<lparr>pw_seen = 0, pw_roots = replicate 5 0, pw_cells = replicate 5 0\<rparr> = Inr walk \<longleftrightarrow>
    int (length (pf_rows facts)) \<le> pages \<and>
    list_all (\<lambda>row. \<exists>i. in_tree i row \<and> page_fits pages (identity_cells db) i row) (pf_rows facts) \<and>
    walk = \<lparr>pw_seen = int (length (pf_rows facts)), pw_roots = map (tree_roots (pf_rows facts)) [0 ..< 5],
      pw_cells = map (tree_cells (pf_rows facts)) [0 ..< 5]\<rparr>" for walk
    using assms(1) by (subst walk_iff) (simp_all add: roots_cells_sequence list_all_iff)
  ultimately show ?thesis
    by (auto simp: require_physical_bounds_def Let_def identity_cells_def rbind_eq_Inr)
qed

lemma require_physical_bounds_negative:
  assumes "pages < 0"
  shows "require_physical_bounds db facts retained pages live \<noteq> Inr ()"
proof (cases "pf_rows facts")
  case Nil
  then show ?thesis by (simp add: require_physical_bounds_def Let_def numeral_eq_Suc)
next
  case (Cons row rows)
  have "page_step pages expected row \<lparr>pw_seen = 0, pw_roots = replicate 5 0, pw_cells = replicate 5 0\<rparr> \<noteq> Inr w" for expected w
    using assms page_step_iff [of "\<lparr>pw_seen = 0, pw_roots = replicate 5 0, pw_cells = replicate 5 0\<rparr>"] by simp
  then show ?thesis using Cons
    by (auto simp: require_physical_bounds_def Let_def rbind_eq_Inr)
qed

section \<open>Counts of a healthy database\<close>

lemma length_filter_card:
  assumes "table_ok t db"
  shows "length (filter P (table_rows t db)) = card {k. \<exists>r. row_of t db k = Some r \<and> P r}"
proof -
  let ?rows = "filter P (table_rows t db)"
  have ids: "distinct (map (\<lambda>r. field r ''operation_id'') (table_rows t db))"
    and wf: "\<And>r. r \<in> set (table_rows t db) \<Longrightarrow> \<exists>k. has_id k r"
    using assms by (auto simp: table_ok_def list_all_iff row_ok_def)
  have inj: "inj_on (\<lambda>r. field r ''operation_id'') (set ?rows)"
    using ids by (auto simp: distinct_map inj_on_def)
  have dist: "distinct ?rows" using ids by (simp add: distinct_map)
  have found: "row_of t db k = Some r" if "r \<in> set (table_rows t db)" "has_id k r" for k r
  proof -
    from that have "row_of t db k \<noteq> None"
      unfolding id_exists_iff [symmetric] id_exists_def list_ex_iff by blast
    then obtain r' where r': "row_of t db k = Some r'" by blast
    then have "r' = r"
      using row_of_Some [OF r'] that ids by (auto simp: distinct_map inj_on_def has_id_def)
    with r' show ?thesis by simp
  qed
  have img: "(\<lambda>r. field r ''operation_id'') ` set ?rows = Text ` {k. \<exists>r. row_of t db k = Some r \<and> P r}"
  proof (rule set_eqI)
    fix v
    have "v \<in> (\<lambda>r. field r ''operation_id'') ` set ?rows \<longleftrightarrow>
        (\<exists>r k. r \<in> set (table_rows t db) \<and> P r \<and> has_id k r \<and> v = Text k)"
      using wf by (auto simp: has_id_def image_iff)
    also have "\<dots> \<longleftrightarrow> v \<in> Text ` {k. \<exists>r. row_of t db k = Some r \<and> P r}"
      using found row_of_Some [of t db] by blast
    finally show "v \<in> (\<lambda>r. field r ''operation_id'') ` set ?rows \<longleftrightarrow>
        v \<in> Text ` {k. \<exists>r. row_of t db k = Some r \<and> P r}" .
  qed
  have "length ?rows = card (set ?rows)" using distinct_card [OF dist] by simp
  also have "\<dots> = card (Text ` {k. \<exists>r. row_of t db k = Some r \<and> P r})"
    using card_image [OF inj] img by simp
  also have "\<dots> = card {k. \<exists>r. row_of t db k = Some r \<and> P r}"
    by (rule card_image) (simp add: inj_on_def)
  finally show ?thesis .
qed

definition identities :: "Table \<Rightarrow> Db \<Rightarrow> string set" where
  "identities t db = dom (row_of t db)"

definition unfinished :: "Table \<Rightarrow> Db \<Rightarrow> string set" where
  "unfinished t db = {k. \<exists>r. row_of t db k = Some r \<and> state_unfinished r}"

lemma finite_identities [simp]: "finite (identities t db)"
proof -
  have "identities t db \<subseteq> (\<lambda>r. case field r ''operation_id'' of Text k \<Rightarrow> k | _ \<Rightarrow> []) ` set (table_rows t db)"
    using row_of_Some [of t db] by (force simp: identities_def has_id_def)
  then show ?thesis by (rule finite_subset) simp
qed

lemma unfinished_identities: "unfinished t db \<subseteq> identities t db"
  by (auto simp: unfinished_def identities_def)

lemma counts_card:
  assumes "db_ok db"
  shows "counts db = (int (card (identities t db) + card (identities (other t) db)),
    int (card (unfinished t db) + card (unfinished (other t) db)))"
proof -
  have "identities s db = {k. \<exists>r. row_of s db k = Some r \<and> True}" for s by (auto simp: identities_def)
  then have "length (table_rows s db) = card (identities s db)" for s
    using length_filter_card [OF db_ok_tables [OF assms], where P = "\<lambda>_. True"] by simp
  moreover have "length (filter state_unfinished (table_rows s db)) = card (unfinished s db)" for s
    using length_filter_card [OF db_ok_tables [OF assms]] by (simp add: unfinished_def)
  ultimately show ?thesis
    by (cases t) (simp_all add: counts_def Let_def flip: table_rows.simps)
qed

text \<open>The journal is within capacity: what \<open>require_retained_bounds\<close> asks of the counts on opening.\<close>

definition within_capacity :: "Db \<Rightarrow> bool" where
  "within_capacity db \<longleftrightarrow> fst (counts db) \<le> IDENTITY_CAPACITY \<and> snd (counts db) \<le> UNFINISHED_CAPACITY"

lemma stored_counts:
  assumes ok: "db_ok db" and st: "stored t k nxt db db'"
  shows "row_of t db k = Some prev \<Longrightarrow> state_unfinished prev \<Longrightarrow>
      fst (counts db') = fst (counts db) \<and> snd (counts db') \<le> snd (counts db)"
    and "row_of t db k = None \<Longrightarrow>
      fst (counts db') = fst (counts db) + 1 \<and> snd (counts db') \<le> snd (counts db) + 1"
proof -
  have ok': "db_ok db'" and row: "row_of t db' = (row_of t db)(k \<mapsto> nxt)"
    and oth: "row_of (other t) db' = row_of (other t) db" using st by (simp_all add: stored_def)
  have ids: "identities t db' = insert k (identities t db)" "identities (other t) db' = identities (other t) db"
    and unf: "unfinished t db' \<subseteq> insert k (unfinished t db)" "unfinished (other t) db' = unfinished (other t) db"
    by (auto simp: identities_def unfinished_def row oth split: if_splits)
  have fin: "finite (unfinished t db)" by (rule finite_subset [OF unfinished_identities]) simp
  note counts = counts_card [OF ok, of t] counts_card [OF ok', of t]
  show "fst (counts db') = fst (counts db) \<and> snd (counts db') \<le> snd (counts db)"
    if "row_of t db k = Some prev" "state_unfinished prev"
  proof -
    have "k \<in> identities t db" "k \<in> unfinished t db" using that by (auto simp: identities_def unfinished_def)
    then have "identities t db' = identities t db" "card (unfinished t db') \<le> card (unfinished t db)"
      using ids unf card_mono [OF fin] by (auto simp: insert_absorb)
    then show ?thesis by (simp add: counts ids unf)
  qed
  show "fst (counts db') = fst (counts db) + 1 \<and> snd (counts db') \<le> snd (counts db) + 1"
    if "row_of t db k = None"
  proof -
    have "k \<notin> identities t db" "k \<notin> unfinished t db" using that by (auto simp: identities_def unfinished_def)
    moreover have "card (unfinished t db') \<le> card (insert k (unfinished t db))"
      using card_mono [OF _ unf(1)] fin by simp
    ultimately show ?thesis using fin by (simp add: counts ids unf)
  qed
qed

lemma replace_within_capacity:
  assumes "db_ok db" "within_capacity db" "row_ok t nxt" "has_id k nxt" "replace d expected nxt db = (res, db')"
    and "\<And>prev. expected = Some prev \<Longrightarrow> state_unfinished prev"
  shows "within_capacity db'"
proof (cases expected)
  case None
  show ?thesis
  proof (cases "require_admission db = Inr () \<and> row_of t db k = None")
    case True
    then have "fst (counts db) < IDENTITY_CAPACITY" "snd (counts db) < UNFINISHED_CAPACITY"
      by (auto simp: require_admission_def split: prod.splits if_splits)
    with replace_cases [OF assms(1,3-5)] stored_counts(2) [OF assms(1), of t k nxt db'] assms(2) True show ?thesis
      by (auto simp: within_capacity_def)
  next
    case False
    then have "db' = db"
      using assms(5) None transaction_body_insert [OF assms(3,4), of db]
      by (cases d) (auto simp: replace_def split: sum.splits)
    with assms(2) show ?thesis by simp
  qed
next
  case (Some prev)
  from replace_cases [OF assms(1,3-5)] stored_counts(1) [OF assms(1), of t k nxt db' prev] assms(2,6) Some show ?thesis
    by (auto simp: within_capacity_def)
qed

lemma decode_unfinished:
  "decode C r = Inr op \<Longrightarrow> state_unfinished r \<longleftrightarrow> loaded_state op \<notin> {NotAttempted, Finalized}"
  using decode_state(1) [of C r op] by (cases op) (simp_all add: state_unfinished_def)

lemma row_change_unfinished: "row_change C call (Some r) nxt \<Longrightarrow> state_unfinished r"
  by (erule row_change.cases) (simp_all add: decode_unfinished)

lemma perform_within_capacity:
  assumes ok: "db_ok db" and cap: "within_capacity db" and m: "perform C d call db = (res, db')"
  shows "within_capacity db'"
proof (cases "row_of Kubernetes db (call_id call)")
  case (Some prev)
  from perform_effect [OF ok m] show ?thesis
  proof (elim conjE disjE)
    assume "effect C call db db'"
    then obtain nxt where ch: "row_change C call (Some prev) nxt" and st: "stored Kubernetes (call_id call) nxt db db'"
      by (auto simp: effect_def Some)
    with stored_counts(1) [OF ok st Some row_change_unfinished [OF ch]] cap show ?thesis
      by (simp add: within_capacity_def)
  qed (use cap in simp)
next
  case None
  show ?thesis
  proof (cases "\<exists>q. call = InsertRequested q")
    case True
    then obtain q where q: "call = InsertRequested q" by blast
    then obtain r where r: "replace d None (requested_record q) db = (r, db')"
      using m by (cases "insert_requested d q db") (auto simp: abind_def insert_requested_def split: sum.splits)
    have "row_ok Kubernetes (requested_record q)" "has_id (vr_operation_id (aq_request q)) (requested_record q)"
      using set_columns_ok [OF row_empty_ok(1) writes_known_requested] row_empty_ok(2)
      by (simp_all add: requested_record_columns)
    from replace_within_capacity [OF ok cap this r] show ?thesis by simp
  next
    case False
    then have "\<not> effect C call db db'"
      unfolding effect_def None by (auto elim: row_change.cases)
    with perform_effect [OF ok m] cap show ?thesis by blast
  qed
qed

lemma replace_full:
  assumes "replace d expected nxt db = (Inl JournalFull, db')"
  shows "db' = db \<and> (IDENTITY_CAPACITY \<le> fst (counts db) \<or> UNFINISHED_CAPACITY \<le> snd (counts db))"
proof -
  have "db' = db" "transaction_body db expected nxt = Inl JournalFull"
    using assms by (cases d; auto simp: replace_def split: sum.splits)+
  moreover have "from_text v \<noteq> Inl JournalFull" for v by (cases v) simp_all
  moreover from calculation(2) this have "require_admission db = Inl JournalFull"
    by (auto simp: transaction_body_def update_changed_columns_def changed_one_def Let_def rbind_def row_get_def read_table_def
        split: sum.splits option.splits if_splits)
  ultimately show ?thesis by (auto simp: require_admission_def split: prod.splits if_splits)
qed

section \<open>Properties\<close>

text \<open>
  C19. What opening accepts: the checks on the retained counts and the loop over the reported
  pages accept a database exactly when both counts are within capacity, the reported pages are
  exactly the live ones, at most 23 per identity and 76 fixed, every page is well formed in one
  of the five trees, each tree has one root, and the cells of the two tables and their indexes
  are exactly their rows. Such a database leaves the completion headroom free.
\<close>

theorem retained_bounds_characterised:
  "(require_retained_bounds db facts = Inr () \<longleftrightarrow>
     within_capacity db \<and> pf_page_count facts \<le> DATABASE_PAGES \<and>
     int (length (pf_rows facts)) = pf_page_count facts - pf_freelist_count facts \<and>
     int (length (pf_rows facts)) \<le> min (pf_page_count facts) (LIVE_PAGES_PER_IDENTITY * fst (counts db) + LIVE_FIXED_PAGES) \<and>
     list_all (\<lambda>row. \<exists>i. in_tree i row \<and> page_fits (pf_page_count facts) (identity_cells db) i row) (pf_rows facts) \<and>
     map (tree_roots (pf_rows facts)) [0 ..< 5] = replicate 5 1 \<and>
     map (tree_cells (pf_rows facts)) [0 ..< 5] = identity_cells db) \<and>
   \<not> (require_retained_bounds db facts = Inr () \<and>
     int (length (pf_rows facts)) + COMPLETION_HEADROOM_PAGES > DATABASE_PAGES)"
proof -
  let ?live = "pf_page_count facts - pf_freelist_count facts"
  have caps: "LIVE_PAGES_PER_IDENTITY = 23" "LIVE_FIXED_PAGES = 76" "DATABASE_PAGES = 16384"
    "COMPLETION_HEADROOM_PAGES = 256" "IDENTITY_CAPACITY = 504"
    by (simp_all add: LIVE_PAGES_PER_IDENTITY_def LIVE_FIXED_PAGES_def DATABASE_PAGES_def
        COMPLETION_HEADROOM_PAGES_def IDENTITY_CAPACITY_def IDENTITY_PAGES_def)
  have "require_retained_bounds db facts = Inr () \<longleftrightarrow> within_capacity db \<and> pf_page_count facts \<le> DATABASE_PAGES \<and>
      0 \<le> ?live \<and> ?live \<le> LIVE_PAGES_PER_IDENTITY * fst (counts db) + LIVE_FIXED_PAGES \<and>
      require_physical_bounds db facts (fst (counts db)) (pf_page_count facts) ?live = Inr ()"
    by (auto simp: require_retained_bounds_def within_capacity_def Let_def caps split: prod.splits if_splits)
  moreover have "require_physical_bounds db facts (fst (counts db)) (pf_page_count facts) ?live = Inr () \<longleftrightarrow>
      int (length (pf_rows facts)) = ?live \<and> ?live \<le> pf_page_count facts \<and> 0 \<le> pf_page_count facts \<and>
      list_all (\<lambda>row. \<exists>i. in_tree i row \<and> page_fits (pf_page_count facts) (identity_cells db) i row) (pf_rows facts) \<and>
      map (tree_roots (pf_rows facts)) [0 ..< 5] = replicate 5 1 \<and>
      map (tree_cells (pf_rows facts)) [0 ..< 5] = identity_cells db"
    using require_physical_bounds_iff [OF _ refl, of "pf_page_count facts" db facts ?live]
      require_physical_bounds_negative [of "pf_page_count facts" db facts "fst (counts db)" ?live]
    by (cases "0 \<le> pf_page_count facts") auto
  ultimately have "require_retained_bounds db facts = Inr () \<longleftrightarrow>
     within_capacity db \<and> pf_page_count facts \<le> DATABASE_PAGES \<and> int (length (pf_rows facts)) = ?live \<and>
     int (length (pf_rows facts)) \<le> min (pf_page_count facts) (LIVE_PAGES_PER_IDENTITY * fst (counts db) + LIVE_FIXED_PAGES) \<and>
     list_all (\<lambda>row. \<exists>i. in_tree i row \<and> page_fits (pf_page_count facts) (identity_cells db) i row) (pf_rows facts) \<and>
     map (tree_roots (pf_rows facts)) [0 ..< 5] = replicate 5 1 \<and>
     map (tree_cells (pf_rows facts)) [0 ..< 5] = identity_cells db"
    by linarith
  moreover from this have "int (length (pf_rows facts)) + COMPLETION_HEADROOM_PAGES \<le> DATABASE_PAGES"
    if "require_retained_bounds db facts = Inr ()"
    using that unfolding within_capacity_def caps by linarith
  ultimately show ?thesis by linarith
qed

end
