(* ===== verification/GitJournal.thy ===== *)
theory GitJournal
  imports GitReceipt Capacity
begin

text \<open>
  The Git rows of the journal, \<open>src/gateway/journal/git.rs\<close>. They share the store, the worker lease, the
  identity namespace and the capacity with the Kubernetes rows, in a table of their own. A call
  presents the binding verified from the signed grant; the row is decoded under that binding at
  every call, so each column is compared before a phase is believed.

  \<open>owns_worker\<close> is the answer of \<open>Journal::owns_worker\<close> for the lease the caller passes. The
  statements compiled only for tests are left out.
\<close>

section \<open>Bindings and phases\<close>

record GitBinding =
  gb_authorization :: GitRefAuthorization
  gb_signer :: string
  gb_digest :: string
  gb_grant :: bytes

fun git_binding_from :: "crypto \<Rightarrow> bytes \<Rightarrow> AuthorizationTrust list \<Rightarrow> (GatewayError, GitBinding) result" where
  "git_binding_from C bs [] = Inl UntrustedAuthorizationGrant"
| "git_binding_from C bs (appointment # trust) =
     (case verify_git_ref_grant C bs appointment of
        Inr grant \<Rightarrow> Inr \<lparr>gb_authorization = vgg_authorization grant, gb_signer = vgg_signer_key_id grant,
          gb_digest = vgg_grant_digest grant, gb_grant = bs\<rparr>
      | Inl _ \<Rightarrow> git_binding_from C bs trust)"

definition git_binding_verify :: "crypto \<Rightarrow> bytes \<Rightarrow> AuthorizationTrust list \<Rightarrow> (GatewayError, GitBinding) result" where
  "git_binding_verify C bs trust =
     (if length bs > 4096 then Inl InvalidAuthorizationGrant else git_binding_from C bs trust)"

datatype GitRejection = RejectStaleRef | RejectInvalidObjects

datatype GitPhase =
  GAuthorized
| GNotAttempted GitRejection
| GAttempted "Acknowledgement option"
| GObserved Acknowledgement ObservedRef
| GFinalized GitStatement FrozenReceipt

fun git_phase_state :: "GitPhase \<Rightarrow> OperationState" where
  "git_phase_state GAuthorized = Authorized"
| "git_phase_state (GNotAttempted _) = NotAttempted"
| "git_phase_state (GAttempted _) = ApplyStarted"
| "git_phase_state (GObserved _ _) = ReceiverObserved"
| "git_phase_state (GFinalized _ _) = Finalized"

definition git_phase_statement :: "GitBinding \<Rightarrow> GitPhase \<Rightarrow> GitStatement option" where
  "git_phase_statement binding phase =
     (case phase of
        GObserved ack observed \<Rightarrow>
          Some \<lparr>gs_authorization = gb_authorization binding, gs_authorization_signer = gb_signer binding,
            gs_authorization_digest = gb_digest binding, gs_acknowledgement = ack,
            gs_observed = observed\<rparr>
      | GFinalized statement receipt \<Rightarrow> Some statement
      | _ \<Rightarrow> None)"

text \<open>
  The operator's receiver. A prepared transition borrows the receiver it was checked against; the
  address stands for the identity of that borrow, which \<open>std::ptr::eq\<close> compares. A path is its
  components, which is what comparing paths and taking parents look at.
\<close>

record Path =
  path_absolute :: bool
  path_components :: "string list"

record GitReceiver =
  gr_address :: nat
  gr_executable :: Path
  gr_sender :: Path
  gr_receiver :: Path
  gr_repository_id :: string

record PreparedTransition =
  pt_receiver :: GitReceiver
  pt_authorization :: GitRefAuthorization

record GitDispatchPermission =
  gp_prepared :: PreparedTransition

section \<open>Decoding a row\<close>

definition git_observed :: "string option \<Rightarrow> string option \<Rightarrow> (GatewayError, ObservedRef option) result" where
  "git_observed kind commit =
     (if kind = None \<and> commit = None then Inr None
      else if kind = Some ''unknown'' \<and> commit = None then Inr (Some RefUnknown)
      else if kind = Some ''missing'' \<and> commit = None then Inr (Some Missing)
      else case commit of
        Some c \<Rightarrow> if kind = Some ''commit'' \<and> git_commit_id_is_valid c then Inr (Some (Commit c))
          else Inl InvalidPersistedState
      | None \<Rightarrow> Inl InvalidPersistedState)"

definition decode_phase ::
    "string \<Rightarrow> string option \<Rightarrow> string option \<Rightarrow> string option \<Rightarrow> string option \<Rightarrow> (GatewayError, GitPhase) result" where
  "decode_phase state rejection retained_acknowledgement kind commit =
     rbind (transpose_map (\<lambda>v. ok_or InvalidPersistedState (ack_parse v)) retained_acknowledgement) (\<lambda>acknowledgement.
     rbind (git_observed kind commit) (\<lambda>observed.
     if state = ''authorized'' \<and> rejection = None \<and> acknowledgement = None \<and> observed = None then Inr GAuthorized
     else if state = ''not_attempted'' \<and> rejection = Some ''stale_ref'' \<and> acknowledgement = None \<and> observed = None
     then Inr (GNotAttempted RejectStaleRef)
     else if state = ''not_attempted'' \<and> rejection = Some ''invalid_objects'' \<and> acknowledgement = None \<and> observed = None
     then Inr (GNotAttempted RejectInvalidObjects)
     else if state = ''apply_started'' \<and> rejection = None \<and> observed = None then Inr (GAttempted acknowledgement)
     else case (acknowledgement, observed) of
       (Some a, Some ob) \<Rightarrow>
         if (state = ''receiver_observed'' \<or> state = ''finalized'') \<and> rejection = None then Inr (GObserved a ob)
         else Inl InvalidPersistedState
     | _ \<Rightarrow> Inl InvalidPersistedState))"

definition git_frozen_receipt ::
    "crypto \<Rightarrow> string \<Rightarrow> string \<Rightarrow> string option \<Rightarrow> bytes option \<Rightarrow> string option \<Rightarrow>
      (GatewayError, FrozenReceipt option) result" where
  "git_frozen_receipt C operation_id state receipt_digest receipt_bytes receipt_key =
     (if state = ''finalized'' then
        (case (receipt_digest, receipt_bytes, receipt_key) of
           (Some digest, Some bs, Some key_id) \<Rightarrow>
             if receipt_digest_hex C bs = digest
             then Inr (Some \<lparr>fr_operation_id = operation_id, fr_bytes = bs, fr_digest = digest, fr_key_id = key_id\<rparr>)
             else Inl InvalidPersistedState
         | _ \<Rightarrow> Inl InvalidPersistedState)
      else if receipt_digest = None \<and> receipt_bytes = None \<and> receipt_key = None then Inr None
      else Inl InvalidPersistedState)"

definition binding_fields :: "GitBinding \<Rightarrow> (string \<times> string) list" where
  "binding_fields binding = (let approval = gb_authorization binding in
     [(''operation_id'', ga_operation_id approval), (''repository_id'', ga_repository_id approval),
      (''ref_name'', ga_reference approval), (''old_commit'', ga_old_commit approval),
      (''new_commit'', ga_new_commit approval), (''authorization_id'', ga_authorization_id approval),
      (''authorization_signer_key_id'', gb_signer binding),
      (''authorization_grant_digest'', gb_digest binding)])"

definition decode_record :: "crypto \<Rightarrow> Record \<Rightarrow> GitBinding \<Rightarrow> (GatewayError, GitPhase) result" where
  "decode_record C record binding =
     rbind (try_all (\<lambda>(field, expected).
         rbind (row_get from_text record field) (\<lambda>v. require (v = expected) OperationIdentityConflict))
       (binding_fields binding)) (\<lambda>_.
     rbind (row_get from_blob record ''signed_authorization_grant'') (\<lambda>grant.
     if grant \<noteq> gb_grant binding then Inl OperationIdentityConflict else
     rbind (row_get from_text record ''state'') (\<lambda>state.
     rbind (row_get (optional from_text) record ''target_rejection'') (\<lambda>rejection.
     rbind (row_get (optional from_text) record ''acknowledgement'') (\<lambda>retained_acknowledgement.
     rbind (row_get (optional from_text) record ''observed_ref_kind'') (\<lambda>observed_kind.
     rbind (row_get (optional from_text) record ''observed_commit'') (\<lambda>observed_commit.
     rbind (row_get (optional from_text) record ''receipt_digest'') (\<lambda>receipt_digest.
     rbind (row_get (optional from_blob) record ''receipt_bytes'') (\<lambda>receipt_bytes.
     rbind (row_get (optional from_text) record ''receipt_key_id'') (\<lambda>receipt_key.
     rbind (git_frozen_receipt C (ga_operation_id (gb_authorization binding)) state receipt_digest receipt_bytes
       receipt_key) (\<lambda>receipt.
     rbind (decode_phase state rejection retained_acknowledgement observed_kind observed_commit) (\<lambda>phase.
     case receipt of
       Some receipt \<Rightarrow>
         rbind (ok_or InvalidPersistedState (git_phase_statement binding phase)) (\<lambda>statement.
         rbind (map_err GReceipt (git_decode (fr_bytes receipt))) (\<lambda>(key_id, decoded_statement).
         if decoded_statement \<noteq> statement \<or> key_id \<noteq> fr_key_id receipt then Inl InvalidPersistedState
         else Inr (GFinalized statement receipt)))
     | None \<Rightarrow> Inr phase))))))))))))"

section \<open>Reads\<close>

definition git_record :: "GitBinding \<Rightarrow> Db \<Rightarrow> (GatewayError, Record option) result" where
  "git_record binding db = (let ident = ga_operation_id (gb_authorization binding) in
     rbind (record_read_git db ident) (\<lambda>record.
     case record of
       None \<Rightarrow> rbind (record_read db ident) (\<lambda>kubernetes.
         if kubernetes \<noteq> None then Inl OperationIdentityConflict else Inr None)
     | Some r \<Rightarrow> Inr (Some r)))"

definition git_operation :: "crypto \<Rightarrow> GitBinding \<Rightarrow> Db \<Rightarrow> (GatewayError, GitPhase option) result" where
  "git_operation C binding db =
     rbind (git_record binding db) (transpose_map (\<lambda>record. decode_record C record binding))"

definition git_load_on :: "crypto \<Rightarrow> GitBinding \<Rightarrow> Db \<Rightarrow> (GatewayError, GitPhase option) result" where
  "git_load_on C binding db = (let ident = ga_operation_id (gb_authorization binding) in
     rbind (record_read_git db ident) (\<lambda>record.
     case record of
       None \<Rightarrow> rbind (record_read db ident) (\<lambda>kubernetes.
         if kubernetes \<noteq> None then Inl OperationIdentityConflict else Inr None)
     | Some r \<Rightarrow> rbind (decode_record C r binding) (\<lambda>p. Inr (Some p))))"

definition journal_retained_git ::
    "crypto \<Rightarrow> string \<Rightarrow> AuthorizationTrust list \<Rightarrow> Db \<Rightarrow> (GatewayError, (GitBinding \<times> GitPhase) option) result" where
  "journal_retained_git C ident trust db =
     rbind (record_read_git db ident) (\<lambda>record.
     case record of
       None \<Rightarrow> Inr None
     | Some r \<Rightarrow>
         rbind (row_get from_blob r ''signed_authorization_grant'') (\<lambda>bs.
         rbind (git_binding_verify C bs trust) (\<lambda>binding.
         if ga_operation_id (gb_authorization binding) \<noteq> ident then Inl OperationIdentityConflict
         else rbind (decode_record C r binding) (\<lambda>phase. Inr (Some (binding, phase))))))"

section \<open>Writes\<close>

definition git_write :: "crypto \<Rightarrow> GitBinding \<Rightarrow> bool \<Rightarrow> Db \<Rightarrow> (GatewayError, Record \<times> GitPhase) result" where
  "git_write C binding owns_worker db =
     (if \<not> owns_worker then Inl InvalidTransition
      else rbind (rbind (git_record binding db) (ok_or InvalidTransition)) (\<lambda>record.
        rbind (decode_record C record binding) (\<lambda>phase. Inr (record, phase))))"

definition git_binding_columns :: "GitBinding \<Rightarrow> (string \<times> Value) list" where
  "git_binding_columns binding = (let approval = gb_authorization binding in
     [(''repository_id'', Text (ga_repository_id approval)), (''ref_name'', Text (ga_reference approval)),
      (''old_commit'', Text (ga_old_commit approval)), (''new_commit'', Text (ga_new_commit approval)),
      (''authorization_id'', Text (ga_authorization_id approval)),
      (''authorization_signer_key_id'', Text (gb_signer binding)),
      (''authorization_grant_digest'', Text (gb_digest binding)),
      (''signed_authorization_grant'', Blob (gb_grant binding)),
      (''state'', Text ''authorized'')])"

definition insert_git :: "crypto \<Rightarrow> Delivery \<Rightarrow> GitBinding \<Rightarrow> bool \<Rightarrow> GitPhase journal_write" where
  "insert_git C d binding owns_worker =
     (if \<not> owns_worker then throw InvalidTransition
      else abind (reads (git_operation C binding)) (\<lambda>existing.
        case existing of
          Some existing \<Rightarrow> areturn existing
        | None \<Rightarrow>
            abind (replace d None (set_columns (git_binding_columns binding)
              (git_empty (ga_operation_id (gb_authorization binding))))) (\<lambda>_.
            areturn GAuthorized)))"

definition git_attempt_columns :: "(string \<times> Value) list" where
  "git_attempt_columns = [(''state'', Text ''apply_started'')]"

definition begin_git_attempt ::
    "crypto \<Rightarrow> Delivery \<Rightarrow> GitBinding \<Rightarrow> PreparedTransition \<Rightarrow> bool \<Rightarrow> GitDispatchPermission journal_write" where
  "begin_git_attempt C d binding prepared owns_worker =
     (if \<not> owns_worker \<or> pt_authorization prepared \<noteq> gb_authorization binding then throw InvalidTransition
      else abind (reads (git_write C binding owns_worker)) (\<lambda>(original, phase).
        if phase \<noteq> GAuthorized then throw InvalidTransition
        else abind (replace d (Some original) (set_columns git_attempt_columns original)) (\<lambda>_.
          areturn \<lparr>gp_prepared = prepared\<rparr>)))"

fun git_rejection_text :: "GitRejection \<Rightarrow> string" where
  "git_rejection_text RejectStaleRef = ''stale_ref''"
| "git_rejection_text RejectInvalidObjects = ''invalid_objects''"

definition git_rejection_columns :: "GitRejection \<Rightarrow> (string \<times> Value) list" where
  "git_rejection_columns rejection =
     [(''state'', Text ''not_attempted''), (''target_rejection'', Text (git_rejection_text rejection))]"

definition reject_git :: "crypto \<Rightarrow> Delivery \<Rightarrow> GitBinding \<Rightarrow> GitRejection \<Rightarrow> bool \<Rightarrow> unit journal_write" where
  "reject_git C d binding rejection owns_worker =
     abind (reads (git_write C binding owns_worker)) (\<lambda>(original, phase).
     if phase \<noteq> GAuthorized then throw InvalidTransition
     else replace d (Some original) (set_columns (git_rejection_columns rejection) original))"

definition git_response_columns :: "Acknowledgement \<Rightarrow> (string \<times> Value) list" where
  "git_response_columns ack = [(''acknowledgement'', Text (ack_as_str ack))]"

definition record_git_acknowledgement ::
    "crypto \<Rightarrow> Delivery \<Rightarrow> GitBinding \<Rightarrow> Acknowledgement \<Rightarrow> bool \<Rightarrow> unit journal_write" where
  "record_git_acknowledgement C d binding ack owns_worker =
     abind (reads (git_write C binding owns_worker)) (\<lambda>(original, phase).
     if phase \<noteq> GAttempted None then throw InvalidTransition
     else replace d (Some original) (set_columns (git_response_columns ack) original))"

definition git_observation_columns :: "Acknowledgement \<Rightarrow> string \<Rightarrow> string option \<Rightarrow> (string \<times> Value) list" where
  "git_observation_columns ack kind commit =
     [(''state'', Text ''receiver_observed''), (''acknowledgement'', Text (ack_as_str ack)),
      (''observed_ref_kind'', Text kind), (''observed_commit'', opt_text commit)]"

definition git_observation_fields :: "ObservedRef \<Rightarrow> (GatewayError, string \<times> string option) result" where
  "git_observation_fields observed =
     (case observed of
        Commit commit \<Rightarrow> if git_commit_id_is_valid commit then Inr (''commit'', Some commit)
          else Inl InvalidPersistedState
      | Missing \<Rightarrow> Inr (''missing'', None)
      | RefUnknown \<Rightarrow> Inr (''unknown'', None))"

definition freeze_git_observation ::
    "crypto \<Rightarrow> Delivery \<Rightarrow> GitBinding \<Rightarrow> ObservedRef \<Rightarrow> bool \<Rightarrow> unit journal_write" where
  "freeze_git_observation C d binding observed owns_worker =
     abind (reads (git_write C binding owns_worker)) (\<lambda>(original, phase).
     case phase of
       GAttempted retained_acknowledgement \<Rightarrow>
         abind (lift (git_observation_fields observed)) (\<lambda>(kind, commit).
         replace d (Some original) (set_columns
           (git_observation_columns (case retained_acknowledgement of None \<Rightarrow> AckUnknown | Some a \<Rightarrow> a) kind commit)
           original))
     | _ \<Rightarrow> throw InvalidTransition)"

definition git_receipt_columns :: "bytes \<Rightarrow> string \<Rightarrow> string \<Rightarrow> (string \<times> Value) list" where
  "git_receipt_columns bs digest key_id =
     [(''state'', Text ''finalized''), (''receipt_bytes'', Blob bs), (''receipt_digest'', Text digest),
      (''receipt_key_id'', Text key_id)]"

definition commit_git_receipt :: "crypto \<Rightarrow> Delivery \<Rightarrow> GitBinding \<Rightarrow> bytes \<Rightarrow> bool \<Rightarrow> unit journal_write" where
  "commit_git_receipt C d binding bs owns_worker =
     abind (reads (git_write C binding owns_worker)) (\<lambda>(original, phase).
     if git_phase_state phase \<noteq> ReceiverObserved then throw InvalidTransition
     else abind (lift (map_err GReceipt (git_decode bs))) (\<lambda>(key_id, statement).
       if git_phase_statement binding phase \<noteq> Some statement then throw InvalidPersistedState
       else replace d (Some original) (set_columns (git_receipt_columns bs (receipt_digest_hex C bs) key_id) original)))"

section \<open>The canonical row of a phase\<close>

text \<open>
  Every binding and phase has exactly one row. Decoding accepts a row under a binding exactly when
  it is that row, so the columns of a Git row carry nothing beside the typed phase.
\<close>

fun git_state_text :: "GitPhase \<Rightarrow> string" where
  "git_state_text GAuthorized = ''authorized''"
| "git_state_text (GNotAttempted _) = ''not_attempted''"
| "git_state_text (GAttempted _) = ''apply_started''"
| "git_state_text (GObserved _ _) = ''receiver_observed''"
| "git_state_text (GFinalized _ _) = ''finalized''"

fun git_rejection_of :: "GitPhase \<Rightarrow> string option" where
  "git_rejection_of (GNotAttempted rejection) = Some (git_rejection_text rejection)"
| "git_rejection_of _ = None"

fun git_acknowledgement_of :: "GitPhase \<Rightarrow> Acknowledgement option" where
  "git_acknowledgement_of (GAttempted a) = a"
| "git_acknowledgement_of (GObserved a _) = Some a"
| "git_acknowledgement_of (GFinalized s _) = Some (gs_acknowledgement s)"
| "git_acknowledgement_of _ = None"

fun git_observed_of :: "GitPhase \<Rightarrow> ObservedRef option" where
  "git_observed_of (GObserved _ ob) = Some ob"
| "git_observed_of (GFinalized s _) = Some (gs_observed s)"
| "git_observed_of _ = None"

fun git_receipt_of :: "GitPhase \<Rightarrow> FrozenReceipt option" where
  "git_receipt_of (GFinalized _ receipt) = Some receipt"
| "git_receipt_of _ = None"

fun ref_commit :: "ObservedRef \<Rightarrow> string option" where
  "ref_commit (Commit c) = Some c"
| "ref_commit _ = None"

definition ref_valid :: "ObservedRef \<Rightarrow> bool" where
  "ref_valid ob \<longleftrightarrow> (\<forall>c. ob = Commit c \<longrightarrow> git_commit_id_is_valid c)"

definition git_phase_columns :: "GitPhase \<Rightarrow> (string \<times> Value) list" where
  "git_phase_columns p =
     [(''state'', Text (git_state_text p)),
      (''target_rejection'', opt_text (git_rejection_of p)),
      (''acknowledgement'', opt_text (map_option ack_as_str (git_acknowledgement_of p))),
      (''observed_ref_kind'', opt_text (map_option observed_kind (git_observed_of p))),
      (''observed_commit'', opt_text (Option.bind (git_observed_of p) ref_commit)),
      (''receipt_digest'', opt_text (map_option fr_digest (git_receipt_of p))),
      (''receipt_bytes'', opt_blob (map_option fr_bytes (git_receipt_of p))),
      (''receipt_key_id'', opt_text (map_option fr_key_id (git_receipt_of p)))]"

definition git_row :: "GitBinding \<Rightarrow> GitPhase \<Rightarrow> Record" where
  "git_row b p = set_columns (git_binding_columns b @ git_phase_columns p) (git_empty (ga_operation_id (gb_authorization b)))"

fun git_phase_valid :: "crypto \<Rightarrow> GitBinding \<Rightarrow> GitPhase \<Rightarrow> bool" where
  "git_phase_valid C b (GObserved a ob) \<longleftrightarrow> ref_valid ob"
| "git_phase_valid C b (GFinalized s receipt) \<longleftrightarrow>
     ref_valid (gs_observed s) \<and>
     git_phase_statement b (GObserved (gs_acknowledgement s) (gs_observed s)) = Some s \<and>
     git_decode (fr_bytes receipt) = Inr (fr_key_id receipt, s) \<and>
     receipt_digest_hex C (fr_bytes receipt) = fr_digest receipt \<and>
     fr_operation_id receipt = ga_operation_id (gb_authorization b)"
| "git_phase_valid C b _ \<longleftrightarrow> True"

lemma ack_as_str_inject [simp]: "ack_as_str a = ack_as_str b \<longleftrightarrow> a = b"
  by (cases a; cases b; simp)

lemma transpose_ack_iff: "transpose_map (\<lambda>v. ok_or InvalidPersistedState (ack_parse v)) v = Inr a \<longleftrightarrow> v = map_option ack_as_str a"
  by (cases v; cases a) (auto simp: rbind_eq_Inr ack_parse_iff)

lemma git_observed_iff: "git_observed kind commit = Inr ob \<longleftrightarrow>
    kind = map_option observed_kind ob \<and> commit = Option.bind ob ref_commit \<and> pred_option ref_valid ob"
proof (cases ob)
  case (Some x)
  show ?thesis
    unfolding Some by (cases x) (auto simp: git_observed_def ref_valid_def split: option.splits)
qed (auto simp: git_observed_def split: option.splits)

lemma decode_phase_iff: "decode_phase state rejection ack kind commit = Inr p \<longleftrightarrow>
    git_receipt_of p = None \<and> (state = git_state_text p \<or> state = ''finalized'' \<and> git_observed_of p \<noteq> None) \<and>
    rejection = git_rejection_of p \<and> ack = map_option ack_as_str (git_acknowledgement_of p) \<and>
    kind = map_option observed_kind (git_observed_of p) \<and> commit = Option.bind (git_observed_of p) ref_commit \<and>
    pred_option ref_valid (git_observed_of p)"
proof -
  let ?sel = "\<lambda>acknowledgement observed.
     if state = ''authorized'' \<and> rejection = None \<and> acknowledgement = None \<and> observed = None then Inr GAuthorized
     else if state = ''not_attempted'' \<and> rejection = Some ''stale_ref'' \<and> acknowledgement = None \<and> observed = None
     then Inr (GNotAttempted RejectStaleRef)
     else if state = ''not_attempted'' \<and> rejection = Some ''invalid_objects'' \<and> acknowledgement = None \<and> observed = None
     then Inr (GNotAttempted RejectInvalidObjects)
     else if state = ''apply_started'' \<and> rejection = None \<and> observed = None then Inr (GAttempted acknowledgement)
     else case (acknowledgement, observed) of
       (Some a, Some ob) \<Rightarrow>
         if (state = ''receiver_observed'' \<or> state = ''finalized'') \<and> rejection = None then Inr (GObserved a ob)
         else Inl InvalidPersistedState
     | _ \<Rightarrow> Inl InvalidPersistedState"
  have sel: "?sel a ob = Inr p \<longleftrightarrow> git_receipt_of p = None \<and>
      (state = git_state_text p \<or> state = ''finalized'' \<and> git_observed_of p \<noteq> None) \<and>
      rejection = git_rejection_of p \<and> a = git_acknowledgement_of p \<and> ob = git_observed_of p" for a ob
  proof (cases p)
    case (GNotAttempted r)
    then show ?thesis by (cases r) (auto split: option.splits)
  qed (auto split: option.splits)
  have "decode_phase state rejection ack kind commit = Inr p \<longleftrightarrow>
    (\<exists>a ob. ack = map_option ack_as_str a \<and> kind = map_option observed_kind ob \<and>
       commit = Option.bind ob ref_commit \<and> pred_option ref_valid ob \<and> ?sel a ob = Inr p)"
    unfolding decode_phase_def rbind_eq_Inr transpose_ack_iff git_observed_iff by blast
  then show ?thesis unfolding sel by blast
qed


lemma git_frozen_receipt_iff: "git_frozen_receipt C ident state digest bs key = Inr receipt \<longleftrightarrow>
    (state = ''finalized'' \<longleftrightarrow> receipt \<noteq> None) \<and> digest = map_option fr_digest receipt \<and>
    bs = map_option fr_bytes receipt \<and> key = map_option fr_key_id receipt \<and>
    pred_option (\<lambda>r. receipt_digest_hex C (fr_bytes r) = fr_digest r \<and> fr_operation_id r = ident) receipt"
  by (cases receipt) (auto simp: git_frozen_receipt_def split: option.splits)

definition git_phase_fields :: "Record \<Rightarrow> GitPhase \<Rightarrow> bool" where
  "git_phase_fields r p \<longleftrightarrow> list_all (\<lambda>(f, v). field r f = v) (git_phase_columns p)"

definition git_binding_held :: "Record \<Rightarrow> GitBinding \<Rightarrow> bool" where
  "git_binding_held r b \<longleftrightarrow> list_all (\<lambda>(f, v). field r f = Text v) (binding_fields b) \<and>
     field r ''signed_authorization_grant'' = Blob (gb_grant b)"

lemma opt_values_inject [simp]:
  "opt_text a = opt_text b \<longleftrightarrow> a = b" "opt_blob c = opt_blob d \<longleftrightarrow> c = d"
  by (cases a; cases b; cases c; cases d; simp)+

text \<open>What the columns of a phase decode to, with every intermediate value.\<close>

definition git_phase_read :: "crypto \<Rightarrow> GitBinding \<Rightarrow> Record \<Rightarrow> GitPhase \<Rightarrow> bool" where
  "git_phase_read C b r p \<longleftrightarrow> (\<exists>state rejection ack kind commit digest bs key receipt phase.
       field r ''state'' = Text state \<and> field r ''target_rejection'' = opt_text rejection \<and>
       field r ''acknowledgement'' = opt_text ack \<and> field r ''observed_ref_kind'' = opt_text kind \<and>
       field r ''observed_commit'' = opt_text commit \<and> field r ''receipt_digest'' = opt_text digest \<and>
       field r ''receipt_bytes'' = opt_blob bs \<and> field r ''receipt_key_id'' = opt_text key \<and>
       git_frozen_receipt C (ga_operation_id (gb_authorization b)) state digest bs key = Inr receipt \<and>
       decode_phase state rejection ack kind commit = Inr phase \<and>
       (case receipt of None \<Rightarrow> p = phase
      | Some receipt \<Rightarrow> \<exists>s. git_phase_statement b phase = Some s \<and>
          git_decode (fr_bytes receipt) = Inr (fr_key_id receipt, s) \<and> p = GFinalized s receipt))"

lemma decode_record_read: "decode_record C r b = Inr p \<longleftrightarrow> git_binding_held r b \<and> git_phase_read C b r p"
proof -
  have bind: "try_all (\<lambda>(field, expected). rbind (row_get from_text r field) (\<lambda>v. require (v = expected) OperationIdentityConflict))
       (binding_fields b) = Inr u \<longleftrightarrow> list_all (\<lambda>(f, v). field r f = Text v) (binding_fields b)" for u
    by (auto simp: list_all_iff rbind_eq_Inr split: prod.splits)
  have fin: "(case receipt of
       Some receipt \<Rightarrow>
         rbind (ok_or InvalidPersistedState (git_phase_statement b phase)) (\<lambda>statement.
         rbind (map_err GReceipt (git_decode (fr_bytes receipt))) (\<lambda>(key_id, decoded_statement).
         if decoded_statement \<noteq> statement \<or> key_id \<noteq> fr_key_id receipt then Inl InvalidPersistedState
         else Inr (GFinalized statement receipt)))
     | None \<Rightarrow> Inr phase) = Inr p \<longleftrightarrow>
     (case receipt of None \<Rightarrow> p = phase
      | Some receipt \<Rightarrow> \<exists>s. git_phase_statement b phase = Some s \<and>
          git_decode (fr_bytes receipt) = Inr (fr_key_id receipt, s) \<and> p = GFinalized s receipt)" for receipt phase
    by (auto simp: rbind_eq_Inr split: option.splits prod.splits if_splits)
  show ?thesis
    unfolding decode_record_def rbind_eq_Inr bind row_get_iff git_binding_held_def git_phase_read_def
    by (auto simp: rbind_eq_Inr fin)
qed

lemma git_phase_read_iff: "git_phase_read C b r p \<longleftrightarrow> git_phase_fields r p \<and> git_phase_valid C b p" (is "?L = ?R")
proof
  assume ?L
  then obtain state receipt phase where st: "field r ''state'' = Text state"
    and fs: "field r ''target_rejection'' = opt_text (git_rejection_of phase)"
      "field r ''acknowledgement'' = opt_text (map_option ack_as_str (git_acknowledgement_of phase))"
      "field r ''observed_ref_kind'' = opt_text (map_option observed_kind (git_observed_of phase))"
      "field r ''observed_commit'' = opt_text (Option.bind (git_observed_of phase) ref_commit)"
      "field r ''receipt_digest'' = opt_text (map_option fr_digest receipt)"
      "field r ''receipt_bytes'' = opt_blob (map_option fr_bytes receipt)"
      "field r ''receipt_key_id'' = opt_text (map_option fr_key_id receipt)"
    and rec: "state = ''finalized'' \<longleftrightarrow> receipt \<noteq> None" "pred_option (\<lambda>r. receipt_digest_hex C (fr_bytes r) = fr_digest r \<and>
        fr_operation_id r = ga_operation_id (gb_authorization b)) receipt"
    and ph: "git_receipt_of phase = None" "state = git_state_text phase \<or> state = ''finalized'' \<and> git_observed_of phase \<noteq> None"
      "pred_option ref_valid (git_observed_of phase)"
    and p: "case receipt of None \<Rightarrow> p = phase
      | Some receipt \<Rightarrow> \<exists>s. git_phase_statement b phase = Some s \<and>
          git_decode (fr_bytes receipt) = Inr (fr_key_id receipt, s) \<and> p = GFinalized s receipt"
    unfolding git_phase_read_def git_frozen_receipt_iff decode_phase_iff by blast
  show ?R
  proof (cases receipt)
    case None
    then have eq: "p = phase" "state = git_state_text p" using p rec(1) ph(2) by auto
    have "git_phase_valid C b p" using ph(1,3) unfolding eq(1) by (cases phase) simp_all
    with st fs ph(1) show ?thesis
      unfolding eq by (simp add: git_phase_fields_def git_phase_columns_def None)
  next
    case (Some rc)
    then obtain s where s: "git_phase_statement b phase = Some s"
      "git_decode (fr_bytes rc) = Inr (fr_key_id rc, s)" "p = GFinalized s rc" using p by auto
    then obtain a ob where phase: "phase = GObserved a ob"
      using ph(1) by (cases phase) (auto simp: git_phase_statement_def)
    have "gs_acknowledgement s = a" "gs_observed s = ob"
      using s(1) by (auto simp: phase git_phase_statement_def)
    with st fs rec ph s show ?thesis
      by (simp add: git_phase_fields_def git_phase_columns_def Some phase)
  qed
next
  assume R: ?R
  let ?phase = "case p of GFinalized s receipt \<Rightarrow> GObserved (gs_acknowledgement s) (gs_observed s) | _ \<Rightarrow> p"
  show ?L
    unfolding git_phase_read_def
    apply (rule exI [of _ "git_state_text p"], rule exI [of _ "git_rejection_of p"],
        rule exI [of _ "map_option ack_as_str (git_acknowledgement_of p)"],
        rule exI [of _ "map_option observed_kind (git_observed_of p)"],
        rule exI [of _ "Option.bind (git_observed_of p) ref_commit"],
        rule exI [of _ "map_option fr_digest (git_receipt_of p)"], rule exI [of _ "map_option fr_bytes (git_receipt_of p)"],
        rule exI [of _ "map_option fr_key_id (git_receipt_of p)"], rule exI [of _ "git_receipt_of p"], rule exI [of _ ?phase])
    unfolding git_frozen_receipt_iff decode_phase_iff
    using R by (cases p) (auto simp: git_phase_fields_def git_phase_columns_def)
qed

lemma decode_record_iff:
  "decode_record C r b = Inr p \<longleftrightarrow> git_binding_held r b \<and> git_phase_fields r p \<and> git_phase_valid C b p"
  by (simp add: decode_record_read git_phase_read_iff)

lemma field_git_empty:
  assumes "f \<in> set GIT_COLUMNS"
  shows "field (git_empty ident) f = (if f = ''operation_id'' then Text ident else Null)"
proof -
  let ?base = "\<lparr>row_values = replicate (length GIT_COLUMNS) Null, row_table = Git\<rparr>"
  have "row_wf ?base" by (simp add: row_wf_def)
  moreover have "field ?base f = Null"
    using position_less [OF assms] by (simp add: field_def row_index_def)
  ultimately show ?thesis
    by (simp add: git_empty_def row.get_put GIT_COLUMNS_def)
qed

lemma git_empty_ok: "row_ok Git (git_empty ident)" "has_id ident (git_empty ident)"
proof -
  show "has_id ident (git_empty ident)"
    by (simp add: has_id_def field_git_empty GIT_COLUMNS_def)
  then show "row_ok Git (git_empty ident)"
    by (auto simp: row_ok_def git_empty_def row_wf_def row_set_def)
qed

lemmas git_write_columns = git_binding_columns_def git_phase_columns_def git_attempt_columns_def
  git_rejection_columns_def git_response_columns_def git_observation_columns_def git_receipt_columns_def

lemma writes_git [simp]:
  "writes_to Git (git_binding_columns b @ git_phase_columns p)" "writes_to Git (git_binding_columns b)"
  "writes_to Git git_attempt_columns" "writes_to Git (git_rejection_columns rejection)"
  "writes_to Git (git_response_columns a)" "writes_to Git (git_observation_columns a k c)"
  "writes_to Git (git_receipt_columns bs dg key)"
  by (simp_all add: writes_to_def git_write_columns GIT_COLUMNS_def Let_def)

lemma git_row_field: "field (git_row b p) f =
    (case map_of (rev (git_binding_columns b @ git_phase_columns p)) f of
       None \<Rightarrow> field (git_empty (ga_operation_id (gb_authorization b))) f | Some v \<Rightarrow> v)"
  unfolding git_row_def by (rule field_set_columns [OF git_empty_ok(1) writes_git(1)])

lemma git_row_ok: "row_ok Git (git_row b p)" "has_id (ga_operation_id (gb_authorization b)) (git_row b p)"
  using set_columns_ok [OF git_empty_ok(1) writes_git(1)] git_empty_ok(2) by (simp_all add: git_row_def)

lemma git_row_held: "git_binding_held (git_row b p) b" "git_phase_fields (git_row b p) p"
  by (simp_all add: git_binding_held_def git_phase_fields_def binding_fields_def git_row_field git_write_columns Let_def
      field_git_empty GIT_COLUMNS_def)

lemma git_row_unique:
  assumes "row_ok Git r" "git_binding_held r b" "git_phase_fields r p"
  shows "r = git_row b p"
proof (rule row_eqI)
  fix f assume "f \<in> set (columns (row_table (git_row b p)))"
  then have f: "f \<in> set GIT_COLUMNS" using git_row_ok(1) [of b p] by (simp add: row_ok_def)
  have "list_all (\<lambda>f. field r f = field (git_row b p) f) GIT_COLUMNS"
    using assms(2,3) git_row_held [of b p]
    by (simp add: git_binding_held_def git_phase_fields_def binding_fields_def git_phase_columns_def Let_def GIT_COLUMNS_def)
  with f show "field r f = field (git_row b p) f" by (simp add: list_all_iff)
qed (use assms(1) git_row_ok(1) [of b p] in \<open>simp_all add: row_ok_def\<close>)

lemma decode_record_canonical:
  assumes "row_ok Git r"
  shows "decode_record C r b = Inr p \<longleftrightarrow> r = git_row b p \<and> git_phase_valid C b p"
  using git_row_unique [OF assms] git_row_held decode_record_iff by blast

text \<open>The rows the writes build.\<close>

lemma set_git_columns:
  assumes "writes_to Git cvs" "list_all (\<lambda>(f, v). field (set_columns cvs (git_row b p)) f = v) (git_phase_columns p')"
    "\<And>f. f \<in> set (map fst (git_binding_columns b)) \<Longrightarrow> f \<noteq> ''state'' \<Longrightarrow> f \<notin> fst ` set cvs"
  shows "set_columns cvs (git_row b p) = git_row b p'"
proof (rule git_row_unique)
  show ok: "row_ok Git (set_columns cvs (git_row b p))"
    by (rule set_columns_ok(1) [OF git_row_ok(1) assms(1)])
  show "git_phase_fields (set_columns cvs (git_row b p)) p'" using assms(2) by (simp add: git_phase_fields_def)
  have keep: "field (set_columns cvs (git_row b p)) f = field (git_row b p) f" if "f \<notin> fst ` set cvs" for f
  proof -
    have "map_of (rev cvs) f = None" using that by (simp add: map_of_eq_None_iff)
    then show ?thesis by (simp add: field_set_columns [OF git_row_ok(1) assms(1)])
  qed
  have "''operation_id'' \<notin> fst ` set cvs" using assms(1) by (auto simp: writes_to_def list_all_iff)
  then show "git_binding_held (set_columns cvs (git_row b p)) b"
    using git_row_held(1) [of b p] assms(3)
    by (simp add: git_binding_held_def binding_fields_def keep git_binding_columns_def Let_def)
qed

lemma git_observation_fields_iff: "git_observation_fields ob = Inr (k, c) \<longleftrightarrow>
    k = observed_kind ob \<and> c = ref_commit ob \<and> ref_valid ob"
  by (cases ob) (auto simp: git_observation_fields_def ref_valid_def)

lemma set_git_rows:
  "set_columns git_attempt_columns (git_row b GAuthorized) = git_row b (GAttempted None)"
  "set_columns (git_rejection_columns rejection) (git_row b GAuthorized) = git_row b (GNotAttempted rejection)"
  "set_columns (git_response_columns a) (git_row b (GAttempted None)) = git_row b (GAttempted (Some a))"
  "set_columns (git_observation_columns a (observed_kind ob) (ref_commit ob)) (git_row b (GAttempted a')) = git_row b (GObserved a ob)"
  "git_phase_statement b (GObserved a ob) = Some s \<Longrightarrow>
     set_columns (git_receipt_columns (fr_bytes rc) (fr_digest rc) (fr_key_id rc)) (git_row b (GObserved a ob)) = git_row b (GFinalized s rc)"
  by (rule set_git_columns; simp add: field_set_columns [OF git_row_ok(1)];
      auto simp add: git_row_field git_write_columns field_git_empty GIT_COLUMNS_def Let_def git_phase_statement_def)+

lemma set_git_empty: "set_columns (git_binding_columns b) (git_empty (ga_operation_id (gb_authorization b))) = git_row b GAuthorized"
proof (rule git_row_unique)
  note fs = field_set_columns [OF git_empty_ok(1) writes_git(2)]
  show "row_ok Git (set_columns (git_binding_columns b) (git_empty (ga_operation_id (gb_authorization b))))"
    by (rule set_columns_ok(1) [OF git_empty_ok(1) writes_git(2)])
  show "git_binding_held (set_columns (git_binding_columns b) (git_empty (ga_operation_id (gb_authorization b)))) b"
    "git_phase_fields (set_columns (git_binding_columns b) (git_empty (ga_operation_id (gb_authorization b)))) GAuthorized"
    by (simp_all add: git_binding_held_def git_phase_fields_def binding_fields_def git_phase_columns_def fs Let_def)
      (simp_all add: git_binding_columns_def field_git_empty GIT_COLUMNS_def Let_def)
qed

end
