(* ===== verification/GitHost.thy ===== *)
theory GitHost
  imports GitJournal
begin

text \<open>
  What the Git receiver asks of its host, \<open>src/gateway/git.rs\<close>: custody of the operator's paths and
  bounded runs of the Git executable. The file system and the child processes are parameters:
  a \<open>FileSystem\<close> answers \<open>canonicalize\<close>, \<open>metadata\<close>, \<open>symlink_metadata\<close> and \<open>read_dir\<close> during one check,
  and a \<open>ChildProcess\<close> is what became of one spawned command.
\<close>

section \<open>Paths and metadata\<close>

datatype FileKind = Directory | RegularFile | OtherKind

record Metadata =
  md_kind :: FileKind
  md_uid :: nat
  md_mode :: "32 word"
  md_nlink :: nat

record FileSystem =
  fs_canonicalize :: "Path \<Rightarrow> Path option"
  fs_metadata :: "Path \<Rightarrow> Metadata option"
  fs_symlink_metadata :: "Path \<Rightarrow> Metadata option"
  fs_read_dir :: "Path \<Rightarrow> string option list option"
  fs_geteuid :: nat

definition path_parent :: "Path \<Rightarrow> Path option" where
  "path_parent p = (if path_components p = [] then None else Some (p\<lparr>path_components := butlast (path_components p)\<rparr>))"

text \<open>\<open>path.ancestors().skip(1)\<close>: the proper ancestors, nearest first.\<close>

definition path_ancestors :: "Path \<Rightarrow> Path list" where
  "path_ancestors p = map (\<lambda>n. p\<lparr>path_components := take n (path_components p)\<rparr>) (rev [0 ..< length (path_components p)])"

definition path_join :: "Path \<Rightarrow> string \<Rightarrow> Path" where
  "path_join p name = p\<lparr>path_components := path_components p @ [name]\<rparr>"

definition path_text_valid :: "Path \<Rightarrow> bool" where
  "path_text_valid p = list_all (list_all (\<lambda>b. is_ascii_alphanumeric b \<or> b \<in> set (as_bytes ''/._-''))) (map as_bytes (path_components p))"

section \<open>Custody\<close>

definition TREE_ENTRIES_MAX :: nat where
  "TREE_ENTRIES_MAX = 100000"

definition ancestor_trusted :: "FileSystem \<Rightarrow> Path \<Rightarrow> bool" where
  "ancestor_trusted fs ancestor =
     (case fs_symlink_metadata fs ancestor of
        None \<Rightarrow> False
      | Some metadata \<Rightarrow>
          let owner = md_uid metadata; sticky_root = (owner = 0 \<and> md_mode metadata AND 512 \<noteq> 0) in
          \<not> (md_kind metadata \<noteq> Directory \<or> (owner \<noteq> 0 \<and> owner \<noteq> fs_geteuid fs)
             \<or> (md_mode metadata AND 18 \<noteq> 0 \<and> \<not> sticky_root)))"

definition trusted_ancestors :: "FileSystem \<Rightarrow> Path \<Rightarrow> (GitError, unit) result" where
  "trusted_ancestors fs path = try_all (\<lambda>ancestor. require (ancestor_trusted fs ancestor) Custody) (path_ancestors path)"

text \<open>
  The walk over a repository: \<open>pending\<close> is the stack, its top at the head; the bound on visited and
  pending entries ends the loop on every file system.
\<close>

fun push_entries :: "Path \<Rightarrow> nat \<Rightarrow> nat \<Rightarrow> string option list \<Rightarrow> (Path \<times> nat) list \<Rightarrow> (GitError, (Path \<times> nat) list) result" where
  "push_entries path depth visited [] pending = Inr pending"
| "push_entries path depth visited (entry # entries) pending =
     (if length pending + visited \<ge> TREE_ENTRIES_MAX then Inl Custody
      else case entry of
        None \<Rightarrow> Inl Custody
      | Some name \<Rightarrow> push_entries path depth visited entries ((path_join path name, depth + 1) # pending))"

definition entry_private :: "FileSystem \<Rightarrow> Metadata \<Rightarrow> bool" where
  "entry_private fs metadata \<longleftrightarrow> md_uid metadata = fs_geteuid fs \<and> md_mode metadata AND 18 = 0"

function private_walk :: "FileSystem \<Rightarrow> (Path \<times> nat) list \<Rightarrow> nat \<Rightarrow> (GitError, unit) result" where
  "private_walk fs [] visited_entries = Inr ()"
| "private_walk fs ((path, depth) # pending) visited_entries =
     (let visited = visited_entries + 1 in
      if visited > TREE_ENTRIES_MAX \<or> depth > 32 then Inl Custody
      else case fs_symlink_metadata fs path of
        None \<Rightarrow> Inl Custody
      | Some metadata \<Rightarrow>
          if \<not> entry_private fs metadata then Inl Custody
          else if md_kind metadata = Directory then
            (case fs_read_dir fs path of
               None \<Rightarrow> Inl Custody
             | Some entries \<Rightarrow>
                 (case push_entries path depth visited entries pending of
                    Inl e \<Rightarrow> Inl e
                  | Inr pending \<Rightarrow> private_walk fs pending visited))
          else if md_kind metadata \<noteq> RegularFile \<or> md_nlink metadata \<noteq> 1 then Inl Custody
          else private_walk fs pending visited)"
  by pat_completeness auto
termination
  by (relation "measure (\<lambda>(fs, pending, visited). TREE_ENTRIES_MAX - visited)") auto

definition private_tree :: "FileSystem \<Rightarrow> Path \<Rightarrow> (GitError, unit) result" where
  "private_tree fs root = private_walk fs [(root, 0)] 0"

definition require_custody_of :: "FileSystem \<Rightarrow> Path \<Rightarrow> (GitError, unit) result" where
  "require_custody_of fs repository =
     rbind (ok_or Custody (path_parent repository)) (\<lambda>parent.
     rbind (ok_or Custody (fs_symlink_metadata fs parent)) (\<lambda>metadata.
     if md_kind metadata \<noteq> Directory \<or> md_uid metadata \<noteq> fs_geteuid fs \<or> md_mode metadata AND 4095 \<noteq> 448
     then Inl Custody
     else rbind (trusted_ancestors fs repository) (\<lambda>_. private_tree fs repository)))"

definition require_custody :: "FileSystem \<Rightarrow> GitReceiver \<Rightarrow> (GitError, unit) result" where
  "require_custody fs receiver = try_all (require_custody_of fs) [gr_sender receiver, gr_receiver receiver]"

definition executable_trusted :: "FileSystem \<Rightarrow> Path \<Rightarrow> Metadata \<Rightarrow> bool" where
  "executable_trusted fs executable metadata \<longleftrightarrow>
     \<not> (path_components executable = [] \<or> last (path_components executable) \<noteq> ''git''
        \<or> md_kind metadata \<noteq> RegularFile \<or> md_mode metadata AND 18 \<noteq> 0
        \<or> (md_uid metadata \<noteq> 0 \<and> md_uid metadata \<noteq> fs_geteuid fs))"

definition git_receiver_new ::
    "FileSystem \<Rightarrow> nat \<Rightarrow> Path \<Rightarrow> Path \<Rightarrow> Path \<Rightarrow> string \<Rightarrow> (GitError, GitReceiver) result" where
  "git_receiver_new fs address executable sender receiver repository_id =
     (if \<not> identity_is_valid repository_id then Inl Configuration
      else rbind (try_all (\<lambda>path.
          if \<not> path_absolute path then Inl Custody
          else rbind (ok_or Custody (fs_canonicalize fs path)) (\<lambda>canonical.
            require (canonical = path \<and> path_text_valid path) Custody)) [executable, sender, receiver]) (\<lambda>_.
      rbind (ok_or Custody (fs_metadata fs executable)) (\<lambda>executable_metadata.
      if \<not> executable_trusted fs executable executable_metadata then Inl Custody
      else rbind (trusted_ancestors fs executable) (\<lambda>_.
      if sender = receiver then Inl Configuration
      else
        let new_receiver = \<lparr>gr_address = address, gr_executable = executable, gr_sender = sender,
              gr_receiver = receiver, gr_repository_id = repository_id\<rparr> in
        rbind (require_custody fs new_receiver) (\<lambda>_. Inr new_receiver)))))"

section \<open>Bounded commands\<close>

definition OUTPUT_MAX :: nat where
  "OUTPUT_MAX = 16 * 1024"

text \<open>
  A stream answers successive reads; each read fills at most the 1024 bytes of the buffer. An empty
  answer is the end of the stream.
\<close>

type_synonym byte_stream = "nat \<Rightarrow> (unit, bytes) result"

function read_loop :: "byte_stream \<Rightarrow> nat \<Rightarrow> bytes \<Rightarrow> (GitError, bytes) result" where
  "read_loop stream i acc =
     (case stream i of
        Inl _ \<Rightarrow> Inl Unavailable
      | Inr chunk \<Rightarrow>
          let buffer = take 1024 chunk; count = length buffer in
          if count = 0 then Inr acc
          else if count > OUTPUT_MAX - length acc then Inl Unavailable
          else read_loop stream (Suc i) (acc @ buffer))"
  by pat_completeness auto
termination
proof (relation "measure (\<lambda>(stream, i, acc). OUTPUT_MAX - length acc)", goal_cases)
  case (2 stream i acc chunk buffer count)
  then have "length buffer > 0" "length buffer \<le> OUTPUT_MAX - length acc" by auto
  then have "OUTPUT_MAX - (length acc + length buffer) < OUTPUT_MAX - length acc" by linarith
  then show ?case by simp
qed simp

declare read_loop.simps [simp del]

definition read_bounded :: "byte_stream \<Rightarrow> (GitError, bytes) result" where
  "read_bounded stream = read_loop stream 0 []"

record CommandOutput =
  co_status :: "int option"
  co_stdout :: bytes

definition status_success :: "int option \<Rightarrow> bool" where
  "status_success status \<longleftrightarrow> status = Some 0"

record ChildProcess =
  cp_spawned :: bool
  cp_id :: "nat option"
  cp_stdout :: byte_stream
  cp_stderr :: byte_stream
  cp_timed_out :: bool
  cp_wait :: "(unit, int option) result"

text \<open>\<open>i32::try_from(id).ok().and_then(Pid::from_raw)\<close>.\<close>

definition child_pid :: "nat option \<Rightarrow> nat option" where
  "child_pid pid = (case pid of None \<Rightarrow> None | Some n \<Rightarrow> if n < 2 ^ 31 \<and> n \<noteq> 0 then Some n else None)"

definition run_bounded :: "ChildProcess \<Rightarrow> (GitError, CommandOutput) result" where
  "run_bounded child =
     (if \<not> cp_spawned child then Inl Unavailable
      else rbind (ok_or Unavailable (child_pid (cp_id child))) (\<lambda>_.
      if cp_timed_out child then Inl Unavailable
      else rbind (read_bounded (cp_stdout child)) (\<lambda>stdout.
        rbind (read_bounded (cp_stderr child)) (\<lambda>_.
        rbind (map_err (\<lambda>_. Unavailable) (cp_wait child)) (\<lambda>status.
        Inr \<lparr>co_status = status, co_stdout = stdout\<rparr>)))))"

section \<open>Bounded output\<close>

text \<open>The chunks of a stream up to its end.\<close>

inductive stream_ends :: "byte_stream \<Rightarrow> nat \<Rightarrow> bytes \<Rightarrow> bool" for stream where
  stop: "stream i = Inr [] \<Longrightarrow> stream_ends stream i []"
| more: "stream i = Inr chunk \<Longrightarrow> chunk \<noteq> [] \<Longrightarrow> stream_ends stream (Suc i) rest \<Longrightarrow>
    stream_ends stream i (take 1024 chunk @ rest)"

lemma read_loop_step:
  assumes "stream i = Inr chunk"
  shows "read_loop stream i acc = (if chunk = [] then Inr acc
      else if length (take 1024 chunk) > OUTPUT_MAX - length acc then Inl Unavailable
      else read_loop stream (Suc i) (acc @ take 1024 chunk))"
    "stream_ends stream i r \<longleftrightarrow> (if chunk = [] then r = []
      else \<exists>rest. stream_ends stream (Suc i) rest \<and> r = take 1024 chunk @ rest)"
  subgoal using assms by (subst read_loop.simps) (simp add: Let_def)
  subgoal using assms by (subst stream_ends.simps) auto
  done

lemma read_loop_iff:
  assumes "length acc \<le> OUTPUT_MAX"
  shows "read_loop stream i acc = Inr bs \<longleftrightarrow>
    (\<exists>rest. stream_ends stream i rest \<and> bs = acc @ rest \<and> length bs \<le> OUTPUT_MAX)"
  using assms
proof (induction stream i acc rule: read_loop.induct)
  case (1 stream i acc)
  show ?case
  proof (cases "stream i")
    case (Inl u)
    then show ?thesis by (subst read_loop.simps, subst stream_ends.simps) simp
  next
    case (Inr chunk)
    note step = read_loop_step [of stream i chunk, OF Inr]
    show ?thesis
    proof (cases "chunk \<noteq> [] \<and> \<not> length (take 1024 chunk) > OUTPUT_MAX - length acc")
      case True
      moreover have "length (acc @ take 1024 chunk) \<le> OUTPUT_MAX"
        using True "1.prems" by (simp add: not_less le_diff_conv2 add.commute del: length_take)
      ultimately show ?thesis
        using "1.IH" [OF Inr refl refl] by (auto simp: step)
    next
      case False
      then have "chunk \<noteq> [] \<Longrightarrow> \<not> length (acc @ take 1024 chunk @ rest) \<le> OUTPUT_MAX" for rest
        using "1.prems" by (simp del: length_take)
      with False "1.prems" show ?thesis by (auto simp: step simp del: length_take)
    qed
  qed
qed

section \<open>What custody guarantees\<close>

inductive below :: "FileSystem \<Rightarrow> Path \<Rightarrow> Path \<Rightarrow> bool" for fs where
  here: "below fs p p"
| child: "fs_symlink_metadata fs p = Some md \<Longrightarrow> md_kind md = Directory \<Longrightarrow> fs_read_dir fs p = Some entries \<Longrightarrow>
    Some name \<in> set entries \<Longrightarrow> below fs (path_join p name) q \<Longrightarrow> below fs p q"

definition held_privately :: "FileSystem \<Rightarrow> Path \<Rightarrow> bool" where
  "held_privately fs p \<longleftrightarrow> (\<exists>md. fs_symlink_metadata fs p = Some md \<and> md_uid md = fs_geteuid fs \<and>
     md_mode md AND 18 = 0 \<and> (md_kind md = Directory \<or> md_kind md = RegularFile \<and> md_nlink md = 1))"

lemma push_entries_Inr:
  assumes "push_entries path depth visited entries pending = Inr pending'"
  shows "set pending \<subseteq> set pending'" "Some name \<in> set entries \<Longrightarrow> (path_join path name, depth + 1) \<in> set pending'"
  using assms by (induction path depth visited entries pending rule: push_entries.induct)
    (auto split: if_splits option.splits)

lemma private_walk_sound:
  assumes "private_walk fs pending visited = Inr ()" "(p, d) \<in> set pending" "below fs p q"
  shows "held_privately fs q"
  using assms
proof (induction fs pending visited arbitrary: p d q rule: private_walk.induct)
  case (2 fs path depth pending visited)
  obtain md where md: "fs_symlink_metadata fs path = Some md" "entry_private fs md" and lim: "\<not> (visited + 1 > TREE_ENTRIES_MAX \<or> depth > 32)"
    using "2.prems"(1) by (auto simp: Let_def split: if_splits option.splits)
  show ?case
  proof (cases "md_kind md = Directory")
    case True
    then obtain entries pending' where e: "fs_read_dir fs path = Some entries"
      "push_entries path depth (visited + 1) entries pending = Inr pending'" "private_walk fs pending' (visited + 1) = Inr ()"
      using "2.prems"(1) md lim by (auto simp: Let_def split: option.splits sum.splits)
    have ih: "held_privately fs q'" if "(p', d') \<in> set pending'" "below fs p' q'" for p' d' q'
      using "2.IH"(1) [OF refl lim md(1) _ True e(1,2,3) that] md(2) by simp
    show ?thesis
    proof (cases "(p, d) \<in> set pending")
      case True
      with ih "2.prems"(3) push_entries_Inr(1) [OF e(2)] show ?thesis by blast
    next
      case False
      with "2.prems"(2) have p: "p = path" by simp
      from "2.prems"(3) [unfolded p] show ?thesis
      proof cases
        case here
        with md True show ?thesis by (auto simp: held_privately_def entry_private_def)
      next
        case (child md' entries' name)
        with ih [OF push_entries_Inr(2) [OF e(2)]] e(1) show ?thesis by auto
      qed
    qed
  next
    case False
    then have f: "md_kind md = RegularFile" "md_nlink md = 1" "private_walk fs pending (visited + 1) = Inr ()"
      using "2.prems"(1) md lim by (auto simp: Let_def split: if_splits)
    have ih: "held_privately fs q'" if "(p', d') \<in> set pending" "below fs p' q'" for p' d' q'
      using "2.IH"(2) [OF refl lim md(1) _ False _ f(3) that] md(2) f by simp
    show ?thesis
    proof (cases "(p, d) \<in> set pending")
      case False
      with "2.prems"(2) have p: "p = path" by simp
      from "2.prems"(3) [unfolded p] show ?thesis
        using md f by cases (auto simp: held_privately_def entry_private_def)
    qed (use ih "2.prems"(3) in blast)
  qed
qed simp

section \<open>Properties\<close>

text \<open>
  C28. Command output is bounded and exact: reading a stream returns bytes exactly when the stream
  ends and everything it delivered fits in 16 KiB, and then returns precisely what it delivered.
  In every other case, a stream that never ends included, reading returns an error.
\<close>

theorem bounded_output_exact:
  "read_bounded stream = Inr bs \<longleftrightarrow> stream_ends stream 0 bs \<and> length bs \<le> OUTPUT_MAX"
  by (simp add: read_bounded_def read_loop_iff)

text \<open>
  C27. Custody leaves nothing to others: when the check of a receiver succeeds, the parent of each
  repository is a private directory of the running user, every ancestor is held by root or that
  user and not open to writers, and every entry reachable below the repository belongs to the
  user, is closed to other writers and is a directory or a regular file without further links.
\<close>

theorem custody_excludes_others:
  assumes "require_custody fs rc = Inr ()" "repository \<in> {gr_sender rc, gr_receiver rc}" "below fs repository q"
  shows "held_privately fs q \<and>
    (\<forall>a \<in> set (path_ancestors repository). ancestor_trusted fs a) \<and>
    (\<exists>parent md. path_parent repository = Some parent \<and> fs_symlink_metadata fs parent = Some md \<and>
       md_kind md = Directory \<and> md_uid md = fs_geteuid fs \<and> md_mode md AND 4095 = 448)"
proof -
  have "require_custody_of fs repository = Inr ()"
    using assms(1,2) unfolding require_custody_def try_all_eq_Inr by auto
  then show ?thesis
    using private_walk_sound [of fs "[(repository, 0)]" 0 repository 0 q] assms(3)
    by (auto simp: require_custody_of_def rbind_eq_Inr trusted_ancestors_def private_tree_def require_def split: if_splits)
qed

subsection \<open>Witnesses\<close>

definition example_fs :: FileSystem where
  "example_fs = \<lparr>fs_canonicalize = Some, fs_metadata = (\<lambda>p. Some \<lparr>md_kind = RegularFile, md_uid = 0, md_mode = 493, md_nlink = 1\<rparr>),
     fs_symlink_metadata = (\<lambda>p. if path_components p = []
       then Some \<lparr>md_kind = Directory, md_uid = 0, md_mode = 493, md_nlink = 2\<rparr>
       else Some \<lparr>md_kind = Directory, md_uid = 1000, md_mode = 448, md_nlink = 2\<rparr>),
     fs_read_dir = (\<lambda>p. if length (path_components p) = 2 then Some [Some ''objects''] else Some []), fs_geteuid = 1000\<rparr>"

definition example_receiver :: GitReceiver where
  "example_receiver = \<lparr>gr_address = 1, gr_executable = \<lparr>path_absolute = True, path_components = [''git'']\<rparr>,
     gr_sender = \<lparr>path_absolute = True, path_components = [''srv'', ''sender'']\<rparr>,
     gr_receiver = \<lparr>path_absolute = True, path_components = [''srv'', ''receiver'']\<rparr>, gr_repository_id = ''repository-1''\<rparr>"

lemma example_custody: "require_custody example_fs example_receiver = Inr ()"
  by (simp add: require_custody_def require_custody_of_def path_parent_def trusted_ancestors_def path_ancestors_def
      ancestor_trusted_def private_tree_def entry_private_def path_join_def example_fs_def example_receiver_def
      TREE_ENTRIES_MAX_def upt_rec require_def Let_def rbind_def)

theorem custody_excludes_others_witness:
  "held_privately example_fs (path_join (gr_sender example_receiver) ''objects'')"
proof -
  have "below example_fs (gr_sender example_receiver) (path_join (gr_sender example_receiver) ''objects'')"
    by (rule child [OF _ _ _ _ here, of _ _ "\<lparr>md_kind = Directory, md_uid = 1000, md_mode = 448, md_nlink = 2\<rparr>" "[Some ''objects'']"])
      (simp_all add: example_fs_def example_receiver_def)
  from custody_excludes_others [OF example_custody _ this] show ?thesis by blast
qed

end
