(* ===== verification/GitLifecycle.thy ===== *)
theory GitLifecycle
  imports GitJournal
begin

text \<open>
  The Git calls of the journal as a state machine, and its composition with the Kubernetes calls:
  each call makes at most one step of the Git lifecycle on one row, and over any mixture of calls
  of both kinds an identity is given at most one dispatch permission.
\<close>

section \<open>One call\<close>

datatype GitCall =
  InsertGit GitBinding
| BeginGitAttempt GitBinding PreparedTransition
| RejectGit GitBinding GitRejection
| RecordGitAcknowledgement GitBinding Acknowledgement
| FreezeGitObservation GitBinding ObservedRef
| CommitGitReceipt GitBinding bytes

fun git_call_binding :: "GitCall \<Rightarrow> GitBinding" where
  "git_call_binding (InsertGit b) = b"
| "git_call_binding (BeginGitAttempt b _) = b"
| "git_call_binding (RejectGit b _) = b"
| "git_call_binding (RecordGitAcknowledgement b _) = b"
| "git_call_binding (FreezeGitObservation b _) = b"
| "git_call_binding (CommitGitReceipt b _) = b"

abbreviation gb_operation_id :: "GitBinding \<Rightarrow> string" where
  "gb_operation_id b \<equiv> ga_operation_id (gb_authorization b)"

fun git_perform ::
    "crypto \<Rightarrow> Delivery \<Rightarrow> bool \<Rightarrow> GitCall \<Rightarrow> (Db, GatewayError, GitDispatchPermission option) action" where
  "git_perform C d w (InsertGit b) = abind (insert_git C d b w) (\<lambda>_. areturn None)"
| "git_perform C d w (BeginGitAttempt b prepared) = abind (begin_git_attempt C d b prepared w) (\<lambda>p. areturn (Some p))"
| "git_perform C d w (RejectGit b rejection) = abind (reject_git C d b rejection w) (\<lambda>_. areturn None)"
| "git_perform C d w (RecordGitAcknowledgement b a) = abind (record_git_acknowledgement C d b a w) (\<lambda>_. areturn None)"
| "git_perform C d w (FreezeGitObservation b ob) = abind (freeze_git_observation C d b ob w) (\<lambda>_. areturn None)"
| "git_perform C d w (CommitGitReceipt b bs) = abind (commit_git_receipt C d b bs w) (\<lambda>_. areturn None)"

text \<open>The lifecycle of a transition under one binding.\<close>

inductive git_lifecycle :: "crypto \<Rightarrow> GitBinding \<Rightarrow> GitPhase option \<Rightarrow> GitPhase option \<Rightarrow> bool" for C b where
  git_admit: "git_lifecycle C b None (Some GAuthorized)"
| git_reject: "git_lifecycle C b (Some GAuthorized) (Some (GNotAttempted rejection))"
| git_attempt: "git_lifecycle C b (Some GAuthorized) (Some (GAttempted None))"
| git_respond: "git_lifecycle C b (Some (GAttempted None)) (Some (GAttempted (Some a)))"
| git_observe: "ref_valid ob \<Longrightarrow> a' = (case a of None \<Rightarrow> AckUnknown | Some x \<Rightarrow> x) \<Longrightarrow>
    git_lifecycle C b (Some (GAttempted a)) (Some (GObserved a' ob))"
| git_finalize: "ref_valid ob \<Longrightarrow> git_phase_statement b (GObserved a ob) = Some s \<Longrightarrow> git_decode (fr_bytes rc) = Inr (fr_key_id rc, s) \<Longrightarrow>
    receipt_digest_hex C (fr_bytes rc) = fr_digest rc \<Longrightarrow> fr_operation_id rc = ga_operation_id (gb_authorization b) \<Longrightarrow>
    git_lifecycle C b (Some (GObserved a ob)) (Some (GFinalized s rc))"

inductive_cases git_lifecycle_GNotAttempted: "git_lifecycle C b (Some (GNotAttempted rejection)) x"
inductive_cases git_lifecycle_GFinalized: "git_lifecycle C b (Some (GFinalized s rc)) x"
inductive_cases git_lifecycle_cases: "git_lifecycle C b p x"

text \<open>The row of an identity holds the phase under the binding.\<close>

definition git_holds :: "crypto \<Rightarrow> Db \<Rightarrow> GitBinding \<Rightarrow> GitPhase option \<Rightarrow> bool" where
  "git_holds C db b p \<longleftrightarrow> row_of Git db (gb_operation_id b) = map_option (git_row b) p \<and> pred_option (git_phase_valid C b) p"

lemma git_record_iff:
  "git_record b db = Inr (Some r) \<longleftrightarrow> row_of Git db (gb_operation_id b) = Some r \<and> row_bounded r"
  "git_record b db = Inr None \<longleftrightarrow> row_of Git db (gb_operation_id b) = None \<and> row_of Kubernetes db (gb_operation_id b) = None"
  by (auto simp: git_record_def Let_def record_read_git_def record_read_def rbind_eq_Inr read_table_iff split: option.splits if_splits)

lemma git_write_iff:
  assumes "db_ok db"
  shows "git_write C b w db = Inr (r, p) \<longleftrightarrow>
    w \<and> git_holds C db b (Some p) \<and> r = git_row b p \<and> row_bounded r"
proof -
  have "row_of Git db (gb_operation_id b) = Some r \<Longrightarrow> row_ok Git r"
    using db_row_ok [OF assms] by blast
  then show ?thesis
    by (auto simp: git_write_def rbind_eq_Inr git_record_iff decode_record_canonical git_holds_def)
qed

lemma git_operation_iff:
  assumes "db_ok db"
  shows "git_operation C b db = Inr (Some p) \<longleftrightarrow> git_holds C db b (Some p) \<and> row_bounded (git_row b p)"
    "git_operation C b db = Inr None \<longleftrightarrow> row_of Git db (gb_operation_id b) = None \<and> row_of Kubernetes db (gb_operation_id b) = None"
proof -
  have ok: "row_of Git db (gb_operation_id b) = Some r \<Longrightarrow> row_ok Git r" for r
    using db_row_ok [OF assms] by blast
  have "transpose_map (\<lambda>record. decode_record C record b) m = Inr (Some p) \<longleftrightarrow> (\<exists>r. m = Some r \<and> decode_record C r b = Inr p)"
    and none: "transpose_map (\<lambda>record. decode_record C record b) m = Inr None \<longleftrightarrow> m = None" for m
    by (cases m; auto simp: rbind_eq_Inr)+
  then have "git_operation C b db = Inr (Some p) \<longleftrightarrow> (\<exists>r. git_record b db = Inr (Some r) \<and> decode_record C r b = Inr p)"
    by (auto simp: git_operation_def rbind_eq_Inr)
  then show "git_operation C b db = Inr (Some p) \<longleftrightarrow> git_holds C db b (Some p) \<and> row_bounded (git_row b p)"
    using ok by (auto simp: git_record_iff decode_record_canonical git_holds_def)
  show "git_operation C b db = Inr None \<longleftrightarrow> row_of Git db (gb_operation_id b) = None \<and> row_of Kubernetes db (gb_operation_id b) = None"
    unfolding git_operation_def rbind_eq_Inr none by (auto simp: git_record_iff)
qed

lemma git_loads_agree: "git_load_on C b db = git_operation C b db"
  by (auto simp: git_load_on_def git_operation_def git_record_def Let_def rbind_def split: sum.splits option.splits)

text \<open>A call that reaches the store moves its own row along the lifecycle and nothing else.\<close>

definition git_effect :: "crypto \<Rightarrow> GitBinding \<Rightarrow> GitPhase option \<Rightarrow> GitPhase \<Rightarrow> Db \<Rightarrow> Db \<Rightarrow> bool" where
  "git_effect C b p p' db db' \<longleftrightarrow> git_holds C db b p \<and> git_phase_valid C b p' \<and> git_lifecycle C b p (Some p') \<and>
     stored Git (gb_operation_id b) (git_row b p') db db'"

lemma git_replace_cases:
  assumes "db_ok db" "git_holds C db b p" "git_phase_valid C b p'" "git_lifecycle C b p (Some p')"
    "replace d (map_option (git_row b) p) (git_row b p') db = (res, db')"
  shows "(db' = db \<and> res \<noteq> Inr ()) \<or> git_effect C b p p' db db'"
  using replace_cases [OF assms(1) git_row_ok assms(5)] assms(2-4) by (auto simp: git_effect_def)

lemma insert_git_cases:
  assumes ok: "db_ok db" and m: "insert_git C d b w db = (res, db')"
  shows "(db' = db \<and> (\<forall>p. res = Inr p \<longrightarrow> git_operation C b db = Inr (Some p))) \<or> (git_effect C b None GAuthorized db db' \<and> (\<forall>p. res = Inr p \<longrightarrow> p = GAuthorized))"
proof (cases "w \<and> git_operation C b db = Inr None")
  case True
  then have h: "git_holds C db b None" using git_operation_iff(2) [OF ok] by (simp add: git_holds_def)
  obtain r1 db1 where rep: "replace d None (git_row b GAuthorized) db = (r1, db1)" by fastforce
  have "res = rbind r1 (\<lambda>_. Inr GAuthorized)" "db' = db1"
    using m True rep by (auto simp: insert_git_def set_git_empty abind_def split: sum.splits)
  with git_replace_cases [OF ok h, of GAuthorized d r1 db1] rep show ?thesis
    by (cases r1) (auto intro: git_lifecycle.intros)
next
  case False
  with m show ?thesis
    by (auto simp: insert_git_def abind_def split: if_splits sum.splits option.splits)
qed

text \<open>The writes from a held phase share their shape.\<close>

lemma git_update_cases:
  assumes ok: "db_ok db"
    and m: "abind (reads (git_write C b w)) k db = (res, db')"
    and k: "\<And>p. git_holds C db b (Some p) \<Longrightarrow> k (git_row b p, p) db = (res, db') \<Longrightarrow>
      (db' = db \<and> (\<forall>x. res \<noteq> Inr x)) \<or>
      (\<exists>p' r1. R p p' \<and> git_phase_valid C b p' \<and> git_lifecycle C b (Some p) (Some p') \<and> (r1 \<noteq> Inr () \<longrightarrow> (\<forall>x. res \<noteq> Inr x)) \<and>
         replace d (Some (git_row b p)) (git_row b p') db = (r1, db'))"
  shows "(db' = db \<and> (\<forall>x. res \<noteq> Inr x)) \<or> (\<exists>p p'. w \<and> R p p' \<and> git_effect C b (Some p) p' db db')"
proof (cases "git_write C b w db")
  case (Inl e)
  with m show ?thesis by (auto simp: abind_def)
next
  case (Inr y)
  obtain r p where y: "y = (r, p)" by fastforce
  from Inr have h: "w" "git_holds C db b (Some p)" "r = git_row b p"
    using git_write_iff [OF ok] unfolding y by blast+
  then have "k (git_row b p, p) db = (res, db')"
    using m Inr y by (simp add: abind_def)
  from k [OF h(2) this] consider "db' = db" "\<forall>x. res \<noteq> Inr x"
    | p' r1 where "R p p'" "git_phase_valid C b p'" "git_lifecycle C b (Some p) (Some p')" "r1 \<noteq> Inr () \<longrightarrow> (\<forall>x. res \<noteq> Inr x)"
      "replace d (map_option (git_row b) (Some p)) (git_row b p') db = (r1, db')" by auto
  then show ?thesis
  proof cases
    case 2
    with git_replace_cases [OF ok h(2) 2(2,3,5)] h(1) show ?thesis by blast
  qed simp
qed

lemma begin_git_attempt_cases:
  assumes ok: "db_ok db" and m: "begin_git_attempt C d b prepared w db = (res, db')"
  shows "(db' = db \<and> (\<forall>x. res \<noteq> Inr x)) \<or>
    (git_effect C b (Some GAuthorized) (GAttempted None) db db' \<and> pt_authorization prepared = gb_authorization b \<and>
     (\<forall>x. res = Inr x \<longrightarrow> x = \<lparr>gp_prepared = prepared\<rparr>))"
proof (cases "w \<and> pt_authorization prepared = gb_authorization b")
  case False
  with m show ?thesis by (auto simp: begin_git_attempt_def)
next
  case True
  with m have m': "abind (reads (git_write C b w)) (\<lambda>(original, phase).
        if phase \<noteq> GAuthorized then throw InvalidTransition
        else abind (replace d (Some original) (set_columns git_attempt_columns original)) (\<lambda>_.
          areturn \<lparr>gp_prepared = prepared\<rparr>)) db = (res, db')" by (simp add: begin_git_attempt_def)
  have "(db' = db \<and> (\<forall>x. res \<noteq> Inr x)) \<or>
      (\<exists>p p'. w \<and> (p = GAuthorized \<and> p' = GAttempted None) \<and> git_effect C b (Some p) p' db db')"
  proof (rule git_update_cases [OF ok m', where d = d], goal_cases)
    case (1 p)
    then show ?case
      by (cases "replace d (Some (git_row b p)) (git_row b (GAttempted None)) db")
        (auto simp: set_git_rows abind_def git_lifecycle.intros split: if_splits sum.splits)
  qed
  moreover have "res = Inr x \<Longrightarrow> x = \<lparr>gp_prepared = prepared\<rparr>" for x
    using m' by (auto simp: abind_def split: if_splits sum.splits prod.splits)
  ultimately show ?thesis using True by auto
qed

lemma reject_git_cases:
  assumes ok: "db_ok db" and m: "reject_git C d b rejection w db = (res, db')"
  shows "(db' = db \<and> (\<forall>x. res \<noteq> Inr x)) \<or> (\<exists>p p'. w \<and> (p = GAuthorized \<and> p' = GNotAttempted rejection) \<and> git_effect C b (Some p) p' db db')"
proof (rule git_update_cases [OF ok m [unfolded reject_git_def], where d = d], goal_cases)
  case (1 p)
  then show ?case
    by (cases "replace d (Some (git_row b p)) (git_row b (GNotAttempted rejection)) db")
      (auto simp: set_git_rows git_lifecycle.intros split: if_splits)
qed

lemma record_git_acknowledgement_cases:
  assumes ok: "db_ok db" and m: "record_git_acknowledgement C d b a w db = (res, db')"
  shows "(db' = db \<and> (\<forall>x. res \<noteq> Inr x)) \<or> (\<exists>p p'. w \<and> (p = GAttempted None \<and> p' = GAttempted (Some a)) \<and> git_effect C b (Some p) p' db db')"
proof (rule git_update_cases [OF ok m [unfolded record_git_acknowledgement_def], where d = d], goal_cases)
  case (1 p)
  then show ?case
    by (cases "replace d (Some (git_row b p)) (git_row b (GAttempted (Some a))) db")
      (auto simp: set_git_rows git_lifecycle.intros split: if_splits)
qed

lemma freeze_git_observation_cases:
  assumes ok: "db_ok db" and m: "freeze_git_observation C d b ob w db = (res, db')"
  shows "(db' = db \<and> (\<forall>x. res \<noteq> Inr x)) \<or> (\<exists>p p'. w \<and> (\<exists>a. p = GAttempted a \<and> p' = GObserved (case a of None \<Rightarrow> AckUnknown | Some x \<Rightarrow> x) ob) \<and>
    git_effect C b (Some p) p' db db')"
proof (rule git_update_cases [OF ok m [unfolded freeze_git_observation_def], where d = d], goal_cases)
  case (1 p)
  show ?case
  proof (cases "\<exists>a. p = GAttempted a \<and> ref_valid ob")
    case True
    then obtain a where a: "p = GAttempted a" "ref_valid ob" by blast
    have "git_observation_fields ob = Inr (observed_kind ob, ref_commit ob)"
      using a(2) git_observation_fields_iff by blast
    with 1 a show ?thesis
      by (cases "replace d (Some (git_row b p)) (git_row b (GObserved (case a of None \<Rightarrow> AckUnknown | Some x \<Rightarrow> x) ob)) db")
        (auto simp: set_git_rows intro: git_lifecycle.intros)
  next
    case False
    have "\<not> ref_valid ob \<Longrightarrow> \<exists>e. git_observation_fields ob = Inl e"
      by (cases ob) (auto simp: git_observation_fields_def ref_valid_def)
    with False 1(2) show ?thesis by (auto split: GitPhase.splits)
  qed
qed

lemma commit_git_receipt_cases:
  assumes ok: "db_ok db" and m: "commit_git_receipt C d b bs w db = (res, db')"
  shows "(db' = db \<and> (\<forall>x. res \<noteq> Inr x)) \<or> (\<exists>p p'. w \<and> (\<exists>a ob s rc. p = GObserved a ob \<and> p' = GFinalized s rc \<and> fr_bytes rc = bs) \<and>
    git_effect C b (Some p) p' db db')"
proof (rule git_update_cases [OF ok m [unfolded commit_git_receipt_def], where d = d], goal_cases)
  case (1 p)
  show ?case
  proof (cases "\<exists>a ob key s. p = GObserved a ob \<and> git_decode bs = Inr (key, s) \<and> git_phase_statement b p = Some s")
    case True
    then obtain a ob key s where p: "p = GObserved a ob" "git_decode bs = Inr (key, s)" "git_phase_statement b p = Some s" by blast
    let ?rc = "\<lparr>fr_operation_id = gb_operation_id b, fr_bytes = bs, fr_digest = receipt_digest_hex C bs, fr_key_id = key\<rparr>"
    have s: "gs_acknowledgement s = a" "gs_observed s = ob" using p(1,3) by (auto simp: git_phase_statement_def)
    have ob: "ref_valid ob" using 1(1) p(1) by (simp add: git_holds_def)
    have rep: "replace d (Some (git_row b p)) (git_row b (GFinalized s ?rc)) db = (res, db')"
      using 1(2) p set_git_rows(5) [of b a ob s ?rc] by simp
    moreover have "git_lifecycle C b (Some p) (Some (GFinalized s ?rc))"
      using p ob by (auto intro: git_lifecycle.intros)
    moreover have "git_phase_valid C b (GFinalized s ?rc)" using p s ob by simp
    ultimately show ?thesis using p(1) by (cases res) (auto intro!: exI [of _ "GFinalized s ?rc"])
  next
    case False
    with 1(2) show ?thesis
      by (cases p; cases "git_decode bs") (auto split: if_splits)
  qed
qed

definition git_granted :: "GitCall \<Rightarrow> GitDispatchPermission \<Rightarrow> bool" where
  "git_granted call p \<longleftrightarrow> (\<exists>b prepared. call = BeginGitAttempt b prepared \<and> p = \<lparr>gp_prepared = prepared\<rparr> \<and>
     pt_authorization prepared = gb_authorization b)"

lemma git_perform_effect:
  assumes ok: "db_ok db" and m: "git_perform C d w call db = (res, db')"
  shows "db' = db \<and> (\<forall>p. res \<noteq> Inr (Some p)) \<or>
    (\<exists>p p'. git_effect C (git_call_binding call) p p' db db' \<and>
       (\<forall>x. res = Inr (Some x) \<longrightarrow> git_granted call x \<and> p = Some GAuthorized \<and> p' = GAttempted None) \<and>
       (\<forall>a. p' = GAttempted (Some a) \<longrightarrow> call = RecordGitAcknowledgement (git_call_binding call) a))"
proof -
  show ?thesis
  proof (cases call)
    case (InsertGit b)
    then obtain r1 where "insert_git C d b w db = (r1, db')" "\<forall>x. res \<noteq> Inr (Some x)"
      using m by (auto simp: abind_def split: prod.splits sum.splits)
    with insert_git_cases [OF ok] InsertGit show ?thesis by fastforce
  next
    case (BeginGitAttempt b prepared)
    then obtain r1 where r1: "begin_git_attempt C d b prepared w db = (r1, db')" "\<forall>x. res = Inr (Some x) \<longrightarrow> r1 = Inr x"
      using m by (auto simp: abind_def split: prod.splits sum.splits)
    from begin_git_attempt_cases [OF ok r1(1)] show ?thesis
    proof
      assume "db' = db \<and> (\<forall>x. r1 \<noteq> Inr x)"
      with r1(2) show ?thesis by blast
    next
      assume e: "git_effect C b (Some GAuthorized) (GAttempted None) db db' \<and> pt_authorization prepared = gb_authorization b \<and>
        (\<forall>x. r1 = Inr x \<longrightarrow> x = \<lparr>gp_prepared = prepared\<rparr>)"
      with r1(2) have "\<forall>x. res = Inr (Some x) \<longrightarrow> git_granted call x"
        unfolding BeginGitAttempt git_granted_def by blast
      with e BeginGitAttempt show ?thesis by auto
    qed
  next
    case (RejectGit b rejection)
    then obtain r1 where "reject_git C d b rejection w db = (r1, db')" "\<forall>x. res \<noteq> Inr (Some x)"
      using m by (auto simp: abind_def split: prod.splits sum.splits)
    with reject_git_cases [OF ok] RejectGit show ?thesis by fastforce
  next
    case (RecordGitAcknowledgement b a)
    then obtain r1 where "record_git_acknowledgement C d b a w db = (r1, db')" "\<forall>x. res \<noteq> Inr (Some x)"
      using m by (auto simp: abind_def split: prod.splits sum.splits)
    with record_git_acknowledgement_cases [OF ok] RecordGitAcknowledgement show ?thesis by fastforce
  next
    case (FreezeGitObservation b ob)
    then obtain r1 where "freeze_git_observation C d b ob w db = (r1, db')" "\<forall>x. res \<noteq> Inr (Some x)"
      using m by (auto simp: abind_def split: prod.splits sum.splits)
    with freeze_git_observation_cases [OF ok] FreezeGitObservation show ?thesis by fastforce
  next
    case (CommitGitReceipt b bs)
    then obtain r1 where "commit_git_receipt C d b bs w db = (r1, db')" "\<forall>x. res \<noteq> Inr (Some x)"
      using m by (auto simp: abind_def split: prod.splits sum.splits)
    with commit_git_receipt_cases [OF ok] CommitGitReceipt show ?thesis by fastforce
  qed
qed

section \<open>Dispatch\<close>

definition git_dispatched :: "string \<Rightarrow> Db \<Rightarrow> bool" where
  "git_dispatched k db \<longleftrightarrow> (\<exists>r. row_of Git db k = Some r \<and>
     field r ''state'' \<in> Text ` {''apply_started'', ''receiver_observed'', ''finalized''})"

lemma git_row_state: "field (git_row b p) ''state'' = Text (git_state_text p)"
  using git_row_held(2) [of b p] by (simp add: git_phase_fields_def git_phase_columns_def)

lemma git_lifecycle_dispatched:
  assumes "git_lifecycle C b (Some p) (Some p')" "git_state_text p \<in> {''apply_started'', ''receiver_observed'', ''finalized''}"
  shows "git_state_text p' \<in> {''apply_started'', ''receiver_observed'', ''finalized''}"
  using assms by (cases rule: git_lifecycle.cases) auto

lemma git_effect_dispatched:
  assumes "git_effect C b p p' db db'" "git_dispatched k db"
  shows "git_dispatched k db'"
proof (cases "k = gb_operation_id b")
  case True
  with assms obtain q where "p = Some q" "git_state_text q \<in> {''apply_started'', ''receiver_observed'', ''finalized''}"
    by (cases p) (auto simp: git_effect_def git_holds_def git_dispatched_def git_row_state)
  with assms(1) git_lifecycle_dispatched [of C b q p'] True show ?thesis
    by (auto simp: git_effect_def git_dispatched_def stored_def git_row_state)
next
  case False
  with assms show ?thesis by (auto simp: git_effect_def git_dispatched_def stored_def)
qed

lemma git_effect_frame:
  assumes "git_effect C b p p' db db'"
  shows "db_ok db'" "row_of Kubernetes db' = row_of Kubernetes db"
    "k \<noteq> gb_operation_id b \<Longrightarrow> row_of Git db' k = row_of Git db k" "git_holds C db' b (Some p')"
  using assms by (auto simp: git_effect_def stored_def git_holds_def)

abbreviation git_permission_id :: "GitDispatchPermission \<Rightarrow> string" where
  "git_permission_id p \<equiv> ga_operation_id (pt_authorization (gp_prepared p))"

lemma git_granted_fresh:
  assumes "git_granted call x" "git_effect C (git_call_binding call) (Some GAuthorized) (GAttempted None) db db'"
  shows "\<not> git_dispatched (git_permission_id x) db \<and> git_dispatched (git_permission_id x) db'"
  using assms by (auto simp: git_granted_def git_effect_def git_holds_def git_dispatched_def stored_def git_row_state)

interpretation gd: single_dispatch "\<lambda>(d, w, call). git_perform C d w call" git_permission_id git_dispatched db_ok for C
proof (unfold_locales, goal_cases)
  case (1 s c r s')
  then show ?case using git_perform_effect [of s C "fst c" "fst (snd c)" "snd (snd c)" r s'] git_effect_frame(1)
    by (auto split: prod.splits)
next
  case (2 s c r s' k)
  then show ?case using git_perform_effect [of s C "fst c" "fst (snd c)" "snd (snd c)" r s'] git_effect_dispatched
    by (auto split: prod.splits)
next
  case (3 s c p s')
  then show ?case using git_perform_effect [of s C "fst c" "fst (snd c)" "snd (snd c)" "Inr (Some p)" s'] git_granted_fresh
    by (auto split: prod.splits)
qed

section \<open>Both kinds of calls\<close>

text \<open>One journal serves both kinds of operations; a mixed sequence interleaves their calls freely.\<close>

datatype AnyCall = KubernetesCall Call | GitCall bool GitCall

fun any_perform ::
    "crypto \<Rightarrow> Delivery \<times> AnyCall \<Rightarrow> (Db, GatewayError, (DispatchPermission + GitDispatchPermission) option) action" where
  "any_perform C (d, KubernetesCall call) = abind (perform C d call) (\<lambda>p. areturn (map_option Inl p))"
| "any_perform C (d, GitCall w call) = abind (git_perform C d w call) (\<lambda>p. areturn (map_option Inr p))"

definition any_permission_id :: "DispatchPermission + GitDispatchPermission \<Rightarrow> string" where
  "any_permission_id = case_sum (\<lambda>p. vr_operation_id (dp_request p)) git_permission_id"

definition any_dispatched :: "string \<Rightarrow> Db \<Rightarrow> bool" where
  "any_dispatched k db \<longleftrightarrow> dispatched k db \<or> git_dispatched k db"

lemma abind_areturn_run:
  assumes "abind m (\<lambda>p. areturn (g p)) s = (r, s')"
  obtains r1 where "m s = (r1, s')" "r = rbind r1 (\<lambda>p. Inr (g p))"
  using assms by (auto simp: abind_def split: prod.splits sum.splits)

text \<open>What one call of either kind does.\<close>

inductive any_effect :: "crypto \<Rightarrow> AnyCall \<Rightarrow> Db \<Rightarrow> Db \<Rightarrow> bool" for C where
  kubernetes: "effect C call db db' \<Longrightarrow> any_effect C (KubernetesCall call) db db'"
| git: "git_effect C (git_call_binding call) p p' db db' \<Longrightarrow> any_effect C (GitCall w call) db db'"

inductive_cases any_effectE: "any_effect C call db db'"

lemma any_perform_effect:
  assumes "db_ok db" "any_perform C (d, call) db = (r, db')"
  shows "db' = db \<or> any_effect C call db db'"
proof (cases call)
  case (KubernetesCall c)
  then obtain r1 where r1: "perform C d c db = (r1, db')"
    using assms(2) by (auto elim: abind_areturn_run)
  from perform_effect [OF assms(1) r1] KubernetesCall show ?thesis by (auto intro: any_effect.intros)
next
  case (GitCall w c)
  then obtain r1 where r1: "git_perform C d w c db = (r1, db')"
    using assms(2) by (auto elim: abind_areturn_run)
  from git_perform_effect [OF assms(1) r1] GitCall show ?thesis by (auto intro: any_effect.intros)
qed

lemma any_effect_dispatched:
  assumes "db_ok db" "any_effect C call db db'" "any_dispatched k db"
  shows "any_dispatched k db'"
  using assms(2)
proof (cases rule: any_effect.cases)
  case (kubernetes c)
  with assms(1,3) effect_dispatched [of db C c db' k] effect_frame(2) [of C c db db'] show ?thesis
    by (auto simp: any_dispatched_def git_dispatched_def)
next
  case (git c p p' w)
  with assms(3) git_effect_dispatched [OF git(2)] git_effect_frame(2) [OF git(2)] show ?thesis
    by (auto simp: any_dispatched_def dispatched_def)
qed

lemma dispatched_exclusive:
  assumes "db_ok db"
  shows "dispatched k db \<Longrightarrow> row_of Git db k = None" "git_dispatched k db \<Longrightarrow> row_of Kubernetes db k = None"
  using db_ok_exclusive [OF assms, of Kubernetes k] db_ok_exclusive [OF assms, of Git k]
  by (auto simp: dispatched_def git_dispatched_def)

lemma any_permission_fresh:
  assumes ok: "db_ok db" and m: "any_perform C (d, call) db = (Inr (Some p), db')"
  shows "\<not> any_dispatched (any_permission_id p) db \<and> any_dispatched (any_permission_id p) db'"
proof (cases call)
  case (KubernetesCall c)
  then obtain q where p: "p = Inl q" and q: "perform C d c db = (Inr (Some q), db')"
    using m by (auto simp: abind_Inr)
  have "\<exists>op observed. permitted C op observed db db' q"
    using perform_effect [OF ok q] by auto
  then obtain op observed where perm: "permitted C op observed db db' q" by blast
  then have "row_of Kubernetes db (vr_operation_id (dp_request q)) \<noteq> None" by (auto simp: permitted_def)
  with permitted_fresh [OF ok perm] dispatched_exclusive(2) [OF ok] show ?thesis
    by (auto simp: p any_permission_id_def any_dispatched_def)
next
  case (GitCall w c)
  then obtain q where p: "p = Inr q" and q: "git_perform C d w c db = (Inr (Some q), db')"
    using m by (auto simp: abind_Inr)
  from git_perform_effect [OF ok q] have e: "git_granted c q"
    "git_effect C (git_call_binding c) (Some GAuthorized) (GAttempted None) db db'" by auto
  then have "row_of Git db (git_permission_id q) \<noteq> None"
    by (auto simp: git_granted_def git_effect_def git_holds_def)
  with git_granted_fresh [OF e] dispatched_exclusive(1) [OF ok] show ?thesis
    by (auto simp: p any_permission_id_def any_dispatched_def)
qed

interpretation ad: single_dispatch "any_perform C" any_permission_id any_dispatched db_ok for C
proof (unfold_locales, goal_cases)
  case (1 s c r s')
  with any_perform_effect [of s C "fst c" "snd c" r s'] effect_frame(1) git_effect_frame(1) show ?case
    by (auto elim!: any_effectE)
next
  case (2 s c r s' k)
  with any_perform_effect [of s C "fst c" "snd c" r s'] any_effect_dispatched show ?case by auto
next
  case (3 s c p s')
  with any_permission_fresh [of s C "fst c" "snd c" p s'] show ?case by auto
qed

section \<open>Healthy Git rows\<close>

text \<open>What verification guarantees of a binding.\<close>

definition git_binding_valid :: "crypto \<Rightarrow> GitBinding \<Rightarrow> bool" where
  "git_binding_valid C b \<longleftrightarrow> git_authorization_is_valid (gb_authorization b) \<and> identity_is_valid (gb_signer b) \<and>
     gb_digest b = digest_hex C (gb_grant b) \<and> length (gb_grant b) \<le> 4096"

lemma git_binding_verify_sound:
  assumes "git_binding_verify C bs trusts = Inr b"
  shows "\<exists>trust \<in> set trusts. \<exists>g. verify_git_ref_grant C bs trust = Inr g \<and>
    b = \<lparr>gb_authorization = vgg_authorization g, gb_signer = vgg_signer_key_id g, gb_digest = vgg_grant_digest g, gb_grant = bs\<rparr>"
    "length bs \<le> 4096"
proof -
  have "\<exists>trust \<in> set trusts. \<exists>g. verify_git_ref_grant C bs trust = Inr g \<and>
    b = \<lparr>gb_authorization = vgg_authorization g, gb_signer = vgg_signer_key_id g, gb_digest = vgg_grant_digest g, gb_grant = bs\<rparr>"
    if "git_binding_from C bs trusts = Inr b"
    using that by (induction trusts) (auto split: sum.splits)
  with assms show "\<exists>trust \<in> set trusts. \<exists>g. verify_git_ref_grant C bs trust = Inr g \<and>
    b = \<lparr>gb_authorization = vgg_authorization g, gb_signer = vgg_signer_key_id g, gb_digest = vgg_grant_digest g, gb_grant = bs\<rparr>"
    "length bs \<le> 4096" by (auto simp: git_binding_verify_def split: if_splits)
qed

lemma git_binding_verify_valid:
  assumes "git_binding_verify C bs trusts = Inr b"
  shows "git_binding_valid C b" "gb_grant b = bs"
proof -
  obtain trust g where g: "verify_git_ref_grant C bs trust = Inr g"
    "b = \<lparr>gb_authorization = vgg_authorization g, gb_signer = vgg_signer_key_id g, gb_digest = vgg_grant_digest g, gb_grant = bs\<rparr>"
    using git_binding_verify_sound(1) [OF assms] by blast
  from verify_git_ref_grant_sound [OF g(1)] have v: "trust_validate C trust = Inr ()"
    "git_authorization_is_valid (vgg_authorization g)" "vgg_signer_key_id g = tr_key_id trust"
    "vgg_grant_digest g = digest_hex C bs" by auto
  have "identity_is_valid (tr_key_id trust)" using v(1) by (auto simp: trust_validate_def split: if_splits)
  with g v git_binding_verify_sound(2) [OF assms] show "git_binding_valid C b" "gb_grant b = bs"
    by (simp_all add: git_binding_valid_def)
qed

definition git_journal_ok :: "crypto \<Rightarrow> Db \<Rightarrow> bool" where
  "git_journal_ok C db \<longleftrightarrow> db_ok db \<and> (\<forall>k r. row_of Git db k = Some r \<longrightarrow>
     (\<exists>b p. git_binding_valid C b \<and> gb_operation_id b = k \<and> r = git_row b p \<and> git_phase_valid C b p))"

lemma git_receipt_small:
  assumes "git_phase_valid C b (GFinalized s rc)" "\<And>bs. length (sha256 C bs) = 32"
  shows "length (fr_bytes rc) \<le> PERSISTED_VALUE_BYTES_MAX" "length (fr_digest rc) \<le> 512" "length (fr_key_id rc) \<le> 512"
proof -
  obtain sig where sig: "fr_bytes rc = git_signed_image s (fr_key_id rc) sig"
    "git_statement_valid s" "identity_is_valid (fr_key_id rc)" "length sig = 64"
    using assms(1) by (auto simp: git_decode_iff)
  then show "length (fr_bytes rc) \<le> PERSISTED_VALUE_BYTES_MAX"
    using git_default_limits [of s "fr_key_id rc" sig]
    by (simp add: git_limits_admit_receipt_def default_limits_def PERSISTED_VALUE_BYTES_MAX_def RECEIPT_BYTES_MAX_def)
  show "length (fr_key_id rc) \<le> 512"
    using identity_ascii [OF sig(3)] by (simp add: ascii_text_def)
  have "fr_digest rc = receipt_digest_hex C (fr_bytes rc)" using assms(1) by simp
  then show "length (fr_digest rc) \<le> 512"
    using assms(2) by (simp add: receipt_digest_hex_def length_concat comp_def sum_list_triv)
qed

lemma git_phase_small:
  assumes "git_phase_valid C b p" "\<And>bs. length (sha256 C bs) = 32"
  shows "list_all (\<lambda>(f, v). value_length v \<le> column_limit f) (git_phase_columns p)"
proof -
  have ack: "length (ack_as_str x) \<le> 512" for x by (cases x) simp_all
  have kind: "length (observed_kind x) \<le> 512" for x by (cases x) simp_all
  have commit: "value_length (opt_text (ref_commit x)) \<le> 512" if "ref_valid x" for x
    using that by (cases x) (auto simp: ref_valid_def git_commit_id_is_valid_def)
  have attempted: "value_length (opt_text (map_option ack_as_str x)) \<le> 512" for x
    using ack by (cases x) simp_all
  have rejection: "length (git_rejection_text x) \<le> 512" for x by (cases x) simp_all
  show ?thesis
  proof (cases p)
    case (GFinalized s rc)
    with git_receipt_small [OF assms(1) [unfolded GFinalized] assms(2)] assms(1) ack kind commit show ?thesis
      by (simp add: git_phase_columns_def column_limit_def)
  qed (use assms ack kind commit attempted rejection in \<open>simp_all add: git_phase_columns_def column_limit_def\<close>)
qed

lemma git_row_small:
  assumes "git_binding_valid C b" "git_phase_valid C b p" "crypto_ok C"
  shows "row_small (git_row b p)"
  unfolding git_row_def
proof (rule row_small_set_columns [OF git_empty_ok(1) writes_git(1)])
  have v: "git_authorization_is_valid (gb_authorization b)" "length (gb_signer b) \<le> 128"
    "length (gb_digest b) = 64" "length (gb_grant b) \<le> 4096"
    using assms(1,3) identity_ascii [of "gb_signer b"]
    by (auto simp: git_binding_valid_def length_digest_hex ascii_text_def)
  note ascii = git_authorization_ascii [OF v(1)]
  show "row_small (git_empty (gb_operation_id b))"
    using ascii by (auto simp: row_small_iff [OF git_empty_ok(1)] field_git_empty column_limit_def ascii_text_def)
  have "list_all (\<lambda>(f, v). value_length v \<le> column_limit f) (git_binding_columns b)"
    using v ascii by (simp add: git_binding_columns_def column_limit_def Let_def ascii_text_def)
  with git_phase_small [OF assms(2)] crypto_okD(5) [OF assms(3)]
  show "list_all (\<lambda>(f, v). value_length v \<le> column_limit f) (git_binding_columns b @ git_phase_columns p)"
    by simp
qed

lemma git_row_bounded:
  assumes "git_binding_valid C b" "git_phase_valid C b p" "crypto_ok C"
  shows "row_bounded (git_row b p)"
  by (rule row_small_bounded [OF git_row_ok(1) git_row_small [OF assms]])

lemma git_effect_journal_ok:
  assumes "git_journal_ok C db" "git_binding_valid C b" "git_effect C b p p' db db'"
  shows "git_journal_ok C db'"
  using assms unfolding git_journal_ok_def git_effect_def stored_def by (auto split: if_splits)

lemma git_perform_journal_ok:
  assumes "git_journal_ok C db" "git_binding_valid C (git_call_binding call)" "git_perform C d w call db = (res, db')"
  shows "git_journal_ok C db'"
proof -
  have "db_ok db" using assms(1) by (simp add: git_journal_ok_def)
  from git_perform_effect [OF this assms(3)] git_effect_journal_ok [OF assms(1,2)] show ?thesis
    using assms(1) by blast
qed

section \<open>Settled histories and acknowledgements\<close>

lemma git_row_inject:
  assumes "git_row b p = git_row b' p'" "git_phase_valid C b p" "git_phase_valid C b' p'"
  shows "b = b' \<and> p = p'"
proof -
  have "git_binding_held (git_row b p) b" "git_binding_held (git_row b p) b'"
    using git_row_held(1) [of b p] git_row_held(1) [of b' p'] assms(1) by simp_all
  then have b: "b = b'"
    by (cases b; cases b') (auto simp: git_binding_held_def binding_fields_def Let_def intro: GitRefAuthorization.equality)
  have "decode_record C (git_row b p) b = Inr p" "decode_record C (git_row b p) b = Inr p'"
    using assms decode_record_canonical [OF git_row_ok(1)] by (auto simp: b)
  then show ?thesis using b by simp
qed

text \<open>The order in which phases of one binding can follow each other.\<close>

abbreviation git_later :: "crypto \<Rightarrow> GitBinding \<Rightarrow> GitPhase \<Rightarrow> GitPhase \<Rightarrow> bool" where
  "git_later C b p p' \<equiv> (git_lifecycle C b)\<^sup>*\<^sup>* (Some p) (Some p')"

lemma git_later_facts:
  assumes "git_later C b p p'"
  shows "git_phase_state p \<in> {NotAttempted, Finalized} \<Longrightarrow> p' = p"
    "git_phase_statement b p = Some s \<Longrightarrow> git_phase_statement b p' = Some s"
    "git_acknowledgement_of p = Some a \<Longrightarrow> git_acknowledgement_of p' = Some a"
proof -
  have "\<exists>q. x = Some q \<and>
      (git_phase_state p \<in> {NotAttempted, Finalized} \<longrightarrow> q = p) \<and>
      (git_phase_statement b p = Some s \<longrightarrow> git_phase_statement b q = Some s) \<and>
      (git_acknowledgement_of p = Some a \<longrightarrow> git_acknowledgement_of q = Some a)"
    if "(git_lifecycle C b)\<^sup>*\<^sup>* (Some p) x" for x
    using that
  proof (induction rule: rtranclp_induct)
    case (step y z)
    then obtain q where q: "y = Some q" "git_phase_state p \<in> {NotAttempted, Finalized} \<longrightarrow> q = p"
      "git_phase_statement b p = Some s \<longrightarrow> git_phase_statement b q = Some s"
      "git_acknowledgement_of p = Some a \<longrightarrow> git_acknowledgement_of q = Some a" by blast
    from step(2) [unfolded q(1)] show ?case
      using q(2-4) by (cases rule: git_lifecycle.cases) (auto simp: git_phase_statement_def)
  qed simp
  from this [OF assms] show "git_phase_state p \<in> {NotAttempted, Finalized} \<Longrightarrow> p' = p"
    "git_phase_statement b p = Some s \<Longrightarrow> git_phase_statement b p' = Some s"
    "git_acknowledgement_of p = Some a \<Longrightarrow> git_acknowledgement_of p' = Some a" by auto
qed

definition git_monotone :: "crypto \<Rightarrow> GitBinding \<Rightarrow> Db \<Rightarrow> Db \<Rightarrow> bool" where
  "git_monotone C b db db' \<longleftrightarrow>
     (\<forall>p. git_holds C db b (Some p) \<longrightarrow> (\<exists>p'. git_holds C db' b (Some p') \<and> git_later C b p p'))"

lemma git_monotone_order: "reflp (git_monotone C b)" "transp (git_monotone C b)"
proof -
  show "reflp (git_monotone C b)" unfolding reflp_def git_monotone_def by blast
  show "transp (git_monotone C b)"
    unfolding transp_def git_monotone_def by (meson rtranclp_trans)
qed

lemma git_holds_cong: "row_of Git db' (gb_operation_id b) = row_of Git db (gb_operation_id b) \<Longrightarrow> git_holds C db' b p = git_holds C db b p"
  by (simp add: git_holds_def)

lemma git_effect_monotone:
  assumes "git_effect C b' q q' db db'"
  shows "git_monotone C b db db'"
  unfolding git_monotone_def
proof (intro allI impI)
  fix p assume h: "git_holds C db b (Some p)"
  show "\<exists>p'. git_holds C db' b (Some p') \<and> git_later C b p p'"
  proof (cases "gb_operation_id b = gb_operation_id b'")
    case True
    with h assms obtain q0 where q0: "q = Some q0" "git_row b p = git_row b' q0" "git_phase_valid C b p" "git_phase_valid C b' q0"
      by (cases q) (auto simp: git_effect_def git_holds_def)
    from git_row_inject [OF q0(2-4)] q0(1) assms show ?thesis
      using git_effect_frame(4) [OF assms] by (auto simp: git_effect_def)
  next
    case False
    with git_holds_cong [OF git_effect_frame(3) [OF assms False]] h show ?thesis by blast
  qed
qed

lemma any_perform_monotone:
  assumes "db_ok db" "any_perform C c db = (r, db')"
  shows "git_monotone C b db db'"
proof -
  obtain d call where c: "c = (d, call)" by fastforce
  from any_perform_effect [OF assms(1) assms(2) [unfolded c]] show ?thesis
  proof
    assume "any_effect C call db db'"
    then show ?thesis
    proof (cases rule: any_effect.cases)
      case (kubernetes k)
      then have "row_of Git db' = row_of Git db" using effect_frame(2) by blast
      then show ?thesis unfolding git_monotone_def git_holds_def by auto
    next
      case (git k p p' w)
      then show ?thesis using git_effect_monotone by blast
    qed
  qed (use reflpD [OF git_monotone_order(1)] in auto)
qed

text \<open>
  Acknowledgements come only from the call that records them: without it, the column stays empty
  until an observation freezes it as unknown.
\<close>

definition unacknowledged :: "Acknowledgement \<Rightarrow> string \<Rightarrow> Db \<Rightarrow> bool" where
  "unacknowledged a k db \<longleftrightarrow> db_ok db \<and> (\<forall>r. row_of Git db k = Some r \<longrightarrow> field r ''acknowledgement'' \<noteq> Text (ack_as_str a))"

lemma git_row_acknowledgement: "field (git_row b p) ''acknowledgement'' = opt_text (map_option ack_as_str (git_acknowledgement_of p))"
  using git_row_held(2) [of b p] by (simp add: git_phase_fields_def git_phase_columns_def)

lemma run_calls_invariant:
  assumes "P s" "\<And>c s r s'. c \<in> set cs \<Longrightarrow> P s \<Longrightarrow> step c s = (r, s') \<Longrightarrow> P s'"
  shows "P (snd (run_calls step cs s))"
  using assms
proof (induction cs arbitrary: s)
  case (Cons c cs)
  have "P (snd (step c s))" using Cons.prems(2) [of c s "fst (step c s)" "snd (step c s)"] Cons.prems(1) by simp
  then have "P (snd (run_calls step cs (snd (step c s))))"
    by (rule Cons.IH) (use Cons.prems(2) in auto)
  then show ?case by (simp del: run_calls.simps)
qed simp

lemma git_lifecycle_acknowledgement:
  assumes "git_lifecycle C b p (Some p')" "git_acknowledgement_of p' = Some a" "a \<noteq> AckUnknown"
  shows "(\<exists>q. p = Some q \<and> git_acknowledgement_of q = Some a) \<or> p' = GAttempted (Some a)"
  using assms by (cases rule: git_lifecycle.cases) (auto simp: git_phase_statement_def split: option.splits)

lemma git_row_unacknowledged: "field (git_row b p) ''acknowledgement'' = Text (ack_as_str a) \<longleftrightarrow> git_acknowledgement_of p = Some a"
  by (cases "git_acknowledgement_of p") (auto simp: git_row_acknowledgement)

lemma git_effect_unacknowledged:
  assumes "git_effect C b p p' db db'" "unacknowledged a k db" "a \<noteq> AckUnknown"
    "gb_operation_id b = k \<Longrightarrow> p' \<noteq> GAttempted (Some a)"
  shows "unacknowledged a k db'"
proof (cases "gb_operation_id b = k")
  case True
  have "git_acknowledgement_of p' \<noteq> Some a"
  proof
    assume "git_acknowledgement_of p' = Some a"
    with assms(1,3) git_lifecycle_acknowledgement [of C b p p' a] assms(4) True obtain q where
      q: "p = Some q" "git_acknowledgement_of q = Some a" by (auto simp: git_effect_def)
    then have "row_of Git db k = Some (git_row b q)" using assms(1) True by (simp add: git_effect_def git_holds_def)
    with assms(2) q show False by (simp add: unacknowledged_def git_row_unacknowledged)
  qed
  then show ?thesis
    using assms(1) True git_effect_frame(1) [OF assms(1)]
    by (auto simp: unacknowledged_def git_effect_def stored_def git_row_unacknowledged)
next
  case False
  with assms(1,2) git_effect_frame(1) [OF assms(1)] show ?thesis
    by (auto simp: unacknowledged_def git_effect_def stored_def)
qed

lemma any_perform_unacknowledged:
  assumes "unacknowledged a k db" "a \<noteq> AckUnknown" "any_perform C (d, call) db = (r, db')"
    "\<And>w b. call = GitCall w (RecordGitAcknowledgement b a) \<Longrightarrow> gb_operation_id b \<noteq> k"
  shows "unacknowledged a k db'"
proof (cases call)
  case (KubernetesCall c)
  then obtain r1 where r1: "perform C d c db = (r1, db')"
    using assms(3) by (auto elim: abind_areturn_run)
  have "db_ok db" using assms(1) by (simp add: unacknowledged_def)
  from perform_effect [OF this r1] have "db' = db \<or> effect C c db db'" by auto
  with assms(1) effect_frame [of C c db db'] show ?thesis by (auto simp: unacknowledged_def)
next
  case (GitCall w c)
  then obtain r1 where r1: "git_perform C d w c db = (r1, db')"
    using assms(3) by (auto elim: abind_areturn_run)
  have "db_ok db" using assms(1) by (simp add: unacknowledged_def)
  from git_perform_effect [OF this r1] consider "db' = db"
    | p p' where "git_effect C (git_call_binding c) p p' db db'"
      "\<forall>a. p' = GAttempted (Some a) \<longrightarrow> c = RecordGitAcknowledgement (git_call_binding c) a" by blast
  then show ?thesis
  proof cases
    case 2
    show ?thesis
      by (rule git_effect_unacknowledged [OF 2(1) assms(1,2)]) (use 2(2) assms(4) GitCall in blast)
  qed (use assms(1) in simp)
qed

section \<open>The whole journal\<close>

fun any_call_valid :: "crypto \<Rightarrow> AnyCall \<Rightarrow> bool" where
  "any_call_valid C (KubernetesCall call) \<longleftrightarrow> call_valid call"
| "any_call_valid C (GitCall w call) \<longleftrightarrow> git_binding_valid C (git_call_binding call)"

lemma any_perform_healthy:
  assumes "crypto_ok C" "journal_ok C db" "git_journal_ok C db" "any_call_valid C call" "any_perform C (d, call) db = (r, db')"
  shows "journal_ok C db' \<and> git_journal_ok C db'"
proof -
  have ok: "db_ok db" using assms(2) by (simp add: journal_ok_def)
  show ?thesis
  proof (cases call)
    case (KubernetesCall c)
    then obtain r1 where r1: "perform C d c db = (r1, db')"
      using assms(5) by (auto elim: abind_areturn_run)
    have "journal_ok C db'" using perform_journal_ok [OF assms(2) _ r1 assms(1)] assms(4) KubernetesCall by simp
    moreover have "row_of Git db' = row_of Git db" using perform_effect [OF ok r1] effect_frame(2) [of C c db db'] by auto
    ultimately show ?thesis using assms(3) by (simp add: journal_ok_def git_journal_ok_def)
  next
    case (GitCall w c)
    then obtain r1 where r1: "git_perform C d w c db = (r1, db')"
      using assms(5) by (auto elim: abind_areturn_run)
    have "git_journal_ok C db'" using git_perform_journal_ok [OF assms(3) _ r1] assms(4) GitCall by simp
    moreover have "row_of Kubernetes db' = row_of Kubernetes db" using git_perform_effect [OF ok r1] git_effect_frame(2) by blast
    ultimately show ?thesis using assms(2) by (simp add: journal_ok_def git_journal_ok_def)
  qed
qed

lemma journal_operation_read:
  assumes "journal_ok C db" "row_of Kubernetes db k = Some r"
  shows "\<exists>op. decode C r = Inr op \<and> operation C db k = Inr (Some op)"
proof -
  have "row_ok Kubernetes r" using assms db_row_ok by (auto simp: journal_ok_def)
  then have "row_bounded r" using assms row_small_bounded by (auto simp: journal_ok_def)
  then have "record_read db k = Inr (Some r)" using assms(2) by (simp add: record_read_def read_table_iff)
  moreover obtain op where "decode C r = Inr op" using assms by (auto simp: journal_ok_def)
  ultimately show ?thesis by (simp add: operation_def)
qed

lemma git_journal_operation_read:
  assumes "crypto_ok C" "git_journal_ok C db" "row_of Git db k = Some r"
  shows "\<exists>b p. git_operation C b db = Inr (Some p) \<and> r = git_row b p"
proof -
  have db: "db_ok db" using assms(2) by (simp add: git_journal_ok_def)
  obtain b p where b: "git_binding_valid C b" "gb_operation_id b = k" "r = git_row b p" "git_phase_valid C b p"
    using assms(2,3) unfolding git_journal_ok_def by blast
  then have "git_operation C b db = Inr (Some p)"
    using git_row_bounded [OF b(1,4) assms(1)] assms(3) git_operation_iff(1) [OF db] by (simp add: git_holds_def)
  with b(3) show ?thesis by blast
qed

text \<open>A row in a terminal phase is never written again, so a write never makes a row unfinished.\<close>

lemma git_lifecycle_unfinished: "git_lifecycle C b (Some p) x \<Longrightarrow> state_unfinished (git_row b p)"
  by (erule git_lifecycle_cases) (auto simp: state_unfinished_def git_row_state)

lemma git_update_needs_row:
  assumes "db_ok db" "row_of Git db (gb_operation_id (git_call_binding call)) = None" "\<nexists>b. call = InsertGit b"
    "git_perform C d w call db = (res, db')"
  shows "db' = db"
proof -
  have "git_write C (git_call_binding call) w db \<noteq> Inr y" for y
    using git_write_iff [OF assms(1)] assms(2) by (cases y) (auto simp: git_holds_def)
  then obtain e where "git_write C (git_call_binding call) w db = Inl e" by (metis sum.exhaust)
  with assms(3,4) show ?thesis
    by (cases call) (auto simp: begin_git_attempt_def reject_git_def record_git_acknowledgement_def freeze_git_observation_def
        commit_git_receipt_def abind_def split: if_splits)
qed

lemma git_perform_within_capacity:
  assumes ok: "db_ok db" and cap: "within_capacity db" and m: "git_perform C d w call db = (res, db')"
  shows "within_capacity db'"
proof (cases "row_of Git db (gb_operation_id (git_call_binding call))")
  case (Some prev)
  from git_perform_effect [OF ok m] show ?thesis
  proof (elim disjE conjE exE)
    fix p p' assume e: "git_effect C (git_call_binding call) p p' db db'"
    then obtain q where q: "p = Some q" "prev = git_row (git_call_binding call) q"
      using Some by (cases p) (auto simp: git_effect_def git_holds_def)
    have "state_unfinished prev" using e q git_lifecycle_unfinished by (auto simp: git_effect_def)
    moreover have "stored Git (gb_operation_id (git_call_binding call)) (git_row (git_call_binding call) p') db db'"
      using e by (simp add: git_effect_def)
    ultimately show ?thesis using stored_counts(1) [OF ok _ Some] cap unfolding within_capacity_def by fastforce
  qed (use cap in simp)
next
  case None
  show ?thesis
  proof (cases "\<exists>b. call = InsertGit b")
    case True
    then obtain b where b: "call = InsertGit b" by blast
    obtain r1 where "db' = db \<or> replace d None (git_row b GAuthorized) db = (r1, db')"
      using m unfolding b
      by (auto simp: insert_git_def set_git_empty abind_def split: if_splits sum.splits option.splits prod.splits)
    with replace_within_capacity [OF ok cap git_row_ok, of d None b GAuthorized r1 db'] cap show ?thesis by auto
  next
    case False
    with git_update_needs_row [OF ok None _ m] cap show ?thesis by simp
  qed
qed

lemma any_perform_within_capacity:
  assumes "db_ok db" "within_capacity db" "any_perform C (d, call) db = (r, db')"
  shows "within_capacity db'"
  using assms perform_within_capacity [OF assms(1,2)] git_perform_within_capacity [OF assms(1,2)]
  by (cases call) (auto elim: abind_areturn_run)

section \<open>Confirmed calls\<close>

lemma git_lifecycle_irrefl: "\<not> git_lifecycle C b (Some p) (Some p)"
  by (auto elim: git_lifecycle.cases)

lemma git_replace_confirmed:
  assumes db: "git_journal_ok C db" and b: "git_binding_valid C b" "crypto_ok C" and h: "git_holds C db b (Some p)"
    and p': "git_phase_valid C b p'" "git_lifecycle C b (Some p) (Some p')"
  shows "\<exists>db'. replace Confirmed (Some (git_row b p)) (git_row b p') db = (Inr (), db') \<and>
    git_holds C db' b (Some p') \<and> git_journal_ok C db'"
proof -
  have ok: "db_ok db" using db by (simp add: git_journal_ok_def)
  have row: "row_of Git db (gb_operation_id b) = Some (git_row b p)" "git_phase_valid C b p"
    using h by (simp_all add: git_holds_def)
  have "git_row b p \<noteq> git_row b p'"
    using git_row_inject [OF _ row(2) p'(1)] p'(2) git_lifecycle_irrefl by blast
  then obtain db' where "transaction_body db (Some (git_row b p)) (git_row b p') = Inr db'"
    using transaction_body_update [OF ok git_row_ok(1) [of b p'] git_row_ok(2)] row git_row_bounded [OF b(1) row(2) b(2)] by blast
  then have rep: "replace Confirmed (Some (git_row b p)) (git_row b p') db = (Inr (), db')"
    by (simp add: replace_def)
  then have e: "git_effect C b (Some p) p' db db'"
    using git_replace_cases [OF ok h p', of Confirmed "Inr ()" db'] by auto
  with rep git_effect_frame(4) [OF e] git_effect_journal_ok [OF db b(1) e] show ?thesis by blast
qed

lemma git_write_confirmed:
  assumes "git_journal_ok C db" "git_binding_valid C b" "crypto_ok C" "git_holds C db b (Some p)"
  shows "git_write C b True db = Inr (git_row b p, p)"
proof -
  have "db_ok db" using assms(1) by (simp add: git_journal_ok_def)
  then show ?thesis
    using git_write_iff [of db] git_row_bounded [OF assms(2) _ assms(3)] assms(4) by (simp add: git_holds_def)
qed

lemma begin_git_attempt_confirmed:
  assumes "git_journal_ok C db" "git_binding_valid C b" "crypto_ok C" "git_holds C db b (Some GAuthorized)"
    "pt_authorization prepared = gb_authorization b"
  shows "\<exists>db'. begin_git_attempt C Confirmed b prepared True db = (Inr \<lparr>gp_prepared = prepared\<rparr>, db') \<and>
    git_holds C db' b (Some (GAttempted None)) \<and> git_journal_ok C db'"
  using git_replace_confirmed [OF assms(1-4), of "GAttempted None"] git_write_confirmed [OF assms(1-4)] assms(5)
  by (auto simp: begin_git_attempt_def abind_def set_git_rows git_lifecycle.intros)

lemma reject_git_confirmed:
  assumes "git_journal_ok C db" "git_binding_valid C b" "crypto_ok C" "git_holds C db b (Some GAuthorized)"
  shows "\<exists>db'. reject_git C Confirmed b rejection True db = (Inr (), db') \<and>
    git_holds C db' b (Some (GNotAttempted rejection)) \<and> git_journal_ok C db'"
  using git_replace_confirmed [OF assms(1-4), of "GNotAttempted rejection"] git_write_confirmed [OF assms(1-4)]
  by (auto simp: reject_git_def abind_def set_git_rows git_lifecycle.intros)

lemma record_git_acknowledgement_confirmed:
  assumes "git_journal_ok C db" "git_binding_valid C b" "crypto_ok C" "git_holds C db b (Some (GAttempted None))"
  shows "\<exists>db'. record_git_acknowledgement C Confirmed b a True db = (Inr (), db') \<and>
    git_holds C db' b (Some (GAttempted (Some a))) \<and> git_journal_ok C db'"
  using git_replace_confirmed [OF assms(1-4), of "GAttempted (Some a)"] git_write_confirmed [OF assms(1-4)]
  by (auto simp: record_git_acknowledgement_def abind_def set_git_rows git_lifecycle.intros)

lemma freeze_git_observation_confirmed:
  assumes "git_journal_ok C db" "git_binding_valid C b" "crypto_ok C" "git_holds C db b (Some (GAttempted a))" "ref_valid ob"
  shows "\<exists>db'. freeze_git_observation C Confirmed b ob True db = (Inr (), db') \<and>
    git_holds C db' b (Some (GObserved (case a of None \<Rightarrow> AckUnknown | Some x \<Rightarrow> x) ob)) \<and> git_journal_ok C db'"
proof -
  have "git_observation_fields ob = Inr (observed_kind ob, ref_commit ob)"
    using assms(5) git_observation_fields_iff by blast
  then show ?thesis
    using git_replace_confirmed [OF assms(1-4), of "GObserved (case a of None \<Rightarrow> AckUnknown | Some x \<Rightarrow> x) ob"]
      git_write_confirmed [OF assms(1-4)] assms(5)
    by (auto simp: freeze_git_observation_def abind_def set_git_rows git_lifecycle.intros)
qed

lemma commit_git_receipt_confirmed:
  assumes "git_journal_ok C db" "git_binding_valid C b" "crypto_ok C" "git_holds C db b (Some (GObserved a ob))"
    "git_decode bs = Inr (key, s)" "git_phase_statement b (GObserved a ob) = Some s"
  shows "\<exists>db'. commit_git_receipt C Confirmed b bs True db = (Inr (), db') \<and> git_journal_ok C db' \<and>
    git_holds C db' b (Some (GFinalized s
      \<lparr>fr_operation_id = gb_operation_id b, fr_bytes = bs, fr_digest = receipt_digest_hex C bs, fr_key_id = key\<rparr>))"
proof -
  let ?rc = "\<lparr>fr_operation_id = gb_operation_id b, fr_bytes = bs, fr_digest = receipt_digest_hex C bs, fr_key_id = key\<rparr>"
  have s: "gs_acknowledgement s = a" "gs_observed s = ob" using assms(6) by (auto simp: git_phase_statement_def)
  have ob: "ref_valid ob" using assms(4) by (simp add: git_holds_def)
  have "git_lifecycle C b (Some (GObserved a ob)) (Some (GFinalized s ?rc))"
    using assms(5,6) ob by (auto intro: git_lifecycle.intros)
  with git_replace_confirmed [OF assms(1-4), of "GFinalized s ?rc"] git_write_confirmed [OF assms(1-4)] assms(5,6) s ob
    set_git_rows(5) [OF assms(6), of ?rc]
  show ?thesis by (auto simp: commit_git_receipt_def abind_def)
qed

lemma insert_git_confirmed:
  assumes "git_journal_ok C db" "git_binding_valid C b" "require_admission db = Inr ()"
    "row_of Git db (gb_operation_id b) = None" "row_of Kubernetes db (gb_operation_id b) = None"
  shows "\<exists>db'. insert_git C Confirmed b True db = (Inr GAuthorized, db') \<and>
    git_holds C db' b (Some GAuthorized) \<and> git_journal_ok C db'"
proof -
  have ok: "db_ok db" using assms(1) by (simp add: git_journal_ok_def)
  obtain db' where "transaction_body db None (git_row b GAuthorized) = Inr db'"
    using transaction_body_insert [OF git_row_ok(1) [of b GAuthorized] git_row_ok(2)] assms(3-5) by auto
  then have rep: "replace Confirmed None (git_row b GAuthorized) db = (Inr (), db')" by (simp add: replace_def)
  have "git_holds C db b None" using assms(4) by (simp add: git_holds_def)
  from git_replace_cases [OF ok this, of GAuthorized Confirmed "Inr ()" db'] rep
  have e: "git_effect C b None GAuthorized db db'" by (auto intro: git_lifecycle.intros)
  have "git_operation C b db = Inr None" using git_operation_iff(2) [OF ok] assms(4,5) by simp
  with rep git_effect_frame(4) [OF e] git_effect_journal_ok [OF assms(1,2) e] show ?thesis
    by (simp add: insert_git_def abind_def set_git_empty)
qed

section \<open>Properties\<close>

text \<open>
  One identity, one dispatch, whatever its kind: over any interleaving of Kubernetes and Git
  calls on one journal, with any arguments and any fate of each commit, the permissions handed
  out for one operation identity are at most one in total.
\<close>

theorem identity_dispatched_at_most_once:
  assumes "db_ok db"
  shows "length (filter (\<lambda>p. any_permission_id p = ident) (fst (run_calls (any_perform C) calls db))) \<le> 1"
  using ad.run_permissions [OF assms, of ident C calls] by (simp split: if_splits)

text \<open>
  C23. The Git table refines the Git lifecycle: a Git call either leaves the database as it was or
  moves the phase its row holds under the presented binding by one step, leaving every other row
  of both tables alone. A permission is returned only for the binding's own approval, from an
  authorized phase, with the attempt already durable.
\<close>

theorem git_journal_refines_lifecycle:
  assumes "db_ok db" "git_perform C d w call db = (res, db')"
  shows "(db' = db \<or>
     (\<exists>p p'. git_holds C db (git_call_binding call) p \<and> git_holds C db' (git_call_binding call) (Some p') \<and>
        git_lifecycle C (git_call_binding call) p (Some p') \<and>
        (\<forall>k. k \<noteq> gb_operation_id (git_call_binding call) \<longrightarrow> row_of Git db' k = row_of Git db k) \<and>
        row_of Kubernetes db' = row_of Kubernetes db)) \<and>
    (\<forall>x. res = Inr (Some x) \<longrightarrow>
       pt_authorization (gp_prepared x) = gb_authorization (git_call_binding call) \<and>
       git_holds C db (git_call_binding call) (Some GAuthorized) \<and>
       git_holds C db' (git_call_binding call) (Some (GAttempted None)))"
proof -
  from git_perform_effect [OF assms] consider "db' = db" "\<forall>p. res \<noteq> Inr (Some p)"
    | p p' where "git_effect C (git_call_binding call) p p' db db'"
      "\<forall>x. res = Inr (Some x) \<longrightarrow> git_granted call x \<and> p = Some GAuthorized \<and> p' = GAttempted None" by blast
  then show ?thesis
  proof cases
    case 2
    note frame = git_effect_frame [OF 2(1)]
    have "git_holds C db (git_call_binding call) p" "git_lifecycle C (git_call_binding call) p (Some p')"
      using 2(1) by (simp_all add: git_effect_def)
    moreover have "pt_authorization (gp_prepared x) = gb_authorization (git_call_binding call)" if "git_granted call x" for x
      using that by (auto simp: git_granted_def)
    ultimately show ?thesis using frame 2(2) by blast
  qed simp
qed

text \<open>
  C24. A Git row is its typed phase: a row of the Git table decodes to a phase under a binding
  exactly when it is, column for column, the canonical row of that binding and phase and the
  phase is valid, with a receipt that decodes to the very statement the other columns give.
\<close>

theorem git_row_canonical:
  assumes "row_ok Git r"
  shows "decode_record C r b = Inr p \<longleftrightarrow> r = git_row b p \<and> git_phase_valid C b p"
  by (rule decode_record_canonical [OF assms])

text \<open>
  C25. Git history only moves forward: whatever calls of both kinds follow, the row stays bound to
  the same grant and its phase advances along the lifecycle. A rejected or finalized phase, a
  frozen statement and a recorded acknowledgement never change.
\<close>

theorem git_history_monotone:
  assumes "db_ok db" "git_holds C db b (Some p)"
  shows "\<exists>p'. git_holds C (snd (run_calls (any_perform C) calls db)) b (Some p') \<and>
    (git_lifecycle C b)\<^sup>*\<^sup>* (Some p) (Some p') \<and>
    (git_phase_state p \<in> {NotAttempted, Finalized} \<longrightarrow> p' = p) \<and>
    (\<forall>s. git_phase_statement b p = Some s \<longrightarrow> git_phase_statement b p' = Some s) \<and>
    (\<forall>a. git_acknowledgement_of p = Some a \<longrightarrow> git_acknowledgement_of p' = Some a)"
proof -
  have "git_monotone C b db (snd (run_calls (any_perform C) calls db))"
    by (rule ad.run_related [OF assms(1) git_monotone_order]) (rule any_perform_monotone)
  then obtain p' where "git_holds C (snd (run_calls (any_perform C) calls db)) b (Some p')" "git_later C b p p'"
    using assms(2) unfolding git_monotone_def by blast
  with git_later_facts [OF this(2)] show ?thesis by blast
qed

text \<open>
  An acknowledgement is never inferred: when an identity starts without a Git row and its row
  later carries an acknowledgement other than unknown, some call recorded exactly that
  acknowledgement for it. No observation of the ref, nor any other call, can stand in.
\<close>

theorem acknowledgement_never_inferred:
  assumes "db_ok db" "row_of Git db (gb_operation_id b) = None"
    "git_holds C (snd (run_calls (any_perform C) calls db)) b (Some p)"
    "git_acknowledgement_of p = Some a" "a \<noteq> AckUnknown"
  shows "\<exists>d w b'. (d, GitCall w (RecordGitAcknowledgement b' a)) \<in> set calls \<and> gb_operation_id b' = gb_operation_id b"
proof (rule ccontr)
  assume none: "\<not> ?thesis"
  have "unacknowledged a (gb_operation_id b) (snd (run_calls (any_perform C) calls db))"
  proof (rule run_calls_invariant)
    show "unacknowledged a (gb_operation_id b) db" using assms(1,2) by (simp add: unacknowledged_def)
  next
    fix c s r s'
    assume c: "c \<in> set calls" "unacknowledged a (gb_operation_id b) s" "any_perform C c s = (r, s')"
    obtain d call where dc: "c = (d, call)" by fastforce
    show "unacknowledged a (gb_operation_id b) s'"
      by (rule any_perform_unacknowledged [OF c(2) assms(5) c(3) [unfolded dc]]) (use c(1) none dc in blast)
  qed
  with assms(3,4) show False
    by (simp add: unacknowledged_def git_holds_def git_row_unacknowledged)
qed


text \<open>
  C11. A healthy journal stays healthy, over any sequence of calls: if every Kubernetes row decodes
  to a typed phase and is within the bounds reads enforce, and every Git row is the canonical row
  of a verified binding and a valid phase, the same holds after any interleaving of calls of both
  kinds on valid arguments, whatever the fate of each commit. Every row is then read back: no
  sequence of writes produces a row that the journal itself would refuse.
\<close>

theorem journals_stay_healthy:
  assumes "crypto_ok C" "journal_ok C db" "git_journal_ok C db" "list_all (\<lambda>(d, call). any_call_valid C call) calls"
  shows "let db' = snd (run_calls (any_perform C) calls db) in
    journal_ok C db' \<and> git_journal_ok C db' \<and>
    (\<forall>k r. row_of Kubernetes db' k = Some r \<longrightarrow> (\<exists>op. decode C r = Inr op \<and> operation C db' k = Inr (Some op))) \<and>
    (\<forall>k r. row_of Git db' k = Some r \<longrightarrow> (\<exists>b p. git_operation C b db' = Inr (Some p) \<and> r = git_row b p))"
proof -
  let ?db = "snd (run_calls (any_perform C) calls db)"
  have "journal_ok C ?db \<and> git_journal_ok C ?db"
  proof (rule run_calls_invariant)
    fix c s r s'
    assume c: "c \<in> set calls" "journal_ok C s \<and> git_journal_ok C s" "any_perform C c s = (r, s')"
    obtain d call where dc: "c = (d, call)" by fastforce
    with c(1) assms(4) have "any_call_valid C call" by (auto simp: list_all_iff)
    with any_perform_healthy [OF assms(1)] c(2,3) dc show "journal_ok C s' \<and> git_journal_ok C s'" by blast
  qed (use assms(2,3) in simp)
  with journal_operation_read git_journal_operation_read [OF assms(1)] show ?thesis unfolding Let_def by blast
qed

text \<open>
  C18. Capacity is never exceeded: over any interleaving of Kubernetes and Git calls, with any
  arguments and any fate of each commit, a journal with at most 504 retained identities and 32
  unfinished ones, counted over both tables as opening counts them, still has at most that many,
  so that a database the service wrote can be opened again.
\<close>

theorem capacity_respected:
  assumes "db_ok db" "fst (counts db) \<le> 504" "snd (counts db) \<le> 32"
  shows "fst (counts (snd (run_calls (any_perform C) calls db))) \<le> 504 \<and>
    snd (counts (snd (run_calls (any_perform C) calls db))) \<le> 32"
proof -
  have limits: "within_capacity s \<longleftrightarrow> fst (counts s) \<le> 504 \<and> snd (counts s) \<le> 32" for s
    by (simp add: within_capacity_def IDENTITY_CAPACITY_def UNFINISHED_CAPACITY_def DATABASE_PAGES_def
        COMPLETION_HEADROOM_PAGES_def IDENTITY_PAGES_def)
  let ?R = "\<lambda>s s'. within_capacity s \<longrightarrow> within_capacity s'"
  have "?R s s'" if "db_ok s" "any_perform C c s = (r, s')" for s c r s'
    using that any_perform_within_capacity [of s C "fst c" "snd c" r s'] by (cases c) auto
  then have "?R db (snd (run_calls (any_perform C) calls db))"
    by (intro ad.run_related [OF assms(1), of ?R]) (auto simp: reflp_def transp_def)
  with assms(2,3) show ?thesis unfolding limits by simp
qed

subsection \<open>Witnesses\<close>

definition example_git_binding :: GitBinding where
  "example_git_binding = \<lparr>gb_authorization = example_git_authorization, gb_signer = ''operator'',
     gb_digest = digest_hex example_crypto [1, 2, 3], gb_grant = [1, 2, 3]\<rparr>"

definition example_git_db :: Db where
  "example_git_db = \<lparr>kubernetes_rows = [], git_rows = [git_row example_git_binding GAuthorized]\<rparr>"

definition example_prepared :: PreparedTransition where
  "example_prepared = \<lparr>pt_receiver = \<lparr>gr_address = 1, gr_executable = \<lparr>path_absolute = True, path_components = [''git'']\<rparr>,
     gr_sender = \<lparr>path_absolute = True, path_components = [''sender'']\<rparr>,
     gr_receiver = \<lparr>path_absolute = True, path_components = [''receiver'']\<rparr>, gr_repository_id = ''repository-1''\<rparr>, pt_authorization = example_git_authorization\<rparr>"

lemma example_git_binding_valid: "git_binding_valid example_crypto example_git_binding"
proof -
  have "identity_is_valid ''operator''" by code_simp
  then show ?thesis
    using example_git_authorization_valid by (simp add: git_binding_valid_def example_git_binding_def)
qed

lemma example_git_db_ok: "db_ok example_git_db" "git_journal_ok C example_git_db \<longleftrightarrow> git_binding_valid C example_git_binding"
  "git_holds C example_git_db example_git_binding (Some GAuthorized)"
  "row_of Git example_git_db k = (if k = gb_operation_id example_git_binding then Some (git_row example_git_binding GAuthorized) else None)"
proof -
  show db: "db_ok example_git_db"
    using git_row_ok(1) by (simp add: db_ok_def table_ok_def id_exists_def example_git_db_def)
  show row: "row_of Git example_git_db k = (if k = gb_operation_id example_git_binding then Some (git_row example_git_binding GAuthorized) else None)" for k
    using has_id_unique [OF git_row_ok(2) [of example_git_binding GAuthorized]] by (simp add: row_of_def example_git_db_def)
  show "git_holds C example_git_db example_git_binding (Some GAuthorized)" by (simp add: git_holds_def row)
  have "b = example_git_binding" if "git_row example_git_binding GAuthorized = git_row b p" "git_phase_valid C b p" for b p
    using git_row_inject [OF that(1) _ that(2)] by simp
  then show "git_journal_ok C example_git_db \<longleftrightarrow> git_binding_valid C example_git_binding"
    using db unfolding git_journal_ok_def row by (auto intro!: exI [of _ example_git_binding] exI [of _ GAuthorized] split: if_splits)
qed

definition example_git_calls :: "(Delivery \<times> AnyCall) list" where
  "example_git_calls =
     [(Confirmed, GitCall True (BeginGitAttempt example_git_binding example_prepared)),
      (LostAcknowledgement, GitCall True (RecordGitAcknowledgement example_git_binding Updated))]"

lemma example_git_begin:
  "\<exists>db'. git_perform example_crypto Confirmed True (BeginGitAttempt example_git_binding example_prepared) example_git_db =
      (Inr (Some \<lparr>gp_prepared = example_prepared\<rparr>), db') \<and>
    git_holds example_crypto db' example_git_binding (Some (GAttempted None)) \<and> git_journal_ok example_crypto db'"
proof -
  have "git_journal_ok example_crypto example_git_db"
    using example_git_db_ok(2) example_git_binding_valid by blast
  from begin_git_attempt_confirmed [OF this example_git_binding_valid example_crypto_ok example_git_db_ok(3), of example_prepared]
  show ?thesis by (auto simp: example_prepared_def example_git_binding_def abind_def)
qed

theorem identity_dispatched_at_most_once_witness:
  "length (filter (\<lambda>p. any_permission_id p = ''operation-1'')
     (fst (run_calls (any_perform example_crypto) (example_git_calls @ example_git_calls) example_git_db))) \<le> 1"
  by (rule identity_dispatched_at_most_once [OF example_git_db_ok(1)])

theorem git_journal_refines_lifecycle_witness:
  "\<exists>db'. git_perform example_crypto Confirmed True (BeginGitAttempt example_git_binding example_prepared) example_git_db =
      (Inr (Some \<lparr>gp_prepared = example_prepared\<rparr>), db') \<and>
    git_holds example_crypto db' example_git_binding (Some (GAttempted None))"
proof -
  obtain db' where "git_perform example_crypto Confirmed True (BeginGitAttempt example_git_binding example_prepared) example_git_db =
      (Inr (Some \<lparr>gp_prepared = example_prepared\<rparr>), db')" using example_git_begin by blast
  with git_journal_refines_lifecycle [OF example_git_db_ok(1) this] show ?thesis by auto
qed

theorem git_row_canonical_witness:
  "decode_record example_crypto (git_row example_git_binding GAuthorized) example_git_binding = Inr GAuthorized"
  using git_row_canonical [OF git_row_ok(1)] by simp

theorem git_history_monotone_witness:
  "\<exists>p'. git_holds example_crypto (snd (run_calls (any_perform example_crypto) example_git_calls example_git_db))
     example_git_binding (Some p')"
  using git_history_monotone [OF example_git_db_ok(1) example_git_db_ok(3)] by blast


definition example_git_history :: "(Delivery \<times> AnyCall) list" where
  "example_git_history =
     [(Confirmed, GitCall True (InsertGit example_git_binding)),
      (Confirmed, GitCall True (BeginGitAttempt example_git_binding example_prepared)),
      (Confirmed, GitCall True (RecordGitAcknowledgement example_git_binding Updated))]"

lemma example_git_history_run:
  "git_holds example_crypto (snd (run_calls (any_perform example_crypto) example_git_history \<lparr>kubernetes_rows = [], git_rows = []\<rparr>))
     example_git_binding (Some (GAttempted (Some Updated)))"
proof -
  let ?db = "\<lparr>kubernetes_rows = [], git_rows = []\<rparr> :: Db"
  note v = example_git_binding_valid
  have "git_journal_ok example_crypto ?db"
    by (simp add: git_journal_ok_def db_ok_def table_ok_def id_exists_def row_of_def)
  moreover have "require_admission ?db = Inr ()" by code_simp
  ultimately obtain d1 where d1: "insert_git example_crypto Confirmed example_git_binding True ?db = (Inr GAuthorized, d1)"
    "git_holds example_crypto d1 example_git_binding (Some GAuthorized)" "git_journal_ok example_crypto d1"
    using insert_git_confirmed [OF _ v, of ?db] by (auto simp: row_of_def)
  obtain d2 where d2: "begin_git_attempt example_crypto Confirmed example_git_binding example_prepared True d1 = (Inr \<lparr>gp_prepared = example_prepared\<rparr>, d2)"
    "git_holds example_crypto d2 example_git_binding (Some (GAttempted None))" "git_journal_ok example_crypto d2"
    using begin_git_attempt_confirmed [OF d1(3) v example_crypto_ok d1(2), of example_prepared]
    by (auto simp: example_prepared_def example_git_binding_def)
  obtain d3 where d3: "record_git_acknowledgement example_crypto Confirmed example_git_binding Updated True d2 = (Inr (), d3)"
    "git_holds example_crypto d3 example_git_binding (Some (GAttempted (Some Updated)))"
    using record_git_acknowledgement_confirmed [OF d2(3) v example_crypto_ok d2(2), of Updated] by blast
  show ?thesis
    using d1(1) d2(1) d3 by (simp add: example_git_history_def abind_def)
qed

theorem acknowledgement_never_inferred_witness:
  "\<exists>d w b'. (d, GitCall w (RecordGitAcknowledgement b' Updated)) \<in> set example_git_history \<and>
     gb_operation_id b' = gb_operation_id example_git_binding"
  by (rule acknowledgement_never_inferred [OF _ _ example_git_history_run])
    (simp_all add: db_ok_def table_ok_def id_exists_def row_of_def)

definition example_mixed_calls :: "(Delivery \<times> AnyCall) list" where
  "example_mixed_calls = (Confirmed, KubernetesCall (InsertRequested example_authorized)) # example_git_history"

theorem journals_stay_healthy_witness:
  "let db' = snd (run_calls (any_perform example_crypto) example_mixed_calls \<lparr>kubernetes_rows = [], git_rows = []\<rparr>) in
    journal_ok example_crypto db' \<and> git_journal_ok example_crypto db'"
proof -
  let ?db = "\<lparr>kubernetes_rows = [], git_rows = []\<rparr> :: Db"
  have "journal_ok example_crypto ?db" "git_journal_ok example_crypto ?db"
    by (simp_all add: journal_ok_def git_journal_ok_def db_ok_def table_ok_def id_exists_def row_of_def)
  moreover have "list_all (\<lambda>(d, call). any_call_valid example_crypto call) example_mixed_calls"
    using example_authorized_valid example_git_binding_valid by (simp add: example_mixed_calls_def example_git_history_def)
  ultimately show ?thesis using journals_stay_healthy [OF example_crypto_ok] unfolding Let_def by blast
qed

theorem capacity_respected_witness:
  "fst (counts (snd (run_calls (any_perform example_crypto) example_mixed_calls \<lparr>kubernetes_rows = [], git_rows = []\<rparr>))) \<le> 504 \<and>
   snd (counts (snd (run_calls (any_perform example_crypto) example_mixed_calls \<lparr>kubernetes_rows = [], git_rows = []\<rparr>))) \<le> 32"
  by (rule capacity_respected)
    (simp_all add: db_ok_def table_ok_def id_exists_def counts_def)

end
