(* ===== verification/Gateway.thy ===== *)
theory Gateway
  imports Invariant GitJournal
begin

text \<open>
  The gateway, \<open>src/gateway/mod.rs\<close>: authorization under the configured trusts, admission under the
  worker lease, and the reconciliation loop that takes one operation from its durable request to
  its signed receipt.

  The world outside is the parameter \<open>Env\<close>: what the Kubernetes adapter answers, how each commit
  ends, and what the operating system says about the worker lock, each as a function of the
  number of interactions so far, so that every behaviour of the outside is some environment.
  The state \<open>World\<close> is the database, the slot holding the lock file, the mutation requests
  handed to the adapter and the pushes handed to Git so far, and the admission decisions acknowledged so far. A \<open>FaultPoint\<close>
  argument stops a pass at a named crash window, as the repository's own fault tests do.
\<close>

section \<open>Authorities\<close>

definition authority_duplicated :: "AuthorizationTrust list \<Rightarrow> nat \<Rightarrow> bool" where
  "authority_duplicated authorities index =
     list_ex (\<lambda>other. tr_key_id other = tr_key_id (authorities ! index)) (take index authorities)"

definition open_with_authorities :: "crypto \<Rightarrow> AuthorizationTrust list \<Rightarrow> (GatewayError, AuthorizationTrust list) result" where
  "open_with_authorities C authorities =
     (if length authorities > 128 then Inl UntrustedAuthorizationGrant
      else rbind (try_all (\<lambda>index.
          rbind (map_err map_authorization_error (trust_validate C (authorities ! index))) (\<lambda>_.
          require (\<not> authority_duplicated authorities index) UntrustedAuthorizationGrant))
        [0 ..< length authorities]) (\<lambda>_. Inr authorities))"

fun verify_grant_with ::
    "crypto \<Rightarrow> AuthorizationTrust list \<Rightarrow> bytes \<Rightarrow> (GatewayError, VerifiedAuthorization) result" where
  "verify_grant_with C [] bs = Inl UntrustedAuthorizationGrant"
| "verify_grant_with C (trust # authorities) bs =
     (case gateway_verify_grant C bs trust of
        Inr verified \<Rightarrow> Inr verified
      | Inl UntrustedAuthorizationGrant \<Rightarrow> verify_grant_with C authorities bs
      | Inl e \<Rightarrow> Inl e)"

definition bind_authorization ::
    "crypto \<Rightarrow> AuthorizationTrust list \<Rightarrow> SetDeploymentImageRequest \<Rightarrow> bytes \<Rightarrow>
      (GatewayError, AuthorizedRequest) result" where
  "bind_authorization C authorities request signed_grant =
     rbind (verify_grant_with C authorities signed_grant) (\<lambda>verified.
     rbind (validated_request_try_from request) (\<lambda>request.
     authorized_request_bind request verified))"

definition gateway_authorized_operation ::
    "crypto \<Rightarrow> AuthorizationTrust list \<Rightarrow> SetDeploymentImageRequest \<Rightarrow> bytes \<Rightarrow> Db \<Rightarrow>
      (GatewayError, LoadedOperation option) result" where
  "gateway_authorized_operation C authorities request signed_grant db =
     rbind (bind_authorization C authorities request signed_grant) (\<lambda>authorized.
     authorized_operation C authorized db)"

definition retained_authorize ::
    "crypto \<Rightarrow> AuthorizationTrust list \<Rightarrow> string \<Rightarrow> bytes \<Rightarrow> (GatewayError, AuthorizedRequest) result" where
  "retained_authorize C authorities operation_id bs =
     rbind (verify_grant_with C authorities bs) (\<lambda>verified.
     let facts = va_authorization verified;
         request = \<lparr>rq_operation_id = ea_operation_id facts, rq_namespace = ea_namespace facts,
           rq_deployment = ea_deployment facts, rq_container = ea_container facts,
           rq_immutable_image_digest = ea_immutable_image_digest facts\<rparr> in
     if rq_operation_id request \<noteq> operation_id then Inl OperationIdentityConflict
     else rbind (validated_request_try_from request) (\<lambda>request. authorized_request_bind request verified))"

definition retained_operation ::
    "crypto \<Rightarrow> AuthorizationTrust list \<Rightarrow> string \<Rightarrow> Db \<Rightarrow> (GatewayError, RetainedOperation option) result" where
  "retained_operation C authorities operation_id db =
     rbind (validate_identity IF_OperationId operation_id) (\<lambda>_.
     journal_retained_operation C operation_id (retained_authorize C authorities operation_id) db)"

section \<open>The world\<close>

datatype LockAttempt = LockPoisoned | LockAcquired | LockWouldBlock | LockFailed

record Env =
  env_identify :: "nat \<Rightarrow> SetDeploymentImageRequest \<Rightarrow> (TargetReadError, TargetIdentity) result"
  env_apply :: "nat \<Rightarrow> DispatchPermission \<Rightarrow> (unit, ApplyOutcome) result"
  env_observe :: "nat \<Rightarrow> SetDeploymentImageRequest \<Rightarrow> ApplyOutcome \<Rightarrow> (unit, ReceiverObservation) result"
  env_delivery :: "nat \<Rightarrow> Delivery"
  env_lock :: "nat \<Rightarrow> LockAttempt"
  env_unlock :: "nat \<Rightarrow> bool"

datatype AdmissionDecision = Admitted OperationState | Busy | Full

record World =
  w_db :: Db
  w_slot :: bool
  w_sends :: "DispatchPermission list"
  w_pushes :: "GitDispatchPermission list"
  w_acks :: "AdmissionDecision list"
  w_tick :: nat

type_synonym 'a gateway = "(World, GatewayError, 'a) action"

definition tick :: "World \<Rightarrow> World" where
  "tick w = w\<lparr>w_tick := Suc (w_tick w)\<rparr>"

definition db_read :: "(Db \<Rightarrow> (GatewayError, 'a) result) \<Rightarrow> 'a gateway" where
  "db_read f = reads (\<lambda>w. f (w_db w))"

definition db_write :: "Env \<Rightarrow> (Delivery \<Rightarrow> (Db, GatewayError, 'a) action) \<Rightarrow> 'a gateway" where
  "db_write E m w = (case m (env_delivery E (w_tick w)) (w_db w) of (r, db) \<Rightarrow> (r, tick (w\<lparr>w_db := db\<rparr>)))"

definition adapter_identify :: "Env \<Rightarrow> SetDeploymentImageRequest \<Rightarrow> (TargetReadError, TargetIdentity) result gateway" where
  "adapter_identify E request w = (Inr (env_identify E (w_tick w) request), tick w)"

text \<open>The adapter consumes the permission and sends one mutation request.\<close>

definition adapter_apply :: "Env \<Rightarrow> DispatchPermission \<Rightarrow> ApplyOutcome gateway" where
  "adapter_apply E permission w =
     (map_err (\<lambda>_. KubernetesApply) (env_apply E (w_tick w) permission),
      tick (w\<lparr>w_sends := w_sends w @ [permission]\<rparr>))"

definition adapter_observe :: "Env \<Rightarrow> SetDeploymentImageRequest \<Rightarrow> ApplyOutcome \<Rightarrow> ReceiverObservation gateway" where
  "adapter_observe E request outcome w =
     (map_err (\<lambda>_. KubernetesReceiverObservation) (env_observe E (w_tick w) request outcome), tick w)"

text \<open>
  The worker lease: the lock file is taken out of its slot and locked; dropping the lease unlocks
  it and puts it back, unless unlocking fails.
\<close>

definition try_lock_worker :: "Env \<Rightarrow> bool gateway" where
  "try_lock_worker E w =
     (case env_lock E (w_tick w) of
        LockPoisoned \<Rightarrow> (Inl InvalidPersistedState, tick w)
      | attempt \<Rightarrow>
          if \<not> w_slot w then (Inr False, tick w)
          else (case attempt of
              LockAcquired \<Rightarrow> (Inr True, tick (w\<lparr>w_slot := False\<rparr>))
            | LockWouldBlock \<Rightarrow> (Inr False, tick w)
            | _ \<Rightarrow> (Inl WorkerLock, tick w)))"

definition drop_worker :: "Env \<Rightarrow> World \<Rightarrow> World" where
  "drop_worker E w = tick (if env_unlock E (w_tick w) then w\<lparr>w_slot := True\<rparr> else w)"

section \<open>Submission\<close>

definition mark_requested_authorized :: "crypto \<Rightarrow> Env \<Rightarrow> AuthorizedRequest \<Rightarrow> unit gateway" where
  "mark_requested_authorized C E authorized =
     abind (db_read (\<lambda>db. rbind (operation C db (vr_operation_id (aq_request authorized)))
       (ok_or InvalidPersistedState))) (\<lambda>op.
     case op of
       LRequested requested \<Rightarrow> db_write E (\<lambda>d. mark_authorized C d requested authorized)
     | _ \<Rightarrow> throw InvalidTransition)"

definition submit_authorized_with_fault ::
    "crypto \<Rightarrow> AuthorizationTrust list \<Rightarrow> Env \<Rightarrow> SetDeploymentImageRequest \<Rightarrow> bytes \<Rightarrow> FaultPoint option \<Rightarrow>
      SubmissionResult gateway" where
  "submit_authorized_with_fault C authorities E request signed_grant fault =
     abind (lift (validated_request_try_from request)) (\<lambda>request.
     abind (lift (verify_grant_with C authorities signed_grant)) (\<lambda>verified.
     abind (lift (authorized_request_bind request verified)) (\<lambda>authorized.
     abind (db_read (existing_submission C authorized)) (\<lambda>existing.
     case existing of
       Some existing \<Rightarrow>
         if existing = Requested then
           abind (mark_requested_authorized C E authorized) (\<lambda>_.
           abind (throw_if (fault = Some AuthorizedCommitted) InjectedFault) (\<lambda>_.
           areturn Created))
         else areturn (Existing existing)
     | None \<Rightarrow>
         abind (db_write E (\<lambda>d. insert_requested d authorized)) (\<lambda>_.
         abind (throw_if (fault = Some RequestedCommitted) InjectedFault) (\<lambda>_.
         abind (mark_requested_authorized C E authorized) (\<lambda>_.
         abind (throw_if (fault = Some AuthorizedCommitted) InjectedFault) (\<lambda>_.
         areturn Created))))))))"

definition submit_authorized ::
    "crypto \<Rightarrow> AuthorizationTrust list \<Rightarrow> Env \<Rightarrow> SetDeploymentImageRequest \<Rightarrow> bytes \<Rightarrow> SubmissionResult gateway" where
  "submit_authorized C authorities E request signed_grant =
     submit_authorized_with_fault C authorities E request signed_grant None"

section \<open>One pass over an operation\<close>

definition authorized_read :: "crypto \<Rightarrow> AuthorizedRequest \<Rightarrow> LoadedOperation gateway" where
  "authorized_read C authorized =
     db_read (\<lambda>db. rbind (authorized_operation C authorized db) (ok_or InvalidPersistedState))"

text \<open>\<open>let Some(LoadedOperation::ApplyStarted(started)) = ... else\<close>.\<close>

definition started_read :: "crypto \<Rightarrow> AuthorizedRequest \<Rightarrow> ApplyStartedOperation gateway" where
  "started_read C authorized =
     db_read (\<lambda>db. rbind (authorized_operation C authorized db) (\<lambda>op.
       case op of Some (LApplyStarted started) \<Rightarrow> Inr started | _ \<Rightarrow> Inl InvalidPersistedState))"

definition preflight_target ::
    "crypto \<Rightarrow> Env \<Rightarrow> AuthorizedRequest \<Rightarrow> AuthorizedOperation \<Rightarrow> FaultPoint option \<Rightarrow>
      ValidatedTargetIdentity option gateway" where
  "preflight_target C E authorized op fault =
     abind (adapter_identify E (to_adapter_request (rf_request (azo_request op)))) (\<lambda>target_read.
     abind (authorized_read C authorized) (\<lambda>_.
     case target_read of
       Inl Transient \<Rightarrow> throw KubernetesTargetObservation
     | Inl (Permanent rejection) \<Rightarrow>
         abind (db_write E (\<lambda>d. mark_not_attempted C d op rejection)) (\<lambda>_.
         abind (throw_if (fault = Some TargetRejectedCommitted) InjectedFault) (\<lambda>_.
         areturn None))
     | Inr target \<Rightarrow>
         abind (throw_if (fault = Some TargetObserved) InjectedFault) (\<lambda>_.
         lift (rbind (map_err (\<lambda>_. InvalidKubernetesFact) (validated_target_try_from target))
           (\<lambda>validated. Inr (Some validated))))))"

text \<open>Dispatch under a fresh permission, to the recorded response.\<close>

definition dispatch_attempt ::
    "crypto \<Rightarrow> Env \<Rightarrow> AuthorizedRequest \<Rightarrow> DispatchPermission \<Rightarrow> FaultPoint option \<Rightarrow> ApplyStartedOperation gateway" where
  "dispatch_attempt C E authorized permission fault =
     abind (throw_if (fault = Some ApplyStartedCommitted) InjectedFault) (\<lambda>_.
     abind (started_read C authorized) (\<lambda>started.
     abind (adapter_apply E permission) (\<lambda>outcome.
     abind (throw_if (fault = Some ApplyReturned) InjectedFault) (\<lambda>_.
     abind (authorized_read C authorized) (\<lambda>_.
     abind (db_write E (\<lambda>d. record_apply_outcome C d started outcome)) (\<lambda>_.
     abind (throw_if (fault = Some ApplyOutcomeCommitted) InjectedFault) (\<lambda>_.
     started_read C authorized)))))))"

text \<open>The arm for an authorized operation; \<open>None\<close> when the target was rejected.\<close>

definition fresh_attempt ::
    "crypto \<Rightarrow> Env \<Rightarrow> AuthorizedRequest \<Rightarrow> AuthorizedOperation \<Rightarrow> FaultPoint option \<Rightarrow>
      ApplyStartedOperation option gateway" where
  "fresh_attempt C E authorized op fault =
     abind (preflight_target C E authorized op fault) (\<lambda>target.
     case target of
       None \<Rightarrow> areturn None
     | Some target \<Rightarrow>
         abind (db_write E (\<lambda>d. begin_attempt C d op target fault)) (\<lambda>permission.
         case permission of
           None \<Rightarrow> areturn None
         | Some permission \<Rightarrow>
             abind (dispatch_attempt C E authorized permission fault) (\<lambda>started. areturn (Some started))))"

text \<open>The continuation that only attempted history reaches.\<close>

definition observe_attempt ::
    "crypto \<Rightarrow> Env \<Rightarrow> AuthorizedRequest \<Rightarrow> ApplyStartedOperation \<Rightarrow> FaultPoint option \<Rightarrow>
      OperationState option gateway" where
  "observe_attempt C E authorized attempted fault =
     (let request = to_adapter_request (rf_request (azo_request (aso_authorized attempted)));
          outcome = classification_outcome attempted in
      abind (adapter_observe E request outcome) (\<lambda>observation.
      abind (throw_if (fault = Some ReceiverRead) InjectedFault) (\<lambda>_.
      abind (authorized_read C authorized) (\<lambda>_.
      abind (db_write E (\<lambda>d. freeze_observation C d attempted observation)) (\<lambda>_.
      abind (throw_if (fault = Some ReceiverObservedCommitted) InjectedFault) (\<lambda>_.
      areturn (Some ReceiverObserved)))))))"

definition run_locked_operation_once ::
    "crypto \<Rightarrow> Env \<Rightarrow> AuthorizedRequest \<Rightarrow> FaultPoint option \<Rightarrow> bool \<Rightarrow> OperationState option gateway" where
  "run_locked_operation_once C E authorized fault owns_worker =
     (if \<not> owns_worker then throw InvalidTransition
      else
      abind (db_read (authorized_operation C authorized)) (\<lambda>op.
      case op of
        None \<Rightarrow> areturn None
      | Some (LAuthorized op) \<Rightarrow>
          abind (fresh_attempt C E authorized op fault) (\<lambda>started.
          case started of
            None \<Rightarrow> areturn (Some NotAttempted)
          | Some started \<Rightarrow> observe_attempt C E authorized started fault)
      | Some (LApplyStarted op) \<Rightarrow>
          observe_attempt C E authorized op (if fault = Some ReceiverRead then None else fault)
      | Some _ \<Rightarrow> areturn None))"

section \<open>Receipts\<close>

record ReceiptSettings =
  st_signing_seed :: bytes
  st_key_id :: string

definition build_receipt ::
    "crypto \<Rightarrow> ReceiverObservedOperation \<Rightarrow> ReceiptSettings \<Rightarrow> (GatewayError, FrozenReceipt) result" where
  "build_receipt C op settings =
     rbind (map_err GReceipt (sign_statement C (obo_statement op) (st_signing_seed settings) (st_key_id settings)))
       (\<lambda>bs. Inr \<lparr>fr_operation_id = obo_operation_id op, fr_bytes = bs,
             fr_digest = receipt_digest_hex C bs, fr_key_id = st_key_id settings\<rparr>)"

definition finalize_locked_operation_receipt_once ::
    "crypto \<Rightarrow> Env \<Rightarrow> LoadedOperation option \<Rightarrow> ReceiptSettings \<Rightarrow> FaultPoint option \<Rightarrow> OperationState option gateway" where
  "finalize_locked_operation_receipt_once C E op settings fault =
     (case op of
        Some (LReceiverObserved op) \<Rightarrow>
          abind (lift (build_receipt C op settings)) (\<lambda>receipt.
          abind (throw_if (fault = Some BeforeReceiptCommit) InjectedFault) (\<lambda>_.
          abind (db_write E (\<lambda>d. commit_receipt C d op receipt)) (\<lambda>_.
          abind (throw_if (fault \<in> {Some FinalizedCommitted, Some ReceiptCommitAcknowledgementLost}) InjectedFault) (\<lambda>_.
          areturn (Some Finalized)))))
      | _ \<Rightarrow> areturn None)"

definition read_loaded_receipt :: "LoadedOperation \<Rightarrow> (GatewayError, bytes \<times> string) result" where
  "read_loaded_receipt op =
     (case op of LFinalized _ receipt \<Rightarrow> Inr (fr_bytes receipt, fr_digest receipt)
      | _ \<Rightarrow> Inl InvalidPersistedState)"

section \<open>Reconciliation\<close>

datatype ReconciliationBlockage = ReceiverUnavailable | SigningUnavailable | WorkerContention

datatype ReconciliationError =
  Submission GatewayError | Advancement GatewayError | Completion | Blocked ReconciliationBlockage

datatype 'a Loop = Continue | Return 'a

text \<open>A \<open>loop\<close> whose body returns early or goes round; \<open>None\<close> when the fuel did not suffice.\<close>

fun iterate :: "nat \<Rightarrow> ('s, 'e, 'a Loop) action \<Rightarrow> 's \<Rightarrow> (('e, 'a) result \<times> 's) option" where
  "iterate 0 body s = None"
| "iterate (Suc fuel) body s =
     (case body s of
        (Inl e, s') \<Rightarrow> Some (Inl e, s')
      | (Inr (Return x), s') \<Rightarrow> Some (Inr x, s')
      | (Inr Continue, s') \<Rightarrow> iterate fuel body s')"

definition reconcile_body ::
    "crypto \<Rightarrow> AuthorizationTrust list \<Rightarrow> Env \<Rightarrow> SetDeploymentImageRequest \<Rightarrow> bytes \<Rightarrow> AuthorizedRequest \<Rightarrow> bool \<Rightarrow>
      ReceiptSettings option \<Rightarrow> bool \<Rightarrow> FaultPoint option \<Rightarrow>
      (World, ReconciliationError, LoadedOperation option Loop) action" where
  "reconcile_body C authorities E request signed_grant authorized adapter receipt_settings worker fault =
     abind (amap_err Advancement (db_read (authorized_operation C authorized))) (\<lambda>op.
     case op of
       None \<Rightarrow> areturn (Return None)
     | Some op \<Rightarrow>
         let go = (\<lambda>advanced. if \<not> advanced
           then abind (amap_err Advancement (db_read (gateway_authorized_operation C authorities request signed_grant)))
             (\<lambda>op. areturn (Return op))
           else areturn Continue) in
         (case loaded_state op of
            Requested \<Rightarrow>
              abind (amap_err Submission (submit_authorized C authorities E request signed_grant)) (\<lambda>_. go True)
          | Authorized \<Rightarrow>
              if \<not> adapter then throw (Blocked ReceiverUnavailable)
              else abind (amap_err Advancement (run_locked_operation_once C E authorized fault worker))
                (\<lambda>state. go (state \<noteq> None))
          | ApplyStarted \<Rightarrow>
              if \<not> adapter then throw (Blocked ReceiverUnavailable)
              else abind (amap_err Advancement (run_locked_operation_once C E authorized fault worker))
                (\<lambda>state. go (state \<noteq> None))
          | ReceiverObserved \<Rightarrow>
              (case receipt_settings of
                 None \<Rightarrow> throw (Blocked SigningUnavailable)
               | Some settings \<Rightarrow>
                   abind (amap_err (\<lambda>_. Completion)
                     (finalize_locked_operation_receipt_once C E (Some op) settings fault))
                     (\<lambda>state. go (state \<noteq> None)))
          | NotAttempted \<Rightarrow> areturn (Return (Some op))
          | Finalized \<Rightarrow> areturn (Return (Some op))))"

definition reconcile_locked_with_adapter ::
    "nat \<Rightarrow> crypto \<Rightarrow> AuthorizationTrust list \<Rightarrow> Env \<Rightarrow> SetDeploymentImageRequest \<Rightarrow> bytes \<Rightarrow> bool \<Rightarrow>
      ReceiptSettings option \<Rightarrow> bool \<Rightarrow> FaultPoint option \<Rightarrow>
      World \<Rightarrow> ((ReconciliationError, LoadedOperation option) result \<times> World) option" where
  "reconcile_locked_with_adapter fuel C authorities E request signed_grant adapter receipt_settings worker fault w =
     (if \<not> worker then Some (Inl (Advancement InvalidTransition), w)
      else case bind_authorization C authorities request signed_grant of
        Inl e \<Rightarrow> Some (Inl (Advancement e), w)
      | Inr authorized \<Rightarrow>
          iterate fuel (reconcile_body C authorities E request signed_grant authorized adapter receipt_settings
            worker fault) w)"

section \<open>Admission\<close>

definition acknowledge :: "AdmissionDecision \<Rightarrow> (World, ReconciliationError, unit) action" where
  "acknowledge decision w = (Inr (), w\<lparr>w_acks := w_acks w @ [decision]\<rparr>)"

text \<open>\<open>Some state\<close> when the operation was admitted and the lease is held.\<close>

definition admit_service_operation ::
    "Env \<Rightarrow> OperationState option \<Rightarrow> OperationState gateway \<Rightarrow>
      (World, ReconciliationError, OperationState option) action" where
  "admit_service_operation E existing admit =
     (if existing \<in> {Some Finalized, Some NotAttempted}
      then abind (acknowledge (Admitted (the existing))) (\<lambda>_. areturn None)
      else
      abind (amap_err Submission (try_lock_worker E)) (\<lambda>locked.
      if \<not> locked
      then abind (acknowledge (case existing of None \<Rightarrow> Busy | Some state \<Rightarrow> Admitted state)) (\<lambda>_.
        throw (Blocked WorkerContention))
      else (\<lambda>w. case admit w of
          (Inr state, w') \<Rightarrow> abind (acknowledge (Admitted state)) (\<lambda>_. areturn (Some state)) w'
        | (Inl JournalFull, w') \<Rightarrow>
            (case acknowledge Full w' of (_, w'') \<Rightarrow> (Inr None, drop_worker E w''))
        | (Inl e, w') \<Rightarrow> (Inl (Submission e), drop_worker E w'))))"

definition admit_operation :: "crypto \<Rightarrow> Env \<Rightarrow> AuthorizedRequest \<Rightarrow> OperationState gateway" where
  "admit_operation C E authorized =
     abind (db_read (existing_submission C authorized)) (\<lambda>existing.
     case existing of
       Some state \<Rightarrow> areturn state
     | None \<Rightarrow> abind (db_write E (\<lambda>d. insert_requested d authorized)) (\<lambda>_. areturn Requested))"

text \<open>The part of \<open>admit_and_reconcile\<close> before the lease is handed to reconciliation.\<close>

definition admit_request ::
    "crypto \<Rightarrow> AuthorizationTrust list \<Rightarrow> Env \<Rightarrow> SetDeploymentImageRequest \<Rightarrow> bytes \<Rightarrow>
      (World, ReconciliationError, OperationState option) action" where
  "admit_request C authorities E request signed_grant =
     abind (amap_err Submission (lift (bind_authorization C authorities request signed_grant))) (\<lambda>authorized.
     abind (amap_err Submission (db_read (authorized_operation C authorized))) (\<lambda>existing.
     admit_service_operation E (map_option loaded_state existing) (admit_operation C E authorized)))"

definition admit_and_reconcile ::
    "nat \<Rightarrow> crypto \<Rightarrow> AuthorizationTrust list \<Rightarrow> Env \<Rightarrow> SetDeploymentImageRequest \<Rightarrow> bytes \<Rightarrow> bool \<Rightarrow>
      ReceiptSettings option \<Rightarrow> FaultPoint option \<Rightarrow> World \<Rightarrow> ((ReconciliationError, unit) result \<times> World) option" where
  "admit_and_reconcile fuel C authorities E request signed_grant adapter receipt_settings fault w =
     (case admit_request C authorities E request signed_grant w of
        (Inl e, w') \<Rightarrow> Some (Inl e, w')
      | (Inr None, w') \<Rightarrow> Some (Inr (), w')
      | (Inr (Some _), w') \<Rightarrow>
          map_option (\<lambda>(r, w''). (rbind r (\<lambda>_. Inr ()), drop_worker E w''))
            (reconcile_locked_with_adapter fuel C authorities E request signed_grant adapter receipt_settings True fault w'))"

end
