(* ===== verification/Passes.thy ===== *)
theory Passes
  imports Gateway
begin

text \<open>
  Safety and termination of the gateway's passes. \<open>safe_move\<close> is the relation every action
  respects, whatever the environment does and wherever a fault stops the pass; it is proved
  compositionally from the triples of \<open>Action\<close> and carries at-most-once dispatch. The rank of
  the operation's phase rises on every round of the reconciliation loop, so four rounds suffice.
\<close>

section \<open>What a pass may change\<close>

abbreviation sent_for :: "string \<Rightarrow> DispatchPermission list \<Rightarrow> nat" where
  "sent_for k ps \<equiv> length (filter (\<lambda>p. vr_operation_id (dp_request p) = k) ps)"

text \<open>The journal holds the attempt a permission stands for, with its exact target.\<close>

definition recorded :: "DispatchPermission \<Rightarrow> Db \<Rightarrow> bool" where
  "recorded p db \<longleftrightarrow> (\<exists>r. row_of Kubernetes db (vr_operation_id (dp_request p)) = Some r \<and>
     field r ''state'' \<in> Text ` {''apply_started'', ''receiver_observed'', ''finalized''} \<and>
     field r ''target_uid'' = Text (vt_deployment_uid (dp_target p)) \<and>
     field r ''target_resource_version'' = Text (vt_resource_version (dp_target p)))"

lemma row_change_target:
  assumes "row_change C call (Some r) nxt" "row_ok Kubernetes r"
    and "field r ''state'' \<in> Text ` {''apply_started'', ''receiver_observed'', ''finalized''}"
  shows "field nxt ''target_uid'' = field r ''target_uid''"
    "field nxt ''target_resource_version'' = field r ''target_resource_version''"
proof -
  have "field nxt ''target_uid'' = field r ''target_uid'' \<and>
      field nxt ''target_resource_version'' = field r ''target_resource_version''"
    using assms(1)
  proof (cases rule: row_change.cases)
    case (6 op outcome)
    then show ?thesis unfolding \<open>nxt = _\<close> set_columns_fields(6) [OF assms(2)] by (simp add: response_columns_def)
  next
    case (7 op observation)
    then show ?thesis unfolding \<open>nxt = _\<close> set_columns_fields(7) [OF assms(2)] by (simp add: observation_columns_def)
  next
    case (8 op receipt)
    then show ?thesis unfolding \<open>nxt = _\<close> set_columns_fields(2) [OF assms(2)] by (simp add: receipt_columns_def)
  qed (use assms(3) in \<open>auto dest: decode_state(1)\<close>)
  then show "field nxt ''target_uid'' = field r ''target_uid''"
    "field nxt ''target_resource_version'' = field r ''target_resource_version''" by simp_all
qed

lemma effect_recorded:
  assumes "db_ok db" "effect C call db db'" "recorded p db"
  shows "recorded p db'"
proof -
  from assms(2) obtain nxt where ch: "row_change C call (row_of Kubernetes db (call_id call)) nxt"
    and st: "stored Kubernetes (call_id call) nxt db db'" by (auto simp: effect_def)
  from assms(3) obtain r where r: "row_of Kubernetes db (vr_operation_id (dp_request p)) = Some r"
    "field r ''state'' \<in> Text ` {''apply_started'', ''receiver_observed'', ''finalized''}"
    "field r ''target_uid'' = Text (vt_deployment_uid (dp_target p))"
    "field r ''target_resource_version'' = Text (vt_resource_version (dp_target p))" by (auto simp: recorded_def)
  show ?thesis
  proof (cases "vr_operation_id (dp_request p) = call_id call")
    case True
    then have "row_change C call (Some r) nxt" "row_ok Kubernetes r"
      using ch r db_row_ok [OF assms(1)] by auto
    with row_change_dispatched row_change_target r st True show ?thesis
      unfolding recorded_def stored_def by auto
  next
    case False
    with r st show ?thesis by (auto simp: recorded_def stored_def)
  qed
qed

lemma permitted_recorded:
  assumes "db_ok db" "permitted C op observed db db' p"
  shows "recorded p db'"
proof -
  from assms obtain r where r: "row_of Kubernetes db (azo_operation_id op) = Some r" "row_ok Kubernetes r"
    "stored Kubernetes (azo_operation_id op) (set_columns (attempt_columns observed) r) db db'"
    and p: "p = \<lparr>dp_request = rf_request (azo_request op), dp_target = observed\<rparr>"
    using db_row_ok by (auto simp: permitted_def)
  have "field (set_columns (attempt_columns observed) r) ''target_uid'' = Text (vt_deployment_uid observed)"
    "field (set_columns (attempt_columns observed) r) ''target_resource_version'' = Text (vt_resource_version observed)"
    unfolding set_columns_fields(5) [OF r(2)] by (simp_all add: attempt_columns_def)
  with r state_set_columns(5) [OF r(2)] show ?thesis
    by (simp add: recorded_def stored_def p)
qed

text \<open>
  The relation every action of the gateway respects: nothing dispatched is forgotten, and the
  mutation requests it adds are at most one per identity, only for identities it dispatched
  itself, each recorded in the journal. Git rows and pushes are not touched.
\<close>

definition safe_move :: "World \<Rightarrow> World \<Rightarrow> bool" where
  "safe_move = safe_log w_db w_sends (\<lambda>p. vr_operation_id (dp_request p)) dispatched recorded db_ok
     (\<lambda>w. (row_of Git (w_db w), w_pushes w))"

lemma safe_move_iff: "safe_move w w' \<longleftrightarrow> (db_ok (w_db w) \<longrightarrow> db_ok (w_db w') \<and>
     (\<forall>k. dispatched k (w_db w) \<longrightarrow> dispatched k (w_db w')) \<and>
     (\<forall>p. recorded p (w_db w) \<longrightarrow> recorded p (w_db w')) \<and>
     (\<exists>new. w_sends w' = w_sends w @ new \<and>
        (\<forall>k. sent_for k new \<le> (if dispatched k (w_db w') \<and> \<not> dispatched k (w_db w) then 1 else 0)) \<and>
        (\<forall>p \<in> set new. recorded p (w_db w'))) \<and>
     row_of Git (w_db w') = row_of Git (w_db w) \<and> w_pushes w' = w_pushes w)"
  by (simp add: safe_move_def safe_log_def)

lemma safe_move_refl: "reflp safe_move" and safe_move_trans: "transp safe_move"
  unfolding safe_move_def by (rule safe_log_refl safe_log_trans)+

lemma safe_move_quiet: "w_db w' = w_db w \<Longrightarrow> w_sends w' = w_sends w \<Longrightarrow> w_pushes w' = w_pushes w \<Longrightarrow> safe_move w w'"
  by (simp add: safe_move_iff)

lemma safe_db_write:
  assumes "\<And>d db r db'. db_ok db \<Longrightarrow> m d db = (r, db') \<Longrightarrow> db' = db \<or> (\<exists>C call. effect C call db db')"
  shows "moves safe_move (db_write E m)"
proof (rule movesI)
  fix w r w'
  assume "db_write E m w = (r, w')"
  then obtain db' where m: "m (env_delivery E (w_tick w)) (w_db w) = (r, db')" and w': "w' = tick (w\<lparr>w_db := db'\<rparr>)"
    by (auto simp: db_write_def split: prod.splits)
  show "safe_move w w'"
  proof (cases "db_ok (w_db w) \<and> db' \<noteq> w_db w")
    case True
    with assms m obtain C call where e: "effect C call (w_db w) db'" by blast
    with True effect_dispatched [OF _ e] effect_recorded [OF _ e] effect_frame [OF e] show ?thesis
      by (simp add: safe_move_iff w' tick_def)
  qed (auto simp: w' tick_def safe_move_iff)
qed

lemmas safe_rules = moves_lift [OF safe_move_refl] moves_throw_if [OF safe_move_refl] moves_reads [OF safe_move_refl]
  moves_abind [OF safe_move_trans] moves_amap_err

lemma safe_db_read: "moves safe_move (db_read f)"
  unfolding db_read_def by (rule safe_rules)

lemma safe_adapter_reads: "moves safe_move (adapter_identify E q)" "moves safe_move (adapter_observe E q out)"
  "moves safe_move (try_lock_worker E)"
  by (auto intro!: movesI safe_move_quiet
      simp: adapter_identify_def adapter_observe_def try_lock_worker_def tick_def split: LockAttempt.splits if_splits)

lemma safe_writes:
  "moves safe_move (db_write E (\<lambda>d. insert_requested d q))"
  "moves safe_move (db_write E (\<lambda>d. mark_authorized C d facts q))"
  "moves safe_move (db_write E (\<lambda>d. mark_not_attempted C d azo rejection))"
  "moves safe_move (db_write E (\<lambda>d. begin_attempt C d azo target fault))"
  "moves safe_move (db_write E (\<lambda>d. record_apply_outcome C d aso outcome))"
  "moves safe_move (db_write E (\<lambda>d. freeze_observation C d aso observation))"
  "moves safe_move (db_write E (\<lambda>d. commit_receipt C d obo receipt))"
  subgoal by (rule safe_db_write) (drule (1) insert_requested_effect, blast)
  subgoal by (rule safe_db_write) (drule (1) mark_authorized_effect, blast)
  subgoal by (rule safe_db_write) (drule (1) mark_not_attempted_effect, blast)
  subgoal by (rule safe_db_write) (drule (1) begin_attempt_effect, blast)
  subgoal by (rule safe_db_write) (drule (1) record_apply_outcome_effect, blast)
  subgoal by (rule safe_db_write) (drule (1) freeze_observation_effect, blast)
  subgoal by (rule safe_db_write) (drule (1) commit_receipt_effect, blast)
  done


lemma safe_dispatch_rest:
  "moves safe_move (abind (throw_if (fault = Some ApplyReturned) InjectedFault) (\<lambda>_.
     abind (authorized_read C authorized) (\<lambda>_.
     abind (db_write E (\<lambda>d. record_apply_outcome C d started outcome)) (\<lambda>_.
     abind (throw_if (fault = Some ApplyOutcomeCommitted) InjectedFault) (\<lambda>_.
     started_read C authorized)))))"
  unfolding authorized_read_def started_read_def by (intro safe_rules safe_writes safe_db_read)

text \<open>
  The one place where a mutation request is sent: directly after the attempt was stored, from the
  permission the storing returned.
\<close>

lemma dispatch_attempt_cases:
  assumes "dispatch_attempt C E authorized p fault w = (r, w')"
  shows "w' = w \<or> safe_move (tick (w\<lparr>w_sends := w_sends w @ [p]\<rparr>)) w'"
proof -
  let ?sent = "tick (w\<lparr>w_sends := w_sends w @ [p]\<rparr>)"
  let ?rest = "\<lambda>started outcome. abind (throw_if (fault = Some ApplyReturned) InjectedFault) (\<lambda>_.
     abind (authorized_read C authorized) (\<lambda>_.
     abind (db_write E (\<lambda>d. record_apply_outcome C d started outcome)) (\<lambda>_.
     abind (throw_if (fault = Some ApplyOutcomeCommitted) InjectedFault) (\<lambda>_.
     started_read C authorized))))"
  obtain a where rd: "started_read C authorized w = (a, w)"
    by (simp add: started_read_def db_read_def)
  show ?thesis
  proof (cases "fault = Some ApplyStartedCommitted \<or> (\<exists>e. a = Inl e)")
    case True
    with assms rd show ?thesis
      by (cases "fault = Some ApplyStartedCommitted") (auto simp: dispatch_attempt_def abind_run)
  next
    case False
    then obtain started where "a = Inr started" by (cases a) auto
    with False rd assms have "(case map_err (\<lambda>_. KubernetesApply) (env_apply E (w_tick w) p) of
        Inl e \<Rightarrow> (Inl e, ?sent) | Inr outcome \<Rightarrow> ?rest started outcome ?sent) = (r, w')"
      by (simp add: dispatch_attempt_def abind_run abind_eq [of "adapter_apply _ _"] adapter_apply_def)
    then show ?thesis
      using movesD [OF safe_dispatch_rest] reflpD [OF safe_move_refl] by (auto split: sum.splits)
  qed
qed

lemma safe_fresh_attempt_dispatch:
  "moves safe_move (abind (db_write E (\<lambda>d. begin_attempt C d op target fault)) (\<lambda>permission.
     case permission of None \<Rightarrow> areturn None
     | Some permission \<Rightarrow> abind (dispatch_attempt C E authorized permission fault) (\<lambda>started. areturn (Some started))))"
  (is "moves _ (abind ?begin ?cont)")
proof (rule movesI)
  fix w r w'
  assume step: "abind ?begin ?cont w = (r, w')"
  obtain a w1 where b: "?begin w = (a, w1)" by fastforce
  have sw: "safe_move w w1" using movesD [OF safe_writes(4) b] .
  show "safe_move w w'"
  proof (cases "\<exists>p. a = Inr (Some p)")
    case False
    with step b have "w' = w1" by (auto simp: abind_def split: sum.splits option.splits)
    with sw show ?thesis by simp
  next
    case True
    then obtain p where p: "a = Inr (Some p)" by blast
    obtain a2 w2 where d: "dispatch_attempt C E authorized p fault w1 = (a2, w2)" by fastforce
    have w': "w' = w2" using step b p d by (auto simp: abind_def split: sum.splits)
    show ?thesis
    proof (cases "db_ok (w_db w)")
      case True
      obtain db1 where db1: "begin_attempt C (env_delivery E (w_tick w)) op target fault (w_db w) = (Inr (Some p), db1)"
        and w1: "w1 = tick (w\<lparr>w_db := db1\<rparr>)"
        using b p by (auto simp: db_write_def split: prod.splits)
      have perm: "permitted C op target (w_db w) db1 p"
        using begin_attempt_effect [OF True db1] by blast
      have "safe_move w (tick (w1\<lparr>w_sends := w_sends w1 @ [p]\<rparr>))"
        using sw True permitted_fresh [OF True perm] permitted_recorded [OF True perm]
        by (auto simp: safe_move_iff w1 tick_def)
      then show ?thesis
        using dispatch_attempt_cases [OF d] sw transpD [OF safe_move_trans] w' by blast
    qed (simp add: safe_move_iff)
  qed
qed

lemma safe_preflight_target: "moves safe_move (preflight_target C E authorized op fault)"
  unfolding preflight_target_def authorized_read_def
  by (intro safe_rules safe_adapter_reads safe_db_read)
    (auto intro!: safe_rules safe_writes split: sum.splits TargetReadError.splits)

lemma safe_fresh_attempt: "moves safe_move (fresh_attempt C E authorized op fault)"
  unfolding fresh_attempt_def
  by (intro safe_rules safe_preflight_target moves_option safe_fresh_attempt_dispatch)

lemma safe_observe_attempt: "moves safe_move (observe_attempt C E authorized attempted fault)"
  unfolding observe_attempt_def Let_def authorized_read_def
  by (intro safe_rules safe_adapter_reads safe_db_read safe_writes)

lemma safe_run_locked: "moves safe_move (run_locked_operation_once C E authorized fault worker)"
proof -
  have "moves safe_move (case op of
        None \<Rightarrow> areturn None
      | Some (LAuthorized op) \<Rightarrow>
          abind (fresh_attempt C E authorized op fault) (\<lambda>started.
          case started of
            None \<Rightarrow> areturn (Some NotAttempted)
          | Some started \<Rightarrow> observe_attempt C E authorized started fault)
      | Some (LApplyStarted op) \<Rightarrow>
          observe_attempt C E authorized op (if fault = Some ReceiverRead then None else fault)
      | Some _ \<Rightarrow> areturn None)" for op
    by (auto intro!: safe_rules moves_option safe_fresh_attempt safe_observe_attempt split: option.splits LoadedOperation.splits)
  then show ?thesis
    unfolding run_locked_operation_once_def by (intro moves_if safe_rules safe_db_read)
qed

lemma safe_mark_requested: "moves safe_move (mark_requested_authorized C E authorized)"
  unfolding mark_requested_authorized_def
  by (intro safe_rules safe_db_read) (auto intro!: safe_rules safe_writes split: LoadedOperation.splits)

lemma safe_submit: "moves safe_move (submit_authorized_with_fault C authorities E request grant fault)"
  unfolding submit_authorized_with_fault_def
  by (intro safe_rules safe_db_read moves_option moves_if safe_writes safe_mark_requested)

lemma safe_finalize: "moves safe_move (finalize_locked_operation_receipt_once C E op settings fault)"
  unfolding finalize_locked_operation_receipt_once_def
  by (auto intro!: safe_rules safe_writes split: option.splits LoadedOperation.splits)

lemma safe_reconcile_body:
  "moves safe_move (reconcile_body C authorities E request grant authorized adapter settings worker fault)"
proof -
  have go: "moves safe_move (if \<not> advanced
      then abind (amap_err Advancement (db_read (gateway_authorized_operation C authorities request grant)))
        (\<lambda>op. areturn (Return op)) else areturn Continue)" for advanced
    by (intro moves_if safe_rules safe_db_read)
  show ?thesis
    unfolding reconcile_body_def Let_def submit_authorized_def
    by (intro safe_rules safe_db_read moves_option)
      (auto intro!: safe_rules safe_submit safe_run_locked safe_finalize safe_db_read go moves_if moves_option split: OperationState.splits)
qed

lemma iterate_moves:
  assumes "moves R body" "reflp R" "transp R"
  shows "iterate fuel body s = Some (r, s') \<Longrightarrow> R s s'"
proof (induction fuel arbitrary: s)
  case (Suc fuel)
  obtain a t where b: "body s = (a, t)" by fastforce
  have "R s t" using movesD [OF assms(1) b] .
  with Suc b transpD [OF assms(3)] show ?case
    by (auto split: sum.splits Loop.splits)
qed simp

lemma safe_reconcile:
  assumes "reconcile_locked_with_adapter fuel C authorities E request grant adapter settings worker fault w = Some (r, w')"
  shows "safe_move w w'"
  using assms iterate_moves [OF safe_reconcile_body safe_move_refl safe_move_trans] reflpD [OF safe_move_refl]
  by (auto simp: reconcile_locked_with_adapter_def split: if_splits sum.splits)

lemma safe_admit: "moves safe_move (admit_operation C E authorized)"
  unfolding admit_operation_def by (intro safe_rules safe_db_read moves_option safe_writes)

lemma safe_drop: "safe_move w (drop_worker E w)"
  by (rule safe_move_quiet) (simp_all add: drop_worker_def tick_def)

text \<open>The worlds agree in everything but the lease and the clock.\<close>

definition same_records :: "World \<Rightarrow> World \<Rightarrow> bool" where
  "same_records w w' \<longleftrightarrow> w_db w' = w_db w \<and> w_sends w' = w_sends w \<and> w_pushes w' = w_pushes w \<and> w_acks w' = w_acks w"

lemma try_lock_same: "try_lock_worker E w = (r, w') \<Longrightarrow> same_records w w'"
  by (auto simp: try_lock_worker_def same_records_def tick_def split: LockAttempt.splits if_splits)

lemma drop_worker_same: "same_records w (drop_worker E w)"
  by (simp add: same_records_def drop_worker_def tick_def)

abbreviation acked :: "AdmissionDecision \<Rightarrow> World \<Rightarrow> World" where
  "acked decision w \<equiv> w\<lparr>w_acks := w_acks w @ [decision]\<rparr>"

lemma admit_service_cases:
  assumes "admit_service_operation E existing admit w = (r, w')"
  obtains (settled) st where "existing = Some st" "r = Inr None" "same_records (acked (Admitted st) w) w'"
  | (lock_failed) e where "r = Inl (Submission e)" "same_records w w'"
  | (contended) "fst (try_lock_worker E w) = Inr False" "r = Inl (Blocked WorkerContention)"
      "same_records (acked (case existing of None \<Rightarrow> Busy | Some st \<Rightarrow> Admitted st) w) w'"
  | (admitted) w1 st w2 where "same_records w w1" "admit w1 = (Inr st, w2)" "r = Inr (Some st)" "same_records (acked (Admitted st) w2) w'"
  | (full) w1 w2 where "same_records w w1" "admit w1 = (Inl JournalFull, w2)" "r = Inr None" "same_records (acked Full w2) w'"
      "fst (try_lock_worker E w) = Inr True"
  | (refused) w1 e w2 where "same_records w w1" "admit w1 = (Inl e, w2)" "r = Inl (Submission e)" "same_records w2 w'"
proof (cases "existing \<in> {Some Finalized, Some NotAttempted}")
  case True
  with assms settled show ?thesis
    by (auto simp: admit_service_operation_def acknowledge_def abind_def same_records_def)
next
  case False
  obtain l w1 where l: "try_lock_worker E w = (l, w1)" by fastforce
  note same = try_lock_same [OF l]
  consider e where "l = Inl e" | "l = Inr False" | "l = Inr True" by (metis (full_types) sum.exhaust)
  then show ?thesis
  proof cases
    case 1
    with assms False l lock_failed same show ?thesis
      by (auto simp: admit_service_operation_def abind_def amap_err_def)
  next
    case 2
    have "r = Inl (Blocked WorkerContention)" "w' = acked (case existing of None \<Rightarrow> Busy | Some st \<Rightarrow> Admitted st) w1"
      using assms False l 2 by (simp_all add: admit_service_operation_def abind_def amap_err_def acknowledge_def)
    with contended same l 2 show ?thesis by (simp add: same_records_def)
  next
    case 3
    obtain a w2 where a: "admit w1 = (a, w2)" by fastforce
    have step: "(case (a, w2) of
          (Inr state, w') \<Rightarrow> abind (acknowledge (Admitted state)) (\<lambda>_. areturn (Some state)) w'
        | (Inl JournalFull, w') \<Rightarrow> (case acknowledge Full w' of (_, w'') \<Rightarrow> (Inr None, drop_worker E w''))
        | (Inl e, w') \<Rightarrow> (Inl (Submission e), drop_worker E w')) = (r, w')"
      using assms False l 3 a by (simp add: admit_service_operation_def abind_def amap_err_def)
    show ?thesis
    proof (cases a)
      case (Inr st)
      with step admitted [OF same] a show ?thesis by (auto simp: abind_def acknowledge_def same_records_def)
    next
      case (Inl e)
      then have "e = JournalFull \<and> r = Inr None \<and> w' = drop_worker E (acked Full w2) \<or> r = Inl (Submission e) \<and> w' = drop_worker E w2"
        using step by (cases e) (auto simp: acknowledge_def)
      moreover have "fst (try_lock_worker E w) = Inr True" using l 3 by simp
      ultimately show ?thesis using full [OF same] refused [OF same] a Inl drop_worker_same by blast
    qed
  qed
qed

lemma moves_admit_service:
  assumes R: "reflp R" "transp R" and admit: "moves R admit"
    and quiet: "\<And>w w'. w_db w' = w_db w \<Longrightarrow> w_sends w' = w_sends w \<Longrightarrow> w_pushes w' = w_pushes w \<Longrightarrow> R w w'"
  shows "moves R (admit_service_operation E existing admit)"
proof (rule movesI)
  fix w r w'
  have same: "R v v'" if "same_records (acked d v) v' \<or> same_records v v'" for v v' d
    using that by (auto intro!: quiet simp: same_records_def)
  have run: "R w w2" if "same_records w w1" "admit w1 = (a, w2)" for w1 a w2
    using same movesD [OF admit that(2)] that(1) transpD [OF R(2)] by blast
  assume "admit_service_operation E existing admit w = (r, w')"
  then show "R w w'"
    by (cases rule: admit_service_cases) (use same run transpD [OF R(2)] in \<open>blast+\<close>)
qed

lemma safe_admit_service: "moves safe_move admit \<Longrightarrow> moves safe_move (admit_service_operation E existing admit)"
  by (rule moves_admit_service [OF safe_move_refl safe_move_trans _ safe_move_quiet])

lemma safe_admit_request: "moves safe_move (admit_request C authorities E request grant)"
  unfolding admit_request_def by (intro safe_rules safe_db_read safe_admit_service safe_admit)

lemma admit_and_reconcile_cases:
  assumes "admit_and_reconcile fuel C authorities E request grant adapter settings fault w = Some (r, w')"
  obtains a where "admit_request C authorities E request grant w = (a, w')" "\<And>st. a \<noteq> Inr (Some st)"
  | st w1 r2 w2 where "admit_request C authorities E request grant w = (Inr (Some st), w1)"
      "reconcile_locked_with_adapter fuel C authorities E request grant adapter settings True fault w1 = Some (r2, w2)"
      "r = rbind r2 (\<lambda>_. Inr ())" "w' = drop_worker E w2"
proof -
  obtain a w1 where ad: "admit_request C authorities E request grant w = (a, w1)" by fastforce
  consider (stop) "\<And>st. a \<noteq> Inr (Some st)" | (go) st where "a = Inr (Some st)" by blast
  then show thesis
  proof cases
    case stop
    then have "w' = w1"
      using assms ad by (auto simp: admit_and_reconcile_def split: sum.splits option.splits)
    with ad stop that(1) show thesis by blast
  next
    case go
    then obtain r2 w2 where "reconcile_locked_with_adapter fuel C authorities E request grant adapter settings True fault w1 = Some (r2, w2)"
      "r = rbind r2 (\<lambda>_. Inr ())" "w' = drop_worker E w2"
      using assms ad by (auto simp: admit_and_reconcile_def)
    with ad go that(2) show thesis by blast
  qed
qed

lemma safe_admit_and_reconcile:
  assumes "admit_and_reconcile fuel C authorities E request grant adapter settings fault w = Some (r, w')"
  shows "safe_move w w'"
  using assms
proof (cases rule: admit_and_reconcile_cases)
  case (1 a)
  then show ?thesis using movesD [OF safe_admit_request] by blast
next
  case (2 st w1 r2 w2)
  then show ?thesis
    using movesD [OF safe_admit_request 2(1)] safe_reconcile [OF 2(2)] safe_drop transpD [OF safe_move_trans] by blast
qed

section \<open>Progress of the loop\<close>

definition stage :: "string \<Rightarrow> Db \<Rightarrow> string option" where
  "stage k db = (case row_of Kubernetes db k of None \<Rightarrow> None
     | Some r \<Rightarrow> (case field r ''state'' of Text s \<Rightarrow> Some s | _ \<Rightarrow> None))"

lemma phase_stage: "phase_of C db k = Some op \<Longrightarrow> stage k db = Some (state_as_sql (loaded_state op))"
  by (auto simp: phase_of_iff stage_def dest: decode_state(1))

lemma effect_stage:
  assumes "db_ok db" "effect C call db db'"
  shows "case call of InsertRequested q \<Rightarrow> True
    | MarkAuthorized facts q \<Rightarrow> stage (call_id call) db' = Some ''authorized''
    | MarkNotAttempted op rejection \<Rightarrow> stage (call_id call) db' = Some ''not_attempted''
    | BeginAttempt op observed fault \<Rightarrow> True
    | RecordApplyOutcome op outcome \<Rightarrow> True
    | FreezeObservation op observation \<Rightarrow> stage (call_id call) db' = Some ''receiver_observed''
    | CommitReceipt op receipt \<Rightarrow> stage (call_id call) db' = Some ''finalized''"
proof -
  from assms(2) obtain nxt where ch: "row_change C call (row_of Kubernetes db (call_id call)) nxt"
    and st: "stored Kubernetes (call_id call) nxt db db'" by (auto simp: effect_def)
  have row: "row_of Kubernetes db' (call_id call) = Some nxt" using st by (simp add: stored_def)
  have ok: "row_ok Kubernetes r" if "row_of Kubernetes db (call_id call) = Some r" for r
    using db_row_ok [OF assms(1) that] by simp
  show ?thesis
    using ch row ok by (cases rule: row_change.cases) (auto simp: stage_def state_set_columns)
qed

lemma retained_binding_iff: "retained_binding r = Inr b \<longleftrightarrow>
    field r ''namespace'' = Text (rb_namespace b) \<and> field r ''deployment'' = Text (rb_deployment b) \<and>
    field r ''container'' = Text (rb_container b) \<and> field r ''immutable_image_digest'' = Text (rb_image b) \<and>
    field r ''authorization_id'' = opt_text (rb_authorization_id b) \<and>
    field r ''authorization_signer_key_id'' = opt_text (rb_authorization_signer_key_id b) \<and>
    field r ''authorization_grant_digest'' = opt_text (rb_authorization_grant_digest b) \<and>
    field r ''state'' = Text (rb_state b) \<and> field r ''signed_authorization_grant'' = opt_blob (rb_signed_grant b)"
  by (cases b) (auto simp: retained_binding_def rbind_eq_Inr)

text \<open>
  The row belongs to the authorized request: the same signed grant byte for byte, the same
  request fields and, unless the row predates retained authorization facts, the same
  authorization identity, signer and grant digest.
\<close>

definition custody :: "AuthorizedRequest \<Rightarrow> Record \<Rightarrow> bool" where
  "custody q r \<longleftrightarrow>
     field r ''signed_authorization_grant'' = Blob (va_signed_grant (aq_authorization q)) \<and>
     field r ''namespace'' = Text (vr_namespace (aq_request q)) \<and>
     field r ''deployment'' = Text (vr_deployment (aq_request q)) \<and>
     field r ''container'' = Text (vr_container (aq_request q)) \<and>
     field r ''immutable_image_digest'' = Text (vr_immutable_image (aq_request q)) \<and>
     (field r ''state'' = Text ''requested'' \<and> field r ''authorization_id'' = Null \<and>
        ea_approved_target (va_authorization (aq_authorization q)) = None \<or>
      field r ''authorization_id'' = Text (ea_authorization_id (va_authorization (aq_authorization q))) \<and>
      field r ''authorization_signer_key_id'' = Text (va_signer_key_id (aq_authorization q)) \<and>
      field r ''authorization_grant_digest'' = Text (va_grant_digest (aq_authorization q)))"

lemma opt_value_eq: "opt_text v = Text t \<longleftrightarrow> v = Some t" "opt_text v = Null \<longleftrightarrow> v = None" "opt_blob w = Blob c \<longleftrightarrow> w = Some c"
  by (cases v; simp)+ (cases w; simp)

lemma authorized_operation_Some: "authorized_operation C q db = Inr (Some op) \<longleftrightarrow>
    (\<exists>r. row_of Kubernetes db (vr_operation_id (aq_request q)) = Some r \<and> row_bounded r \<and> decode C r = Inr op \<and>
      custody q r \<and> rf_approved_target (request_facts op) = ea_approved_target (va_authorization (aq_authorization q)))"
  (is "?l \<longleftrightarrow> ?r")
proof
  assume l: ?l
  let ?id = "vr_operation_id (aq_request q)" and ?a = "aq_authorization q"
  obtain r where rd: "record_read db ?id = Inr (Some r)"
  proof (cases "record_read db ?id")
    case (Inr x)
    with l that show thesis
      by (cases x) (auto simp: authorized_operation_def authorized_record_on_def Let_def split: if_splits)
  qed (use l in \<open>simp add: authorized_operation_def authorized_record_on_def Let_def\<close>)
  obtain b where b: "retained_binding r = Inr b"
    using l rd by (cases "retained_binding r") (simp_all add: authorized_operation_def authorized_record_on_def Let_def)
  obtain dec: "decode C r = Inr op" and g: "rb_signed_grant b = Some (va_signed_grant ?a)"
      "rb_namespace b = vr_namespace (aq_request q)" "rb_deployment b = vr_deployment (aq_request q)"
      "rb_container b = vr_container (aq_request q)" "rb_image b = vr_immutable_image (aq_request q)"
    and ap: "rf_approved_target (request_facts op) = ea_approved_target (va_authorization ?a)"
    and st: "rb_state b = state_as_sql (loaded_state op)"
      "\<not> (loaded_state op = Requested \<and> rb_authorization_id b = None \<and> ea_approved_target (va_authorization ?a) \<noteq> None)"
      "\<not> ((loaded_state op \<noteq> Requested \<or> rb_authorization_id b \<noteq> None)
         \<and> (rb_authorization_id b \<noteq> Some (ea_authorization_id (va_authorization ?a))
            \<or> rb_authorization_signer_key_id b \<noteq> Some (va_signer_key_id ?a)
            \<or> rb_authorization_grant_digest b \<noteq> Some (va_grant_digest ?a)))"
    using l unfolding authorized_operation_def authorized_record_on_def Let_def rd rbind_simps transpose_map_simps b option.case
      rbind_eq_Inr if_error_iff state_from_sql_iff ok_or_eq_Inr sum.inject option.inject
    by (elim exE conjE, intro that) simp_all
  have r: "row_of Kubernetes db ?id = Some r" "row_bounded r"
    using rd by (simp_all add: record_read_def read_table_iff)
  have "custody q r"
    using b g st unfolding retained_binding_iff custody_def by (cases "loaded_state op = Requested \<and> rb_authorization_id b = None") auto
  with r dec ap show ?r by blast
next
  assume ?r
  then obtain r where r: "row_of Kubernetes db (vr_operation_id (aq_request q)) = Some r" "row_bounded r" "decode C r = Inr op"
    and cu: "custody q r" and ap: "rf_approved_target (request_facts op) = ea_approved_target (va_authorization (aq_authorization q))"
    by blast
  obtain sn where sn: "snapshot_row r = Inr sn" using r(3) unfolding decode_iff by blast
  let ?b = "\<lparr>rb_namespace = vr_namespace (aq_request q), rb_deployment = vr_deployment (aq_request q),
    rb_container = vr_container (aq_request q), rb_image = vr_immutable_image (aq_request q),
    rb_authorization_id = sn_authorization_id sn, rb_authorization_signer_key_id = sn_authorization_signer_key_id sn,
    rb_authorization_grant_digest = sn_authorization_grant_digest sn, rb_state = state_as_sql (loaded_state op),
    rb_signed_grant = Some (va_signed_grant (aq_authorization q))\<rparr>"
  have b: "retained_binding r = Inr ?b"
    using cu sn decode_state(1) [OF r(3)] unfolding retained_binding_iff by (simp add: custody_def snapshot_row_iff)
  have au: "sn_authorization_id sn = None \<and> loaded_state op = Requested \<and> ea_approved_target (va_authorization (aq_authorization q)) = None \<or>
      sn_authorization_id sn = Some (ea_authorization_id (va_authorization (aq_authorization q))) \<and>
      sn_authorization_signer_key_id sn = Some (va_signer_key_id (aq_authorization q)) \<and>
      sn_authorization_grant_digest sn = Some (va_grant_digest (aq_authorization q))"
  proof -
    have "state_as_sql st = ''requested'' \<longleftrightarrow> st = Requested" for st by (cases st) simp_all
    with cu sn decode_state(1) [OF r(3)] show ?thesis by (auto simp: custody_def snapshot_row_iff opt_value_eq)
  qed
  have "record_read db (vr_operation_id (aq_request q)) = Inr (Some r)"
    using r by (simp add: record_read_def read_table_iff)
  with b r(3) ap au show ?l
    by (auto simp: authorized_operation_def authorized_record_on_def Let_def state_from_sql_iff [THEN iffD2])
qed

lemma authorized_operation_None: "authorized_operation C q db = Inr None \<longleftrightarrow>
    row_of Kubernetes db (vr_operation_id (aq_request q)) = None \<and> row_of Git db (vr_operation_id (aq_request q)) = None"
  by (auto simp: authorized_operation_def authorized_record_on_def Let_def rbind_eq_Inr record_read_def read_table_iff
      transpose_map_def id_exists_iff if_error_iff split: option.splits if_splits)

lemma authorized_operation_phase:
  assumes "db_ok db" "authorized_operation C q db = Inr (Some op)"
  shows "phase_of C db (vr_operation_id (aq_request q)) = Some op"
    "vr_operation_id (rf_request (request_facts op)) = vr_operation_id (aq_request q)"
proof -
  from assms(2) obtain r where r: "row_of Kubernetes db (vr_operation_id (aq_request q)) = Some r" "decode C r = Inr op"
    unfolding authorized_operation_Some by blast
  then show "phase_of C db (vr_operation_id (aq_request q)) = Some op" by (simp add: phase_of_iff)
  from decode_state(2) [OF r(2)] db_row_ok [OF assms(1) r(1)]
  show "vr_operation_id (rf_request (request_facts op)) = vr_operation_id (aq_request q)"
    by (simp add: has_id_def)
qed

lemma db_write_Inr:
  "db_write E m w = (Inr x, w') \<longleftrightarrow>
    (\<exists>db'. m (env_delivery E (w_tick w)) (w_db w) = (Inr x, db') \<and> w' = tick (w\<lparr>w_db := db'\<rparr>))"
  by (auto simp: db_write_def split: prod.splits)

lemma db_read_Inr: "db_read f w = (Inr x, w') \<longleftrightarrow> f (w_db w) = Inr x \<and> w' = w"
  by (auto simp: db_read_def)

lemma throw_if_Inr: "throw_if b e w = (Inr x, w') \<longleftrightarrow> \<not> b \<and> w' = w"
  by (auto simp: throw_if_def)

lemma lift_Inr: "lift m w = (Inr x, w') \<longleftrightarrow> m = Inr x \<and> w' = w"
  by auto

lemma adapter_Inr:
  "adapter_identify E request w = (Inr y, w') \<longleftrightarrow> y = env_identify E (w_tick w) request \<and> w' = tick w"
  "adapter_observe E request out w = (Inr ob, w') \<longleftrightarrow> env_observe E (w_tick w) request out = Inr ob \<and> w' = tick w"
  "adapter_apply E p w = (Inr outcome, w') \<longleftrightarrow>
    env_apply E (w_tick w) p = Inr outcome \<and> w' = tick (w\<lparr>w_sends := w_sends w @ [p]\<rparr>)"
  by (auto simp: adapter_identify_def adapter_observe_def adapter_apply_def)

lemma tick_simps [simp]:
  "w_db (tick w) = w_db w" "w_sends (tick w) = w_sends w" "w_acks (tick w) = w_acks w" "w_slot (tick w) = w_slot w"
  "w_tick (tick w) = Suc (w_tick w)"
  by (simp_all add: tick_def)

lemmas pass_Inr = abind_Inr db_write_Inr db_read_Inr throw_if_Inr lift_Inr adapter_Inr

lemma observe_attempt_stage:
  assumes ok: "db_ok (w_db w)" and run: "observe_attempt C E q attempted fault w = (Inr x, w')"
  shows "x = Some ReceiverObserved \<and> stage (aso_operation_id attempted) (w_db w') = Some ''receiver_observed''"
proof -
  from run obtain ob d db' where "freeze_observation C d attempted ob (w_db w) = (Inr (), db')"
    "x = Some ReceiverObserved" "w_db w' = db'"
    unfolding observe_attempt_def Let_def authorized_read_def pass_Inr by auto
  with freeze_observation_effect [OF ok] effect_stage [OF ok, of C "FreezeObservation attempted ob"] show ?thesis
    by fastforce
qed

lemma begin_attempt_stage:
  assumes ok: "db_ok db" and run: "begin_attempt C d op target fault db = (Inr None, db')"
  shows "stage (azo_operation_id op) db' = Some ''not_attempted''"
proof -
  obtain approved where ap: "rf_approved_target (azo_request op) = Some approved"
    "vt_deployment_uid target \<noteq> at_uid approved \<or> vt_resource_version target \<noteq> at_resource_version approved"
    "mark_stale_approval C d op target db = (Inr (), db')"
    using run unfolding begin_attempt_def Let_def
    by (auto simp: abind_Inr lift_Inr throw_if_Inr split: option.splits if_splits)
  from advance_row_cases [OF ok writes_known(4) ap(3) [unfolded mark_stale_approval_def]] show ?thesis
    by (auto simp: stage_def stored_def state_set_columns)
qed

lemma fresh_attempt_stage:
  assumes ok: "db_ok (w_db w)" and run: "fresh_attempt C E q op fault w = (Inr x, w')"
  shows "case x of None \<Rightarrow> stage (azo_operation_id op) (w_db w') = Some ''not_attempted''
    | Some started \<Rightarrow> authorized_operation C q (w_db w') = Inr (Some (LApplyStarted started))"
proof -
  from run obtain target w1 where pre: "preflight_target C E q op fault w = (Inr target, w1)"
    and rest: "(case target of None \<Rightarrow> areturn None
     | Some target \<Rightarrow>
         abind (db_write E (\<lambda>d. begin_attempt C d op target fault)) (\<lambda>permission.
         case permission of
           None \<Rightarrow> areturn None
         | Some permission \<Rightarrow>
             abind (dispatch_attempt C E q permission fault) (\<lambda>started. areturn (Some started)))) w1 = (Inr x, w')"
    unfolding fresh_attempt_def abind_Inr by blast
  have ok1: "db_ok (w_db w1)"
    using movesD [OF safe_preflight_target pre] ok by (simp add: safe_move_iff)
  show ?thesis
  proof (cases target)
    case None
    with pre obtain rejection d db' where "mark_not_attempted C d op rejection (w_db w) = (Inr (), db')" "w_db w1 = db'"
      unfolding preflight_target_def authorized_read_def
      by (auto simp: pass_Inr rbind_eq_Inr split: sum.splits TargetReadError.splits)
    with mark_not_attempted_effect [OF ok] effect_stage [OF ok, of C "MarkNotAttempted op rejection"]
    have "stage (azo_operation_id op) (w_db w1) = Some ''not_attempted''" by fastforce
    with None rest show ?thesis by simp
  next
    case (Some t)
    with rest obtain permission w2 where b: "db_write E (\<lambda>d. begin_attempt C d op t fault) w1 = (Inr permission, w2)"
      and c: "(case permission of None \<Rightarrow> areturn None
         | Some permission \<Rightarrow> abind (dispatch_attempt C E q permission fault) (\<lambda>started. areturn (Some started))) w2 = (Inr x, w')"
      by (auto simp: abind_Inr)
    show ?thesis
    proof (cases permission)
      case None
      with b c begin_attempt_stage [OF ok1] show ?thesis by (auto simp: db_write_Inr)
    next
      case (Some p)
      with c obtain started where "dispatch_attempt C E q p fault w2 = (Inr started, w')" "x = Some started"
        by (auto simp: abind_Inr)
      then show ?thesis
        unfolding dispatch_attempt_def started_read_def
        by (auto simp: pass_Inr rbind_eq_Inr split: option.splits LoadedOperation.splits)
    qed
  qed
qed


text \<open>The rank of a phase in the loop: every round that goes on raises it, and rank three returns.\<close>

fun state_rank :: "OperationState \<Rightarrow> nat" where
  "state_rank Requested = 0"
| "state_rank Authorized = 1"
| "state_rank ApplyStarted = 1"
| "state_rank ReceiverObserved = 2"
| "state_rank NotAttempted = 3"
| "state_rank Finalized = 3"

definition world_rank :: "crypto \<Rightarrow> AuthorizedRequest \<Rightarrow> World \<Rightarrow> nat" where
  "world_rank C q w = (case authorized_operation C q (w_db w) of Inr (Some op) \<Rightarrow> state_rank (loaded_state op) | _ \<Rightarrow> 3)"

lemma world_rank_stage:
  assumes "db_ok (w_db w)" "stage (vr_operation_id (aq_request q)) (w_db w) = Some (state_as_sql st)"
  shows "state_rank st \<le> world_rank C q w"
proof -
  have "state_rank st \<le> 3" by (cases st) simp_all
  moreover have "loaded_state op = st" if "authorized_operation C q (w_db w) = Inr (Some op)" for op
    using phase_stage [OF authorized_operation_phase(1) [OF assms(1) that]] assms(2) by simp
  ultimately show ?thesis by (auto simp: world_rank_def split: sum.splits option.splits)
qed

lemma submit_stage:
  assumes ok: "db_ok (w_db w)" and q: "bind_authorization C authorities request grant = Inr q"
    and st: "existing_submission C q (w_db w) = Inr (Some Requested)"
    and run: "submit_authorized C authorities E request grant w = (Inr x, w')"
  shows "stage (vr_operation_id (aq_request q)) (w_db w') = Some ''authorized''"
proof -
  from q obtain v rq where "verify_grant_with C authorities grant = Inr v" "validated_request_try_from request = Inr rq"
    "authorized_request_bind rq v = Inr q"
    by (auto simp: bind_authorization_def rbind_eq_Inr)
  with run st obtain w1 where "mark_requested_authorized C E q w = (Inr (), w')"
    by (auto simp: submit_authorized_def submit_authorized_with_fault_def pass_Inr)
  then obtain op where "(case op of LRequested requested \<Rightarrow> db_write E (\<lambda>d. mark_authorized C d requested q)
      | _ \<Rightarrow> throw InvalidTransition) w = (Inr (), w')"
    by (auto simp: mark_requested_authorized_def abind_Inr db_read_Inr)
  then obtain facts d where m: "mark_authorized C d facts q (w_db w) = (Inr (), w_db w')"
    by (cases op) (auto simp: db_write_Inr)
  then have "rf_request facts = aq_request q"
    by (auto simp: mark_authorized_def split: if_splits)
  with m mark_authorized_effect [OF ok m] effect_stage [OF ok, of C "MarkAuthorized facts q"] show ?thesis by auto
qed

lemma run_locked_stage:
  assumes ok: "db_ok (w_db w)" and run: "run_locked_operation_once C E q fault worker w = (Inr (Some st), w')"
  shows "state_rank st \<ge> 2 \<and> stage (vr_operation_id (aq_request q)) (w_db w') = Some (state_as_sql st)"
proof -
  from run obtain op where rd: "authorized_operation C q (w_db w) = Inr (Some op)"
    by (auto simp: run_locked_operation_once_def pass_Inr split: if_splits option.splits)
  note ids = authorized_operation_phase(2) [OF ok rd]
  show ?thesis
  proof (cases op)
    case (LAuthorized azo)
    with run rd obtain x w1 where f: "fresh_attempt C E q azo fault w = (Inr x, w1)"
      and c: "(case x of None \<Rightarrow> areturn (Some NotAttempted) | Some started \<Rightarrow> observe_attempt C E q started fault) w1 = (Inr (Some st), w')"
      by (auto simp: run_locked_operation_once_def pass_Inr split: if_splits)
    have ok1: "db_ok (w_db w1)" using movesD [OF safe_fresh_attempt f] ok by (simp add: safe_move_iff)
    show ?thesis
    proof (cases x)
      case None
      with c fresh_attempt_stage [OF ok f] ids LAuthorized show ?thesis by auto
    next
      case (Some started)
      with fresh_attempt_stage [OF ok f] have "authorized_operation C q (w_db w1) = Inr (Some (LApplyStarted started))" by simp
      from authorized_operation_phase(2) [OF ok1 this] observe_attempt_stage [OF ok1, of C E q started fault "Some st" w'] c Some
      show ?thesis by simp
    qed
  next
    case (LApplyStarted aso)
    with run rd obtain f where "observe_attempt C E q aso f w = (Inr (Some st), w')"
      by (auto simp: run_locked_operation_once_def pass_Inr split: if_splits)
    from observe_attempt_stage [OF ok this] ids LApplyStarted show ?thesis by simp
  qed (use run rd in \<open>auto simp: run_locked_operation_once_def pass_Inr split: if_splits\<close>)
qed

lemma finalize_stage:
  assumes ok: "db_ok (w_db w)"
    and run: "finalize_locked_operation_receipt_once C E (Some op) settings fault w = (Inr (Some st), w')"
  shows "stage (vr_operation_id (rf_request (request_facts op))) (w_db w') = Some ''finalized''"
proof -
  from run obtain obo receipt d where op: "op = LReceiverObserved obo"
    and c: "commit_receipt C d obo receipt (w_db w) = (Inr (), w_db w')"
    by (auto simp: finalize_locked_operation_receipt_once_def pass_Inr split: LoadedOperation.splits)
  from commit_receipt_effect [OF ok c] effect_stage [OF ok, of C "CommitReceipt obo receipt"] op show ?thesis by auto
qed

lemma reconcile_body_rank:
  assumes ok: "db_ok (w_db w)" and q: "bind_authorization C authorities request grant = Inr q"
    and run: "reconcile_body C authorities E request grant q adapter settings worker fault w = (Inr Continue, w')"
  shows "world_rank C q w < world_rank C q w'"
proof -
  have ok': "db_ok (w_db w')"
    using movesD [OF safe_reconcile_body run] ok by (simp add: safe_move_iff)
  from run obtain op where rd: "authorized_operation C q (w_db w) = Inr (Some op)"
    by (auto simp: reconcile_body_def pass_Inr split: option.splits)
  then have rank: "world_rank C q w = state_rank (loaded_state op)" by (simp add: world_rank_def)
  have later: "world_rank C q w < world_rank C q w'" if "stage (vr_operation_id (aq_request q)) (w_db w') = Some (state_as_sql st)"
    "state_rank (loaded_state op) < state_rank st" for st
    using world_rank_stage [OF ok' that(1), of C] that(2) rank by simp
  show ?thesis
  proof (cases "loaded_state op")
    case Requested
    with run rd obtain x where "submit_authorized C authorities E request grant w = (Inr x, w')"
      by (auto simp: reconcile_body_def pass_Inr)
    moreover have "existing_submission C q (w_db w) = Inr (Some Requested)"
      using rd Requested by (simp add: existing_submission_def)
    ultimately show ?thesis
      using submit_stage [OF ok q] Requested later [of Authorized] by simp
  next
    case Authorized
    with run rd obtain st where "run_locked_operation_once C E q fault worker w = (Inr (Some st), w')"
      by (auto simp: reconcile_body_def pass_Inr split: if_splits)
    from run_locked_stage [OF ok this] later [of st] Authorized show ?thesis by simp
  next
    case ApplyStarted
    with run rd obtain st where "run_locked_operation_once C E q fault worker w = (Inr (Some st), w')"
      by (auto simp: reconcile_body_def pass_Inr split: if_splits)
    from run_locked_stage [OF ok this] later [of st] ApplyStarted show ?thesis by simp
  next
    case ReceiverObserved
    with run rd obtain st s where "finalize_locked_operation_receipt_once C E (Some op) s fault w = (Inr (Some st), w')"
      by (auto simp: reconcile_body_def pass_Inr split: if_splits option.splits)
    from finalize_stage [OF ok this] later [of Finalized] ReceiverObserved authorized_operation_phase(2) [OF ok rd]
    show ?thesis by simp
  qed (use run rd in \<open>auto simp: reconcile_body_def pass_Inr\<close>)
qed

lemma iterate_enough:
  assumes "P s" "\<And>s s'. P s \<Longrightarrow> body s = (Inr Continue, s') \<Longrightarrow> P s' \<and> rank s < rank s'"
    and "\<And>s. P s \<Longrightarrow> rank s \<le> (limit :: nat)" and "limit < rank s + fuel"
  shows "iterate fuel body s \<noteq> None"
  using assms(1,4)
proof (induction fuel arbitrary: s)
  case 0
  then show ?case using assms(3) [of s] by simp
next
  case (Suc fuel)
  show ?case
  proof (cases "\<exists>s'. body s = (Inr Continue, s')")
    case True
    then obtain s' where b: "body s = (Inr Continue, s')" by blast
    from assms(2) [OF Suc.prems(1) b] Suc.prems(2) have "P s'" "limit < rank s' + fuel" by auto
    with Suc.IH b show ?thesis by simp
  next
    case False
    then show ?thesis by (auto split: prod.splits sum.splits Loop.splits)
  qed
qed

lemma world_rank_le: "world_rank C q w \<le> 3"
proof -
  have "state_rank st \<le> 3" for st by (cases st) simp_all
  then show ?thesis by (auto simp: world_rank_def split: sum.splits option.splits)
qed

lemma reconcile_enough_fuel:
  assumes "db_ok (w_db w)" "4 \<le> fuel"
  shows "reconcile_locked_with_adapter fuel C authorities E request grant adapter settings worker fault w \<noteq> None"
proof (cases "bind_authorization C authorities request grant")
  case (Inr q)
  let ?body = "reconcile_body C authorities E request grant q adapter settings worker fault"
  have "db_ok (w_db s') \<and> world_rank C q s < world_rank C q s'" if "db_ok (w_db s)" "?body s = (Inr Continue, s')" for s s'
    using movesD [OF safe_reconcile_body that(2)] reconcile_body_rank [OF that(1) Inr that(2)] that(1)
    by (simp add: safe_move_iff)
  from iterate_enough [where P = "\<lambda>w. db_ok (w_db w)" and rank = "world_rank C q" and limit = 3 and fuel = fuel and body = ?body,
      OF assms(1) this world_rank_le]
  show ?thesis
    using assms(2) Inr by (cases worker) (simp_all add: reconcile_locked_with_adapter_def)
qed (simp add: reconcile_locked_with_adapter_def)

section \<open>Sequences of passes\<close>

text \<open>One service request: its environment, request, grant, configuration and crash point.\<close>

record Pass =
  ps_env :: Env
  ps_request :: SetDeploymentImageRequest
  ps_grant :: bytes
  ps_adapter :: bool
  ps_settings :: "ReceiptSettings option"
  ps_fault :: "FaultPoint option"

text \<open>The rounds of the reconciliation loop that always suffice.\<close>

definition RECONCILE_FUEL :: nat where
  "RECONCILE_FUEL = 4"

definition run_pass :: "crypto \<Rightarrow> AuthorizationTrust list \<Rightarrow> Pass \<Rightarrow> World \<Rightarrow> ((ReconciliationError, unit) result \<times> World) option" where
  "run_pass C authorities ps =
     admit_and_reconcile RECONCILE_FUEL C authorities (ps_env ps) (ps_request ps) (ps_grant ps) (ps_adapter ps)
       (ps_settings ps) (ps_fault ps)"

fun run_passes :: "crypto \<Rightarrow> AuthorizationTrust list \<Rightarrow> Pass list \<Rightarrow> World \<Rightarrow> World option" where
  "run_passes C authorities [] w = Some w"
| "run_passes C authorities (ps # rest) w =
     (case run_pass C authorities ps w of None \<Rightarrow> None | Some (r, w') \<Rightarrow> run_passes C authorities rest w')"

lemma admit_request_db_ok:
  assumes "db_ok (w_db w)" "admit_request C authorities E request grant w = (a, w')"
  shows "db_ok (w_db w')"
  using movesD [OF safe_admit_request assms(2)] assms(1) by (simp add: safe_move_iff)

lemma run_pass_returns:
  assumes "db_ok (w_db w)"
  shows "run_pass C authorities ps w \<noteq> None"
proof -
  obtain a w1 where ad: "admit_request C authorities (ps_env ps) (ps_request ps) (ps_grant ps) w = (a, w1)" by fastforce
  have "reconcile_locked_with_adapter RECONCILE_FUEL C authorities (ps_env ps) (ps_request ps) (ps_grant ps)
      (ps_adapter ps) (ps_settings ps) True (ps_fault ps) w1 \<noteq> None"
    by (rule reconcile_enough_fuel [OF admit_request_db_ok [OF assms ad]]) (simp add: RECONCILE_FUEL_def)
  then show ?thesis
    by (auto simp: run_pass_def admit_and_reconcile_def ad split: sum.splits option.splits)
qed

lemma run_passes_safe:
  assumes "run_passes C authorities passes w = Some w'"
  shows "safe_move w w'"
  using assms
proof (induction passes arbitrary: w)
  case Nil
  then show ?case using reflpD [OF safe_move_refl] by simp
next
  case (Cons ps passes)
  then obtain r w1 where step: "run_pass C authorities ps w = Some (r, w1)" and rest: "run_passes C authorities passes w1 = Some w'"
    by (auto split: option.splits)
  from safe_admit_and_reconcile [OF step [unfolded run_pass_def]] Cons.IH [OF rest] show ?case
    using transpD [OF safe_move_trans] by blast
qed

section \<open>Properties\<close>

text \<open>
  At most one mutation request per operation, end to end: starting with a well-formed journal,
  over any sequence of service requests (whatever the adapter answers, however each commit
  ends, whoever holds the lock, and wherever a crash stops each pass), every pass returns, the
  mutation requests sent for one operation identity are at most one, none is sent for an
  operation whose attempt was already durable at the start, and for every request sent the
  journal holds the attempt with exactly the target UID and resource version that were sent.
\<close>

theorem mutation_sent_at_most_once:
  assumes "db_ok (w_db w)"
  shows "\<exists>w' new. run_passes C authorities passes w = Some w' \<and> w_sends w' = w_sends w @ new \<and>
    (\<forall>ident. sent_for ident new \<le> (if dispatched ident (w_db w) then 0 else 1)) \<and>
    (\<forall>p \<in> set new. recorded p (w_db w'))"
proof -
  have "run_passes C authorities passes w \<noteq> None"
    using assms
  proof (induction passes arbitrary: w)
    case (Cons ps passes)
    obtain r w1 where step: "run_pass C authorities ps w = Some (r, w1)"
      using run_pass_returns [OF Cons.prems] by fastforce
    then have "db_ok (w_db w1)"
      using safe_admit_and_reconcile Cons.prems by (auto simp: run_pass_def safe_move_iff)
    with Cons.IH step show ?case by simp
  qed simp
  then obtain w' where run: "run_passes C authorities passes w = Some w'" by blast
  from run_passes_safe [OF run] assms obtain new where new: "w_sends w' = w_sends w @ new"
    "\<And>k. sent_for k new \<le> (if dispatched k (w_db w') \<and> \<not> dispatched k (w_db w) then 1 else 0)"
    "\<forall>p \<in> set new. recorded p (w_db w')"
    unfolding safe_move_iff by blast
  have "sent_for k new \<le> (if dispatched k (w_db w) then 0 else 1)" for k
    using new(2) [of k] by (auto split: if_splits)
  with run new show ?thesis by blast
qed

text \<open>
  C12. The reconciliation loop terminates: on a well-formed journal it returns within four rounds,
  for every environment, request, configuration and fault.
\<close>

theorem reconcile_terminates:
  assumes "db_ok (w_db w)" "RECONCILE_FUEL \<le> fuel"
  shows "\<exists>r w'. reconcile_locked_with_adapter fuel C authorities E request grant adapter settings worker fault w = Some (r, w')"
  using reconcile_enough_fuel [OF assms(1)] assms(2) by (auto simp: RECONCILE_FUEL_def)

text \<open>
  C13. Custody: under an authorized request the journal answers with an operation exactly when the
  row of its identity is within bounds, decodes to that operation, carries the same signed grant
  byte for byte, the same request and authorization facts, and the approved target of the grant.
  It answers that there is none exactly when neither table has a row of the identity; in every
  other case, such as a row under another grant or a Git row of the identity, it is an error.
\<close>

theorem authorized_operation_custody:
  "(authorized_operation C q db = Inr (Some op) \<longleftrightarrow>
    (\<exists>r. row_of Kubernetes db (vr_operation_id (aq_request q)) = Some r \<and> row_bounded r \<and> decode C r = Inr op \<and>
      custody q r \<and> rf_approved_target (request_facts op) = ea_approved_target (va_authorization (aq_authorization q)))) \<and>
   (authorized_operation C q db = Inr None \<longleftrightarrow>
    row_of Kubernetes db (vr_operation_id (aq_request q)) = None \<and> row_of Git db (vr_operation_id (aq_request q)) = None)"
  using authorized_operation_Some authorized_operation_None by blast

definition example_env :: Env where
  "example_env = \<lparr>env_identify = (\<lambda>_ _. Inr (to_adapter_target example_target)),
     env_apply = (\<lambda>_ _. Inl ()), env_observe = (\<lambda>_ _ _. Inl ()), env_delivery = (\<lambda>_. Confirmed),
     env_lock = (\<lambda>_. LockAcquired), env_unlock = (\<lambda>_. True)\<rparr>"

definition example_world :: World where
  "example_world = \<lparr>w_db = example_journal, w_slot = True, w_sends = [], w_pushes = [], w_acks = [], w_tick = 0\<rparr>"

definition example_pass :: Pass where
  "example_pass = \<lparr>ps_env = example_env, ps_request = to_adapter_request (aq_request example_authorized),
     ps_grant = [1, 2, 3], ps_adapter = True, ps_settings = None, ps_fault = None\<rparr>"

theorem mutation_sent_at_most_once_witness:
  "\<exists>w'. run_passes example_crypto [] [example_pass, example_pass] example_world = Some w' \<and>
    sent_for ''op-1'' (w_sends w') \<le> 1"
proof -
  have "db_ok (w_db example_world)" "w_sends example_world = []"
    using example_journal_ok(2) by (simp_all add: example_world_def)
  from mutation_sent_at_most_once [OF this(1), of example_crypto "[]" "[example_pass, example_pass]"] this(2)
  obtain w' where run: "run_passes example_crypto [] [example_pass, example_pass] example_world = Some w'"
    "sent_for ''op-1'' (w_sends w') \<le> (if dispatched ''op-1'' (w_db example_world) then 0 else 1)"
    unfolding \<open>w_sends example_world = []\<close> append_Nil by blast
  then show ?thesis by (cases "dispatched ''op-1'' (w_db example_world)") auto
qed

theorem reconcile_terminates_witness:
  "\<exists>r w'. reconcile_locked_with_adapter 4 example_crypto [] example_env (to_adapter_request (aq_request example_authorized))
     [1, 2, 3] True None True None example_world = Some (r, w')"
  by (rule reconcile_terminates) (simp_all add: example_world_def example_journal_ok(2) RECONCILE_FUEL_def)

end
