(* ===== verification/GitGateway.thy ===== *)
theory GitGateway
  imports GitHost GitLifecycle Passes
begin

text \<open>
  The Git receiver and the Git operations of the gateway, \<open>src/gateway/git.rs\<close>: preflight, the one push
  a permission allows, the observation of the ref, and the pass that takes an admitted
  transition to its receipt.

  The outside is \<open>GitEnv\<close>: the commits and the lock as for Kubernetes, the file system at each
  check and the child process each command line becomes, all as functions of the number of
  interactions so far. A \<open>FaultPoint\<close> stops a pass at one of the crash windows the repository's
  exploration tests enumerate.
\<close>

section \<open>The receiver\<close>

record GitEnv =
  ge_env :: Env
  ge_files :: "nat \<Rightarrow> FileSystem"
  ge_spawn :: "nat \<Rightarrow> (string \<times> string) list \<Rightarrow> string list \<Rightarrow> ChildProcess"

type_synonym 'a git_action = "(World, GitError, 'a) action"

text \<open>The result of an action as a value, for callers that inspect it.\<close>

definition attempt :: "('s, 'e, 'a) action \<Rightarrow> ('s, 'f, ('e, 'a) result) action" where
  "attempt m s = (case m s of (r, s') \<Rightarrow> (Inr r, s'))"

definition VERSION :: bytes where
  "VERSION = as_bytes (''git version 2.55.0'' @ [newline])"

definition path_text :: "Path \<Rightarrow> string" where
  "path_text p = (if path_absolute p then ''/'' else []) @ join (CHR ''/'') (path_components p)"

definition check_custody :: "GitEnv \<Rightarrow> GitReceiver \<Rightarrow> unit git_action" where
  "check_custody G rc w = (require_custody (ge_files G (w_tick w)) rc, tick w)"

definition command_line :: "GitReceiver \<Rightarrow> Path \<Rightarrow> Path option \<Rightarrow> string list \<Rightarrow> string list" where
  "command_line rc executable_directory repository args =
     [path_text (gr_executable rc), ''--exec-path='' @ path_text executable_directory, ''--no-pager'', ''-c'',
      ''protocol.allow=never''] @
     (case repository of None \<Rightarrow> [] | Some repository \<Rightarrow> [''--git-dir'', path_text repository]) @ args"

text \<open>The whole environment of the child: it is cleared and these variables are set.\<close>

definition command_environment :: "Path \<Rightarrow> (string \<times> string) list" where
  "command_environment executable_directory =
     [(''PATH'', path_text executable_directory), (''LC_ALL'', ''C''), (''GIT_CONFIG_NOSYSTEM'', ''1''),
      (''GIT_CONFIG_GLOBAL'', ''/dev/null''), (''GIT_CONFIG_SYSTEM'', ''/dev/null''), (''GIT_TERMINAL_PROMPT'', ''0''),
      (''GIT_NO_REPLACE_OBJECTS'', ''1''), (''GIT_NO_LAZY_FETCH'', ''1'')]"

definition git_run :: "GitEnv \<Rightarrow> GitReceiver \<Rightarrow> Path option \<Rightarrow> string list \<Rightarrow> CommandOutput git_action" where
  "git_run G rc repository args w =
     (case path_parent (gr_executable rc) of
        None \<Rightarrow> (Inl Configuration, w)
      | Some executable_directory \<Rightarrow>
          (run_bounded (ge_spawn G (w_tick w) (command_environment executable_directory)
            (command_line rc executable_directory repository args)), tick w))"

definition FORBIDDEN_PATHS :: "string list list" where
  "FORBIDDEN_PATHS = [[''objects'', ''info'', ''alternates''], [''objects'', ''info'', ''http-alternates''], [''shallow''],
     [''info'', ''grafts''], [''refs'', ''replace''], [''commondir'']]"

definition require_configuration :: "GitEnv \<Rightarrow> GitReceiver \<Rightarrow> Path \<Rightarrow> unit git_action" where
  "require_configuration G rc repository =
     abind (\<lambda>w. (try_all (\<lambda>relative. require
         (fs_symlink_metadata (ge_files G (w_tick w)) (repository\<lparr>path_components := path_components repository @ relative\<rparr>) = None)
         Configuration) FORBIDDEN_PATHS, tick w)) (\<lambda>_.
     abind (git_run G rc (Some repository) [''config'', ''--local'', ''--no-includes'', ''--null'', ''--list'']) (\<lambda>out.
     if \<not> status_success (co_status out) then throw Configuration
     else lift (configuration_listed (gr_repository_id rc) (repository = gr_receiver rc) (co_stdout out))))"

definition observe :: "GitEnv \<Rightarrow> GitReceiver \<Rightarrow> World \<Rightarrow> ObservedRef \<times> World" where
  "observe G rc w =
     (case (abind (check_custody G rc) (\<lambda>_.
        abind (git_run G rc None [''--version'']) (\<lambda>out.
        abind (throw_if (\<not> (status_success (co_status out) \<and> co_stdout out = VERSION)) Unavailable) (\<lambda>_.
        abind (require_configuration G rc (gr_receiver rc)) (\<lambda>_.
        abind (git_run G rc (Some (gr_receiver rc)) [''for-each-ref'',
          ''--format=%(refname)%09%(objectname)%09%(objecttype)%09%(symref)'', APPROVED_GIT_REF]) (\<lambda>out.
        if status_success (co_status out) then areturn (observed_ref (co_stdout out)) else throw Unavailable)))))) w of
        (Inr ob, w') \<Rightarrow> (ob, w')
      | (Inl _, w') \<Rightarrow> (RefUnknown, w'))"

definition require_commit :: "GitEnv \<Rightarrow> GitReceiver \<Rightarrow> string \<Rightarrow> unit git_action" where
  "require_commit G rc oid =
     abind (git_run G rc (Some (gr_sender rc)) [''cat-file'', ''-t'', oid]) (\<lambda>out.
     if \<not> status_success (co_status out) then throw Unavailable
     else if co_stdout out = as_bytes (''commit'' @ [newline]) then areturn ()
     else if co_stdout out \<in> {as_bytes (''blob'' @ [newline]), as_bytes (''tree'' @ [newline]), as_bytes (''tag'' @ [newline])}
     then throw InvalidObjects
     else throw Unavailable)"

definition prepare :: "GitEnv \<Rightarrow> GitReceiver \<Rightarrow> GitRefAuthorization \<Rightarrow> PreparedTransition git_action" where
  "prepare G rc authorization =
     (if \<not> git_authorization_is_valid authorization \<or> ga_repository_id authorization \<noteq> gr_repository_id rc
      then throw InvalidApproval
      else
      abind (check_custody G rc) (\<lambda>_.
      abind (git_run G rc None [''--version'']) (\<lambda>version.
      if co_stdout version \<noteq> VERSION then throw Configuration else
      abind (require_configuration G rc (gr_sender rc)) (\<lambda>_.
      abind (require_configuration G rc (gr_receiver rc)) (\<lambda>_.
      abind (require_commit G rc (ga_old_commit authorization)) (\<lambda>_.
      abind (require_commit G rc (ga_new_commit authorization)) (\<lambda>_.
      abind (git_run G rc (Some (gr_sender rc)) [''merge-base'', ''--is-ancestor'', ga_old_commit authorization,
        ga_new_commit authorization]) (\<lambda>ancestry.
      if co_status ancestry = Some 0 then
        (\<lambda>w. case observe G rc w of (observed, w') \<Rightarrow>
           ((case observed of
               Commit oid \<Rightarrow> if oid = ga_old_commit authorization
                 then Inr \<lparr>pt_receiver = rc, pt_authorization = authorization\<rparr> else Inl StaleRef
             | Missing \<Rightarrow> Inl StaleRef
             | RefUnknown \<Rightarrow> Inl Unavailable), w'))
      else if co_status ancestry = Some 1 then throw InvalidObjects
      else throw Unavailable))))))))"

definition push_arguments :: "GitReceiver \<Rightarrow> GitRefAuthorization \<Rightarrow> string list" where
  "push_arguments rc authorization =
     [''-c'', ''protocol.file.allow=always'', ''push'', ''--porcelain'', ''--no-verify'', ''--no-follow-tags'',
      ''--recurse-submodules=no'', ''--receive-pack='' @ path_text (gr_executable rc) @ '' receive-pack'',
      ''--force-with-lease='' @ APPROVED_GIT_REF @ '':'' @ ga_old_commit authorization,
      ''file://'' @ path_text (gr_receiver rc), ga_new_commit authorization @ '':'' @ APPROVED_GIT_REF]"

text \<open>The command that changes the receiver; the permission it consumes is kept in the log of pushes.\<close>

definition git_push :: "GitEnv \<Rightarrow> GitReceiver \<Rightarrow> GitDispatchPermission \<Rightarrow> CommandOutput git_action" where
  "git_push G rc permission w =
     git_run G rc (Some (gr_sender rc)) (push_arguments rc (pt_authorization (gp_prepared permission)))
       (w\<lparr>w_pushes := w_pushes w @ [permission]\<rparr>)"

definition send :: "GitEnv \<Rightarrow> GitReceiver \<Rightarrow> GitDispatchPermission \<Rightarrow> World \<Rightarrow> Acknowledgement \<times> World" where
  "send G rc permission w =
     (let prepared = gp_prepared permission in
      if gr_address rc \<noteq> gr_address (pt_receiver prepared)
         \<or> ga_repository_id (pt_authorization prepared) \<noteq> gr_repository_id rc
      then (AckUnknown, w)
      else
        (case (abind (check_custody G rc) (\<lambda>_.
          abind (require_configuration G rc (gr_sender rc)) (\<lambda>_.
          abind (require_configuration G rc (gr_receiver rc)) (\<lambda>_.
          git_push G rc permission)))) w of
          (Inr out, w') \<Rightarrow> (acknowledgement (co_stdout out) (status_success (co_status out)) (pt_authorization prepared), w')
        | (Inl _, w') \<Rightarrow> (AckUnknown, w')))"

section \<open>One pass\<close>

definition checkpoint :: "GitReceiver option \<Rightarrow> FaultPoint option \<Rightarrow> FaultPoint \<Rightarrow> unit gateway" where
  "checkpoint receiver fault point = throw_if (receiver \<noteq> None \<and> fault = Some point) InjectedFault"

definition git_phase_read_now :: "crypto \<Rightarrow> GitBinding \<Rightarrow> GitPhase gateway" where
  "git_phase_read_now C binding = db_read (\<lambda>db. rbind (git_operation C binding db) (ok_or InvalidTransition))"

text \<open>The arm for a permission: dispatch and the recorded acknowledgement.\<close>

definition git_dispatch ::
    "crypto \<Rightarrow> GitEnv \<Rightarrow> GitBinding \<Rightarrow> GitReceiver \<Rightarrow> bool \<Rightarrow> FaultPoint option \<Rightarrow> PreparedTransition \<Rightarrow> unit gateway" where
  "git_dispatch C G binding rc worker fault prepared =
     abind (checkpoint (Some rc) fault TargetObserved) (\<lambda>_.
     abind (db_write (ge_env G) (\<lambda>d. begin_git_attempt C d binding prepared worker)) (\<lambda>permission.
     abind (checkpoint (Some rc) fault ApplyStartedCommitted) (\<lambda>_.
     abind (\<lambda>w. case send G rc permission w of (ack, w') \<Rightarrow> (Inr ack, w')) (\<lambda>ack.
     abind (checkpoint (Some rc) fault ApplyReturned) (\<lambda>_.
     abind (db_write (ge_env G) (\<lambda>d. record_git_acknowledgement C d binding ack worker)) (\<lambda>_.
     checkpoint (Some rc) fault ApplyOutcomeCommitted))))))"

definition git_fresh ::
    "crypto \<Rightarrow> GitEnv \<Rightarrow> GitBinding \<Rightarrow> GitReceiver option \<Rightarrow> bool \<Rightarrow> FaultPoint option \<Rightarrow> GitPhase gateway" where
  "git_fresh C G binding receiver worker fault =
     abind (lift (ok_or GitReceiverUnavailable receiver)) (\<lambda>rc.
     abind (attempt (prepare G rc (gb_authorization binding))) (\<lambda>prepared.
     abind (case prepared of
         Inr prepared \<Rightarrow> git_dispatch C G binding rc worker fault prepared
       | Inl StaleRef \<Rightarrow> db_write (ge_env G) (\<lambda>d. reject_git C d binding RejectStaleRef worker)
       | Inl InvalidObjects \<Rightarrow> db_write (ge_env G) (\<lambda>d. reject_git C d binding RejectInvalidObjects worker)
       | Inl _ \<Rightarrow> throw GitReceiverUnavailable) (\<lambda>_.
     git_phase_read_now C binding)))"

definition git_observe_phase ::
    "crypto \<Rightarrow> GitEnv \<Rightarrow> GitBinding \<Rightarrow> GitReceiver option \<Rightarrow> bool \<Rightarrow> FaultPoint option \<Rightarrow> bool \<Rightarrow> GitPhase gateway" where
  "git_observe_phase C G binding receiver worker fault fresh =
     abind (lift (ok_or GitReceiverUnavailable receiver)) (\<lambda>rc.
     abind (\<lambda>w. case observe G rc w of (observed, w') \<Rightarrow> (Inr observed, w')) (\<lambda>observed.
     abind (if fresh then checkpoint (Some rc) fault ReceiverRead else areturn ()) (\<lambda>_.
     abind (db_write (ge_env G) (\<lambda>d. freeze_git_observation C d binding observed worker)) (\<lambda>_.
     abind (checkpoint (Some rc) fault ReceiverObservedCommitted) (\<lambda>_.
     git_phase_read_now C binding)))))"

definition git_finalize_phase ::
    "crypto \<Rightarrow> GitEnv \<Rightarrow> GitBinding \<Rightarrow> GitReceiver option \<Rightarrow> ReceiptSettings \<Rightarrow> bool \<Rightarrow> FaultPoint option \<Rightarrow> GitPhase \<Rightarrow>
      GitPhase gateway" where
  "git_finalize_phase C G binding receiver signing worker fault phase =
     abind (lift (ok_or InvalidPersistedState (git_phase_statement binding phase))) (\<lambda>statement.
     abind (lift (map_err GReceipt (git_sign C statement (st_signing_seed signing) (st_key_id signing)))) (\<lambda>bs.
     abind (checkpoint receiver fault BeforeReceiptCommit) (\<lambda>_.
     abind (db_write (ge_env G) (\<lambda>d. commit_git_receipt C d binding bs worker)) (\<lambda>_.
     abind (checkpoint receiver fault ReceiptCommitAcknowledgementLost) (\<lambda>_.
     git_phase_read_now C binding)))))"

definition advance ::
    "crypto \<Rightarrow> GitEnv \<Rightarrow> GitBinding \<Rightarrow> GitReceiver option \<Rightarrow> ReceiptSettings option \<Rightarrow> bool \<Rightarrow> FaultPoint option \<Rightarrow>
      GitPhase gateway" where
  "advance C G binding receiver signing worker fault =
     (if \<not> worker then throw InvalidTransition
      else
      abind (git_phase_read_now C binding) (\<lambda>phase.
      if git_phase_state phase \<in> {Authorized, ApplyStarted}
         \<and> pred_option (\<lambda>rc. gr_repository_id rc \<noteq> ga_repository_id (gb_authorization binding)) receiver \<and> receiver \<noteq> None
      then throw GitReceiverUnavailable
      else
      let fresh = (phase = GAuthorized) in
      abind (if phase = GAuthorized then git_fresh C G binding receiver worker fault else areturn phase) (\<lambda>phase.
      abind (if git_phase_state phase = ApplyStarted then git_observe_phase C G binding receiver worker fault fresh
             else areturn phase) (\<lambda>phase.
      case signing of
        Some settings \<Rightarrow>
          if git_phase_state phase = ReceiverObserved
          then git_finalize_phase C G binding receiver settings worker fault phase
          else areturn phase
      | None \<Rightarrow> areturn phase))))"

section \<open>Admission\<close>

record GitReceiverConfiguration =
  gc_executable :: Path
  gc_sender :: Path
  gc_receiver :: Path
  gc_repository_id :: string

definition configured_receiver :: "GitEnv \<Rightarrow> GitReceiverConfiguration \<Rightarrow> GitReceiver git_action" where
  "configured_receiver G config w =
     (git_receiver_new (ge_files G (w_tick w)) (w_tick w) (gc_executable config) (gc_sender config)
        (gc_receiver config) (gc_repository_id config), tick w)"

definition validate_preparation :: "GitEnv \<Rightarrow> GitReceiverConfiguration \<Rightarrow> GitRefAuthorization \<Rightarrow> unit gateway" where
  "validate_preparation G config authorization =
     abind (amap_err (\<lambda>_. GitReceiverUnavailable) (configured_receiver G config)) (\<lambda>rc.
     abind (amap_err (\<lambda>_. GitReceiverUnavailable) (prepare G rc authorization)) (\<lambda>_. areturn ()))"

definition admit_git_request ::
    "crypto \<Rightarrow> AuthorizationTrust list \<Rightarrow> GitEnv \<Rightarrow> string \<Rightarrow> bytes \<Rightarrow>
      (World, ReconciliationError, (GitBinding \<times> OperationState) option) action" where
  "admit_git_request C authorities G ident grant =
     abind (amap_err Submission (lift (git_binding_verify C grant authorities))) (\<lambda>binding.
     if ga_operation_id (gb_authorization binding) \<noteq> ident then throw (Submission AuthorizationMismatch)
     else
     abind (amap_err Submission (db_read (git_operation C binding))) (\<lambda>existing.
     abind (admit_service_operation (ge_env G) (map_option git_phase_state existing)
       (abind (db_write (ge_env G) (\<lambda>d. insert_git C d binding True)) (\<lambda>phase. areturn (git_phase_state phase)))) (\<lambda>admitted.
     areturn (map_option (\<lambda>state. (binding, state)) admitted))))"

text \<open>What follows admission, under the lease.\<close>

definition reconcile_git ::
    "crypto \<Rightarrow> GitEnv \<Rightarrow> GitBinding \<Rightarrow> OperationState \<Rightarrow> GitReceiverConfiguration option \<Rightarrow> ReceiptSettings option \<Rightarrow>
      FaultPoint option \<Rightarrow> (World, ReconciliationError, unit) action" where
  "reconcile_git C G binding admitted receiver signing fault =
     (let needs_receiver = (admitted = Authorized \<or> admitted = ApplyStarted) in
      abind (if needs_receiver then
          abind (lift (ok_or (Blocked ReceiverUnavailable) receiver)) (\<lambda>config.
          abind (amap_err (\<lambda>_. Blocked ReceiverUnavailable) (configured_receiver G config)) (\<lambda>rc. areturn (Some rc)))
        else areturn None) (\<lambda>receiver.
      abind (amap_err (\<lambda>error. case error of GReceipt _ \<Rightarrow> Completion | error \<Rightarrow> Advancement error)
        (advance C G binding receiver signing True fault)) (\<lambda>phase.
      if git_phase_state phase = ReceiverObserved then throw (Blocked SigningUnavailable) else areturn ())))"

definition admit_and_reconcile_git ::
    "crypto \<Rightarrow> AuthorizationTrust list \<Rightarrow> GitEnv \<Rightarrow> string \<Rightarrow> bytes \<Rightarrow> GitReceiverConfiguration option \<Rightarrow>
      ReceiptSettings option \<Rightarrow> FaultPoint option \<Rightarrow> (World, ReconciliationError, unit) action" where
  "admit_and_reconcile_git C authorities G ident grant receiver signing fault w =
     (case admit_git_request C authorities G ident grant w of
        (Inl e, w') \<Rightarrow> (Inl e, w')
      | (Inr None, w') \<Rightarrow> (Inr (), w')
      | (Inr (Some (binding, admitted)), w') \<Rightarrow>
          (case reconcile_git C G binding admitted receiver signing fault w' of (r, w'') \<Rightarrow> (r, drop_worker (ge_env G) w'')))"

section \<open>Reads\<close>

record GitOperationTargets =
  gt_approval :: GitRefAuthorization
  gt_attempted :: bool
  gt_acknowledgement :: "Acknowledgement option"
  gt_observed_ref :: "ObservedRef option"

record RetainedGitOperation =
  rg_signed_grant :: bytes
  rg_state :: OperationState
  rg_targets :: GitOperationTargets
  rg_rejection :: "TargetRejection option"
  rg_result :: "OperationResult option"
  rg_receipt :: "(bytes \<times> string) option"

definition from_phase :: "GitBinding \<Rightarrow> GitPhase \<Rightarrow> RetainedGitOperation" where
  "from_phase binding phase =
     (let statement = git_phase_statement binding phase;
          ack = (case phase of
              GAttempted ack \<Rightarrow> ack
            | GObserved ack observed \<Rightarrow> Some ack
            | GFinalized statement receipt \<Rightarrow> Some (gs_acknowledgement statement)
            | _ \<Rightarrow> None);
          rejection = (case phase of
              GNotAttempted RejectStaleRef \<Rightarrow> Some GitStaleRef
            | GNotAttempted RejectInvalidObjects \<Rightarrow> Some GitInvalidObjects
            | _ \<Rightarrow> None);
          attempted = (case phase of GAttempted _ \<Rightarrow> True | GObserved _ _ \<Rightarrow> True | GFinalized _ _ \<Rightarrow> True | _ \<Rightarrow> False) in
      \<lparr>rg_signed_grant = gb_grant binding, rg_state = git_phase_state phase,
       rg_targets = \<lparr>gt_approval = gb_authorization binding, gt_attempted = attempted, gt_acknowledgement = ack,
         gt_observed_ref = map_option gs_observed statement\<rparr>,
       rg_rejection = rejection, rg_result = map_option git_result statement,
       rg_receipt = (case phase of GFinalized _ receipt \<Rightarrow> Some (fr_bytes receipt, fr_digest receipt) | _ \<Rightarrow> None)\<rparr>)"

definition retained_git ::
    "crypto \<Rightarrow> AuthorizationTrust list \<Rightarrow> string \<Rightarrow> Db \<Rightarrow> (GatewayError, RetainedGitOperation option) result" where
  "retained_git C authorities ident db =
     rbind (validate_identity IF_OperationId ident) (\<lambda>_.
     rbind (journal_retained_git C ident authorities db) (\<lambda>op.
     Inr (map_option (\<lambda>(binding, phase). from_phase binding phase) op)))"

definition authorized_git ::
    "crypto \<Rightarrow> AuthorizationTrust list \<Rightarrow> bytes \<Rightarrow> Db \<Rightarrow> (GatewayError, RetainedGitOperation option) result" where
  "authorized_git C authorities grant db =
     rbind (git_binding_verify C grant authorities) (\<lambda>binding.
     rbind (git_operation C binding db) (\<lambda>phase. Inr (map_option (from_phase binding) phase)))"

section \<open>What a Git pass may change\<close>

text \<open>The journal holds the attempt a push stands for, under a binding with the pushed approval.\<close>

definition git_recorded :: "GitDispatchPermission \<Rightarrow> Db \<Rightarrow> bool" where
  "git_recorded p db \<longleftrightarrow> (\<exists>b q. row_of Git db (git_permission_id p) = Some (git_row b q) \<and>
     gb_authorization b = pt_authorization (gp_prepared p) \<and>
     git_state_text q \<in> {''apply_started'', ''receiver_observed'', ''finalized''})"

definition git_safe :: "World \<Rightarrow> World \<Rightarrow> bool" where
  "git_safe = safe_log w_db w_pushes git_permission_id git_dispatched git_recorded db_ok
     (\<lambda>w. (row_of Kubernetes (w_db w), w_sends w))"

abbreviation pushed_for :: "string \<Rightarrow> GitDispatchPermission list \<Rightarrow> nat" where
  "pushed_for k ps \<equiv> length (filter (\<lambda>p. git_permission_id p = k) ps)"

lemma git_safe_iff: "git_safe w w' \<longleftrightarrow> (db_ok (w_db w) \<longrightarrow> db_ok (w_db w') \<and>
     (\<forall>k. git_dispatched k (w_db w) \<longrightarrow> git_dispatched k (w_db w')) \<and>
     (\<forall>p. git_recorded p (w_db w) \<longrightarrow> git_recorded p (w_db w')) \<and>
     (\<exists>new. w_pushes w' = w_pushes w @ new \<and>
        (\<forall>k. pushed_for k new \<le> (if git_dispatched k (w_db w') \<and> \<not> git_dispatched k (w_db w) then 1 else 0)) \<and>
        (\<forall>p \<in> set new. git_recorded p (w_db w'))) \<and>
     row_of Kubernetes (w_db w') = row_of Kubernetes (w_db w) \<and> w_sends w' = w_sends w)"
  by (simp add: git_safe_def safe_log_def)

lemma git_safe_refl: "reflp git_safe" and git_safe_trans: "transp git_safe"
  unfolding git_safe_def by (rule safe_log_refl safe_log_trans)+

lemma git_safe_quiet: "w_db w' = w_db w \<Longrightarrow> w_sends w' = w_sends w \<Longrightarrow> w_pushes w' = w_pushes w \<Longrightarrow> git_safe w w'"
  by (simp add: git_safe_iff)

lemma git_effect_recorded:
  assumes "git_effect C b p p' db db'" "git_recorded x db"
  shows "git_recorded x db'"
proof -
  obtain b0 q where q: "row_of Git db (git_permission_id x) = Some (git_row b0 q)"
    "gb_authorization b0 = pt_authorization (gp_prepared x)" "git_state_text q \<in> {''apply_started'', ''receiver_observed'', ''finalized''}"
    using assms(2) by (auto simp: git_recorded_def)
  show ?thesis
  proof (cases "git_permission_id x = gb_operation_id b")
    case True
    with q(1) assms(1) obtain p0 where p: "p = Some p0" "git_row b0 q = git_row b p0"
      by (cases p) (auto simp: git_effect_def git_holds_def)
    have "git_state_text q = git_state_text p0"
      using git_row_state [of b0 q] git_row_state [of b p0] p(2) by simp
    then have st: "git_state_text p' \<in> {''apply_started'', ''receiver_observed'', ''finalized''}"
      using git_lifecycle_dispatched [of C b p0 p'] assms(1) p(1) q(3) by (simp add: git_effect_def)
    have "git_binding_held (git_row b p0) b" "git_binding_held (git_row b p0) b0"
      using git_row_held(1) [of b p0] git_row_held(1) [of b0 q] p(2) by simp_all
    then have "gb_authorization b = gb_authorization b0"
      by (cases b; cases b0) (auto simp: git_binding_held_def binding_fields_def Let_def intro: GitRefAuthorization.equality)
    moreover have "row_of Git db' (git_permission_id x) = Some (git_row b p')"
      using assms(1) True by (simp add: git_effect_def stored_def)
    ultimately show ?thesis
      unfolding git_recorded_def using st q(2) by (intro exI [of _ b] exI [of _ p']) simp
  next
    case False
    with q assms(1) show ?thesis by (auto simp: git_recorded_def git_effect_def stored_def)
  qed
qed

lemma git_db_write_safe:
  assumes "\<And>d db r db'. db_ok db \<Longrightarrow> m d db = (r, db') \<Longrightarrow> db' = db \<or> (\<exists>C b p p'. git_effect C b p p' db db')"
  shows "moves git_safe (db_write E m)"
proof (rule movesI)
  fix w r w'
  assume "db_write E m w = (r, w')"
  then obtain db' where m: "m (env_delivery E (w_tick w)) (w_db w) = (r, db')" and w': "w' = tick (w\<lparr>w_db := db'\<rparr>)"
    by (auto simp: db_write_def split: prod.splits)
  show "git_safe w w'"
  proof (cases "db_ok (w_db w) \<and> db' \<noteq> w_db w")
    case True
    with assms m obtain C b p p' where e: "git_effect C b p p' (w_db w) db'" by blast
    with git_effect_dispatched [OF e] git_effect_recorded [OF e] git_effect_frame [OF e] show ?thesis
      by (simp add: git_safe_iff w' tick_def)
  qed (auto simp: w' tick_def git_safe_iff)
qed

lemma git_safe_writes:
  "moves git_safe (db_write E (\<lambda>d. insert_git C d b worker))"
  "moves git_safe (db_write E (\<lambda>d. begin_git_attempt C d b prepared worker))"
  "moves git_safe (db_write E (\<lambda>d. reject_git C d b rejection worker))"
  "moves git_safe (db_write E (\<lambda>d. record_git_acknowledgement C d b a worker))"
  "moves git_safe (db_write E (\<lambda>d. freeze_git_observation C d b ob worker))"
  "moves git_safe (db_write E (\<lambda>d. commit_git_receipt C d b bs worker))"
  subgoal by (rule git_db_write_safe) (drule (1) insert_git_cases, blast)
  subgoal by (rule git_db_write_safe) (drule (1) begin_git_attempt_cases, blast)
  subgoal by (rule git_db_write_safe) (drule (1) reject_git_cases, blast)
  subgoal by (rule git_db_write_safe) (drule (1) record_git_acknowledgement_cases, blast)
  subgoal by (rule git_db_write_safe) (drule (1) freeze_git_observation_cases, blast)
  subgoal by (rule git_db_write_safe) (drule (1) commit_git_receipt_cases, blast)
  done

lemmas git_safe_rules = moves_lift [OF git_safe_refl] moves_throw_if [OF git_safe_refl] moves_reads [OF git_safe_refl]
  moves_abind [OF git_safe_trans] moves_amap_err

text \<open>Everything but the push leaves the database and both logs alone.\<close>

definition untouched :: "World \<Rightarrow> World \<Rightarrow> bool" where
  "untouched w w' \<longleftrightarrow> w_db w' = w_db w \<and> w_sends w' = w_sends w \<and> w_pushes w' = w_pushes w"

lemma untouched_order: "reflp untouched" "transp untouched"
  by (auto simp: reflp_def transp_def untouched_def)

lemma untouched_safe: "untouched w w' \<Longrightarrow> git_safe w w'"
  by (simp add: untouched_def git_safe_quiet)

lemmas untouched_rules = moves_lift [OF untouched_order(1)] moves_throw_if [OF untouched_order(1)]
  moves_reads [OF untouched_order(1)] moves_abind [OF untouched_order(2)] moves_amap_err

lemma untouched_run: "moves untouched (git_run G rc repository args)" "moves untouched (check_custody G rc)"
  "moves untouched (configured_receiver G config)"
  by (auto intro!: movesI simp: git_run_def check_custody_def configured_receiver_def untouched_def tick_def split: option.splits)

lemma untouched_configuration: "moves untouched (require_configuration G rc repository)"
proof -
  have "moves untouched (\<lambda>w. (f w, tick w))" for f :: "World \<Rightarrow> (GitError, unit) result"
    by (auto intro!: movesI simp: untouched_def tick_def)
  then show ?thesis
    unfolding require_configuration_def by (intro untouched_rules untouched_run moves_if)
qed

lemma untouched_observe: "untouched w (snd (observe G rc w))"
proof -
  let ?m = "abind (check_custody G rc) (\<lambda>_.
        abind (git_run G rc None [''--version'']) (\<lambda>out.
        abind (throw_if (\<not> (status_success (co_status out) \<and> co_stdout out = VERSION)) Unavailable) (\<lambda>_.
        abind (require_configuration G rc (gr_receiver rc)) (\<lambda>_.
        abind (git_run G rc (Some (gr_receiver rc)) [''for-each-ref'',
          ''--format=%(refname)%09%(objectname)%09%(objecttype)%09%(symref)'', APPROVED_GIT_REF]) (\<lambda>out.
        if status_success (co_status out) then areturn (observed_ref (co_stdout out)) else throw Unavailable)))))"
  have "moves untouched ?m" by (intro untouched_rules untouched_run untouched_configuration moves_if)
  moreover have "snd (observe G rc w) = snd (?m w)"
    unfolding observe_def by (auto split: prod.splits sum.splits)
  ultimately show ?thesis by (simp only: moves_def)
qed

lemma untouched_prepare: "moves untouched (prepare G rc a)"
proof -
  have commit: "moves untouched (require_commit G rc oid)" for oid
    unfolding require_commit_def by (intro untouched_rules untouched_run moves_if)
  have "moves untouched (\<lambda>w. case observe G rc w of (observed, w') \<Rightarrow> (f observed, w'))"
    for f :: "ObservedRef \<Rightarrow> (GitError, PreparedTransition) result"
    using untouched_observe [of _ G rc] by (auto intro!: movesI split: prod.splits) (metis snd_conv)
  then show ?thesis
    unfolding prepare_def by (intro untouched_rules untouched_run untouched_configuration commit moves_if)
qed

lemma moves_untouched_safe: "moves untouched m \<Longrightarrow> moves git_safe m"
  by (simp add: moves_def untouched_safe)

lemma send_cases:
  assumes "send G rc p w = (a, w')"
  shows "a = AckUnknown \<and> untouched w w' \<or> untouched (w\<lparr>w_pushes := w_pushes w @ [p]\<rparr>) w'"
proof -
  let ?pre = "abind (check_custody G rc) (\<lambda>_. abind (require_configuration G rc (gr_sender rc)) (\<lambda>_.
      require_configuration G rc (gr_receiver rc)))"
  have pre: "moves untouched ?pre"
    by (intro untouched_rules untouched_run untouched_configuration)
  obtain r1 w1 where r1: "?pre w = (r1, w1)" by fastforce
  have u: "untouched w w1" using movesD [OF pre r1] .
  have eq: "abind (check_custody G rc) (\<lambda>_. abind (require_configuration G rc (gr_sender rc)) (\<lambda>_.
      abind (require_configuration G rc (gr_receiver rc)) (\<lambda>_. git_push G rc p))) = abind ?pre (\<lambda>_. git_push G rc p)"
    by (simp add: abind_assoc)
  consider "a = AckUnknown" "w' = w" | e where "a = AckUnknown" "r1 = Inl e" "w' = w1" | "r1 = Inr ()" "w' = snd (git_push G rc p w1)"
    using assms r1 unfolding send_def Let_def eq by (cases r1) (auto simp: abind_run split: if_splits sum.splits prod.splits)
  then show ?thesis
  proof cases
    case 3
    have "untouched (w1\<lparr>w_pushes := w_pushes w1 @ [p]\<rparr>) w'"
      using untouched_run(1) unfolding 3(2) git_push_def moves_def by blast
    with u have "untouched (w\<lparr>w_pushes := w_pushes w @ [p]\<rparr>) w'" by (simp add: untouched_def)
    then show ?thesis by blast
  qed (use u in \<open>auto simp: untouched_def\<close>)
qed

lemma git_safe_checkpoint: "moves git_safe (checkpoint receiver fault point)"
  unfolding checkpoint_def by (rule git_safe_rules)

lemma git_safe_read: "moves git_safe (git_phase_read_now C b)" "moves git_safe (db_read f)"
  unfolding git_phase_read_now_def db_read_def by (rule git_safe_rules)+

text \<open>The one place where a push is sent: directly after the attempt was stored, from its permission.\<close>

lemma git_safe_dispatch_send:
  assumes rest: "\<And>ack. moves git_safe (rest ack)"
  shows "moves git_safe (abind (db_write E (\<lambda>d. begin_git_attempt C d b prepared worker)) (\<lambda>permission.
     abind (checkpoint (Some rc) fault point) (\<lambda>_.
     abind (\<lambda>w. case send G rc permission w of (ack, w') \<Rightarrow> (Inr ack, w')) rest)))"
  (is "moves _ (abind ?store ?cont)")
proof (rule movesI)
  fix w r w'
  assume step: "abind ?store ?cont w = (r, w')"
  obtain r1 w1 where b: "?store w = (r1, w1)" by fastforce
  have sw: "git_safe w w1" using movesD [OF git_safe_writes(2) b] .
  show "git_safe w w'"
  proof (cases "fault = Some point \<or> (\<exists>e. r1 = Inl e)")
    case True
    with step b have "w' = w1" by (cases r1) (auto simp: abind_run checkpoint_def)
    with sw show ?thesis by simp
  next
    case False
    then obtain p where p: "r1 = Inr p" by (cases r1) auto
    obtain ack w2 where s: "send G rc p w1 = (ack, w2)" by fastforce
    have r: "rest ack w2 = (r, w')" using step b p False s by (simp add: abind_run checkpoint_def)
    have w2: "git_safe w w2"
    proof (cases "db_ok (w_db w)")
      case True
      obtain db1 where db1: "begin_git_attempt C (env_delivery E (w_tick w)) b prepared worker (w_db w) = (Inr p, db1)"
        and w1: "w1 = tick (w\<lparr>w_db := db1\<rparr>)"
        using b p by (auto simp: db_write_def split: prod.splits)
      have e: "git_effect C b (Some GAuthorized) (GAttempted None) (w_db w) db1"
        and q: "pt_authorization prepared = gb_authorization b" "p = \<lparr>gp_prepared = prepared\<rparr>"
        using begin_git_attempt_cases [OF True db1] by auto
      have fresh: "\<not> git_dispatched (git_permission_id p) (w_db w) \<and> git_dispatched (git_permission_id p) db1"
        by (rule git_granted_fresh [of "BeginGitAttempt b prepared"]) (use e q in \<open>auto simp: git_granted_def\<close>)
      have "row_of Git db1 (git_permission_id p) = Some (git_row b (GAttempted None))"
        using e q by (simp add: git_effect_def stored_def)
      then have "git_recorded p db1"
        unfolding git_recorded_def using q by (intro exI [of _ b] exI [of _ "GAttempted None"]) simp
      with sw True fresh have "git_safe w (w1\<lparr>w_pushes := w_pushes w1 @ [p]\<rparr>)"
        by (auto simp: git_safe_iff w1 tick_def)
      with sw send_cases [OF s] untouched_safe transpD [OF git_safe_trans] show ?thesis by blast
    qed (simp add: git_safe_iff)
    with movesD [OF rest r] transpD [OF git_safe_trans] show ?thesis by blast
  qed
qed

lemma git_safe_dispatch: "moves git_safe (git_dispatch C G b rc worker fault prepared)"
  unfolding git_dispatch_def
  by (rule moves_abind [OF git_safe_trans git_safe_checkpoint], rule git_safe_dispatch_send)
    (intro git_safe_rules git_safe_checkpoint git_safe_writes)

lemma moves_attempt: "moves R m \<Longrightarrow> moves R (attempt m)"
  by (auto simp: moves_def attempt_def split: prod.splits) (metis snd_conv)

lemma git_safe_observe: "moves git_safe (\<lambda>w. case observe G rc w of (observed, w') \<Rightarrow> (Inr observed, w'))"
  using untouched_observe [of _ G rc] by (auto intro!: movesI untouched_safe split: prod.splits) (metis snd_conv)

lemma git_safe_fresh: "moves git_safe (git_fresh C G b receiver worker fault)"
proof -
  have "moves git_safe (case prepared of
         Inr prepared \<Rightarrow> git_dispatch C G b rc worker fault prepared
       | Inl StaleRef \<Rightarrow> db_write (ge_env G) (\<lambda>d. reject_git C d b RejectStaleRef worker)
       | Inl InvalidObjects \<Rightarrow> db_write (ge_env G) (\<lambda>d. reject_git C d b RejectInvalidObjects worker)
       | Inl _ \<Rightarrow> throw GitReceiverUnavailable)" for prepared rc
    by (auto intro!: git_safe_rules git_safe_writes git_safe_dispatch split: sum.splits GitError.splits)
  then show ?thesis
    unfolding git_fresh_def
    by (intro git_safe_rules git_safe_read moves_attempt moves_untouched_safe [OF untouched_prepare])
qed

lemma git_safe_advance: "moves git_safe (advance C G b receiver signing worker fault)"
proof -
  have "moves git_safe (git_observe_phase C G b receiver worker fault fresh)" for fresh
    unfolding git_observe_phase_def
    by (intro git_safe_rules git_safe_observe moves_if git_safe_checkpoint git_safe_writes git_safe_read)
  moreover have "moves git_safe (git_finalize_phase C G b receiver settings worker fault phase)" for settings phase
    unfolding git_finalize_phase_def by (intro git_safe_rules git_safe_checkpoint git_safe_writes git_safe_read)
  ultimately show ?thesis
    unfolding advance_def Let_def
    by (intro moves_if git_safe_rules git_safe_read git_safe_fresh moves_option)
qed

text \<open>A relation the insertion and the advance respect holds around the whole pass.\<close>

lemma moves_git_pass:
  assumes R: "reflp R" "transp R"
    and quiet: "\<And>w w'. w_db w' = w_db w \<Longrightarrow> w_sends w' = w_sends w \<Longrightarrow> w_pushes w' = w_pushes w \<Longrightarrow> R w w'"
    and insert: "\<And>b. moves R (db_write (ge_env G) (\<lambda>d. insert_git C d b True))"
    and adv: "\<And>b receiver. moves R (advance C G b receiver signing True fault)"
  shows "moves R (admit_and_reconcile_git C authorities G ident grant receiver signing fault)"
proof (rule movesI)
  note rules = moves_lift [OF R(1)] moves_reads [OF R(1)] moves_abind [OF R(2)] moves_amap_err moves_if
  fix w r w'
  assume step: "admit_and_reconcile_git C authorities G ident grant receiver signing fault w = (r, w')"
  obtain a w1 where ad: "admit_git_request C authorities G ident grant w = (a, w1)" by fastforce
  have "moves R (db_read f)" for f :: "Db \<Rightarrow> (GatewayError, GitPhase option) result"
    unfolding db_read_def by (rule rules)
  then have admit: "moves R (admit_git_request C authorities G ident grant)"
    unfolding admit_git_request_def by (intro rules insert moves_admit_service [OF R _ quiet])
  have "moves R (configured_receiver G config)" for config
    by (rule movesI, rule quiet) (auto simp: configured_receiver_def tick_def)
  then have reconcile: "moves R (reconcile_git C G b st receiver signing fault)" for b st
    unfolding reconcile_git_def Let_def by (intro rules adv)
  have drop: "R v (drop_worker E v)" for E v
    by (rule quiet) (simp_all add: drop_worker_def tick_def)
  have sw: "R w w1" using movesD [OF admit ad] .
  show "R w w'"
  proof (cases "\<exists>b st. a = Inr (Some (b, st))")
    case True
    then obtain b st r2 w2 where "reconcile_git C G b st receiver signing fault w1 = (r2, w2)" "w' = drop_worker (ge_env G) w2"
      using step ad by (auto simp: admit_and_reconcile_git_def split: prod.splits)
    with sw movesD [OF reconcile] drop transpD [OF R(2)] show ?thesis by metis
  next
    case False
    with step ad have "w' = w1"
      by (auto simp: admit_and_reconcile_git_def split: sum.splits option.splits)
    with sw show ?thesis by simp
  qed
qed

lemma git_safe_pass: "moves git_safe (admit_and_reconcile_git C authorities G ident grant receiver signing fault)"
  by (rule moves_git_pass [OF git_safe_refl git_safe_trans git_safe_quiet git_safe_writes(1) git_safe_advance])

end
