(* ===== verification/GitProgress.thy ===== *)
theory GitProgress
  imports GitGateway
begin

text \<open>
  Progress of Git passes: under a cooperative environment, an admitted transition reaches a
  terminal phase in one pass, from whatever phase it was left in.
\<close>

section \<open>Single steps\<close>

text \<open>Commits are confirmed and the worker lock is free.\<close>

definition cooperative :: "Env \<Rightarrow> bool" where
  "cooperative E \<longleftrightarrow> (\<forall>n. env_delivery E n = Confirmed \<and> env_lock E n = LockAcquired)"

text \<open>A healthy world holds the phase under a verified binding.\<close>

definition healthy :: "crypto \<Rightarrow> GitBinding \<Rightarrow> GitPhase \<Rightarrow> World \<Rightarrow> bool" where
  "healthy C b p w \<longleftrightarrow> crypto_ok C \<and> git_journal_ok C (w_db w) \<and> git_binding_valid C b \<and> git_holds C (w_db w) b (Some p)"

lemma healthyD:
  assumes "healthy C b p w"
  shows "git_journal_ok C (w_db w)" "git_binding_valid C b" "crypto_ok C" "git_holds C (w_db w) b (Some p)" "git_phase_valid C b p"
  using assms by (simp_all add: healthy_def git_holds_def)

lemma healthy_untouched: "untouched w w' \<Longrightarrow> healthy C b p w \<Longrightarrow> healthy C b p w'"
  by (simp add: healthy_def untouched_def)

lemma healthy_operation: "healthy C b p w \<Longrightarrow> git_operation C b (w_db w) = Inr (Some p)"
  using git_row_bounded [of C b p] git_operation_iff(1) [of "w_db w" C b p]
  by (auto simp: healthy_def git_journal_ok_def git_holds_def)

lemma healthy_read: "healthy C b p w \<Longrightarrow> git_phase_read_now C b w = (Inr p, w)"
  by (simp add: git_phase_read_now_def db_read_def healthy_operation)

lemma db_write_confirmed:
  assumes "cooperative E" "healthy C b p w" "\<exists>db'. m Confirmed (w_db w) = (Inr x, db') \<and> git_holds C db' b (Some p') \<and> git_journal_ok C db'"
  shows "\<exists>w'. db_write E m w = (Inr x, w') \<and> healthy C b p' w' \<and> w_pushes w' = w_pushes w"
  using assms by (auto simp: db_write_def cooperative_def healthy_def tick_def)

lemma observed_ref_valid: "ref_valid (observed_ref bs)"
  by (auto simp: observed_ref_def ref_valid_def Let_def split: option.splits if_splits)

lemma observe_run:
  "\<exists>ob w'. observe G rc w = (ob, w') \<and> ref_valid ob \<and> untouched w w'"
proof -
  obtain ob w' where o: "observe G rc w = (ob, w')" by fastforce
  have "ref_valid ob"
    using o unfolding observe_def
    by (auto simp: abind_def throw_if_def observed_ref_valid ref_valid_def [of RefUnknown] split: prod.splits sum.splits if_splits)
  with o untouched_observe [of w G rc] show ?thesis by simp
qed

lemma git_observe_phase_completes:
  assumes "cooperative (ge_env G)" "healthy C b (GAttempted a) w"
  shows "\<exists>ob w'. git_observe_phase C G b (Some rc) True None fresh w =
      (Inr (GObserved (case a of None \<Rightarrow> AckUnknown | Some x \<Rightarrow> x) ob), w') \<and>
    healthy C b (GObserved (case a of None \<Rightarrow> AckUnknown | Some x \<Rightarrow> x) ob) w'"
proof -
  obtain ob w1 where ob: "observe G rc w = (ob, w1)" "ref_valid ob" "untouched w w1" using observe_run by blast
  have h: "healthy C b (GAttempted a) w1" by (rule healthy_untouched [OF ob(3) assms(2)])
  obtain w2 where "db_write (ge_env G) (\<lambda>d. freeze_git_observation C d b ob True) w1 = (Inr (), w2)"
    "healthy C b (GObserved (case a of None \<Rightarrow> AckUnknown | Some x \<Rightarrow> x) ob) w2"
    using db_write_confirmed [OF assms(1) h, of "\<lambda>d. freeze_git_observation C d b ob True"]
      freeze_git_observation_confirmed [OF healthyD(1-4) [OF h] ob(2)] by blast
  with ob(1) healthy_read show ?thesis
    by (auto simp: git_observe_phase_def abind_run checkpoint_def)
qed

definition settings_valid :: "ReceiptSettings \<Rightarrow> bool" where
  "settings_valid settings \<longleftrightarrow> length (st_signing_seed settings) = 32 \<and> identity_is_valid (st_key_id settings)"

lemma git_statement_signable:
  assumes "healthy C b (GObserved a ob) w" "git_phase_statement b (GObserved a ob) = Some s"
  shows "git_statement_valid s"
proof -
  note h = healthyD [OF assms(1)]
  have "ref_valid ob" using h(5) by simp
  moreover have "gs_authorization s = gb_authorization b" "gs_authorization_signer s = gb_signer b"
    "gs_authorization_digest s = gb_digest b" "gs_observed s = ob"
    using assms(2) by (auto simp: git_phase_statement_def)
  ultimately show ?thesis
    using h(2) length_digest_hex [OF h(3)] digest_hex_lowercase
    by (cases ob) (auto simp: git_statement_valid_def git_binding_valid_def ref_valid_def)
qed

lemma git_finalize_phase_completes:
  assumes "cooperative (ge_env G)" "healthy C b (GObserved a ob) w" "settings_valid settings"
  shows "\<exists>s rc' w'. git_finalize_phase C G b receiver settings True None (GObserved a ob) w = (Inr (GFinalized s rc'), w') \<and>
    healthy C b (GFinalized s rc') w' \<and> gs_acknowledgement s = a"
proof -
  obtain s where s: "git_phase_statement b (GObserved a ob) = Some s" by (simp add: git_phase_statement_def)
  note h = healthyD [OF assms(2)]
  have v: "git_statement_valid s" by (rule git_statement_signable [OF assms(2) s])
  let ?sig = "sign_with C (st_signing_seed settings) (signature_input GIT_PURPOSE (git_receipt_image s))"
  let ?bs = "git_signed_image s (st_key_id settings) ?sig"
  have key: "length (st_signing_seed settings) = 32" "identity_is_valid (st_key_id settings)"
    using assms(3) by (simp_all add: settings_valid_def)
  have sig: "length ?sig = 64" using crypto_okD(3) [OF h(3) key(1)] .
  have sign: "git_sign C s (st_signing_seed settings) (st_key_id settings) = Inr ?bs"
    by (rule git_sign_image [OF v key(2) sig])
  have dec: "git_decode ?bs = Inr (st_key_id settings, s)"
    using v key(2) sig git_decode_iff by blast
  obtain rc' w2 where "db_write (ge_env G) (\<lambda>d. commit_git_receipt C d b ?bs True) w = (Inr (), w2)"
    "healthy C b (GFinalized s rc') w2"
    using db_write_confirmed [OF assms(1,2), of "\<lambda>d. commit_git_receipt C d b ?bs True"]
      commit_git_receipt_confirmed [OF h(1-4) dec s] by blast
  moreover have "gs_acknowledgement s = a" using s by (auto simp: git_phase_statement_def)
  ultimately show ?thesis
    using s sign healthy_read by (auto simp: git_finalize_phase_def abind_run checkpoint_def)
qed

lemma prepare_Inr:
  assumes "prepare G rc a w = (Inr prepared, w')"
  shows "prepared = \<lparr>pt_receiver = rc, pt_authorization = a\<rparr>"
  using assms unfolding prepare_def
  by (auto simp: abind_def split: prod.splits sum.splits if_splits ObservedRef.splits)

lemma git_dispatch_completes:
  assumes "cooperative (ge_env G)" "healthy C b GAuthorized w" "pt_authorization prepared = gb_authorization b"
  shows "\<exists>w1 ack w'. send G rc \<lparr>gp_prepared = prepared\<rparr> w1 = (ack, snd (send G rc \<lparr>gp_prepared = prepared\<rparr> w1)) \<and>
    git_dispatch C G b rc True None prepared w = (Inr (), w') \<and> healthy C b (GAttempted (Some ack)) w' \<and>
    w_pushes w' = w_pushes (snd (send G rc \<lparr>gp_prepared = prepared\<rparr> w1)) \<and> w_pushes w1 = w_pushes w"
proof -
  note h = healthyD [OF assms(2)]
  let ?p = "\<lparr>gp_prepared = prepared\<rparr>"
  obtain w1 where w1: "db_write (ge_env G) (\<lambda>d. begin_git_attempt C d b prepared True) w = (Inr ?p, w1)"
    "healthy C b (GAttempted None) w1" "w_pushes w1 = w_pushes w"
    using db_write_confirmed [OF assms(1,2), of "\<lambda>d. begin_git_attempt C d b prepared True"]
      begin_git_attempt_confirmed [OF h(1-4) assms(3)] by blast
  obtain ack w2 where s: "send G rc ?p w1 = (ack, w2)" by fastforce
  have h2: "healthy C b (GAttempted None) w2"
    using send_cases [OF s] w1(2) by (auto simp: untouched_def healthy_def)
  obtain w3 where "db_write (ge_env G) (\<lambda>d. record_git_acknowledgement C d b ack True) w2 = (Inr (), w3)"
    "healthy C b (GAttempted (Some ack)) w3" "w_pushes w3 = w_pushes w2"
    using db_write_confirmed [OF assms(1) h2, of "\<lambda>d. record_git_acknowledgement C d b ack True"]
      record_git_acknowledgement_confirmed [OF healthyD(1-4) [OF h2]] by blast
  with w1 s show ?thesis
    by (intro exI [of _ w1] exI [of _ ack] exI [of _ w3]) (auto simp: git_dispatch_def abind_run checkpoint_def)
qed

text \<open>Preflight gave a definite answer.\<close>

definition definite :: "(GitError, PreparedTransition) result \<Rightarrow> bool" where
  "definite r \<longleftrightarrow> (case r of Inr _ \<Rightarrow> True | Inl e \<Rightarrow> e \<in> {StaleRef, InvalidObjects})"

lemma git_fresh_completes:
  assumes "cooperative (ge_env G)" "healthy C b GAuthorized w" "definite (fst (prepare G rc (gb_authorization b) w))"
  shows "\<exists>p w'. git_fresh C G b (Some rc) True None w = (Inr p, w') \<and> healthy C b p w' \<and>
    (case fst (prepare G rc (gb_authorization b) w) of Inl _ \<Rightarrow> \<exists>rejection. p = GNotAttempted rejection
     | Inr prepared \<Rightarrow> \<exists>w1. p = GAttempted (Some (fst (send G rc \<lparr>gp_prepared = prepared\<rparr> w1))))"
proof -
  obtain r w1 where r: "prepare G rc (gb_authorization b) w = (r, w1)" by fastforce
  have h: "healthy C b GAuthorized w1"
    by (rule healthy_untouched [OF movesD [OF untouched_prepare r] assms(2)])
  have reject: "\<exists>w2. db_write (ge_env G) (\<lambda>d. reject_git C d b rejection True) w1 = (Inr (), w2) \<and>
      healthy C b (GNotAttempted rejection) w2" for rejection
    using db_write_confirmed [OF assms(1) h, of "\<lambda>d. reject_git C d b rejection True"]
      reject_git_confirmed [OF healthyD(1-4) [OF h]] by blast
  consider "r = Inl StaleRef" | "r = Inl InvalidObjects" | prepared where "r = Inr prepared"
    using assms(3) r by (cases r) (auto simp: definite_def)
  then show ?thesis
  proof cases
    case 3
    have "pt_authorization prepared = gb_authorization b" using prepare_Inr r 3 by fastforce
    from git_dispatch_completes [OF assms(1) h this, of rc] obtain w2 ack w' where
      "fst (send G rc \<lparr>gp_prepared = prepared\<rparr> w2) = ack" "git_dispatch C G b rc True None prepared w1 = (Inr (), w')"
      "healthy C b (GAttempted (Some ack)) w'" by (metis fst_conv)
    with r 3 healthy_read show ?thesis
      by (auto simp: git_fresh_def abind_run attempt_def intro!: exI [of _ w2])
  next
    case 1
    obtain w2 where "db_write (ge_env G) (\<lambda>d. reject_git C d b RejectStaleRef True) w1 = (Inr (), w2)"
      "healthy C b (GNotAttempted RejectStaleRef) w2" using reject by blast
    with r 1 healthy_read show ?thesis by (auto simp: git_fresh_def abind_run attempt_def)
  next
    case 2
    obtain w2 where "db_write (ge_env G) (\<lambda>d. reject_git C d b RejectInvalidObjects True) w1 = (Inr (), w2)"
      "healthy C b (GNotAttempted RejectInvalidObjects) w2" using reject by blast
    with r 2 healthy_read show ?thesis by (auto simp: git_fresh_def abind_run attempt_def)
  qed
qed


lemma advance_completes:
  assumes "cooperative (ge_env G)" "healthy C b p w" "settings_valid settings"
    "p = GAuthorized \<Longrightarrow> definite (fst (prepare G rc (gb_authorization b) w))"
    "git_phase_state p \<in> {Authorized, ApplyStarted} \<Longrightarrow>
      receiver = Some rc \<and> gr_repository_id rc = ga_repository_id (gb_authorization b)"
  shows "\<exists>p' w'. advance C G b receiver (Some settings) True None w = (Inr p', w') \<and> healthy C b p' w' \<and>
    git_phase_state p' \<in> {NotAttempted, Finalized} \<and>
    (p = GAuthorized \<longrightarrow> (case fst (prepare G rc (gb_authorization b) w) of Inl _ \<Rightarrow> \<exists>rejection. p' = GNotAttempted rejection
     | Inr prepared \<Rightarrow> \<exists>w1. git_acknowledgement_of p' = Some (fst (send G rc \<lparr>gp_prepared = prepared\<rparr> w1))))"
proof -
  note read = healthy_read [OF assms(2)]
  have finalize: "\<exists>p' w'. git_finalize_phase C G b receiver settings True None (GObserved a ob) v = (Inr p', w') \<and> healthy C b p' w' \<and>
      git_phase_state p' = Finalized \<and> git_acknowledgement_of p' = Some a" if "healthy C b (GObserved a ob) v" for a ob v
    using git_finalize_phase_completes [OF assms(1) that assms(3), of receiver] by fastforce
  have observed: "\<exists>a' ob v'. git_observe_phase C G b (Some rc) True None fresh v = (Inr (GObserved a' ob), v') \<and>
      healthy C b (GObserved a' ob) v' \<and> (\<forall>x. a = Some x \<longrightarrow> a' = x)"
    if "healthy C b (GAttempted a) v" for a v fresh
    using git_observe_phase_completes [OF assms(1) that, of rc fresh] by fastforce
  show ?thesis
  proof (cases p)
    case GAuthorized
    then have rc: "receiver = Some rc" "gr_repository_id rc = ga_repository_id (gb_authorization b)" using assms(5) by auto
    obtain p1 w1 where p1: "git_fresh C G b (Some rc) True None w = (Inr p1, w1)" "healthy C b p1 w1"
      "case fst (prepare G rc (gb_authorization b) w) of Inl _ \<Rightarrow> \<exists>rejection. p1 = GNotAttempted rejection
       | Inr prepared \<Rightarrow> \<exists>w1. p1 = GAttempted (Some (fst (send G rc \<lparr>gp_prepared = prepared\<rparr> w1)))"
      using git_fresh_completes [OF assms(1)] assms(2,4) GAuthorized by blast
    show ?thesis
    proof (cases "fst (prepare G rc (gb_authorization b) w)")
      case (Inl e)
      with p1 GAuthorized read rc show ?thesis by (auto simp: advance_def abind_run)
    next
      case (Inr prepared)
      with p1(3) obtain v where v: "p1 = GAttempted (Some (fst (send G rc \<lparr>gp_prepared = prepared\<rparr> v)))" by auto
      obtain ob w2 where o: "git_observe_phase C G b (Some rc) True None True w1 =
          (Inr (GObserved (fst (send G rc \<lparr>gp_prepared = prepared\<rparr> v)) ob), w2)"
        "healthy C b (GObserved (fst (send G rc \<lparr>gp_prepared = prepared\<rparr> v)) ob) w2"
        using observed [OF p1(2) [unfolded v], of True] by blast
      from finalize [OF o(2)] o(1) p1(1) v GAuthorized read rc Inr show ?thesis
        by (auto simp: advance_def abind_run)
    qed
  next
    case (GAttempted a)
    then have rc: "receiver = Some rc" "gr_repository_id rc = ga_repository_id (gb_authorization b)" using assms(5) by auto
    obtain a' ob w2 where o: "git_observe_phase C G b (Some rc) True None False w = (Inr (GObserved a' ob), w2)"
      "healthy C b (GObserved a' ob) w2"
      using observed [of a w False] assms(2) GAttempted by blast
    from finalize [OF o(2)] o(1) GAttempted read rc show ?thesis by (auto simp: advance_def abind_run)
  next
    case (GObserved a ob)
    with finalize [of a ob w] assms(2) read show ?thesis by (auto simp: advance_def abind_run)
  qed (use assms(2) read in \<open>auto simp: advance_def abind_run\<close>)
qed


section \<open>A whole pass\<close>

text \<open>The identity of a binding is free to be admitted, or its row is already there.\<close>

definition admissible :: "crypto \<Rightarrow> GitBinding \<Rightarrow> GitPhase option \<Rightarrow> Db \<Rightarrow> bool" where
  "admissible C b p db \<longleftrightarrow> (case p of
     None \<Rightarrow> row_of Git db (gb_operation_id b) = None \<and> row_of Kubernetes db (gb_operation_id b) = None \<and> require_admission db = Inr ()
   | Some p \<Rightarrow> git_holds C db b (Some p))"

text \<open>The configured receiver is in order at every check, and its preflight answers definitely.\<close>

definition receiver_ready :: "GitEnv \<Rightarrow> GitReceiverConfiguration \<Rightarrow> bool" where
  "receiver_ready G config \<longleftrightarrow> (\<forall>w. \<exists>rc. fst (configured_receiver G config w) = Inr rc)"

definition preflight_definite :: "GitEnv \<Rightarrow> GitReceiverConfiguration \<Rightarrow> GitRefAuthorization \<Rightarrow> bool" where
  "preflight_definite G config a \<longleftrightarrow>
     (\<forall>w rc w'. fst (configured_receiver G config w) = Inr rc \<longrightarrow> definite (fst (prepare G rc a w')))"

text \<open>The approved transition passes preflight and its push is answered with this acknowledgement.\<close>

definition push_answered :: "GitEnv \<Rightarrow> GitReceiverConfiguration \<Rightarrow> GitRefAuthorization \<Rightarrow> Acknowledgement \<Rightarrow> bool" where
  "push_answered G config approval a \<longleftrightarrow>
     (\<forall>w rc w'. fst (configured_receiver G config w) = Inr rc \<longrightarrow>
        (\<exists>prepared. fst (prepare G rc approval w') = Inr prepared \<and> (\<forall>v. fst (send G rc \<lparr>gp_prepared = prepared\<rparr> v) = a)))"

lemma configured_receiver_repository:
  assumes "configured_receiver G config w = (Inr rc, w')"
  shows "gr_repository_id rc = gc_repository_id config"
  using assms by (auto simp: configured_receiver_def git_receiver_new_def rbind_eq_Inr Let_def split: if_splits)

lemma try_lock_cooperative:
  assumes "cooperative E" "w_slot w"
  shows "\<exists>w'. try_lock_worker E w = (Inr True, w') \<and> untouched w w'"
  using assms by (simp add: try_lock_worker_def cooperative_def tick_def untouched_def)

lemma admit_completes:
  assumes "cooperative (ge_env G)" "w_slot w" "crypto_ok C" "git_journal_ok C (w_db w)"
    "git_binding_verify C grant authorities = Inr b" "admissible C b p (w_db w)"
    "map_option git_phase_state p \<notin> {Some NotAttempted, Some Finalized}"
  shows "\<exists>w'. admit_git_request C authorities G (gb_operation_id b) grant w =
      (Inr (Some (b, git_phase_state (case p of None \<Rightarrow> GAuthorized | Some p \<Rightarrow> p))), w') \<and>
    healthy C b (case p of None \<Rightarrow> GAuthorized | Some p \<Rightarrow> p) w'"
proof -
  have b: "git_binding_valid C b" using git_binding_verify_valid [OF assms(5)] by blast
  obtain w1 where w1: "try_lock_worker (ge_env G) w = (Inr True, w1)" "untouched w w1"
    using try_lock_cooperative [OF assms(1,2)] by blast
  have existing: "git_operation C b (w_db w) = Inr p"
  proof (cases p)
    case None
    with assms(4,6) git_operation_iff(2) [of "w_db w" C b] show ?thesis by (simp add: admissible_def git_journal_ok_def)
  next
    case (Some q)
    with assms b have "healthy C b q w" by (simp add: healthy_def admissible_def)
    with healthy_operation Some show ?thesis by simp
  qed
  let ?q = "case p of None \<Rightarrow> GAuthorized | Some p \<Rightarrow> p"
  have "\<exists>w2. db_write (ge_env G) (\<lambda>d. insert_git C d b True) w1 = (Inr ?q, w2) \<and> healthy C b ?q w2"
  proof (cases p)
    case None
    obtain db' where "insert_git C Confirmed b True (w_db w) = (Inr GAuthorized, db')"
      "git_holds C db' b (Some GAuthorized)" "git_journal_ok C db'"
      using insert_git_confirmed [OF assms(4) b] assms(6) None by (auto simp: admissible_def)
    then show ?thesis
      using w1(2) assms(1,3) b None by (simp add: db_write_def cooperative_def untouched_def healthy_def tick_def)
  next
    case (Some q)
    have "healthy C b q w" using assms b Some by (simp add: healthy_def admissible_def)
    then have h: "healthy C b q w1" by (rule healthy_untouched [OF w1(2)])
    have "insert_git C d b True (w_db w1) = (Inr q, w_db w1)" for d
      using healthy_operation [OF h] by (simp add: insert_git_def abind_def)
    with h Some show ?thesis by (simp add: db_write_def healthy_def tick_def)
  qed
  then obtain w2 where w2: "db_write (ge_env G) (\<lambda>d. insert_git C d b True) w1 = (Inr ?q, w2)" "healthy C b ?q w2" by blast
  have "map_option git_phase_state p \<notin> {Some Finalized, Some NotAttempted}" using assms(7) by auto
  with w1(1) w2(1) have admitted: "admit_service_operation (ge_env G) (map_option git_phase_state p)
       (abind (db_write (ge_env G) (\<lambda>d. insert_git C d b True)) (\<lambda>phase. areturn (git_phase_state phase))) w =
      (Inr (Some (git_phase_state ?q)), w2\<lparr>w_acks := w_acks w2 @ [Admitted (git_phase_state ?q)]\<rparr>)"
    by (simp add: admit_service_operation_def acknowledge_def abind_def amap_err_def del: map_option_eq_Some)
  have "admit_git_request C authorities G (gb_operation_id b) grant w =
      (Inr (Some (b, git_phase_state ?q)), w2\<lparr>w_acks := w_acks w2 @ [Admitted (git_phase_state ?q)]\<rparr>)"
    using existing assms(5) admitted by (simp add: admit_git_request_def abind_def amap_err_def db_read_def)
  with w2(2) show ?thesis by (simp add: healthy_def)
qed


lemma admit_settled:
  assumes "git_binding_verify C grant authorities = Inr b" "healthy C b p w" "git_phase_state p \<in> {NotAttempted, Finalized}"
  shows "\<exists>w'. admit_git_request C authorities G (gb_operation_id b) grant w = (Inr None, w') \<and> healthy C b p w'"
  using assms(1,3) healthy_operation [OF assms(2)] assms(2)
  by (auto simp: admit_git_request_def admit_service_operation_def acknowledge_def abind_def amap_err_def db_read_def healthy_def)

lemma reconcile_completes:
  assumes "cooperative (ge_env G)" "healthy C b p w" "settings_valid settings"
    "receiver_ready G config" "gc_repository_id config = ga_repository_id (gb_authorization b)"
    "p = GAuthorized \<Longrightarrow> preflight_definite G config (gb_authorization b)"
  shows "\<exists>p' w'. reconcile_git C G b (git_phase_state p) (Some config) (Some settings) None w = (Inr (), w') \<and>
    healthy C b p' w' \<and> git_phase_state p' \<in> {NotAttempted, Finalized} \<and>
    (\<forall>a. p = GAuthorized \<and> push_answered G config (gb_authorization b) a \<longrightarrow> git_acknowledgement_of p' = Some a)"
proof (cases "git_phase_state p \<in> {Authorized, ApplyStarted}")
  case True
  obtain rc w1 where rc: "configured_receiver G config w = (Inr rc, w1)"
    using assms(4) unfolding receiver_ready_def by (metis prod.collapse)
  have h: "healthy C b p w1" by (rule healthy_untouched [OF movesD [OF untouched_run(3) rc] assms(2)])
  have "definite (fst (prepare G rc (gb_authorization b) w1))" if "p = GAuthorized"
    using assms(6) [OF that] rc unfolding preflight_definite_def by (metis fst_conv)
  with advance_completes [OF assms(1) h assms(3), of rc "Some rc"] configured_receiver_repository [OF rc] assms(5)
  obtain p' w' where p': "advance C G b (Some rc) (Some settings) True None w1 = (Inr p', w')" "healthy C b p' w'"
    "git_phase_state p' \<in> {NotAttempted, Finalized}"
    "p = GAuthorized \<longrightarrow> (case fst (prepare G rc (gb_authorization b) w1) of Inl _ \<Rightarrow> \<exists>rejection. p' = GNotAttempted rejection
     | Inr prepared \<Rightarrow> \<exists>w1. git_acknowledgement_of p' = Some (fst (send G rc \<lparr>gp_prepared = prepared\<rparr> w1)))" by auto
  have "git_acknowledgement_of p' = Some a" if fresh: "p = GAuthorized" "push_answered G config (gb_authorization b) a" for a
  proof -
    obtain prepared where "fst (prepare G rc (gb_authorization b) w1) = Inr prepared"
      "\<forall>v. fst (send G rc \<lparr>gp_prepared = prepared\<rparr> v) = a"
      using fresh(2) rc unfolding push_answered_def by (metis fst_conv)
    with p'(4) fresh(1) show ?thesis by auto
  qed
  with p'(1-3) rc True show ?thesis
    by (auto simp: reconcile_git_def abind_def amap_err_def Let_def)
next
  case False
  then have "p \<noteq> GAuthorized" by auto
  with advance_completes [OF assms(1,2,3), of undefined None] False
  obtain p' w' where "advance C G b None (Some settings) True None w = (Inr p', w')" "healthy C b p' w'"
    "git_phase_state p' \<in> {NotAttempted, Finalized}" by blast
  with False \<open>p \<noteq> GAuthorized\<close> show ?thesis
    by (auto simp: reconcile_git_def abind_def amap_err_def Let_def)
qed

lemma git_pass_settles:
  assumes "cooperative (ge_env G)" "w_slot w" "crypto_ok C" "git_journal_ok C (w_db w)"
    "git_binding_verify C grant authorities = Inr b" "admissible C b p (w_db w)"
    "settings_valid settings" "receiver_ready G config"
    "gc_repository_id config = ga_repository_id (gb_authorization b)"
    "p \<in> {None, Some GAuthorized} \<longrightarrow> preflight_definite G config (gb_authorization b)"
  shows "\<exists>p' w'. admit_and_reconcile_git C authorities G (gb_operation_id b) grant (Some config) (Some settings) None w =
      (Inr (), w') \<and>
    git_journal_ok C (w_db w') \<and> git_holds C (w_db w') b (Some p') \<and> git_phase_state p' \<in> {NotAttempted, Finalized} \<and>
    (\<forall>a. p \<in> {None, Some GAuthorized} \<and> push_answered G config (gb_authorization b) a \<longrightarrow> git_acknowledgement_of p' = Some a)"
proof (cases "map_option git_phase_state p \<in> {Some NotAttempted, Some Finalized}")
  case True
  then obtain q where q: "p = Some q" "git_phase_state q \<in> {NotAttempted, Finalized}" by auto
  have "healthy C b q w"
    using assms q git_binding_verify_valid [OF assms(5)] by (simp add: healthy_def admissible_def)
  from admit_settled [OF assms(5) this q(2), of G] obtain w' where
    "admit_git_request C authorities G (gb_operation_id b) grant w = (Inr None, w')" "healthy C b q w'" by blast
  with q show ?thesis by (auto simp: admit_and_reconcile_git_def healthy_def)
next
  case False
  let ?q = "case p of None \<Rightarrow> GAuthorized | Some p \<Rightarrow> p"
  obtain w1 where w1: "admit_git_request C authorities G (gb_operation_id b) grant w = (Inr (Some (b, git_phase_state ?q)), w1)"
    "healthy C b ?q w1"
    using admit_completes [OF assms(1-6) False] by blast
  have q: "?q = GAuthorized \<longleftrightarrow> p \<in> {None, Some GAuthorized}" by (auto split: option.splits)
  with assms(10) have "?q = GAuthorized \<Longrightarrow> preflight_definite G config (gb_authorization b)" by blast
  from reconcile_completes [OF assms(1) w1(2) assms(7-9) this] obtain p' w' where
    r: "reconcile_git C G b (git_phase_state ?q) (Some config) (Some settings) None w1 = (Inr (), w')" "healthy C b p' w'"
    "git_phase_state p' \<in> {NotAttempted, Finalized}"
    "\<forall>a. ?q = GAuthorized \<and> push_answered G config (gb_authorization b) a \<longrightarrow> git_acknowledgement_of p' = Some a" by blast
  with w1(1) have "admit_and_reconcile_git C authorities G (gb_operation_id b) grant (Some config) (Some settings) None w =
      (Inr (), drop_worker (ge_env G) w')" by (simp add: admit_and_reconcile_git_def)
  moreover have "healthy C b p' (drop_worker (ge_env G) w')" using r(2) by (simp add: healthy_def drop_worker_def tick_def)
  ultimately show ?thesis using r(3,4) unfolding q healthy_def by blast
qed

section \<open>Properties\<close>

text \<open>
  A Git request reaches its end in one pass: when commits are confirmed, the lease is free, the
  receiver is configured for the approved repository and a valid signing key is given, a request
  under a verified grant returns success with its transition settled, as rejected or with its
  signed receipt. It does so from every phase a crash may have left: an attempt already durable
  needs nothing of Git, not even that its commands start, and only an unattempted transition
  needs a preflight that answers definitely. If that preflight passes and the push is answered,
  the settled phase carries the answer.
\<close>

theorem git_pass_completes:
  assumes "cooperative (ge_env G)" "w_slot w" "crypto_ok C" "git_journal_ok C (w_db w)"
    "git_binding_verify C grant authorities = Inr b" "admissible C b p (w_db w)"
    "settings_valid settings" "receiver_ready G config"
    "gc_repository_id config = ga_repository_id (gb_authorization b)"
    "p \<in> {None, Some GAuthorized} \<longrightarrow> preflight_definite G config (gb_authorization b)"
  shows "\<exists>p' w'. admit_and_reconcile_git C authorities G (gb_operation_id b) grant (Some config) (Some settings) None w =
      (Inr (), w') \<and>
    git_journal_ok C (w_db w') \<and> git_holds C (w_db w') b (Some p') \<and> git_phase_state p' \<in> {NotAttempted, Finalized} \<and>
    (\<forall>a. p \<in> {None, Some GAuthorized} \<and> push_answered G config (gb_authorization b) a \<longrightarrow> git_acknowledgement_of p' = Some a)"
  by (rule git_pass_settles [OF assms])


subsection \<open>A working receiver\<close>

text \<open>A child that writes the given output and exits with success.\<close>

definition printing :: "bytes \<Rightarrow> ChildProcess" where
  "printing bs = \<lparr>cp_spawned = True, cp_id = Some 7, cp_stdout = (\<lambda>i. Inr (if i = 0 then bs else [])), cp_stderr = (\<lambda>_. Inr []),
     cp_timed_out = False, cp_wait = Inr (Some 0)\<rparr>"

lemma run_printing:
  assumes "length bs \<le> 1024"
  shows "run_bounded (printing bs) = Inr \<lparr>co_status = Some 0, co_stdout = bs\<rparr>"
proof -
  have "stream_ends (\<lambda>i. Inr (if i = 0 then bs else [])) 0 bs"
    using assms read_loop_step(2) [of "\<lambda>i. Inr (if i = 0 then bs else [])" 0 bs bs] by (auto intro: stream_ends.intros)
  moreover have "stream_ends (\<lambda>i. Inr []) 0 []" by (rule stop) simp
  ultimately have "read_bounded (\<lambda>i. Inr (if i = 0 then bs else [])) = Inr bs" "read_bounded (\<lambda>i. Inr []) = Inr []"
    using assms by (simp_all add: read_bounded_def read_loop_iff OUTPUT_MAX_def)
  then show ?thesis by (simp add: run_bounded_def printing_def child_pid_def rbind_def)
qed

definition example_listing :: bytes where
  "example_listing = join 0 [as_bytes ''core.bare'' @ 10 # as_bytes ''true'', as_bytes ''receive.denydeletes'' @ 10 # as_bytes ''true'',
     as_bytes ''receive.denynonfastforwards'' @ 10 # as_bytes ''true'', as_bytes ''kapsel.repositoryid'' @ 10 # as_bytes ''repo-1'']"

definition example_ref_line :: bytes where
  "example_ref_line = as_bytes (join tab [APPROVED_GIT_REF, ga_old_commit example_git_authorization, ''commit'', []] @ [newline])"

definition working_git :: "string list \<Rightarrow> bytes" where
  "working_git args =
     (if args ! 5 = ''--version'' then VERSION
      else if args ! 7 = ''config'' then example_listing
      else if args ! 7 = ''cat-file'' then as_bytes (''commit'' @ [newline])
      else if args ! 7 = ''for-each-ref'' then example_ref_line
      else if args ! 7 = ''-c'' then example_report
      else [])"

definition working_fs :: FileSystem where
  "working_fs = \<lparr>fs_canonicalize = Some, fs_metadata = (\<lambda>p. Some \<lparr>md_kind = RegularFile, md_uid = 0, md_mode = 493, md_nlink = 1\<rparr>),
     fs_symlink_metadata = (\<lambda>p. if path_components p = []
       then Some \<lparr>md_kind = Directory, md_uid = 0, md_mode = 493, md_nlink = 2\<rparr>
       else if length (path_components p) \<le> 2 then Some \<lparr>md_kind = Directory, md_uid = 1000, md_mode = 448, md_nlink = 2\<rparr>
       else None),
     fs_read_dir = (\<lambda>p. Some []), fs_geteuid = 1000\<rparr>"

definition working_env :: GitEnv where
  "working_env = \<lparr>ge_env = example_env, ge_files = (\<lambda>_. working_fs), ge_spawn = (\<lambda>_ _ args. printing (working_git args))\<rparr>"

definition working_config :: GitReceiverConfiguration where
  "working_config = \<lparr>gc_executable = \<lparr>path_absolute = True, path_components = [''git'']\<rparr>,
     gc_sender = \<lparr>path_absolute = True, path_components = [''srv'', ''sender'']\<rparr>,
     gc_receiver = \<lparr>path_absolute = True, path_components = [''srv'', ''receiver'']\<rparr>, gc_repository_id = ''repo-1''\<rparr>"

definition working_receiver :: "nat \<Rightarrow> GitReceiver" where
  "working_receiver address = \<lparr>gr_address = address, gr_executable = gc_executable working_config,
     gr_sender = gc_sender working_config, gr_receiver = gc_receiver working_config, gr_repository_id = ''repo-1''\<rparr>"

lemma working_custody: "require_custody working_fs (working_receiver n) = Inr ()"
  by (simp add: require_custody_def require_custody_of_def path_parent_def trusted_ancestors_def path_ancestors_def
      ancestor_trusted_def private_tree_def entry_private_def path_join_def working_fs_def working_receiver_def working_config_def
      TREE_ENTRIES_MAX_def upt_rec require_def Let_def rbind_def)

lemma working_configured: "configured_receiver working_env working_config w = (Inr (working_receiver (w_tick w)), tick w)"
proof -
  have "identity_is_valid ''repo-1''" by code_simp
  moreover have "list_all (list_all (\<lambda>b. is_ascii_alphanumeric b \<or> b \<in> set (as_bytes ''/._-'')))
      (map as_bytes [''git'', ''srv'', ''sender'', ''receiver''])" by code_simp
  ultimately show ?thesis
    using working_custody [of "w_tick w"]
    by (simp add: configured_receiver_def git_receiver_new_def working_env_def working_fs_def working_config_def working_receiver_def
        executable_trusted_def path_text_valid_def trusted_ancestors_def path_ancestors_def ancestor_trusted_def upt_rec require_def Let_def rbind_def)
qed

lemma working_git_small: "length (working_git args) \<le> 1024"
proof -
  have "length VERSION \<le> 1024" "length example_listing \<le> 1024" "length (as_bytes (''commit'' @ [newline])) \<le> 1024"
    "length example_ref_line \<le> 1024" "length example_report \<le> 1024" by code_simp+
  then show ?thesis by (simp add: working_git_def)
qed

lemma working_run:
  "git_run working_env (working_receiver n) repository args w =
     (Inr \<lparr>co_status = Some 0, co_stdout = working_git (command_line (working_receiver n) \<lparr>path_absolute = True, path_components = []\<rparr> repository args)\<rparr>, tick w)"
  by (simp add: git_run_def working_env_def run_printing [OF working_git_small] path_parent_def working_receiver_def working_config_def)

lemma working_listing: "configuration_listed ''repo-1'' is_receiver example_listing = Inr ()"
proof -
  let ?segs = "[as_bytes ''core.bare'' @ 10 # as_bytes ''true'', as_bytes ''receive.denydeletes'' @ 10 # as_bytes ''true'',
     as_bytes ''receive.denynonfastforwards'' @ 10 # as_bytes ''true'', as_bytes ''kapsel.repositoryid'' @ 10 # as_bytes ''repo-1'']"
  have "split_on 0 example_listing = ?segs"
    unfolding split_on_iff example_listing_def by code_simp
  moreover have "rbind (try_fold (config_entry ''repo-1'') ?segs
       \<lparr>cf_is_bare = False, cf_repository_identity_matches = False, cf_denies_deletes = False,
        cf_denies_non_fast_forwards = False, cf_names = []\<rparr>) (\<lambda>f. Inr (cf_is_bare f, cf_repository_identity_matches f, cf_denies_deletes f,
        cf_denies_non_fast_forwards f)) = Inr (True, True, True, True)" by code_simp
  ultimately show ?thesis
    by (auto simp: configuration_listed_def rbind_eq_Inr)
qed

lemma working_ref: "observed_ref example_ref_line = Commit (ga_old_commit example_git_authorization)"
  using example_git_authorization_valid by (simp add: observed_ref_Commit example_ref_line_def git_authorization_is_valid_def)

lemmas working_simps = working_run working_git_def command_line_def status_success_def working_listing working_ref example_report_updated

lemma working_custody_check: "check_custody working_env (working_receiver n) w = (Inr (), tick w)"
  using working_custody by (simp add: check_custody_def working_env_def)

lemma working_configuration:
  assumes "repository \<in> {gc_sender working_config, gc_receiver working_config}"
  shows "require_configuration working_env (working_receiver n) repository w = (Inr (), tick (tick w))"
proof -
  have absent: "try_all (\<lambda>relative. require (fs_symlink_metadata (ge_files working_env (w_tick w))
      (repository\<lparr>path_components := path_components repository @ relative\<rparr>) = None) Configuration) FORBIDDEN_PATHS = Inr ()"
    using assms by (auto simp: FORBIDDEN_PATHS_def working_env_def working_fs_def working_config_def require_def)
  have "gr_repository_id (working_receiver n) = ''repo-1''" by (simp add: working_receiver_def)
  then show ?thesis
    by (simp add: require_configuration_def abind_def absent working_simps)
qed

lemma working_observe:
  "\<exists>w'. observe working_env (working_receiver n) w = (Commit (ga_old_commit example_git_authorization), w')"
proof -
  have "gr_receiver (working_receiver n) = gc_receiver working_config" by (simp add: working_receiver_def)
  then show ?thesis
    by (simp add: observe_def abind_def working_custody_check working_configuration working_simps)
qed


lemma working_prepare:
  "fst (prepare working_env (working_receiver n) example_git_authorization w) =
     Inr \<lparr>pt_receiver = working_receiver n, pt_authorization = example_git_authorization\<rparr>"
proof -
  have rc: "gr_receiver (working_receiver n) = gc_receiver working_config" "gr_sender (working_receiver n) = gc_sender working_config"
    "gr_repository_id (working_receiver n) = ''repo-1''" by (simp_all add: working_receiver_def)
  have "ga_repository_id example_git_authorization = ''repo-1''" by (simp add: example_git_authorization_def)
  moreover have "fst (case observe working_env (working_receiver n) v of (observed, w') \<Rightarrow> (f observed, w')) =
      f (Commit (ga_old_commit example_git_authorization))" for v and f :: "ObservedRef \<Rightarrow> (GitError, PreparedTransition) result"
    using working_observe [of n v] by auto
  ultimately show ?thesis
    using example_git_authorization_valid rc
    by (simp add: prepare_def abind_def require_commit_def working_custody_check working_configuration working_simps)
qed

lemma working_send:
  "fst (send working_env (working_receiver n)
     \<lparr>gp_prepared = \<lparr>pt_receiver = working_receiver n, pt_authorization = example_git_authorization\<rparr>\<rparr> w) = Updated"
proof -
  have rc: "gr_receiver (working_receiver n) = gc_receiver working_config" "gr_sender (working_receiver n) = gc_sender working_config"
    "gr_repository_id (working_receiver n) = ''repo-1''" by (simp_all add: working_receiver_def)
  have "ga_repository_id example_git_authorization = ''repo-1''" by (simp add: example_git_authorization_def)
  with rc show ?thesis
    by (simp add: send_def abind_def git_push_def push_arguments_def working_custody_check working_configuration working_simps)
qed

lemma working_answers: "receiver_ready working_env working_config" "push_answered working_env working_config example_git_authorization Updated"
  "preflight_definite working_env working_config example_git_authorization"
  using working_prepare working_send
  by (auto simp: receiver_ready_def push_answered_def preflight_definite_def working_configured definite_def)

text \<open>A signed grant and an empty journal.\<close>

definition example_git_trust :: AuthorizationTrust where
  "example_git_trust = \<lparr>tr_key_id = ''operator'', tr_public_key = public_of example_crypto (replicate 32 7)\<rparr>"

definition example_signed_grant :: bytes where
  "example_signed_grant = git_grant_image example_git_authorization ''operator''
     (sign_with example_crypto (replicate 32 7) (signature_input GIT_GRANT_PURPOSE (git_statement_image example_git_authorization)))"

definition granted_binding :: GitBinding where
  "granted_binding = \<lparr>gb_authorization = example_git_authorization, gb_signer = ''operator'',
     gb_digest = digest_hex example_crypto example_signed_grant, gb_grant = example_signed_grant\<rparr>"

definition empty_world :: World where
  "empty_world = \<lparr>w_db = \<lparr>kubernetes_rows = [], git_rows = []\<rparr>, w_slot = True, w_sends = [], w_pushes = [], w_acks = [], w_tick = 0\<rparr>"

definition example_settings :: ReceiptSettings where
  "example_settings = \<lparr>st_signing_seed = replicate 32 9, st_key_id = ''service''\<rparr>"

lemma granted_binding_verified: "git_binding_verify example_crypto example_signed_grant [example_git_trust] = Inr granted_binding"
proof -
  note crypto = crypto_okD [OF example_crypto_ok]
  have op: "identity_is_valid ''operator''" by code_simp
  have len: "length (sign_with example_crypto (replicate 32 7) (signature_input GIT_GRANT_PURPOSE
      (git_statement_image example_git_authorization))) = 64" using crypto by simp
  have "trust_validate example_crypto example_git_trust = Inr ()"
    using op crypto by (simp add: trust_validate_def example_git_trust_def)
  from verify_git_grant_image [OF this example_git_authorization_valid len] crypto
  have "verify_git_ref_grant example_crypto example_signed_grant example_git_trust = Inr \<lparr>vgg_authorization = example_git_authorization,
      vgg_signer_key_id = ''operator'', vgg_grant_digest = digest_hex example_crypto example_signed_grant\<rparr>"
    by (simp add: example_git_trust_def example_signed_grant_def)
  moreover have "length example_signed_grant \<le> 4096"
    using length_git_grant_image [OF example_git_authorization_valid op len] by (simp add: example_signed_grant_def)
  ultimately show ?thesis by (simp add: git_binding_verify_def granted_binding_def)
qed

lemma empty_world_ok: "git_journal_ok C (w_db empty_world)" "admissible C b None (w_db empty_world)" "w_slot empty_world"
proof -
  have "require_admission (w_db empty_world) = Inr ()" by code_simp
  then show "git_journal_ok C (w_db empty_world)" "admissible C b None (w_db empty_world)" "w_slot empty_world"
    by (simp_all add: empty_world_def git_journal_ok_def db_ok_def table_ok_def id_exists_def row_of_def admissible_def)
qed

lemma example_settings_valid: "settings_valid example_settings" "cooperative (ge_env working_env)"
  subgoal by code_simp
  subgoal by (simp add: cooperative_def working_env_def example_env_def)
  done

theorem git_pass_completes_witness:
  "\<exists>p' w'. admit_and_reconcile_git example_crypto [example_git_trust] working_env ''git-op-1'' example_signed_grant
      (Some working_config) (Some example_settings) None empty_world = (Inr (), w') \<and>
    git_holds example_crypto (w_db w') granted_binding (Some p') \<and> git_phase_state p' \<in> {NotAttempted, Finalized} \<and>
    git_acknowledgement_of p' = Some Updated"
proof -
  have b: "gb_authorization granted_binding = example_git_authorization" "ga_operation_id example_git_authorization = ''git-op-1''"
    "gc_repository_id working_config = ga_repository_id example_git_authorization"
    by (simp_all add: granted_binding_def example_git_authorization_def working_config_def)
  from git_pass_completes [OF example_settings_valid(2) empty_world_ok(3) example_crypto_ok empty_world_ok(1)
      granted_binding_verified empty_world_ok(2) example_settings_valid(1) working_answers(1)] b working_answers(2,3)
  show ?thesis by auto
qed

end
