(* ===== verification/Admission.thy ===== *)
theory Admission
  imports GitProgress
begin

text \<open>
  What an admission decision tells the client about the journal, for both kinds of request.
\<close>

definition held_state :: "Table \<Rightarrow> string \<Rightarrow> OperationState \<Rightarrow> Db \<Rightarrow> bool" where
  "held_state t k st db \<longleftrightarrow> (\<exists>r. row_of t db k = Some r \<and> field r ''state'' = Text (state_as_sql st))"

text \<open>Neither table has a row of the identity.\<close>

definition absent :: "string \<Rightarrow> Db \<Rightarrow> bool" where
  "absent k db \<longleftrightarrow> row_of Kubernetes db k = None \<and> row_of Git db k = None"

text \<open>Only rows of the identity are written, and none is ever removed.\<close>

definition own_rows :: "string \<Rightarrow> Db \<Rightarrow> Db \<Rightarrow> bool" where
  "own_rows k db db' \<longleftrightarrow> db_ok db' \<and> (\<forall>t k'. k' \<noteq> k \<longrightarrow> row_of t db' k' = row_of t db k') \<and> (absent k db' \<longrightarrow> absent k db)"

lemma own_rows_refl: "db_ok db \<Longrightarrow> own_rows k db db"
  by (simp add: own_rows_def)

lemma own_rows_others: "own_rows k db db' \<Longrightarrow> k' \<noteq> k \<Longrightarrow> absent k' db' \<longleftrightarrow> absent k' db"
  by (simp add: own_rows_def absent_def)

lemma own_rows_absent: "own_rows k db db' \<Longrightarrow> absent k' db' \<Longrightarrow> absent k' db"
  using own_rows_others [of k db db' k'] by (cases "k' = k") (simp_all add: own_rows_def)

lemma stored_own_rows: "stored t k nxt db db' \<Longrightarrow> own_rows k db db'"
proof -
  assume st: "stored t k nxt db db'"
  have "row_of s db' k' = row_of s db k'" if "k' \<noteq> k" for s k'
    using st that by (cases "s = t"; cases s; cases t) (auto simp: stored_def)
  moreover have "\<not> absent k db'" using st by (cases t) (auto simp: stored_def absent_def)
  ultimately show "own_rows k db db'" using st by (auto simp: own_rows_def stored_def)
qed

fun any_call_id :: "AnyCall \<Rightarrow> string" where
  "any_call_id (KubernetesCall call) = call_id call"
| "any_call_id (GitCall w call) = gb_operation_id (git_call_binding call)"

lemma any_perform_own_rows:
  assumes "db_ok db" "any_perform C (d, call) db = (r, db')"
  shows "own_rows (any_call_id call) db db'"
  using any_perform_effect [OF assms]
proof
  assume "any_effect C call db db'"
  then show ?thesis
    by cases (auto simp: effect_def git_effect_def intro: stored_own_rows)
qed (use assms(1) own_rows_refl in simp)

text \<open>
  The worker lease is held elsewhere: by this process, so that the lock file is out of its slot, or
  by another one, so that locking it would block.
\<close>

definition contended :: "Env \<Rightarrow> World \<Rightarrow> bool" where
  "contended E w \<longleftrightarrow> env_lock E (w_tick w) \<noteq> LockPoisoned \<and> (\<not> w_slot w \<or> env_lock E (w_tick w) = LockWouldBlock)"

definition at_capacity :: "Db \<Rightarrow> bool" where
  "at_capacity db \<longleftrightarrow> 504 \<le> fst (counts db) \<or> 32 \<le> snd (counts db)"

definition decision_true :: "Env \<Rightarrow> Table \<Rightarrow> string \<Rightarrow> World \<Rightarrow> World \<Rightarrow> AdmissionDecision \<Rightarrow> bool" where
  "decision_true E t k w w' decision \<longleftrightarrow> (case decision of
     Admitted st \<Rightarrow> held_state t k st (w_db w')
   | Busy \<Rightarrow> w_db w' = w_db w \<and> absent k (w_db w) \<and> contended E w
   | Full \<Rightarrow> w_db w' = w_db w \<and> absent k (w_db w) \<and> \<not> contended E w \<and> at_capacity (w_db w))"

text \<open>One decision, true of the journal, unless the request itself was refused.\<close>

definition truthful ::
    "Env \<Rightarrow> Table \<Rightarrow> string \<Rightarrow> World \<Rightarrow> (ReconciliationError, OperationState option) result \<Rightarrow> World \<Rightarrow> bool" where
  "truthful E t k w r w' \<longleftrightarrow>
     (\<exists>e. r = Inl (Submission e)) \<and> w_acks w' = w_acks w \<or>
     (\<exists>decision. w_acks w' = w_acks w @ [decision] \<and> decision_true E t k w w' decision \<and>
        (\<forall>st. r = Inr (Some st) \<longrightarrow> decision = Admitted st))"

lemma try_lock_contended:
  "fst (try_lock_worker E w) = Inr False \<longleftrightarrow> contended E w"
  "fst (try_lock_worker E w) = Inr True \<Longrightarrow> \<not> contended E w"
  by (auto simp: try_lock_worker_def contended_def split: LockAttempt.splits if_splits)

lemma capacity_numbers: "IDENTITY_CAPACITY \<le> fst (counts db) \<or> UNFINISHED_CAPACITY \<le> snd (counts db) \<longleftrightarrow> at_capacity db"
  by (simp add: at_capacity_def IDENTITY_CAPACITY_def UNFINISHED_CAPACITY_def DATABASE_PAGES_def COMPLETION_HEADROOM_PAGES_def
      IDENTITY_PAGES_def)

text \<open>What an admitting write must promise, for an identity that is not in the journal or held in a state.\<close>

definition admits :: "Table \<Rightarrow> string \<Rightarrow> Db \<Rightarrow> OperationState gateway \<Rightarrow> bool" where
  "admits t k db admit \<longleftrightarrow> (\<forall>v a v'. w_db v = db \<longrightarrow> admit v = (a, v') \<longrightarrow> w_acks v' = w_acks v \<and>
     (\<forall>st. a = Inr st \<longrightarrow> held_state t k st (w_db v')) \<and> own_rows k db (w_db v') \<and>
     (a = Inl JournalFull \<longrightarrow> w_db v' = db \<and> absent k db \<and> at_capacity db))"

lemma admit_service_own_rows:
  assumes "db_ok (w_db w)" "admits t k (w_db w) admit" "admit_service_operation E existing admit w = (r, w')"
  shows "own_rows k (w_db w) (w_db w')"
proof -
  note same = own_rows_refl [OF assms(1)]
  have "own_rows k (w_db w) (w_db w2)" if "same_records w w1" "admit w1 = (a, w2)" for w1 a w2
    using that assms(2) unfolding admits_def same_records_def by metis
  with assms(3) same show ?thesis
    by (cases rule: admit_service_cases) (auto simp: same_records_def)
qed

lemma truthful_admit_service:
  assumes existing: "\<And>st. existing = Some st \<Longrightarrow> held_state t k st (w_db w)" "existing = None \<Longrightarrow> absent k (w_db w)"
    and admit: "admits t k (w_db w) admit"
    and step: "admit_service_operation E existing admit w = (r, w')"
  shows "truthful E t k w r w'"
proof -
  have run: "w_acks v' = w_acks w \<and> (\<forall>st. a = Inr st \<longrightarrow> held_state t k st (w_db v')) \<and>
      (a = Inl JournalFull \<longrightarrow> w_db v' = w_db w \<and> absent k (w_db w) \<and> at_capacity (w_db w))"
    if "same_records w v" "admit v = (a, v')" for v a v'
  proof -
    from that(1) have "w_db v = w_db w" "w_acks v = w_acks w" by (simp_all add: same_records_def)
    with admit that(2) show ?thesis unfolding admits_def by metis
  qed
  from step show ?thesis
  proof (cases rule: admit_service_cases)
    case contended
    with existing try_lock_contended(1) [of E w] show ?thesis
      by (cases existing) (auto simp: truthful_def decision_true_def same_records_def)
  next
    case (admitted w1 st w2)
    with run [OF admitted(1,2)] show ?thesis by (auto simp: truthful_def decision_true_def same_records_def)
  next
    case (full w1 w2)
    with run [OF full(1,2)] try_lock_contended(2) [OF full(5)] show ?thesis
      by (auto simp: truthful_def decision_true_def same_records_def)
  next
    case (refused w1 e w2)
    with run [OF refused(1,2)] show ?thesis by (auto simp: truthful_def same_records_def)
  qed (auto simp: truthful_def decision_true_def same_records_def existing)
qed

lemma existing_submission_held:
  assumes "db_ok db" "existing_submission C q db = Inr (Some st)"
  shows "held_state Kubernetes (vr_operation_id (aq_request q)) st db"
proof -
  obtain op where op: "authorized_operation C q db = Inr (Some op)" "loaded_state op = st"
    using assms(2) by (auto simp: existing_submission_def rbind_eq_Inr)
  from phase_stage [OF authorized_operation_phase(1) [OF assms(1) op(1)]] op(2) show ?thesis
    by (auto simp: stage_def held_state_def split: option.splits Value.splits)
qed


lemma requested_state: "field (requested_record q) ''state'' = Text ''requested''"
  unfolding requested_record_columns requested_fields by (simp add: requested_columns_def CURRENT_COLUMNS_def Let_def)

lemma insert_requested_held:
  assumes "db_ok db" "insert_requested d q db = (Inr (), db')"
  shows "held_state Kubernetes (vr_operation_id (aq_request q)) Requested db'"
proof -
  obtain C where "effect C (InsertRequested q) db db'"
    using insert_requested_effect [OF assms] by auto
  then obtain nxt where "row_change C (InsertRequested q) (row_of Kubernetes db (vr_operation_id (aq_request q))) nxt"
    "stored Kubernetes (vr_operation_id (aq_request q)) nxt db db'" by (auto simp: effect_def)
  then show ?thesis
    by cases (auto simp: held_state_def stored_def requested_state)
qed

lemma admits_operation:
  assumes "db_ok db" "authorized_operation C q db = Inr existing"
  shows "admits Kubernetes (vr_operation_id (aq_request q)) db (admit_operation C E q)"
  unfolding admits_def
proof (intro allI impI)
  let ?k = "vr_operation_id (aq_request q)"
  fix v a v' assume v: "w_db v = db" "admit_operation C E q v = (a, v')"
  show "w_acks v' = w_acks v \<and> (\<forall>st. a = Inr st \<longrightarrow> held_state Kubernetes ?k st (w_db v')) \<and> own_rows ?k db (w_db v') \<and>
      (a = Inl JournalFull \<longrightarrow> w_db v' = db \<and> absent ?k db \<and> at_capacity db)"
  proof (cases existing)
    case (Some op)
    with v assms(2) existing_submission_held [OF assms(1), of C q "loaded_state op"] own_rows_refl [OF assms(1)] show ?thesis
      by (auto simp: admit_operation_def abind_def db_read_def existing_submission_def)
  next
    case None
    then have "absent ?k db" using assms(2) authorized_operation_None by (simp add: absent_def)
    moreover obtain a1 db1 where i: "insert_requested (env_delivery E (w_tick v)) q db = (a1, db1)" by fastforce
    moreover have "a = rbind a1 (\<lambda>_. Inr Requested) \<and> v' = tick (v\<lparr>w_db := db1\<rparr>)"
      using v assms(2) None i
      by (auto simp: admit_operation_def abind_def db_read_def existing_submission_def db_write_def split: sum.splits)
    moreover have "own_rows ?k db db1"
      using any_perform_own_rows [OF assms(1), of C "env_delivery E (w_tick v)" "KubernetesCall (InsertRequested q)"] i
      by (cases a1) (simp_all add: abind_def)
    ultimately show ?thesis
      using insert_requested_held [OF assms(1), of _ q db1] replace_full capacity_numbers
      by (cases a1) (fastforce simp: insert_requested_def tick_def)+
  qed
qed

lemma admit_request_cases:
  assumes "admit_request C authorities E request grant w = (r, w')"
  obtains (refused) e where "r = Inl (Submission e)" "w' = w"
  | (admission) q existing where "rq_operation_id request = vr_operation_id (aq_request q)" "authorized_operation C q (w_db w) = Inr existing"
      "admit_service_operation E (map_option loaded_state existing) (admit_operation C E q) w = (r, w')"
proof (cases "bind_authorization C authorities request grant")
  case (Inl e)
  with assms refused show ?thesis by (auto simp: admit_request_def abind_def amap_err_def)
next
  case (Inr q)
  then have k: "rq_operation_id request = vr_operation_id (aq_request q)"
    by (auto simp: bind_authorization_def rbind_eq_Inr authorized_request_bind_iff validated_request_iff to_adapter_request_def)
  show ?thesis
  proof (cases "authorized_operation C q (w_db w)")
    case (Inl e)
    with assms Inr refused show ?thesis by (auto simp: admit_request_def abind_def amap_err_def db_read_def)
  next
    case op: (Inr existing)
    with assms Inr have "admit_service_operation E (map_option loaded_state existing) (admit_operation C E q) w = (r, w')"
      by (simp add: admit_request_def abind_def amap_err_def db_read_def)
    with admission [OF k op] show ?thesis .
  qed
qed

lemma truthful_admit_request:
  assumes "db_ok (w_db w)" "admit_request C authorities E request grant w = (r, w')"
  shows "truthful E Kubernetes (rq_operation_id request) w r w' \<and> own_rows (rq_operation_id request) (w_db w) (w_db w')"
  using assms(2)
proof (cases rule: admit_request_cases)
  case (refused e)
  with own_rows_refl [OF assms(1)] show ?thesis by (simp add: truthful_def)
next
  case (admission q existing)
  note admits = admits_operation [OF assms(1) admission(2)]
  have "truthful E Kubernetes (vr_operation_id (aq_request q)) w r w'"
  proof (rule truthful_admit_service [OF _ _ admits admission(3)])
    fix st assume "map_option loaded_state existing = Some st"
    with existing_submission_held [OF assms(1), of C q st] admission(2)
    show "held_state Kubernetes (vr_operation_id (aq_request q)) st (w_db w)"
      by (simp add: existing_submission_def)
  next
    assume "map_option loaded_state existing = None"
    with admission(2) show "absent (vr_operation_id (aq_request q)) (w_db w)"
      using authorized_operation_None by (simp add: absent_def)
  qed
  with admit_service_own_rows [OF assms(1) admits admission(3)] admission(1) show ?thesis by simp
qed


lemma git_state_sql: "git_state_text p = state_as_sql (git_phase_state p)"
  by (cases p) simp_all

lemma git_holds_state: "git_holds C db b (Some p) \<Longrightarrow> held_state Git (gb_operation_id b) (git_phase_state p) db"
  by (simp add: git_holds_def held_state_def git_row_state git_state_sql)

lemma admits_git:
  assumes "db_ok db" "git_operation C b db = Inr existing"
  shows "admits Git (gb_operation_id b) db
    (abind (db_write E (\<lambda>d. insert_git C d b True)) (\<lambda>phase. areturn (git_phase_state phase)))"
  unfolding admits_def
proof (intro allI impI)
  fix v a v' assume v: "w_db v = db"
    "abind (db_write E (\<lambda>d. insert_git C d b True)) (\<lambda>phase. areturn (git_phase_state phase)) v = (a, v')"
  obtain a1 db' where i: "insert_git C (env_delivery E (w_tick v)) b True db = (a1, db')" by fastforce
  have a: "a = map_sum (\<lambda>e. e) git_phase_state a1" "w_db v' = db'" "w_acks v' = w_acks v"
    using v i by (auto simp: abind_def db_write_def tick_def split: sum.splits)
  have "held_state Git (gb_operation_id b) (git_phase_state p) db'" if "a1 = Inr p" for p
    using insert_git_cases [OF assms(1) i] that git_operation_iff(1) [OF assms(1)] git_holds_state git_effect_frame(4) by metis
  moreover have "db' = db \<and> absent (gb_operation_id b) db \<and> at_capacity db" if full: "a1 = Inl JournalFull"
  proof -
    have none: "existing = None" using i assms(2) full by (auto simp: insert_git_def abind_def split: option.splits)
    then have "absent (gb_operation_id b) db" using git_operation_iff(2) [OF assms(1)] assms(2) by (simp add: absent_def)
    moreover have "replace (env_delivery E (w_tick v)) None (git_row b GAuthorized) db = (Inl JournalFull, db')"
      using i assms(2) none full by (auto simp: insert_git_def set_git_empty abind_def split: sum.splits prod.splits)
    ultimately show ?thesis using replace_full capacity_numbers by metis
  qed
  moreover have "own_rows (gb_operation_id b) db db'"
    using any_perform_own_rows [OF assms(1), of C "env_delivery E (w_tick v)" "GitCall True (InsertGit b)"] i
    by (cases a1) (simp_all add: abind_def)
  ultimately show "w_acks v' = w_acks v \<and> (\<forall>st. a = Inr st \<longrightarrow> held_state Git (gb_operation_id b) st (w_db v')) \<and>
      own_rows (gb_operation_id b) db (w_db v') \<and> (a = Inl JournalFull \<longrightarrow> w_db v' = db \<and> absent (gb_operation_id b) db \<and> at_capacity db)"
    using a by (cases a1) auto
qed

lemma truthful_admit_git:
  assumes "db_ok (w_db w)" "admit_git_request C authorities G ident grant w = (r, w')"
  shows "truthful (ge_env G) Git ident w (map_sum (\<lambda>e. e) (map_option snd) r) w' \<and> own_rows ident (w_db w) (w_db w')"
proof (cases "git_binding_verify C grant authorities")
  case (Inl e)
  with assms(2) own_rows_refl [OF assms(1)] show ?thesis by (auto simp: admit_git_request_def abind_def amap_err_def truthful_def)
next
  case (Inr b)
  show ?thesis
  proof (cases "gb_operation_id b = ident \<and> (\<exists>p. git_operation C b (w_db w) = Inr p)")
    case False
    with assms(2) Inr own_rows_refl [OF assms(1)] show ?thesis
      by (cases "git_operation C b (w_db w)")
        (auto simp: admit_git_request_def abind_def amap_err_def db_read_def truthful_def split: if_splits)
  next
    case True
    then obtain existing where ex: "git_operation C b (w_db w) = Inr existing" and k: "ident = gb_operation_id b" by blast
    obtain r1 where step: "admit_service_operation (ge_env G) (map_option git_phase_state existing)
        (abind (db_write (ge_env G) (\<lambda>d. insert_git C d b True)) (\<lambda>phase. areturn (git_phase_state phase))) w = (r1, w')"
      and r: "r = map_sum (\<lambda>e. e) (map_option (\<lambda>state. (b, state))) r1"
      using assms(2) Inr ex k
      by (auto simp: admit_git_request_def abind_def [of _ _ w] amap_err_def db_read_def split: sum.splits prod.splits)
    have "truthful (ge_env G) Git ident w r1 w'"
      unfolding k
    proof (rule truthful_admit_service [OF _ _ admits_git [OF assms(1) ex] step])
      fix st assume "map_option git_phase_state existing = Some st"
      with ex git_operation_iff(1) [OF assms(1)] git_holds_state
      show "held_state Git (gb_operation_id b) st (w_db w)" by auto
    next
      assume "map_option git_phase_state existing = None"
      with ex git_operation_iff(2) [OF assms(1)] show "absent (gb_operation_id b) (w_db w)" by (simp add: absent_def)
    qed
    moreover have "map_sum (\<lambda>e. e) (map_option snd) r = r1"
      unfolding r by (cases r1) (simp_all add: option.map_comp comp_def option.map_ident)
    ultimately show ?thesis using admit_service_own_rows [OF assms(1) admits_git [OF assms(1) ex] step] k by simp
  qed
qed


section \<open>Properties\<close>

text \<open>
  C29. An admission decision is true of the journal: a request of either kind is refused with an
  error and no decision, or it gets exactly one decision, acknowledged after the fact. If the
  decision is that it was admitted in a state, its row is durable in that state. If it is busy,
  the identity has no row in either table, the database is untouched and the worker lease really is
  held elsewhere. If it is full, the identity has no row, the database is untouched, the lease was
  free, and the journal really holds 504 identities or 32 unfinished ones. The lease passes on to
  the work only after an acknowledged admission.
\<close>

theorem admission_decisions_true:
  assumes "db_ok (w_db w)"
  shows "(\<forall>r w'. admit_request C authorities E request grant w = (r, w') \<longrightarrow>
      truthful E Kubernetes (rq_operation_id request) w r w') \<and>
    (\<forall>r w'. admit_git_request C authorities G ident grant w = (r, w') \<longrightarrow>
      truthful (ge_env G) Git ident w (map_sum (\<lambda>e. e) (map_option snd) r) w')"
  using truthful_admit_request [OF assms] truthful_admit_git [OF assms] by blast


theorem admission_decisions_true_witness:
  "\<exists>w'. admit_git_request example_crypto [example_git_trust] working_env ''git-op-1'' example_signed_grant empty_world =
      (Inr (Some (granted_binding, Authorized)), w') \<and>
    w_acks w' = [Admitted Authorized] \<and> held_state Git ''git-op-1'' Authorized (w_db w')"
proof -
  have b: "gb_operation_id granted_binding = ''git-op-1''" by (simp add: granted_binding_def example_git_authorization_def)
  obtain w' where w': "admit_git_request example_crypto [example_git_trust] working_env ''git-op-1'' example_signed_grant empty_world =
      (Inr (Some (granted_binding, Authorized)), w')"
    using admit_completes [OF example_settings_valid(2) empty_world_ok(3) example_crypto_ok empty_world_ok(1)
        granted_binding_verified empty_world_ok(2)] b by auto
  have "db_ok (w_db empty_world)" using empty_world_ok(1) by (simp add: git_journal_ok_def)
  from admission_decisions_true [OF this] w' show ?thesis
    by (fastforce simp: truthful_def decision_true_def empty_world_def)
qed

end
