(* ===== verification/Composition.thy ===== *)
theory Composition
  imports GitGateway
begin

text \<open>
  Sequences of passes of both kinds over one journal: what any pass keeps, for the mutations sent
  and for the evidence a Git row carries.
\<close>

section \<open>Passes of both kinds\<close>

record GitPass =
  gps_env :: GitEnv
  gps_id :: string
  gps_grant :: bytes
  gps_receiver :: "GitReceiverConfiguration option"
  gps_signing :: "ReceiptSettings option"
  gps_fault :: "FaultPoint option"

datatype AnyPass = KubernetesPass Pass | GitPass GitPass

fun run_any_pass :: "crypto \<Rightarrow> AuthorizationTrust list \<Rightarrow> AnyPass \<Rightarrow> World \<Rightarrow> World option" where
  "run_any_pass C authorities (KubernetesPass ps) w = map_option snd (run_pass C authorities ps w)"
| "run_any_pass C authorities (GitPass ps) w =
     Some (snd (admit_and_reconcile_git C authorities (gps_env ps) (gps_id ps) (gps_grant ps) (gps_receiver ps)
       (gps_signing ps) (gps_fault ps) w))"

fun run_any_passes :: "crypto \<Rightarrow> AuthorizationTrust list \<Rightarrow> AnyPass list \<Rightarrow> World \<Rightarrow> World option" where
  "run_any_passes C authorities [] w = Some w"
| "run_any_passes C authorities (ps # rest) w =
     (case run_any_pass C authorities ps w of None \<Rightarrow> None | Some w' \<Rightarrow> run_any_passes C authorities rest w')"

abbreviation mutations_for :: "string \<Rightarrow> World \<Rightarrow> nat" where
  "mutations_for k w \<equiv> sent_for k (w_sends w) + pushed_for k (w_pushes w)"

text \<open>What a pass of either kind keeps, for the requests of both kinds together.\<close>

definition any_safe :: "World \<Rightarrow> World \<Rightarrow> bool" where
  "any_safe w w' \<longleftrightarrow> (db_ok (w_db w) \<longrightarrow> db_ok (w_db w') \<and>
     (\<forall>k. any_dispatched k (w_db w) \<longrightarrow> any_dispatched k (w_db w')) \<and>
     (\<forall>k. mutations_for k w' \<le> mutations_for k w + (if any_dispatched k (w_db w') \<and> \<not> any_dispatched k (w_db w) then 1 else 0)) \<and>
     (\<forall>p. recorded p (w_db w) \<longrightarrow> recorded p (w_db w')) \<and> (\<forall>p. git_recorded p (w_db w) \<longrightarrow> git_recorded p (w_db w')) \<and>
     (\<forall>p \<in> set (w_sends w'). p \<in> set (w_sends w) \<or> recorded p (w_db w')) \<and>
     (\<forall>p \<in> set (w_pushes w'). p \<in> set (w_pushes w) \<or> git_recorded p (w_db w')))"

lemma any_safe_order: "reflp any_safe" "transp any_safe"
proof -
  show "reflp any_safe" by (auto simp: reflp_def any_safe_def)
  show "transp any_safe"
  proof (rule transpI)
    fix a b c assume ab: "any_safe a b" and bc: "any_safe b c"
    have "mutations_for k c \<le> mutations_for k a + (if any_dispatched k (w_db c) \<and> \<not> any_dispatched k (w_db a) then 1 else 0)"
      if "db_ok (w_db a)" for k
    proof -
      from ab that have b: "db_ok (w_db b)" "any_dispatched k (w_db a) \<longrightarrow> any_dispatched k (w_db b)"
        "mutations_for k b \<le> mutations_for k a + (if any_dispatched k (w_db b) \<and> \<not> any_dispatched k (w_db a) then 1 else 0)"
        unfolding any_safe_def by blast+
      from bc b(1) have "any_dispatched k (w_db b) \<longrightarrow> any_dispatched k (w_db c)"
        "mutations_for k c \<le> mutations_for k b + (if any_dispatched k (w_db c) \<and> \<not> any_dispatched k (w_db b) then 1 else 0)"
        unfolding any_safe_def by blast+
      with b show ?thesis
        by (cases "any_dispatched k (w_db a)"; cases "any_dispatched k (w_db b)"; cases "any_dispatched k (w_db c)") simp_all
    qed
    moreover have "db_ok (w_db c)" "any_dispatched k (w_db a) \<longrightarrow> any_dispatched k (w_db c)" if "db_ok (w_db a)" for k
      using ab bc that unfolding any_safe_def by blast+
    moreover have "(recorded p (w_db a) \<longrightarrow> recorded p (w_db c)) \<and> (p \<in> set (w_sends c) \<longrightarrow> p \<in> set (w_sends a) \<or> recorded p (w_db c))"
      if "db_ok (w_db a)" for p
      using ab bc that unfolding any_safe_def by blast
    moreover have "(git_recorded p (w_db a) \<longrightarrow> git_recorded p (w_db c)) \<and> (p \<in> set (w_pushes c) \<longrightarrow> p \<in> set (w_pushes a) \<or> git_recorded p (w_db c))"
      if "db_ok (w_db a)" for p
      using ab bc that unfolding any_safe_def by blast
    ultimately show "any_safe a c" unfolding any_safe_def by blast
  qed
qed

lemma safe_move_any:
  assumes "safe_move w w'"
  shows "any_safe w w'"
proof (cases "db_ok (w_db w)")
  case True
  with assms obtain new where s: "db_ok (w_db w')" "\<And>k. dispatched k (w_db w) \<Longrightarrow> dispatched k (w_db w')"
    "\<And>p. recorded p (w_db w) \<Longrightarrow> recorded p (w_db w')" "w_sends w' = w_sends w @ new"
    "\<And>k. sent_for k new \<le> (if dispatched k (w_db w') \<and> \<not> dispatched k (w_db w) then 1 else 0)"
    "\<And>p. p \<in> set new \<Longrightarrow> recorded p (w_db w')" and g: "row_of Git (w_db w') = row_of Git (w_db w)" "w_pushes w' = w_pushes w"
    unfolding safe_move_iff by blast
  have gd: "git_dispatched k (w_db w') = git_dispatched k (w_db w)" for k by (simp add: git_dispatched_def g)
  have "dispatched k (w_db w') \<Longrightarrow> \<not> git_dispatched k (w_db w)" for k
    using dispatched_exclusive(1) [OF s(1), of k] gd [of k] by (auto simp: git_dispatched_def)
  then have "sent_for k new \<le> (if any_dispatched k (w_db w') \<and> \<not> any_dispatched k (w_db w) then 1 else 0)" for k
    using s(5) [of k] gd [of k] by (auto simp: any_dispatched_def split: if_splits)
  with s g gd show ?thesis
    unfolding any_safe_def by (auto simp: any_dispatched_def git_recorded_def)
qed (simp add: any_safe_def)

lemma git_safe_any:
  assumes "git_safe w w'"
  shows "any_safe w w'"
proof (cases "db_ok (w_db w)")
  case True
  with assms obtain new where s: "db_ok (w_db w')" "\<And>k. git_dispatched k (w_db w) \<Longrightarrow> git_dispatched k (w_db w')"
    "\<And>p. git_recorded p (w_db w) \<Longrightarrow> git_recorded p (w_db w')" "w_pushes w' = w_pushes w @ new"
    "\<And>k. pushed_for k new \<le> (if git_dispatched k (w_db w') \<and> \<not> git_dispatched k (w_db w) then 1 else 0)"
    "\<And>p. p \<in> set new \<Longrightarrow> git_recorded p (w_db w')" and g: "row_of Kubernetes (w_db w') = row_of Kubernetes (w_db w)" "w_sends w' = w_sends w"
    unfolding git_safe_iff by blast
  have gd: "dispatched k (w_db w') = dispatched k (w_db w)" for k by (simp add: dispatched_def g)
  have "git_dispatched k (w_db w') \<Longrightarrow> \<not> dispatched k (w_db w)" for k
    using dispatched_exclusive(2) [OF s(1), of k] gd [of k] by (auto simp: dispatched_def)
  then have "pushed_for k new \<le> (if any_dispatched k (w_db w') \<and> \<not> any_dispatched k (w_db w) then 1 else 0)" for k
    using s(5) [of k] gd [of k] by (auto simp: any_dispatched_def split: if_splits)
  with s g gd show ?thesis
    unfolding any_safe_def by (auto simp: any_dispatched_def recorded_def)
qed (simp add: any_safe_def)

lemma run_any_pass_safe:
  assumes "run_any_pass C authorities ps w = Some w'"
  shows "any_safe w w'"
proof (cases ps)
  case (KubernetesPass k)
  with assms obtain r where "run_pass C authorities k w = Some (r, w')" by auto
  from safe_move_any [OF safe_admit_and_reconcile [OF this [unfolded run_pass_def]]] show ?thesis .
next
  case (GitPass g)
  with assms git_safe_pass show ?thesis by (auto simp: moves_def intro: git_safe_any)
qed

lemma run_any_passes_safe:
  assumes "db_ok (w_db w)"
  shows "\<exists>w'. run_any_passes C authorities passes w = Some w' \<and> any_safe w w'"
  using assms
proof (induction passes arbitrary: w)
  case (Cons ps passes)
  obtain w1 where w1: "run_any_pass C authorities ps w = Some w1"
    using run_pass_returns [OF Cons.prems] by (cases ps) fastforce+
  have "any_safe w w1" by (rule run_any_pass_safe [OF w1])
  moreover have "db_ok (w_db w1)" using calculation Cons.prems by (simp add: any_safe_def)
  ultimately show ?case
    using Cons.IH [of w1] w1 transpD [OF any_safe_order(2)] by auto
qed (use reflpD [OF any_safe_order(1)] in simp)

section \<open>Evidence of an effect\<close>

text \<open>
  The row of an identity claims nothing about its push, or a push was sent for it. The relation is
  what every action of a pass keeps.
\<close>

definition evidenced :: "Acknowledgement \<Rightarrow> string \<Rightarrow> World \<Rightarrow> bool" where
  "evidenced a k w \<longleftrightarrow> db_ok (w_db w) \<and> (unacknowledged a k (w_db w) \<or> (\<exists>p \<in> set (w_pushes w). git_permission_id p = k))"

definition keeps_evidence :: "Acknowledgement \<Rightarrow> string \<Rightarrow> World \<Rightarrow> World \<Rightarrow> bool" where
  "keeps_evidence a k w w' \<longleftrightarrow> (evidenced a k w \<longrightarrow> evidenced a k w')"

lemma keeps_evidence_order: "reflp (keeps_evidence a k)" "transp (keeps_evidence a k)"
  by (auto simp: reflp_def transp_def keeps_evidence_def)

lemma untouched_evidence: "untouched w w' \<Longrightarrow> keeps_evidence a k w w'"
  by (simp add: untouched_def keeps_evidence_def evidenced_def)

lemma safe_move_evidence: "safe_move w w' \<Longrightarrow> keeps_evidence a k w w'"
  by (auto simp: safe_move_iff keeps_evidence_def evidenced_def unacknowledged_def)

lemmas evidence_rules = moves_lift [OF keeps_evidence_order(1)] moves_throw_if [OF keeps_evidence_order(1)]
  moves_reads [OF keeps_evidence_order(1)] moves_abind [OF keeps_evidence_order(2)] moves_amap_err

lemma evidence_db_write:
  assumes "a \<noteq> AckUnknown" "\<And>d db r db'. db_ok db \<Longrightarrow> m d db = (r, db') \<Longrightarrow>
    db' = db \<or> (\<exists>C b p p'. git_effect C b p p' db db' \<and> (gb_operation_id b = k \<longrightarrow> p' \<noteq> GAttempted (Some a)))"
  shows "moves (keeps_evidence a k) (db_write E m)"
proof (rule movesI)
  fix w r w'
  assume "db_write E m w = (r, w')"
  then obtain db' where m: "m (env_delivery E (w_tick w)) (w_db w) = (r, db')" and w': "w' = tick (w\<lparr>w_db := db'\<rparr>)"
    by (auto simp: db_write_def split: prod.splits)
  have "evidenced a k w'" if ev: "evidenced a k w"
  proof -
    have "db_ok (w_db w)" using ev by (simp add: evidenced_def)
    from assms(2) [OF this m] show ?thesis
    proof (elim disjE exE conjE)
      fix C b p p'
      assume e: "git_effect C b p p' (w_db w) db'" "gb_operation_id b = k \<longrightarrow> p' \<noteq> GAttempted (Some a)"
      with ev git_effect_unacknowledged [OF e(1) _ assms(1)] git_effect_frame(1) [OF e(1)] show ?thesis
        by (auto simp: evidenced_def w' tick_def)
    qed (use ev in \<open>simp add: evidenced_def w' tick_def\<close>)
  qed
  then show "keeps_evidence a k w w'" by (simp add: keeps_evidence_def)
qed

lemma evidence_writes:
  assumes "a \<noteq> AckUnknown"
  shows "moves (keeps_evidence a k) (db_write E (\<lambda>d. insert_git C d b worker))"
    "moves (keeps_evidence a k) (db_write E (\<lambda>d. begin_git_attempt C d b prepared worker))"
    "moves (keeps_evidence a k) (db_write E (\<lambda>d. reject_git C d b rejection worker))"
    "moves (keeps_evidence a k) (db_write E (\<lambda>d. freeze_git_observation C d b ob worker))"
    "moves (keeps_evidence a k) (db_write E (\<lambda>d. commit_git_receipt C d b bs worker))"
    "ack \<noteq> a \<or> gb_operation_id b \<noteq> k \<Longrightarrow> moves (keeps_evidence a k) (db_write E (\<lambda>d. record_git_acknowledgement C d b ack worker))"
  subgoal by (rule evidence_db_write [OF assms]) (drule (1) insert_git_cases, blast)
  subgoal by (rule evidence_db_write [OF assms]) (drule (1) begin_git_attempt_cases, blast)
  subgoal by (rule evidence_db_write [OF assms]) (drule (1) reject_git_cases, blast)
  subgoal by (rule evidence_db_write [OF assms]) (drule (1) freeze_git_observation_cases, blast)
  subgoal by (rule evidence_db_write [OF assms]) (drule (1) commit_git_receipt_cases, blast)
  subgoal by (rule evidence_db_write [OF assms]) (drule (1) record_git_acknowledgement_cases, blast)
  done

lemma evidence_dispatch:
  assumes "a \<noteq> AckUnknown"
  shows "moves (keeps_evidence a k) (git_dispatch C G b rc worker fault prepared)"
proof (rule movesI)
  fix w r w'
  assume step: "git_dispatch C G b rc worker fault prepared w = (r, w')"
  let ?store = "db_write (ge_env G) (\<lambda>d. begin_git_attempt C d b prepared worker)"
  let ?tail = "\<lambda>ack. abind (checkpoint (Some rc) fault ApplyReturned) (\<lambda>_.
     abind (db_write (ge_env G) (\<lambda>d. record_git_acknowledgement C d b ack worker)) (\<lambda>_.
     checkpoint (Some rc) fault ApplyOutcomeCommitted))"
  have tail: "moves (keeps_evidence a k) (?tail ack)" if "ack \<noteq> a \<or> gb_operation_id b \<noteq> k" for ack
    unfolding checkpoint_def by (intro evidence_rules evidence_writes(6) [OF assms that])
  obtain r1 w1 where b: "?store w = (r1, w1)" by fastforce
  have kw: "keeps_evidence a k w w1" using movesD [OF evidence_writes(2) [OF assms] b] .
  show "keeps_evidence a k w w'"
  proof (cases "fault = Some TargetObserved \<or> fault = Some ApplyStartedCommitted \<or> (\<exists>e. r1 = Inl e)")
    case True
    then have "w' = w \<or> w' = w1"
      using step b by (cases r1; cases "fault = Some TargetObserved") (auto simp: git_dispatch_def abind_run checkpoint_def)
    with kw show ?thesis by (auto simp: keeps_evidence_def)
  next
    case False
    then obtain p where p: "r1 = Inr p" by (cases r1) auto
    obtain ack w2 where s: "send G rc p w1 = (ack, w2)" by fastforce
    have t: "?tail ack w2 = (r, w')"
      using step b p False s by (simp add: git_dispatch_def abind_run checkpoint_def)
    show ?thesis
      unfolding keeps_evidence_def
    proof
      assume ev: "evidenced a k w"
      then have ok: "db_ok (w_db w)" by (simp add: evidenced_def)
      obtain db1 where db1: "begin_git_attempt C (env_delivery (ge_env G) (w_tick w)) b prepared worker (w_db w) = (Inr p, db1)"
        using b p by (auto simp: db_write_def split: prod.splits)
      have q: "git_permission_id p = gb_operation_id b"
        using begin_git_attempt_cases [OF ok db1] by auto
      have ev1: "evidenced a k w1" using kw ev by (simp add: keeps_evidence_def)
      have ev2: "evidenced a k w2"
        using ev1 send_cases [OF s] by (auto simp: evidenced_def untouched_def)
      show "evidenced a k w'"
      proof (cases "ack \<noteq> a \<or> gb_operation_id b \<noteq> k")
        case True
        with movesD [OF tail t] ev2 show ?thesis by (simp add: keeps_evidence_def)
      next
        case False
        with assms send_cases [OF s] q have "p \<in> set (w_pushes w2)" "git_permission_id p = k"
          by (auto simp: untouched_def)
        moreover have "git_safe w2 w'"
        proof -
          have "moves git_safe (?tail ack)" by (intro git_safe_rules git_safe_checkpoint git_safe_writes)
          from movesD [OF this t] show ?thesis .
        qed
        then have "db_ok (w_db w')" "set (w_pushes w2) \<subseteq> set (w_pushes w')"
          using ev2 by (auto simp: git_safe_iff evidenced_def)
        ultimately show ?thesis by (auto simp: evidenced_def)
      qed
    qed
  qed
qed

lemma moves_untouched_evidence: "moves untouched m \<Longrightarrow> moves (keeps_evidence a k) m"
  by (simp add: moves_def untouched_evidence)

lemma evidence_reads: "moves (keeps_evidence a k) (git_phase_read_now C b)" "moves (keeps_evidence a k) (db_read f)"
  "moves (keeps_evidence a k) (checkpoint receiver fault point)"
  unfolding git_phase_read_now_def db_read_def checkpoint_def by (rule evidence_rules)+

lemma evidence_advance:
  assumes "a \<noteq> AckUnknown"
  shows "moves (keeps_evidence a k) (advance C G b receiver signing worker fault)"
proof -
  note writes = evidence_writes [OF assms]
  have obs: "moves (keeps_evidence a k) (\<lambda>w. case observe G rc w of (observed, w') \<Rightarrow> (Inr observed, w'))" for rc
    using untouched_observe [of _ G rc] by (auto intro!: movesI untouched_evidence split: prod.splits) (metis snd_conv)
  have "moves (keeps_evidence a k) (case prepared of
         Inr prepared \<Rightarrow> git_dispatch C G b rc worker fault prepared
       | Inl StaleRef \<Rightarrow> db_write (ge_env G) (\<lambda>d. reject_git C d b RejectStaleRef worker)
       | Inl InvalidObjects \<Rightarrow> db_write (ge_env G) (\<lambda>d. reject_git C d b RejectInvalidObjects worker)
       | Inl _ \<Rightarrow> throw GitReceiverUnavailable)" for prepared rc
    by (auto intro!: evidence_rules writes evidence_dispatch [OF assms] split: sum.splits GitError.splits)
  then have "moves (keeps_evidence a k) (git_fresh C G b receiver worker fault)"
    unfolding git_fresh_def
    by (intro evidence_rules evidence_reads moves_attempt moves_untouched_evidence [OF untouched_prepare])
  moreover have "moves (keeps_evidence a k) (git_observe_phase C G b receiver worker fault fresh)" for fresh
    unfolding git_observe_phase_def by (intro evidence_rules obs moves_if evidence_reads writes)
  moreover have "moves (keeps_evidence a k) (git_finalize_phase C G b receiver settings worker fault phase)" for settings phase
    unfolding git_finalize_phase_def by (intro evidence_rules evidence_reads writes)
  ultimately show ?thesis
    unfolding advance_def Let_def by (intro moves_if evidence_rules evidence_reads moves_option)
qed

lemma evidence_any_pass:
  assumes "a \<noteq> AckUnknown" "run_any_pass C authorities ps w = Some w'"
  shows "keeps_evidence a k w w'"
proof (cases ps)
  case (KubernetesPass ks)
  with assms(2) obtain r where "run_pass C authorities ks w = Some (r, w')" by auto
  from safe_move_evidence [OF safe_admit_and_reconcile [OF this [unfolded run_pass_def]]] show ?thesis .
next
  case (GitPass gs)
  have "moves (keeps_evidence a k) (admit_and_reconcile_git C authorities (gps_env gs) (gps_id gs) (gps_grant gs)
      (gps_receiver gs) (gps_signing gs) (gps_fault gs))"
    by (rule moves_git_pass [OF keeps_evidence_order _ evidence_writes(1) [OF assms(1)] evidence_advance [OF assms(1)]])
      (simp add: untouched_evidence untouched_def)
  with assms(2) GitPass show ?thesis by (simp add: moves_def) blast
qed

lemma evidence_any_passes:
  assumes "a \<noteq> AckUnknown"
  shows "run_any_passes C authorities passes w = Some w' \<Longrightarrow> evidenced a k w \<Longrightarrow> evidenced a k w'"
proof (induction passes arbitrary: w)
  case (Cons ps passes)
  then obtain w1 where "run_any_pass C authorities ps w = Some w1" "run_any_passes C authorities passes w1 = Some w'"
    by (auto split: option.splits)
  with Cons evidence_any_pass [OF assms, of C authorities ps w w1 k] show ?case by (simp add: keeps_evidence_def)
qed simp

end
