(* ===== verification/Paging.thy ===== *)
theory Paging
  imports Prelude
begin

text \<open>
  Reading a listing page by page: each page has a bounded number of items and the key of its last
  one as the cursor of the next page, when there is one. What a provider promises of one page is
  the locale; that a client who follows the cursors sees every item once, in order, is proved
  in it. The history and the catalog of the service are its interpretations.
\<close>

text \<open>Following the cursors for at most \<open>n\<close> pages.\<close>

fun read_pages :: "('c option \<Rightarrow> ('e, 'a list \<times> 'c option) result) \<Rightarrow> nat \<Rightarrow> 'c option \<Rightarrow> 'a list option" where
  "read_pages page 0 after = None"
| "read_pages page (Suc n) after =
     (case page after of
        Inl e \<Rightarrow> None
      | Inr (entries, None) \<Rightarrow> Some entries
      | Inr (entries, Some cursor) \<Rightarrow> map_option (\<lambda>rest. entries @ rest) (read_pages page n (Some cursor)))"

definition cursor_at :: "('a \<Rightarrow> 'c) \<Rightarrow> 'a list \<Rightarrow> nat \<Rightarrow> 'c option" where
  "cursor_at key items i = (if i = 0 then None else Some (key (items ! (i - 1))))"

locale paged_listing =
  fixes page :: "'s \<Rightarrow> 'c option \<Rightarrow> ('e, 'a list \<times> 'c option) result"
    and items :: "'s \<Rightarrow> 'a list" and key :: "'a \<Rightarrow> 'c" and ok :: "'s \<Rightarrow> bool" and size :: nat
  assumes size_pos: "0 < size"
    and page_at: "ok s \<Longrightarrow> i \<le> length (items s) \<Longrightarrow>
      page s (cursor_at key (items s) i) = Inr (take size (drop i (items s)),
        if i + size < length (items s) then cursor_at key (items s) (i + size) else None)"
begin

lemma read_from:
  assumes "ok s"
  shows "i \<le> length (items s) \<Longrightarrow> length (items s) \<le> i + size * n \<Longrightarrow> 0 < n \<Longrightarrow>
    read_pages (page s) n (cursor_at key (items s) i) = Some (drop i (items s))"
proof (induction n arbitrary: i)
  case (Suc n)
  note here = page_at [OF assms Suc.prems(1)]
  show ?case
  proof (cases "i + size < length (items s)")
    case True
    then have more: "0 < n" using Suc.prems(2) by (cases n) simp_all
    have "read_pages (page s) n (cursor_at key (items s) (i + size)) = Some (drop (i + size) (items s))"
      using Suc.IH [of "i + size"] Suc.prems(2) True more by simp
    moreover have "take size (drop i (items s)) @ drop (i + size) (items s) = drop i (items s)"
      by (metis add.commute append_take_drop_id drop_drop)
    ultimately show ?thesis using True here size_pos by (simp add: cursor_at_def [of _ _ "i + size"])
  qed (use here in simp)
qed simp

lemma read_all:
  assumes "ok s" "length (items s) \<le> size * n" "0 < n"
  shows "read_pages (page s) n None = Some (items s)"
  using read_from [OF assms(1), of 0 n] assms(2,3) by (simp add: cursor_at_def)

end

end
