(* ===== verification/Service.thy ===== *)
theory Service
  imports Composition GitProgress Capacity Paging "HOL-Library.Char_ord" "HOL-Library.List_Lexorder"
begin

text \<open>
  The service application, \<open>src/application/service.rs\<close> with \<open>service/disposition.rs\<close> and the
  projections of \<open>src/application/mod.rs\<close>: operator configuration and its catalog of approvals,
  the selection of an identity under its original authority, one execution pass, and the reads
  of status, receipt and history.

  A retained row always wins over the catalog. The receiver, the lock and the deliveries of a
  pass are the environment of the gateway; the journal file is already open.
\<close>

section \<open>Status and guidance\<close>

datatype ServiceError =
  ServiceConfigurationInvalid | InvalidRequest | AuthorityUnavailable | StorageMissing | StorageInvalid
| StorageUnavailable | OperationFailure

fun operator_diagnostic :: "ServiceError \<Rightarrow> string" where
  "operator_diagnostic ServiceConfigurationInvalid = ''configuration_invalid''"
| "operator_diagnostic InvalidRequest = ''request_invalid''"
| "operator_diagnostic AuthorityUnavailable = ''original_authority_unavailable''"
| "operator_diagnostic StorageMissing = ''storage_history_missing''"
| "operator_diagnostic StorageInvalid = ''storage_history_invalid''"
| "operator_diagnostic StorageUnavailable = ''storage_unavailable''"
| "operator_diagnostic OperationFailure = ''storage_or_operation_blocked''"

datatype OperationStatus =
  StNotFound | StInProgress | StNotAttempted TargetRejection | StSucceeded | StFailed | StUnknown

fun status_of ::
    "OperationState \<Rightarrow> TargetRejection option \<Rightarrow> OperationResult option \<Rightarrow> (ServiceError, OperationStatus) result" where
  "status_of Requested _ _ = Inr StInProgress"
| "status_of Authorized _ _ = Inr StInProgress"
| "status_of ApplyStarted _ _ = Inr StInProgress"
| "status_of ReceiverObserved _ _ = Inr StInProgress"
| "status_of NotAttempted rejection _ = rbind (ok_or OperationFailure rejection) (\<lambda>r. Inr (StNotAttempted r))"
| "status_of Finalized _ (Some Succeeded) = Inr StSucceeded"
| "status_of Finalized _ (Some Failed) = Inr StFailed"
| "status_of Finalized _ (Some Unknown) = Inr StUnknown"
| "status_of Finalized _ None = Inl OperationFailure"

datatype ExecutionCondition =
  PreflightUnavailable | ConditionReceiverUnavailable | ConditionSigningUnavailable | ConditionWorkerContention
| CompletionBlocked | OperationBlocked

fun condition_as_str :: "ExecutionCondition \<Rightarrow> string" where
  "condition_as_str PreflightUnavailable = ''preflight_unavailable''"
| "condition_as_str ConditionReceiverUnavailable = ''receiver_unavailable''"
| "condition_as_str ConditionSigningUnavailable = ''signing_unavailable''"
| "condition_as_str ConditionWorkerContention = ''worker_contention''"
| "condition_as_str CompletionBlocked = ''completion_blocked''"
| "condition_as_str OperationBlocked = ''operation_blocked''"

datatype ExecutionObservation = ObservedUnknown | ObservedActive | ObservedOtherWorker | ObservedStopped ExecutionCondition

datatype ExecutionDisposition =
  Complete | AdmissionUnconfirmed | DispositionActive | WaitingForWorker
| ResumeRequired "ExecutionCondition option" | OperatorRequired ExecutionCondition

fun project :: "OperationStatus \<Rightarrow> ExecutionObservation \<Rightarrow> ExecutionDisposition" where
  "project StNotFound _ = AdmissionUnconfirmed"
| "project (StNotAttempted _) _ = Complete"
| "project StSucceeded _ = Complete"
| "project StFailed _ = Complete"
| "project StUnknown _ = Complete"
| "project StInProgress ObservedUnknown = ResumeRequired None"
| "project StInProgress ObservedActive = DispositionActive"
| "project StInProgress ObservedOtherWorker = WaitingForWorker"
| "project StInProgress (ObservedStopped condition) =
     (if condition \<in> {ConditionWorkerContention, PreflightUnavailable} then ResumeRequired (Some condition)
      else OperatorRequired condition)"

fun disposition_as_str :: "ExecutionDisposition \<Rightarrow> string" where
  "disposition_as_str Complete = ''complete''"
| "disposition_as_str AdmissionUnconfirmed = ''admission_unconfirmed''"
| "disposition_as_str DispositionActive = ''active''"
| "disposition_as_str WaitingForWorker = ''waiting_for_worker''"
| "disposition_as_str (ResumeRequired _) = ''resume_required''"
| "disposition_as_str (OperatorRequired _) = ''operator_required''"

fun next_action :: "ExecutionDisposition \<Rightarrow> string" where
  "next_action Complete = ''inspect_result''"
| "next_action AdmissionUnconfirmed = ''read_same_id''"
| "next_action DispositionActive = ''wait''"
| "next_action WaitingForWorker = ''wait_then_select_same_id''"
| "next_action (ResumeRequired _) = ''select_same_id''"
| "next_action (OperatorRequired _) = ''contact_operator''"

fun action_owner :: "ExecutionDisposition \<Rightarrow> string" where
  "action_owner (OperatorRequired _) = ''operator''"
| "action_owner _ = ''caller''"

fun disposition_condition :: "ExecutionDisposition \<Rightarrow> ExecutionCondition option" where
  "disposition_condition (ResumeRequired condition) = condition"
| "disposition_condition (OperatorRequired condition) = Some condition"
| "disposition_condition _ = None"

datatype ServiceStop = Finished | StopBlocked ExecutionCondition

fun stop_observation :: "(ServiceError, ServiceStop) result \<Rightarrow> ExecutionObservation" where
  "stop_observation (Inr Finished) = ObservedUnknown"
| "stop_observation (Inr (StopBlocked condition)) = ObservedStopped condition"
| "stop_observation (Inl _) = ObservedStopped OperationBlocked"

text \<open>
  A database error of the modelled reads is a value that does not convert; the failure codes of
  SQLite itself, of which two are reported as invalid storage, do not arise in them.
\<close>

fun map_gateway_error :: "GatewayError \<Rightarrow> ServiceError" where
  "map_gateway_error UntrustedAuthorizationGrant = AuthorityUnavailable"
| "map_gateway_error (GInvalidInput _) = InvalidRequest"
| "map_gateway_error MissingJournalHistory = StorageMissing"
| "map_gateway_error InvalidPersistedState = StorageInvalid"
| "map_gateway_error UnsupportedJournalVersion = StorageInvalid"
| "map_gateway_error JournalBackupMismatch = StorageInvalid"
| "map_gateway_error Database = StorageUnavailable"
| "map_gateway_error JournalFile = StorageUnavailable"
| "map_gateway_error JournalBackup = StorageUnavailable"
| "map_gateway_error WorkerLock = StorageUnavailable"
| "map_gateway_error _ = OperationFailure"

fun classify_stop :: "ReconciliationError \<Rightarrow> (ServiceError, ServiceStop) result" where
  "classify_stop (Blocked SigningUnavailable) = Inr (StopBlocked ConditionSigningUnavailable)"
| "classify_stop (Blocked WorkerContention) = Inr (StopBlocked ConditionWorkerContention)"
| "classify_stop Completion = Inr (StopBlocked CompletionBlocked)"
| "classify_stop (Advancement KubernetesTargetObservation) = Inr (StopBlocked PreflightUnavailable)"
| "classify_stop (Blocked ReceiverUnavailable) = Inr (StopBlocked ConditionReceiverUnavailable)"
| "classify_stop (Advancement KubernetesApply) = Inr (StopBlocked ConditionReceiverUnavailable)"
| "classify_stop (Advancement KubernetesReceiverObservation) = Inr (StopBlocked ConditionReceiverUnavailable)"
| "classify_stop (Advancement GitReceiverUnavailable) = Inr (StopBlocked ConditionReceiverUnavailable)"
| "classify_stop (Submission error) = Inl (map_gateway_error error)"
| "classify_stop (Advancement error) = Inl (map_gateway_error error)"

section \<open>Operator configuration\<close>

record ServiceApproval =
  sv_signed_grant :: bytes
  sv_label :: string

record ServiceConfiguration =
  sc_journal_path :: Path
  sc_authorization_trust :: "AuthorizationTrust list"
  sc_approvals :: "ServiceApproval list"

datatype ApprovedAction =
  ApprovedKubernetes SetDeploymentImageRequest ApprovedTarget string
| ApprovedGit GitRefAuthorization string

fun action_operation_id :: "ApprovedAction \<Rightarrow> string" where
  "action_operation_id (ApprovedKubernetes request _ _) = rq_operation_id request"
| "action_operation_id (ApprovedGit authorization _) = ga_operation_id authorization"

record SelectableApproval =
  sl_handle :: ApprovedAction
  sl_signed_grant :: bytes

fun approved_handle ::
    "crypto \<Rightarrow> ServiceApproval \<Rightarrow> AuthorizationTrust list \<Rightarrow> (ServiceError, ApprovedAction) result" where
  "approved_handle C approval [] = Inl ServiceConfigurationInvalid"
| "approved_handle C approval (appointment # trust) =
     (case gateway_verify_grant C (sv_signed_grant approval) appointment of
        Inr grant \<Rightarrow>
          let authorization = va_authorization grant in
          rbind (ok_or ServiceConfigurationInvalid (ea_approved_target authorization)) (\<lambda>approved_target.
          Inr (ApprovedKubernetes
            \<lparr>rq_operation_id = ea_operation_id authorization, rq_namespace = ea_namespace authorization,
             rq_deployment = ea_deployment authorization, rq_container = ea_container authorization,
             rq_immutable_image_digest = ea_immutable_image_digest authorization\<rparr>
            approved_target (sv_label approval)))
      | Inl _ \<Rightarrow>
          (case verify_git_ref_grant C (sv_signed_grant approval) appointment of
             Inr grant \<Rightarrow> Inr (ApprovedGit (vgg_authorization grant) (sv_label approval))
           | Inl _ \<Rightarrow> approved_handle C approval trust))"

definition label_printable :: "string \<Rightarrow> bool" where
  "label_printable label = list_all (\<lambda>b. 32 \<le> b \<and> b \<le> 126) (as_bytes label)"

definition approval_bounded :: "ServiceApproval \<Rightarrow> bool" where
  "approval_bounded approval \<longleftrightarrow>
     \<not> (length (sv_signed_grant approval) > 4096 \<or> length (sv_label approval) > 128 \<or> \<not> label_printable (sv_label approval))"

text \<open>The running total cannot overflow: at most 32 approvals of at most 4224 bytes are added.\<close>

definition approval_bytes_total :: "ServiceApproval list \<Rightarrow> nat" where
  "approval_bytes_total approvals = sum_list (map (\<lambda>a. length (sv_signed_grant a) + length (sv_label a)) approvals)"

definition trust_appointed :: "crypto \<Rightarrow> AuthorizationTrust list \<Rightarrow> nat \<Rightarrow> (ServiceError, unit) result" where
  "trust_appointed C trusts index =
     rbind (map_err (\<lambda>_. ServiceConfigurationInvalid) (trust_validate C (trusts ! index))) (\<lambda>_.
     require (\<not> list_ex (\<lambda>key. tr_key_id key = tr_key_id (trusts ! index)) (take index trusts)) ServiceConfigurationInvalid)"

definition catalog_entry ::
    "crypto \<Rightarrow> AuthorizationTrust list \<Rightarrow> ServiceApproval \<Rightarrow> SelectableApproval list \<Rightarrow>
      (ServiceError, SelectableApproval list) result" where
  "catalog_entry C trust approval approvals =
     rbind (approved_handle C approval trust) (\<lambda>handle.
     if list_ex (\<lambda>other. action_operation_id (sl_handle other) = action_operation_id handle) approvals
     then Inl ServiceConfigurationInvalid
     else Inr (approvals @ [\<lparr>sl_handle = handle, sl_signed_grant = sv_signed_grant approval\<rparr>]))"

definition validate_configuration ::
    "crypto \<Rightarrow> ServiceConfiguration \<Rightarrow> (ServiceError, SelectableApproval list) result" where
  "validate_configuration C configuration =
     (let approvals = sc_approvals configuration; trust = sc_authorization_trust configuration in
      if length approvals > 32 \<or> length trust > 128 then Inl ServiceConfigurationInvalid
      else rbind (try_all (\<lambda>approval. require (approval_bounded approval) ServiceConfigurationInvalid) approvals) (\<lambda>_.
      if approval_bytes_total approvals > 160 * 1024 then Inl ServiceConfigurationInvalid
      else rbind (try_all (trust_appointed C trust) [0 ..< length trust]) (\<lambda>_.
      try_fold (catalog_entry C trust) approvals [])))"

definition validate_static_configuration :: "crypto \<Rightarrow> ServiceConfiguration \<Rightarrow> (ServiceError, unit) result" where
  "validate_static_configuration C configuration = rbind (validate_configuration C configuration) (\<lambda>_. Inr ())"

record ServiceApplication =
  sa_authorities :: "AuthorizationTrust list"
  sa_approvals :: "SelectableApproval list"

definition retained_agrees ::
    "crypto \<Rightarrow> AuthorizationTrust list \<Rightarrow> Db \<Rightarrow> SelectableApproval \<Rightarrow> (GatewayError, unit) result" where
  "retained_agrees C authorities db approval =
     (case sl_handle approval of
        ApprovedKubernetes request _ _ \<Rightarrow>
          rbind (gateway_authorized_operation C authorities request (sl_signed_grant approval) db) (\<lambda>_. Inr ())
      | ApprovedGit _ _ \<Rightarrow> rbind (authorized_git C authorities (sl_signed_grant approval) db) (\<lambda>_. Inr ()))"

text \<open>
  What the host answers about the journal path: whether \<open>validate_private_directory\<close> accepts a
  directory, and the metadata of a name without following a link.
\<close>

datatype NamedFile = NameMissing | NameUnreadable | NamedFile Metadata

record JournalHost =
  jh_private_directory :: "Path \<Rightarrow> bool"
  jh_symlink_metadata :: "Path \<Rightarrow> NamedFile"
  jh_geteuid :: nat

definition validate_private_file_or_missing :: "JournalHost \<Rightarrow> Path \<Rightarrow> (ServiceError, unit) result" where
  "validate_private_file_or_missing host path =
     (case jh_symlink_metadata host path of
        NamedFile metadata \<Rightarrow>
          require (md_kind metadata = RegularFile \<and> md_uid metadata = jh_geteuid host \<and> md_mode metadata AND 63 = 0)
            ServiceConfigurationInvalid
      | NameMissing \<Rightarrow> Inr ()
      | NameUnreadable \<Rightarrow> Inl ServiceConfigurationInvalid)"

definition validate_journal_path :: "JournalHost \<Rightarrow> Path \<Rightarrow> (ServiceError, unit) result" where
  "validate_journal_path host path =
     (let components = path_components path in
      if \<not> path_absolute path \<or> components = [] \<or> last components = ''..'' then Inl ServiceConfigurationInvalid
      else rbind (ok_or ServiceConfigurationInvalid (path_parent path)) (\<lambda>parent.
      rbind (require (jh_private_directory host parent) ServiceConfigurationInvalid) (\<lambda>_.
      rbind (validate_private_file_or_missing host path) (\<lambda>_.
      validate_private_file_or_missing host
        (path\<lparr>path_components := butlast components @ [last components @ ''.kap0038-worker.lock'']\<rparr>)))))"

text \<open>Opening, with the database the journal file opens to.\<close>

definition service_open ::
    "crypto \<Rightarrow> JournalHost \<Rightarrow> ServiceConfiguration \<Rightarrow> Db \<Rightarrow> (ServiceError, ServiceApplication) result" where
  "service_open C host configuration db =
     rbind (validate_configuration C configuration) (\<lambda>approvals.
     rbind (validate_journal_path host (sc_journal_path configuration)) (\<lambda>_.
     rbind (map_err map_gateway_error (open_with_authorities C (sc_authorization_trust configuration))) (\<lambda>authorities.
     rbind (map_err map_gateway_error (try_all (retained_agrees C authorities db) approvals)) (\<lambda>_.
     Inr \<lparr>sa_authorities = authorities, sa_approvals = approvals\<rparr>))))"

section \<open>Selection\<close>

datatype Selection =
  SelectKubernetes SetDeploymentImageRequest bytes "OperationState option"
| SelectGit bytes "OperationState option"

fun selection_grant :: "Selection \<Rightarrow> bytes" where
  "selection_grant (SelectKubernetes _ grant _) = grant"
| "selection_grant (SelectGit grant _) = grant"

fun selection_state :: "Selection \<Rightarrow> OperationState option" where
  "selection_state (SelectKubernetes _ _ st) = st"
| "selection_state (SelectGit _ st) = st"

definition catalog_selection :: "ServiceApplication \<Rightarrow> string \<Rightarrow> (ServiceError, Selection) result" where
  "catalog_selection app operation_id =
     rbind (ok_or InvalidRequest (find (\<lambda>entry. action_operation_id (sl_handle entry) = operation_id) (sa_approvals app)))
       (\<lambda>approval. Inr (case sl_handle approval of
          ApprovedKubernetes request _ _ \<Rightarrow> SelectKubernetes request (sl_signed_grant approval) None
        | ApprovedGit _ _ \<Rightarrow> SelectGit (sl_signed_grant approval) None))"

definition retained_for_selection ::
    "crypto \<Rightarrow> ServiceApplication \<Rightarrow> string \<Rightarrow> Db \<Rightarrow> (ServiceError, Selection) result" where
  "retained_for_selection C app operation_id db =
     rbind (map_err map_gateway_error (retained_git C (sa_authorities app) operation_id db)) (\<lambda>git.
     case git of
       Some retained \<Rightarrow> Inr (SelectGit (rg_signed_grant retained) (Some (rg_state retained)))
     | None \<Rightarrow>
         rbind (map_err map_gateway_error (retained_operation C (sa_authorities app) operation_id db)) (\<lambda>kubernetes.
         case kubernetes of
           Some retained \<Rightarrow>
             if kt_approved_target (targets (rt_operation retained)) = None then Inl InvalidRequest
             else Inr (SelectKubernetes (rt_request retained) (rt_signed_grant retained)
               (Some (loaded_state (rt_operation retained))))
         | None \<Rightarrow> catalog_selection app operation_id))"

definition admitted_state ::
    "crypto \<Rightarrow> ServiceApplication \<Rightarrow> string \<Rightarrow> Db \<Rightarrow> (ServiceError, OperationState option) result" where
  "admitted_state C app operation_id db =
     rbind (retained_for_selection C app operation_id db) (\<lambda>selected. Inr (selection_state selected))"

record ServiceExecution =
  se_kubernetes_client :: bool
  se_git_receiver :: "GitReceiverConfiguration option"
  se_receipt_signing :: "(bytes \<times> string) option"

text \<open>\<open>from_operator_snapshots\<close>: the client is what the Kubernetes library made of the kubeconfig.\<close>

definition from_operator_snapshots :: "bool \<Rightarrow> nat option \<Rightarrow> bytes option \<Rightarrow> string \<Rightarrow> ServiceExecution" where
  "from_operator_snapshots client_loads kubeconfig_bytes receipt_seed key_id =
     \<lparr>se_kubernetes_client = (case kubeconfig_bytes of
        Some n \<Rightarrow> n \<le> 16 * 1024 \<and> client_loads | None \<Rightarrow> False),
      se_git_receiver = None,
      se_receipt_signing = (case receipt_seed of
        Some seed \<Rightarrow> if length seed = 32 \<and> identity_is_valid key_id
          then Some (seed, key_id) else None
      | None \<Rightarrow> None)\<rparr>"

text \<open>The decoding of the receiver document is the argument.\<close>

definition with_git_receiver_snapshot ::
    "(bytes \<Rightarrow> GitReceiverConfiguration option) \<Rightarrow> ServiceExecution \<Rightarrow> bytes option \<Rightarrow> ServiceExecution" where
  "with_git_receiver_snapshot from_document execution document =
     execution\<lparr>se_git_receiver := Option.bind document from_document\<rparr>"

definition signing_settings :: "ServiceExecution \<Rightarrow> (ServiceError, ReceiptSettings option) result" where
  "signing_settings execution =
     (case se_receipt_signing execution of
        None \<Rightarrow> Inr None
      | Some (seed, key_id) \<Rightarrow>
          if identity_is_valid key_id then Inr (Some \<lparr>st_signing_seed = seed, st_key_id = key_id\<rparr>)
          else Inl ServiceConfigurationInvalid)"

fun stop_of :: "(ReconciliationError, unit) result \<Rightarrow> (ServiceError, ServiceStop) result" where
  "stop_of (Inr _) = Inr Finished"
| "stop_of (Inl e) = classify_stop e"

text \<open>The environment of one selection, with the crash window a test may set.\<close>

definition service_select ::
    "crypto \<Rightarrow> ServiceApplication \<Rightarrow> GitEnv \<Rightarrow> ServiceExecution \<Rightarrow> string \<Rightarrow> FaultPoint option \<Rightarrow> World \<Rightarrow>
      ((ServiceError, ServiceStop) result \<times> World) option" where
  "service_select C app G execution operation_id fault w =
     (case retained_for_selection C app operation_id (w_db w) of
        Inl e \<Rightarrow> Some (Inl e, w)
      | Inr selected \<Rightarrow>
          (case signing_settings execution of
             Inl e \<Rightarrow> Some (Inl e, w)
           | Inr settings \<Rightarrow>
               map_option (\<lambda>(r, w'). (stop_of r, w'))
                 (case selected of
                    SelectKubernetes request grant _ \<Rightarrow>
                      admit_and_reconcile RECONCILE_FUEL C (sa_authorities app) (ge_env G) request grant
                        (se_kubernetes_client execution) settings fault w
                  | SelectGit grant _ \<Rightarrow>
                      Some (admit_and_reconcile_git C (sa_authorities app) G operation_id grant
                        (se_git_receiver execution) settings fault w))))"

section \<open>Reads\<close>

record OperationTargets =
  ot_approved_target :: "ApprovedTarget option"
  ot_observed_target :: "ObservedTarget option"
  ot_attempt_target :: "ApprovedTarget option"
  ot_git :: "GitOperationTargets option"

definition no_targets :: OperationTargets where
  "no_targets = \<lparr>ot_approved_target = None, ot_observed_target = None, ot_attempt_target = None, ot_git = None\<rparr>"

definition kubernetes_targets :: "LoadedOperation \<Rightarrow> OperationTargets" where
  "kubernetes_targets op =
     \<lparr>ot_approved_target = kt_approved_target (targets op), ot_observed_target = kt_observed_target (targets op),
      ot_attempt_target = kt_attempt_target (targets op), ot_git = None\<rparr>"

definition service_status ::
    "crypto \<Rightarrow> ServiceApplication \<Rightarrow> string \<Rightarrow> Db \<Rightarrow> (ServiceError, OperationStatus \<times> OperationTargets) result" where
  "service_status C app operation_id db =
     rbind (map_err map_gateway_error (retained_git C (sa_authorities app) operation_id db)) (\<lambda>git.
     case git of
       Some retained \<Rightarrow>
         rbind (map_err (\<lambda>_. OperationFailure) (status_of (rg_state retained) (rg_rejection retained) (rg_result retained))) (\<lambda>status.
         Inr (status, no_targets\<lparr>ot_git := Some (rg_targets retained)\<rparr>))
     | None \<Rightarrow>
         rbind (map_err map_gateway_error (retained_operation C (sa_authorities app) operation_id db)) (\<lambda>kubernetes.
         case kubernetes of
           None \<Rightarrow> Inr (StNotFound, no_targets)
         | Some retained \<Rightarrow>
             rbind (map_err (\<lambda>_. OperationFailure) (status_of (loaded_state (rt_operation retained))
               (loaded_rejection (rt_operation retained)) (loaded_result (rt_operation retained)))) (\<lambda>status.
             Inr (status, kubernetes_targets (rt_operation retained)))))"

definition execution_status ::
    "crypto \<Rightarrow> ServiceApplication \<Rightarrow> string \<Rightarrow> ExecutionObservation \<Rightarrow> Db \<Rightarrow>
      (ServiceError, OperationStatus \<times> OperationTargets \<times> ExecutionDisposition) result" where
  "execution_status C app operation_id observation db =
     rbind (service_status C app operation_id db) (\<lambda>(status, targets). Inr (status, targets, project status observation))"

datatype OperationReceipt = ReceiptNotFound | ReceiptNotReady | ReceiptReady bytes string

definition service_receipt ::
    "crypto \<Rightarrow> ServiceApplication \<Rightarrow> string \<Rightarrow> Db \<Rightarrow> (ServiceError, OperationReceipt) result" where
  "service_receipt C app operation_id db =
     rbind (map_err map_gateway_error (retained_git C (sa_authorities app) operation_id db)) (\<lambda>git.
     case git of
       Some retained \<Rightarrow> Inr (case rg_receipt retained of None \<Rightarrow> ReceiptNotReady | Some (bs, digest) \<Rightarrow> ReceiptReady bs digest)
     | None \<Rightarrow>
         rbind (map_err map_gateway_error (retained_operation C (sa_authorities app) operation_id db)) (\<lambda>kubernetes.
         case kubernetes of
           None \<Rightarrow> Inr ReceiptNotFound
         | Some retained \<Rightarrow>
             if loaded_state (rt_operation retained) \<noteq> Finalized then Inr ReceiptNotReady
             else rbind (map_err map_gateway_error (read_loaded_receipt (rt_operation retained))) (\<lambda>(bs, digest).
               Inr (ReceiptReady bs digest))))"

definition approved_actions :: "ServiceApplication \<Rightarrow> string option \<Rightarrow> (ServiceError, ApprovedAction list) result" where
  "approved_actions app after =
     rbind (case after of
         None \<Rightarrow> Inr 0
       | Some ident \<Rightarrow>
           (let index = position ident (map (\<lambda>entry. action_operation_id (sl_handle entry)) (sa_approvals app)) in
            if index < length (sa_approvals app) then Inr (index + 1) else Inl InvalidRequest)) (\<lambda>start.
     Inr (map sl_handle (take 8 (drop start (sa_approvals app)))))"

subsection \<open>History\<close>

text \<open>
  The identities of both tables. The column is declared as text that is not null, and strings
  compare by their bytes.
\<close>

definition text_ids :: "Record list \<Rightarrow> string list" where
  "text_ids rows = List.map_filter (\<lambda>r. case field r ''operation_id'' of Text s \<Rightarrow> Some s | _ \<Rightarrow> None) rows"

definition operation_ids :: "Db \<Rightarrow> string list" where
  "operation_ids db = text_ids (kubernetes_rows db) @ text_ids (git_rows db)"

definition history_column :: "string \<Rightarrow> (GatewayError, string) result" where
  "history_column ident = (if 1 \<le> length ident \<and> length ident \<le> 128 then Inr ident else Inl Database)"

definition journal_history_ids :: "string option \<Rightarrow> Db \<Rightarrow> (GatewayError, string list) result" where
  "journal_history_ids after db =
     (let ids = take 9 (sort (filter (\<lambda>ident. case after of None \<Rightarrow> True | Some cursor \<Rightarrow> cursor < ident) (operation_ids db))) in
      rbind (try_all (\<lambda>ident. rbind (history_column ident) (\<lambda>_. Inr ())) ids) (\<lambda>_. Inr ids))"

definition history_ids :: "string option \<Rightarrow> Db \<Rightarrow> (GatewayError, string list) result" where
  "history_ids after db =
     rbind (case after of None \<Rightarrow> Inr () | Some ident \<Rightarrow> validate_identity IF_OperationId ident) (\<lambda>_.
     rbind (journal_history_ids after db) (\<lambda>ids.
     rbind (try_all (\<lambda>ident. map_err (\<lambda>_. InvalidPersistedState) (validate_identity IF_OperationId ident)) ids) (\<lambda>_.
     Inr ids)))"

record HistoryEntry =
  he_operation_id :: string
  he_status :: "(ServiceError, OperationStatus \<times> OperationTargets) result"

definition history_execution_status ::
    "HistoryEntry \<Rightarrow> ExecutionObservation \<Rightarrow> (ServiceError, OperationStatus \<times> OperationTargets \<times> ExecutionDisposition) result" where
  "history_execution_status entry observation =
     rbind (he_status entry) (\<lambda>(status, targets). Inr (status, targets, project status observation))"

record HistoryPage =
  hp_entries :: "HistoryEntry list"
  hp_next_cursor :: "string option"

definition service_history ::
    "crypto \<Rightarrow> ServiceApplication \<Rightarrow> string option \<Rightarrow> Db \<Rightarrow> (ServiceError, HistoryPage) result" where
  "service_history C app after db =
     rbind (map_err map_gateway_error (history_ids after db)) (\<lambda>ids.
     let retained_ids = take 8 ids;
         next_cursor = (if length ids > 8 then (if retained_ids = [] then None else Some (last retained_ids)) else None) in
     Inr \<lparr>hp_entries = map (\<lambda>ident. \<lparr>he_operation_id = ident, he_status = service_status C app ident db\<rparr>) retained_ids,
          hp_next_cursor = next_cursor\<rparr>)"

section \<open>Selection under original authority\<close>

lemma retained_git_None:
  "retained_git C authorities k db = Inr None \<longleftrightarrow> identity_is_valid k \<and> row_of Git db k = None"
  by (auto simp: retained_git_def journal_retained_git_def rbind_eq_Inr record_read_git_def read_table_iff
      split: option.splits if_splits)

lemma retained_operation_None:
  "retained_operation C authorities k db = Inr None \<longleftrightarrow> identity_is_valid k \<and> row_of Kubernetes db k = None"
  by (auto simp: retained_operation_def journal_retained_operation_def rbind_eq_Inr record_read_def read_table_iff
      split: option.splits if_splits)

lemma retained_git_Some:
  assumes "retained_git C authorities k db = Inr (Some retained)"
  shows "\<exists>r b p. row_of Git db k = Some r \<and> field r ''signed_authorization_grant'' = Blob (gb_grant b) \<and>
    git_binding_verify C (gb_grant b) authorities = Inr b \<and> gb_operation_id b = k \<and> decode_record C r b = Inr p \<and>
    retained = from_phase b p"
proof -
  obtain b p where bp: "journal_retained_git C k authorities db = Inr (Some (b, p))" "retained = from_phase b p"
    using assms by (auto simp: retained_git_def rbind_eq_Inr)
  then obtain r bs where r: "row_of Git db k = Some r" "row_get from_blob r ''signed_authorization_grant'' = Inr bs"
    "git_binding_verify C bs authorities = Inr b" "gb_operation_id b = k" "decode_record C r b = Inr p"
    by (auto simp: journal_retained_git_def rbind_eq_Inr record_read_git_def read_table_iff split: option.splits if_splits)
  moreover have "gb_grant b = bs" using git_binding_verify_valid(2) [OF r(3)] .
  moreover have "field r ''signed_authorization_grant'' = Blob bs"
    using r(2) by (cases "field r ''signed_authorization_grant''") (auto simp: row_get_def)
  ultimately show ?thesis using bp(2) by blast
qed

lemma retained_operation_Some:
  assumes "retained_operation C authorities k db = Inr (Some retained)"
  shows "\<exists>r q. row_of Kubernetes db k = Some r \<and> field r ''signed_authorization_grant'' = Blob (rt_signed_grant retained) \<and>
    retained_authorize C authorities k (rt_signed_grant retained) = Inr q \<and>
    authorized_record_on C db q = Inr (Some (rt_operation retained)) \<and> rt_request retained = to_adapter_request (aq_request q)"
proof -
  obtain r where r: "row_of Kubernetes db k = Some r" "row_get from_blob r ''signed_authorization_grant'' = Inr (rt_signed_grant retained)"
    and q: "\<exists>q. retained_authorize C authorities k (rt_signed_grant retained) = Inr q \<and>
    authorized_record_on C db q = Inr (Some (rt_operation retained)) \<and> rt_request retained = to_adapter_request (aq_request q)"
    using assms by (auto simp: retained_operation_def journal_retained_operation_def rbind_eq_Inr record_read_def read_table_iff
        ok_or_eq_Inr split: option.splits if_splits)
  moreover have "field r ''signed_authorization_grant'' = Blob (rt_signed_grant retained)"
    using r(2) by (cases "field r ''signed_authorization_grant''") (auto simp: row_get_def)
  ultimately show ?thesis by blast
qed

lemma selection_ignores_catalog:
  assumes "row_of Git db k \<noteq> None \<or> row_of Kubernetes db k \<noteq> None"
  shows "retained_for_selection C (app\<lparr>sa_approvals := approvals\<rparr>) k db = retained_for_selection C app k db"
  using assms retained_git_None [of C "sa_authorities app" k db] retained_operation_None [of C "sa_authorities app" k db]
  by (cases "retained_git C (sa_authorities app) k db"; cases "retained_operation C (sa_authorities app) k db")
    (auto simp: retained_for_selection_def split: option.splits)

lemma catalog_selection_state:
  assumes "catalog_selection app k = Inr selected"
  shows "selection_state selected = None"
proof (cases "find (\<lambda>entry. action_operation_id (sl_handle entry) = k) (sa_approvals app)")
  case (Some approval)
  with assms show ?thesis by (cases "sl_handle approval") (auto simp: catalog_selection_def)
qed (use assms in \<open>simp add: catalog_selection_def\<close>)

lemma selection_grant_retained:
  assumes "retained_for_selection C app k db = Inr selected" "selection_state selected = Some st"
  shows "\<exists>t r. row_of t db k = Some r \<and> field r ''signed_authorization_grant'' = Blob (selection_grant selected)"
proof -
  obtain git where git: "retained_git C (sa_authorities app) k db = Inr git"
    using assms(1) by (cases "retained_git C (sa_authorities app) k db") (auto simp: retained_for_selection_def)
  show ?thesis
  proof (cases git)
    case (Some retained)
    with assms(1) git have "selected = SelectGit (rg_signed_grant retained) (Some (rg_state retained))"
      by (simp add: retained_for_selection_def)
    with retained_git_Some [OF git [unfolded Some]] show ?thesis by (auto simp: from_phase_def Let_def intro!: exI [of _ Git])
  next
    case None
    obtain kubernetes where k: "retained_operation C (sa_authorities app) k db = Inr kubernetes"
      using assms(1) git None by (cases "retained_operation C (sa_authorities app) k db") (auto simp: retained_for_selection_def)
    then obtain retained where retained: "kubernetes = Some retained"
      using assms git None catalog_selection_state by (cases kubernetes) (auto simp: retained_for_selection_def)
    with assms(1) git None k have "selected = SelectKubernetes (rt_request retained) (rt_signed_grant retained)
        (Some (loaded_state (rt_operation retained)))"
      by (simp add: retained_for_selection_def split: if_splits)
    with retained_operation_Some [OF k [unfolded retained]] show ?thesis by (auto intro!: exI [of _ Kubernetes])
  qed
qed

lemma retained_selection_identity:
  "retained_for_selection C app k db = Inr selected \<Longrightarrow> identity_is_valid k"
  by (auto simp: retained_for_selection_def retained_git_def journal_retained_git_def rbind_eq_Inr)

lemma retained_selection_state:
  assumes "retained_for_selection C app k db = Inr selected" "row_of Git db k \<noteq> None \<or> row_of Kubernetes db k \<noteq> None"
  shows "\<exists>st. selection_state selected = Some st"
proof -
  note none = retained_git_None [of C "sa_authorities app" k db] retained_operation_None [of C "sa_authorities app" k db]
  from assms none show ?thesis
    by (cases "retained_git C (sa_authorities app) k db"; cases "retained_operation C (sa_authorities app) k db")
      (auto simp: retained_for_selection_def split: option.splits if_splits)
qed

lemma catalog_selection_entry:
  assumes "catalog_selection app k = Inr selected"
  shows "\<exists>entry \<in> set (sa_approvals app). action_operation_id (sl_handle entry) = k \<and> sl_signed_grant entry = selection_grant selected"
proof (cases "find (\<lambda>entry. action_operation_id (sl_handle entry) = k) (sa_approvals app)")
  case (Some approval)
  then have "approval \<in> set (sa_approvals app)" "action_operation_id (sl_handle approval) = k"
    by (auto simp: find_Some_iff)
  with assms Some show ?thesis
    by (cases "sl_handle approval") (auto simp: catalog_selection_def intro!: bexI [of _ approval])
qed (use assms in \<open>simp add: catalog_selection_def\<close>)

lemma one_table: "db_ok db \<Longrightarrow> row_of s db k = Some r \<Longrightarrow> row_of t db k = Some r' \<Longrightarrow> s = t"
  unfolding db_ok_def id_exists_iff by (metis Table.exhaust option.distinct(1))

section \<open>Sequences of selections\<close>

text \<open>A selection ends before the gateway is reached or is one pass of the gateway.\<close>

lemma service_select_cases:
  obtains (refused) e where "service_select C app G execution k fault w = Some (Inl e, w)"
  | (kubernetes) request grant settings where "service_select C app G execution k fault w =
      map_option (\<lambda>(r, w'). (stop_of r, w')) (admit_and_reconcile RECONCILE_FUEL C (sa_authorities app) (ge_env G) request grant
        (se_kubernetes_client execution) settings fault w)"
  | (git) grant settings where "service_select C app G execution k fault w =
      Some (case admit_and_reconcile_git C (sa_authorities app) G k grant (se_git_receiver execution) settings fault w of
        (r, w') \<Rightarrow> (stop_of r, w'))"
proof (cases "retained_for_selection C app k (w_db w)")
  case (Inl e)
  with refused show ?thesis by (simp add: service_select_def)
next
  case sel: (Inr selected)
  show ?thesis
  proof (cases "signing_settings execution")
    case (Inl e)
    with sel refused show ?thesis by (simp add: service_select_def)
  next
    case (Inr settings)
    with sel kubernetes git show ?thesis by (cases selected) (simp_all add: service_select_def)
  qed
qed

lemma service_select_safe:
  assumes "service_select C app G execution k fault w = Some (r, w')"
  shows "any_safe w w'"
proof (cases rule: service_select_cases [of C app G execution k fault w])
  case (refused e)
  with assms any_safe_order(1) show ?thesis by (simp add: reflp_def)
next
  case (kubernetes request grant settings)
  with assms obtain r1 where "admit_and_reconcile RECONCILE_FUEL C (sa_authorities app) (ge_env G) request grant
      (se_kubernetes_client execution) settings fault w = Some (r1, w')" by auto
  from safe_move_any [OF safe_admit_and_reconcile [OF this]] show ?thesis .
next
  case (git grant settings)
  obtain r1 w1 where run: "admit_and_reconcile_git C (sa_authorities app) G k grant (se_git_receiver execution) settings fault w = (r1, w1)"
    by fastforce
  with git assms have "w1 = w'" by simp
  with git_safe_any [OF movesD [OF git_safe_pass run]] show ?thesis by simp
qed

lemma service_select_returns:
  assumes "db_ok (w_db w)"
  shows "service_select C app G execution k fault w \<noteq> None"
proof (cases rule: service_select_cases [of C app G execution k fault w])
  case (kubernetes request grant settings)
  with run_pass_returns [OF assms, of C "sa_authorities app" "\<lparr>ps_env = ge_env G, ps_request = request, ps_grant = grant,
        ps_adapter = se_kubernetes_client execution, ps_settings = settings, ps_fault = fault\<rparr>"]
  show ?thesis by (simp add: run_pass_def del: not_None_eq)
qed simp_all

text \<open>One selection of a running service; between two of them the service may be reconfigured and restarted.\<close>

record Selected =
  sd_application :: ServiceApplication
  sd_env :: GitEnv
  sd_execution :: ServiceExecution
  sd_id :: string
  sd_fault :: "FaultPoint option"

fun run_selections :: "crypto \<Rightarrow> Selected list \<Rightarrow> World \<Rightarrow> World option" where
  "run_selections C [] w = Some w"
| "run_selections C (s # rest) w =
     (case service_select C (sd_application s) (sd_env s) (sd_execution s) (sd_id s) (sd_fault s) w of
        None \<Rightarrow> None
      | Some (r, w') \<Rightarrow> run_selections C rest w')"

lemma any_safe_mutations:
  "any_safe w w' \<Longrightarrow> db_ok (w_db w) \<Longrightarrow>
    mutations_for k w' \<le> mutations_for k w + (if any_dispatched k (w_db w') \<and> \<not> any_dispatched k (w_db w) then 1 else 0)"
  unfolding any_safe_def by blast

lemma run_selections_safe:
  assumes "db_ok (w_db w)"
  shows "\<exists>w'. run_selections C selections w = Some w' \<and> any_safe w w'"
  using assms
proof (induction selections arbitrary: w)
  case Nil
  then show ?case using any_safe_order(1) by (simp add: reflp_def)
next
  case (Cons s selections)
  obtain r w1 where w1: "service_select C (sd_application s) (sd_env s) (sd_execution s) (sd_id s) (sd_fault s) w = Some (r, w1)"
    using service_select_returns [OF Cons.prems] by fastforce
  have "any_safe w w1" by (rule service_select_safe [OF w1])
  moreover have "db_ok (w_db w1)" using calculation Cons.prems by (simp add: any_safe_def)
  ultimately show ?case
    using Cons.IH [of w1] w1 transpD [OF any_safe_order(2)] by auto
qed

section \<open>Status and receipt\<close>

lemma status_of_phase:
  "\<exists>st. status_of (rg_state (from_phase b p)) (rg_rejection (from_phase b p)) (rg_result (from_phase b p)) = Inr st \<and>
    (st \<in> {StSucceeded, StFailed, StUnknown} \<longleftrightarrow> (\<exists>s rc. p = GFinalized s rc)) \<and>
    (st = StInProgress \<longleftrightarrow> git_phase_state p \<notin> {NotAttempted, Finalized}) \<and> st \<noteq> StNotFound"
proof (cases p)
  case (GNotAttempted rejection)
  then show ?thesis by (cases rejection) (simp_all add: from_phase_def git_phase_statement_def Let_def)
next
  case (GFinalized s rc)
  then show ?thesis by (cases "git_result s") (simp_all add: from_phase_def git_phase_statement_def Let_def)
qed (simp_all add: from_phase_def git_phase_statement_def Let_def)

lemma status_of_loaded:
  "\<exists>st. status_of (loaded_state op) (loaded_rejection op) (loaded_result op) = Inr st \<and>
    (st \<in> {StSucceeded, StFailed, StUnknown} \<longleftrightarrow> loaded_state op = Finalized) \<and>
    (st = StInProgress \<longleftrightarrow> loaded_state op \<notin> {NotAttempted, Finalized}) \<and> st \<noteq> StNotFound"
proof (cases op)
  case (LFinalized obo rc)
  then show ?thesis by (cases "rs_result (obo_statement obo)") simp_all
qed simp_all

lemma from_phase_receipt:
  "rg_receipt (from_phase b p) =
    (case p of GFinalized _ rc \<Rightarrow> Some (fr_bytes rc, fr_digest rc) | _ \<Rightarrow> None)"
  by (cases p) (simp_all add: from_phase_def Let_def)

lemma read_loaded_finalized: "loaded_state op = Finalized \<Longrightarrow> \<exists>bs digest. read_loaded_receipt op = Inr (bs, digest)"
  by (cases op) (simp_all add: read_loaded_receipt_def)

lemma retained_git_holds:
  assumes "crypto_ok C" "git_binding_verify C (gb_grant b) authorities = Inr b" "git_holds C db b (Some p)"
  shows "retained_git C authorities (gb_operation_id b) db = Inr (Some (from_phase b p))"
proof -
  note valid = git_binding_verify_valid(1) [OF assms(2)]
  have row: "row_of Git db (gb_operation_id b) = Some (git_row b p)" "git_phase_valid C b p"
    using assms(3) by (simp_all add: git_holds_def)
  have "identity_is_valid (gb_operation_id b)"
    using valid by (simp add: git_binding_valid_def git_authorization_is_valid_def)
  moreover have "record_read_git db (gb_operation_id b) = Inr (Some (git_row b p))"
    using row(1) git_row_bounded [OF valid row(2) assms(1)] by (simp add: record_read_git_def read_table_iff)
  moreover have "row_get from_blob (git_row b p) ''signed_authorization_grant'' = Inr (gb_grant b)"
    by (simp add: row_get_def git_row_field git_write_columns Let_def)
  moreover have "decode_record C (git_row b p) b = Inr p"
    using decode_record_canonical [OF git_row_ok(1)] row(2) by blast
  ultimately show ?thesis using assms(2)
    by (simp add: retained_git_def journal_retained_git_def rbind_eq_Inr)
qed

section \<open>Pages of history\<close>

definition history_page :: "crypto \<times> ServiceApplication \<times> Db \<Rightarrow> string option \<Rightarrow> (ServiceError, HistoryEntry list \<times> string option) result" where
  "history_page = (\<lambda>(C, app, db) after.
     rbind (service_history C app after db) (\<lambda>page. Inr (hp_entries page, hp_next_cursor page)))"

text \<open>Reading page after page, at most \<open>n\<close> of them.\<close>

definition read_history :: "crypto \<Rightarrow> ServiceApplication \<Rightarrow> Db \<Rightarrow> nat \<Rightarrow> string option \<Rightarrow> HistoryEntry list option" where
  "read_history C app db n after = read_pages (history_page (C, app, db)) n after"

lemma history_ids_run:
  assumes "\<forall>ident \<in> set (operation_ids db). identity_is_valid ident" "after = None \<or> identity_is_valid (the after)"
  shows "history_ids after db = Inr (take 9 (filter (\<lambda>ident. case after of None \<Rightarrow> True | Some cursor \<Rightarrow> cursor < ident)
    (sort (operation_ids db))))"
proof -
  let ?ids = "filter (\<lambda>ident. case after of None \<Rightarrow> True | Some cursor \<Rightarrow> cursor < ident) (sort (operation_ids db))"
  have ids: "\<forall>ident \<in> set (take 9 ?ids). identity_is_valid ident"
    using assms(1) by (auto dest!: in_set_takeD)
  then have "\<forall>ident \<in> set (take 9 ?ids). history_column ident = Inr ident"
    by (auto simp: history_column_def identity_is_valid_def Suc_le_eq)
  then have "try_all (\<lambda>ident. rbind (history_column ident) (\<lambda>_. Inr ())) (take 9 ?ids) = Inr ()"
    by (auto simp: try_all_eq_Inr)
  moreover have "try_all (\<lambda>ident. map_err (\<lambda>_. InvalidPersistedState) (validate_identity IF_OperationId ident)) (take 9 ?ids) = Inr ()"
    using ids by (auto simp: try_all_eq_Inr)
  moreover have "(case after of None \<Rightarrow> Inr () | Some ident \<Rightarrow> validate_identity IF_OperationId ident) = Inr ()"
    using assms(2) by (cases after) auto
  ultimately show ?thesis
    by (cases after) (simp_all add: history_ids_def journal_history_ids_def filter_sort rbind_eq_Inr del: try_all_eq_Inr)
qed

text \<open>The identities are distinct in a well-formed journal.\<close>

lemma text_ids_has_id:
  "ident \<in> set (text_ids rows) \<longleftrightarrow> (\<exists>r \<in> set rows. has_id ident r)"
  by (auto simp: text_ids_def map_filter_def has_id_def split: Value.splits intro!: image_eqI)

lemma distinct_text_ids:
  "distinct (map (\<lambda>r. field r ''operation_id'') rows) \<Longrightarrow> distinct (text_ids rows)"
proof (induction rows)
  case (Cons r rows)
  then show ?case
    by (cases "field r ''operation_id''")
      (auto simp: text_ids_has_id [unfolded text_ids_def] text_ids_def map_filter_simps has_id_def image_iff)
qed (simp add: text_ids_def map_filter_simps)

lemma distinct_operation_ids:
  assumes "db_ok db"
  shows "distinct (operation_ids db)"
proof -
  have "distinct (text_ids (kubernetes_rows db))" "distinct (text_ids (git_rows db))"
    using assms by (auto simp: db_ok_def table_ok_def intro: distinct_text_ids)
  moreover have "set (text_ids (kubernetes_rows db)) \<inter> set (text_ids (git_rows db)) = {}"
    using assms by (auto simp: db_ok_def text_ids_has_id id_exists_def list_ex_iff) blast
  ultimately show ?thesis by (simp add: operation_ids_def)
qed

lemma filter_after_nth:
  fixes xs :: "'a :: linorder list"
  assumes "sorted xs" "distinct xs" "i < length xs"
  shows "filter (\<lambda>x. xs ! i < x) xs = drop (Suc i) xs"
proof -
  have strict: "xs ! a < xs ! b" if "a < b" "b < length xs" for a b
    using that sorted_nth_mono [OF assms(1), of a b] nth_eq_iff_index_eq [OF assms(2), of a b] by auto
  have "filter (\<lambda>x. xs ! i < x) (take (Suc i) xs) = []"
    using sorted_nth_mono [OF assms(1) _ assms(3)] by (auto simp: filter_empty_conv in_set_conv_nth not_less less_Suc_eq_le)
  moreover have "filter (\<lambda>x. xs ! i < x) (drop (Suc i) xs) = drop (Suc i) xs"
    using strict by (auto simp: filter_id_conv in_set_conv_nth)
  ultimately show ?thesis by (metis append_Nil append_take_drop_id filter_append)
qed

definition history_entry :: "crypto \<Rightarrow> ServiceApplication \<Rightarrow> Db \<Rightarrow> string \<Rightarrow> HistoryEntry" where
  "history_entry C app db ident = \<lparr>he_operation_id = ident, he_status = service_status C app ident db\<rparr>"

lemma history_entry_simps [simp]:
  "he_operation_id (history_entry C app db ident) = ident"
  "he_status (history_entry C app db ident) = service_status C app ident db"
  by (simp_all add: history_entry_def)

lemma service_history_run:
  assumes "db_ok db" "\<forall>ident \<in> set (operation_ids db). identity_is_valid ident"
    "i \<le> length (operation_ids db)"
    "after = (if i = 0 then None else Some (sort (operation_ids db) ! (i - 1)))"
  shows "service_history C app after db = Inr
    \<lparr>hp_entries = map (history_entry C app db) (take 8 (drop i (sort (operation_ids db)))),
     hp_next_cursor = (if i + 8 < length (operation_ids db) then Some (sort (operation_ids db) ! (i + 7)) else None)\<rparr>"
proof -
  let ?S = "sort (operation_ids db)"
  have S: "sorted ?S" "distinct ?S" "length ?S = length (operation_ids db)" using distinct_operation_ids [OF assms(1)] by simp_all
  have "filter (\<lambda>ident. case after of None \<Rightarrow> True | Some cursor \<Rightarrow> cursor < ident) ?S = drop i ?S"
    using filter_after_nth [OF S(1,2), of "i - 1"] assms(3,4) S(3) by (cases i) simp_all
  moreover have "after = None \<or> identity_is_valid (the after)"
    using assms(2,3,4) nth_mem [of "i - 1" ?S] by (auto simp: S(3))
  ultimately have ids: "history_ids after db = Inr (take 9 (drop i ?S))"
    using history_ids_run [OF assms(2)] by simp
  have "last (take 8 (drop i ?S)) = ?S ! (i + 7)" if "i + 8 < length ?S"
    using that by (subst last_conv_nth) (auto simp: min_def add.commute)
  with ids S(3) show ?thesis
    by (auto simp: service_history_def Let_def history_entry_def min_def ac_simps)
qed

definition history_items :: "crypto \<times> ServiceApplication \<times> Db \<Rightarrow> HistoryEntry list" where
  "history_items = (\<lambda>(C, app, db). map (history_entry C app db) (sort (operation_ids db)))"

definition history_ok :: "crypto \<times> ServiceApplication \<times> Db \<Rightarrow> bool" where
  "history_ok = (\<lambda>(C, app, db). db_ok db \<and> (\<forall>ident \<in> set (operation_ids db). identity_is_valid ident))"

interpretation hist: paged_listing history_page history_items he_operation_id history_ok 8
proof
  fix s i assume ok: "history_ok s" and i: "i \<le> length (history_items s)"
  obtain C app db where s: "s = (C, app, db)" by (cases s)
  let ?S = "sort (operation_ids db)"
  have cursor: "cursor_at he_operation_id (history_items s) j = (if j = 0 then None else Some (?S ! (j - 1)))"
    if "j \<le> length (operation_ids db)" for j
    using that by (simp add: cursor_at_def history_items_def s)
  show "history_page s (cursor_at he_operation_id (history_items s) i) = Inr (take 8 (drop i (history_items s)),
      if i + 8 < length (history_items s) then cursor_at he_operation_id (history_items s) (i + 8) else None)"
    using service_history_run [OF _ _ _ refl, of db i C app] ok i cursor [of i] cursor [of "i + 8"]
    by (simp add: history_ok_def history_page_def history_items_def s take_map drop_map add.commute [of 7])
qed simp

lemma journal_ids_valid:
  assumes "journal_ok C db" "git_journal_ok C db"
  shows "\<forall>ident \<in> set (operation_ids db). identity_is_valid ident"
proof
  fix ident assume "ident \<in> set (operation_ids db)"
  then have "row_of Kubernetes db ident \<noteq> None \<or> row_of Git db ident \<noteq> None"
    by (auto simp: operation_ids_def text_ids_has_id row_of_def find_None_iff)
  then show "identity_is_valid ident"
  proof (elim disjE)
    assume "row_of Kubernetes db ident \<noteq> None"
    then obtain r op where r: "row_of Kubernetes db ident = Some r" "decode C r = Inr op"
      using assms(1) unfolding journal_ok_def by blast
    from r(2) obtain p sn st where "snapshot_facts C sn st p" "phase_selected p sn st op"
      unfolding decode_iff by blast
    then have "request_valid (rf_request (request_facts op))"
      using select_phase_state by (simp add: snapshot_facts_def)
    then show ?thesis
      using decode_state(2) [OF r(2)] row_of_Some [OF r(1)] by (simp add: request_valid_def has_id_def)
  next
    assume "row_of Git db ident \<noteq> None"
    then show ?thesis
      using assms(2) by (auto simp: git_journal_ok_def git_binding_valid_def git_authorization_is_valid_def)
  qed
qed

section \<open>The catalog\<close>

text \<open>The two kinds of grant are disjoint, so that the order of the two verifications does not matter.\<close>

lemma grant_kinds_disjoint:
  assumes "verify_git_ref_grant C bs trust = Inr grant"
  shows "\<exists>e. gateway_verify_grant C bs trust' = Inl e"
proof (rule ccontr)
  assume "\<not> ?thesis"
  then obtain g where "verify_authorization_grant C bs trust' = Inr g"
    by (cases "verify_authorization_grant C bs trust'") (auto simp: gateway_verify_grant_def)
  then obtain a key_id sig where k: "bs = grant_image a key_id sig" using verify_authorization_grant_sound by blast
  obtain b key_id' sig' where "bs = git_grant_image b key_id' sig'" using verify_git_ref_grant_sound [OF assms] by blast
  with k have "take 8 (grant_image a key_id sig) = take 8 (git_grant_image b key_id' sig')" by simp
  then show False
    by (simp add: grant_image_def git_grant_image_def SNAPSHOT_GRANT_MAGIC_def SIGNED_GRANT_MAGIC_def GIT_GRANT_MAGIC_def as_bytes_def
        split: if_splits)
qed

text \<open>What a catalog entry is derived from: an approval that verifies under an appointed key.\<close>

definition handle_verified :: "crypto \<Rightarrow> AuthorizationTrust list \<Rightarrow> SelectableApproval \<Rightarrow> bool" where
  "handle_verified C trust entry \<longleftrightarrow> (\<exists>appointment \<in> set trust.
     case sl_handle entry of
       ApprovedKubernetes request target _ \<Rightarrow>
         (\<exists>grant. gateway_verify_grant C (sl_signed_grant entry) appointment = Inr grant \<and>
            ea_approved_target (va_authorization grant) = Some target \<and>
            request = \<lparr>rq_operation_id = ea_operation_id (va_authorization grant), rq_namespace = ea_namespace (va_authorization grant),
              rq_deployment = ea_deployment (va_authorization grant), rq_container = ea_container (va_authorization grant),
              rq_immutable_image_digest = ea_immutable_image_digest (va_authorization grant)\<rparr>)
     | ApprovedGit authorization _ \<Rightarrow>
         (\<exists>grant. verify_git_ref_grant C (sl_signed_grant entry) appointment = Inr grant \<and> vgg_authorization grant = authorization))"

lemma approved_handle_verified:
  assumes "approved_handle C approval trust = Inr handle"
  shows "handle_verified C trust \<lparr>sl_handle = handle, sl_signed_grant = sv_signed_grant approval\<rparr>"
  using assms
proof (induction trust)
  case (Cons appointment trust)
  let ?k = "gateway_verify_grant C (sv_signed_grant approval) appointment"
  let ?g = "verify_git_ref_grant C (sv_signed_grant approval) appointment"
  show ?case
  proof (cases ?k)
    case (Inr grant)
    with Cons.prems show ?thesis by (auto simp: handle_verified_def Let_def rbind_eq_Inr ok_or_eq_Inr)
  next
    case k: (Inl e)
    show ?thesis
    proof (cases ?g)
      case (Inr grant)
      with k Cons.prems show ?thesis by (auto simp: handle_verified_def)
    next
      case (Inl e')
      with k Cons have "handle_verified C trust \<lparr>sl_handle = handle, sl_signed_grant = sv_signed_grant approval\<rparr>" by simp
      then show ?thesis unfolding handle_verified_def by auto
    qed
  qed
qed simp

lemma catalog_entry_eq:
  "catalog_entry C trust approval catalog = Inr catalog' \<longleftrightarrow> (\<exists>handle. approved_handle C approval trust = Inr handle \<and>
    \<not> list_ex (\<lambda>other. action_operation_id (sl_handle other) = action_operation_id handle) catalog \<and>
    catalog' = catalog @ [\<lparr>sl_handle = handle, sl_signed_grant = sv_signed_grant approval\<rparr>])"
  by (auto simp: catalog_entry_def rbind_eq_Inr)

lemma catalog_sound:
  assumes "try_fold (catalog_entry C trust) approvals catalog = Inr catalog'"
    "list_all (handle_verified C trust) catalog" "distinct (map (\<lambda>entry. action_operation_id (sl_handle entry)) catalog)"
  shows "list_all (handle_verified C trust) catalog' \<and>
    distinct (map (\<lambda>entry. action_operation_id (sl_handle entry)) catalog') \<and>
    map sl_signed_grant catalog' = map sl_signed_grant catalog @ map sv_signed_grant approvals"
  using assms
proof (induction approvals arbitrary: catalog)
  case (Cons approval approvals)
  from Cons.prems(1) obtain handle where h: "approved_handle C approval trust = Inr handle"
    "\<not> list_ex (\<lambda>other. action_operation_id (sl_handle other) = action_operation_id handle) catalog"
    "try_fold (catalog_entry C trust) approvals (catalog @ [\<lparr>sl_handle = handle, sl_signed_grant = sv_signed_grant approval\<rparr>])
      = Inr catalog'"
    by (auto simp: rbind_eq_Inr catalog_entry_eq)
  have "action_operation_id handle \<notin> (\<lambda>entry. action_operation_id (sl_handle entry)) ` set catalog"
    using h(2) by (auto simp: list_ex_iff)
  with Cons.IH [OF h(3)] approved_handle_verified [OF h(1)] Cons.prems(2,3) show ?case by simp
qed simp

lemma trust_appointed_all:
  assumes "\<forall>i < length trusts. trust_appointed C trusts i = Inr ()"
  shows "list_all (\<lambda>trust. trust_validate C trust = Inr ()) trusts" "distinct (map tr_key_id trusts)"
proof -
  have each: "trust_validate C (trusts ! i) = Inr ()" "\<not> list_ex (\<lambda>key. tr_key_id key = tr_key_id (trusts ! i)) (take i trusts)"
    if "i < length trusts" for i
    using assms that by (auto simp: trust_appointed_def rbind_eq_Inr)
  show "list_all (\<lambda>trust. trust_validate C trust = Inr ()) trusts"
    using each(1) by (simp add: list_all_length)
  have "tr_key_id (trusts ! a) \<noteq> tr_key_id (trusts ! b)" if "a < b" "b < length trusts" for a b
    using each(2) [OF that(2)] that nth_mem [of a "take b trusts"] by (auto simp: list_ex_iff)
  then show "distinct (map tr_key_id trusts)"
    by (auto simp: distinct_conv_nth) (metis nat_neq_iff)
qed

lemma git_selection_settles:
  assumes "cooperative (ge_env G)" "w_slot w" "crypto_ok C" "git_journal_ok C (w_db w)"
    "git_binding_verify C grant (sa_authorities app) = Inr b" "admissible C b p (w_db w)"
    "retained_for_selection C app (gb_operation_id b) (w_db w) = Inr (SelectGit grant st)"
    "se_git_receiver execution = Some config" "se_receipt_signing execution = Some (seed, key_id)"
    "length seed = 32" "identity_is_valid key_id" "receiver_ready G config"
    "gc_repository_id config = ga_repository_id (gb_authorization b)"
    "p \<in> {None, Some GAuthorized} \<longrightarrow> preflight_definite G config (gb_authorization b)"
  shows "\<exists>w' status targets. service_select C app G execution (gb_operation_id b) None w = Some (Inr Finished, w') \<and>
    service_status C app (gb_operation_id b) (w_db w') = Inr (status, targets) \<and> project status observation = Complete \<and>
    (p \<in> {None, Some GAuthorized} \<and> push_answered G config (gb_authorization b) a \<longrightarrow>
      (\<exists>bs digest. service_receipt C app (gb_operation_id b) (w_db w') = Inr (ReceiptReady bs digest)))"
proof -
  let ?settings = "\<lparr>st_signing_seed = seed, st_key_id = key_id\<rparr>"
  have settings: "signing_settings execution = Inr (Some ?settings)" "settings_valid ?settings"
    using assms(9-11) by (simp_all add: signing_settings_def settings_valid_def)
  obtain p' w' where run: "admit_and_reconcile_git C (sa_authorities app) G (gb_operation_id b) grant (Some config) (Some ?settings) None w = (Inr (), w')"
    and p': "git_holds C (w_db w') b (Some p')" "git_phase_state p' \<in> {NotAttempted, Finalized}"
    "p \<in> {None, Some GAuthorized} \<and> push_answered G config (gb_authorization b) a \<longrightarrow> git_acknowledgement_of p' = Some a"
    using git_pass_settles [OF assms(1-6) settings(2) assms(12-14)] by blast
  have "git_binding_verify C (gb_grant b) (sa_authorities app) = Inr b"
    using assms(5) git_binding_verify_valid(2) [OF assms(5)] by simp
  note retained = retained_git_holds [OF assms(3) this p'(1)]
  obtain status where status: "status_of (rg_state (from_phase b p')) (rg_rejection (from_phase b p')) (rg_result (from_phase b p')) = Inr status"
    "status = StInProgress \<longleftrightarrow> git_phase_state p' \<notin> {NotAttempted, Finalized}" "status \<noteq> StNotFound"
    using status_of_phase [of b p'] by blast
  have "service_select C app G execution (gb_operation_id b) None w = Some (Inr Finished, w')"
    using assms(7,8) settings(1) run by (simp add: service_select_def)
  moreover have "service_status C app (gb_operation_id b) (w_db w') =
      Inr (status, no_targets\<lparr>ot_git := Some (rg_targets (from_phase b p'))\<rparr>)"
    using retained status(1) by (simp add: service_status_def)
  moreover have "project status observation = Complete"
    using status(2,3) p'(2) by (cases status) auto
  moreover have "\<exists>bs digest. service_receipt C app (gb_operation_id b) (w_db w') = Inr (ReceiptReady bs digest)"
    if "git_acknowledgement_of p' = Some a"
    using that retained p'(2) by (cases p') (simp_all add: service_receipt_def from_phase_receipt)
  ultimately show ?thesis using p'(3) by blast
qed

section \<open>Properties\<close>

text \<open>
  C3. A retained identity keeps its original authority: when a selection is resolved, the grant
  it runs under is, byte for byte, the one in the journal row if there is a row, and the whole
  selection is then the same under every catalog of approvals; only an identity without a row
  takes the grant of a catalog entry, the one approved under that identity.
\<close>

theorem selection_keeps_original_authority:
  assumes "db_ok (w_db w)" "retained_for_selection C app k (w_db w) = Inr selected"
  shows "(\<forall>t r. row_of t (w_db w) k = Some r \<longrightarrow> field r ''signed_authorization_grant'' = Blob (selection_grant selected) \<and>
      (\<forall>approvals. service_select C (app\<lparr>sa_approvals := approvals\<rparr>) G execution k fault w = service_select C app G execution k fault w)) \<and>
    ((\<forall>t. row_of t (w_db w) k = None) \<longrightarrow> (\<exists>entry \<in> set (sa_approvals app).
      action_operation_id (sl_handle entry) = k \<and> sl_signed_grant entry = selection_grant selected))"
proof (intro conjI allI impI)
  fix t r assume r: "row_of t (w_db w) k = Some r"
  have row: "row_of Git (w_db w) k \<noteq> None \<or> row_of Kubernetes (w_db w) k \<noteq> None" using r by (cases t) auto
  obtain s r' where "row_of s (w_db w) k = Some r'" "field r' ''signed_authorization_grant'' = Blob (selection_grant selected)"
    using selection_grant_retained [OF assms(2)] retained_selection_state [OF assms(2) row] by blast
  moreover have "s = t" using one_table [OF assms(1) calculation(1) r] .
  ultimately show "field r ''signed_authorization_grant'' = Blob (selection_grant selected)" using r by simp
  show "service_select C (app\<lparr>sa_approvals := approvals\<rparr>) G execution k fault w = service_select C app G execution k fault w" for approvals
    using assms(2) by (cases "signing_settings execution"; cases selected)
      (simp_all add: service_select_def selection_ignores_catalog [OF row])
next
  assume "\<forall>t. row_of t (w_db w) k = None"
  then have "retained_git C (sa_authorities app) k (w_db w) = Inr None" "retained_operation C (sa_authorities app) k (w_db w) = Inr None"
    using assms(2) retained_git_None [of C "sa_authorities app" k "w_db w"] retained_operation_None [of C "sa_authorities app" k "w_db w"]
      retained_selection_identity [OF assms(2)] by simp_all
  with assms(2) have "catalog_selection app k = Inr selected" by (simp add: retained_for_selection_def)
  from catalog_selection_entry [OF this] show "\<exists>entry \<in> set (sa_approvals app).
      action_operation_id (sl_handle entry) = k \<and> sl_signed_grant entry = selection_grant selected" by blast
qed

text \<open>
  C4. One identity, one mutation, through the service: over any sequence of selections, each
  under a configuration of its own (other keys, catalogs, receivers and signing settings after a
  restart), every selection returns and the mutation requests and pushes sent for one identity are
  at most one in total, none when its attempt was already durable.
\<close>

theorem service_mutates_at_most_once:
  assumes "db_ok (w_db w)" "w_sends w = []" "w_pushes w = []"
  shows "\<exists>w'. run_selections C selections w = Some w' \<and>
    (\<forall>ident. sent_for ident (w_sends w') + pushed_for ident (w_pushes w') \<le> (if any_dispatched ident (w_db w) then 0 else 1))"
proof -
  obtain w' where w': "run_selections C selections w = Some w'" "any_safe w w'"
    using run_selections_safe [OF assms(1)] by blast
  have "sent_for k (w_sends w') + pushed_for k (w_pushes w') \<le> (if any_dispatched k (w_db w) then 0 else 1)" for k
    using any_safe_mutations [OF w'(2) assms(1), of k] assms(2,3) by (auto split: if_splits)
  with w'(1) show ?thesis by blast
qed

text \<open>
  C8. Status and receipt tell one story: for every journal and identity the two reads either
  fail with the same error or both succeed; an identity is not found by one exactly when it is
  not found by the other, and a receipt is ready exactly for the statuses SUCCEEDED, FAILED and
  UNKNOWN. A retained row never has a state without a status.
\<close>

theorem status_receipt_agree:
  "(\<exists>e. service_status C app k db = Inl e \<and> service_receipt C app k db = Inl e) \<or>
   (\<exists>st t rc. service_status C app k db = Inr (st, t) \<and> service_receipt C app k db = Inr rc \<and>
      (rc = ReceiptNotFound \<longleftrightarrow> st = StNotFound) \<and>
      ((\<exists>bs digest. rc = ReceiptReady bs digest) \<longleftrightarrow> st \<in> {StSucceeded, StFailed, StUnknown}))"
proof (cases "retained_git C (sa_authorities app) k db")
  case (Inl e)
  then show ?thesis by (simp add: service_status_def service_receipt_def)
next
  case git: (Inr git)
  show ?thesis
  proof (cases git)
    case (Some retained)
    obtain b p where "retained = from_phase b p" using retained_git_Some git Some by blast
    with git Some status_of_phase [of b p] show ?thesis
      by (cases p) (auto simp: service_status_def service_receipt_def from_phase_receipt)
  next
    case None
    show ?thesis
    proof (cases "retained_operation C (sa_authorities app) k db")
      case (Inl e)
      with git None show ?thesis by (simp add: service_status_def service_receipt_def)
    next
      case (Inr kubernetes)
      show ?thesis
      proof (cases kubernetes)
        case (Some retained)
        with git None Inr status_of_loaded [of "rt_operation retained"] read_loaded_finalized [of "rt_operation retained"]
        show ?thesis by (auto simp: service_status_def service_receipt_def)
      qed (use git None Inr in \<open>simp add: service_status_def service_receipt_def\<close>)
    qed
  qed
qed

text \<open>
  C7. The history is complete: over a journal within its invariants and capacity, reading the
  history page by page from the start ends within 63 pages and lists every retained identity of
  both kinds exactly once, in increasing order, each with the status the status read gives.
\<close>

theorem history_pages_complete:
  assumes "journal_ok C db" "git_journal_ok C db" "within_capacity db"
  shows "\<exists>entries. read_history C app db 63 None = Some entries \<and>
    sorted_wrt (<) (map he_operation_id entries) \<and>
    set (map he_operation_id entries) = {k. \<exists>t. row_of t db k \<noteq> None} \<and>
    list_all (\<lambda>entry. he_status entry = service_status C app (he_operation_id entry) db) entries"
proof -
  have ok: "db_ok db" using assms(1) by (simp add: journal_ok_def)
  have "length (operation_ids db) \<le> length (kubernetes_rows db @ git_rows db)"
    by (simp add: operation_ids_def text_ids_def map_filter_def) (meson add_mono length_filter_le)
  moreover have "length (kubernetes_rows db @ git_rows db) \<le> 504"
    using assms(3) by (simp add: within_capacity_def counts_def Let_def DATABASE_PAGES_def
      COMPLETION_HEADROOM_PAGES_def IDENTITY_CAPACITY_def IDENTITY_PAGES_def)
  ultimately have "length (operation_ids db) \<le> 8 * 63" by simp
  then have "read_history C app db 63 None = Some (map (history_entry C app db) (sort (operation_ids db)))"
    using hist.read_all [of "(C, app, db)" 63] ok journal_ids_valid [OF assms(1,2)]
    by (simp add: read_history_def history_items_def history_ok_def)
  moreover have "sorted_wrt (<) (sort (operation_ids db))"
    using distinct_operation_ids [OF ok] by (simp add: strict_sorted_iff)
  moreover have "set (operation_ids db) = {k. \<exists>t. row_of t db k \<noteq> None}"
    by (auto simp: operation_ids_def text_ids_has_id row_of_def find_None_iff) (metis Table.exhaust table_rows.simps)+
  ultimately show ?thesis by (simp add: comp_def list_all_iff image_image)
qed

text \<open>
  C6. What the catalog may offer: a configuration that validates has at most 32 approvals, keeps
  their order and bytes, gives each a distinct operation identity, and derives each handle from a
  signed grant that verifies under one of at most 128 appointed keys, themselves distinct and
  valid. A Kubernetes entry always names the approved target.
\<close>

theorem validated_catalog_sound:
  assumes "validate_configuration C configuration = Inr catalog"
  shows "length catalog \<le> 32 \<and> map sl_signed_grant catalog = map sv_signed_grant (sc_approvals configuration) \<and>
    distinct (map (\<lambda>entry. action_operation_id (sl_handle entry)) catalog) \<and>
    list_all (handle_verified C (sc_authorization_trust configuration)) catalog \<and>
    length (sc_authorization_trust configuration) \<le> 128 \<and>
    distinct (map tr_key_id (sc_authorization_trust configuration)) \<and>
    list_all (\<lambda>trust. trust_validate C trust = Inr ()) (sc_authorization_trust configuration)"
proof -
  let ?trust = "sc_authorization_trust configuration"
  from assms have v: "length (sc_approvals configuration) \<le> 32" "length ?trust \<le> 128"
    "\<forall>i < length ?trust. trust_appointed C ?trust i = Inr ()"
    "try_fold (catalog_entry C ?trust) (sc_approvals configuration) [] = Inr catalog"
    by (auto simp: validate_configuration_def Let_def rbind_eq_Inr split: if_splits)
  from catalog_sound [OF v(4)] have cat: "list_all (handle_verified C ?trust) catalog"
    "distinct (map (\<lambda>entry. action_operation_id (sl_handle entry)) catalog)"
    "map sl_signed_grant catalog = map sv_signed_grant (sc_approvals configuration)" by simp_all
  moreover have "length catalog = length (sc_approvals configuration)"
    using arg_cong [OF cat(3), of length] by simp
  moreover have "list_all (\<lambda>trust. trust_validate C trust = Inr ()) ?trust" "distinct (map tr_key_id ?trust)"
    using trust_appointed_all [OF v(3)] by simp_all
  ultimately show ?thesis using v(1,2) by simp
qed

text \<open>
  C5. A selected Git action is carried to its end: when every commit of the selection is confirmed
  and the worker lease is free whenever it is asked for, with a configured receiver in order and a
  signing key, selecting an identity whose grant verifies and whose row, if any, holds a phase
  under it, or for which there is room, finishes, and the status read that follows needs no further action by the caller. When the
  receiver answered a push of this selection, the receipt is ready to be read.
\<close>

theorem git_selection_completes:
  assumes "cooperative (ge_env G)" "w_slot w" "crypto_ok C" "git_journal_ok C (w_db w)"
    "git_binding_verify C grant (sa_authorities app) = Inr b" "admissible C b p (w_db w)"
    "retained_for_selection C app (gb_operation_id b) (w_db w) = Inr (SelectGit grant st)"
    "se_git_receiver execution = Some config" "se_receipt_signing execution = Some (seed, key_id)"
    "length seed = 32" "identity_is_valid key_id" "receiver_ready G config"
    "gc_repository_id config = ga_repository_id (gb_authorization b)"
    "p \<in> {None, Some GAuthorized} \<longrightarrow> preflight_definite G config (gb_authorization b)"
  shows "\<exists>w' status targets. service_select C app G execution (gb_operation_id b) None w = Some (Inr Finished, w') \<and>
    service_status C app (gb_operation_id b) (w_db w') = Inr (status, targets) \<and> project status observation = Complete \<and>
    (p \<in> {None, Some GAuthorized} \<and> push_answered G config (gb_authorization b) a \<longrightarrow>
      (\<exists>bs digest. service_receipt C app (gb_operation_id b) (w_db w') = Inr (ReceiptReady bs digest)))"
  by (rule git_selection_settles [OF assms])

subsection \<open>Witnesses\<close>

definition serving_application :: ServiceApplication where
  "serving_application = \<lparr>sa_authorities = [example_git_trust], sa_approvals =
     [\<lparr>sl_handle = ApprovedGit example_git_authorization ''publish'', sl_signed_grant = example_signed_grant\<rparr>]\<rparr>"

definition serving_execution :: ServiceExecution where
  "serving_execution = \<lparr>se_kubernetes_client = False, se_git_receiver = Some working_config,
     se_receipt_signing = Some (replicate 32 9, ''service'')\<rparr>"

definition serving_world :: World where
  "serving_world = empty_world\<lparr>w_db := \<lparr>kubernetes_rows = [], git_rows = [git_row granted_binding GAuthorized]\<rparr>\<rparr>"

lemma granted_identity: "ga_operation_id example_git_authorization = ''git-op-1''" "gb_grant granted_binding = example_signed_grant"
  "gb_authorization granted_binding = example_git_authorization"
  by (simp_all add: granted_binding_def example_git_authorization_def)

lemma serving_world_ok: "db_ok (w_db serving_world)" "git_holds example_crypto (w_db serving_world) granted_binding (Some GAuthorized)"
  "git_journal_ok example_crypto (w_db serving_world)"
proof -
  show db: "db_ok (w_db serving_world)"
    using git_row_ok(1) by (simp add: db_ok_def table_ok_def id_exists_def serving_world_def)
  have row: "row_of Git (w_db serving_world) k = (if k = ''git-op-1'' then Some (git_row granted_binding GAuthorized) else None)" for k
    using has_id_unique [OF git_row_ok(2) [of granted_binding GAuthorized]] by (simp add: row_of_def serving_world_def granted_identity)
  then show "git_holds example_crypto (w_db serving_world) granted_binding (Some GAuthorized)"
    by (simp add: git_holds_def granted_identity)
  show "git_journal_ok example_crypto (w_db serving_world)"
    using db git_binding_verify_valid(1) [OF granted_binding_verified] granted_identity(1,3)
    unfolding git_journal_ok_def row by (auto intro!: exI [of _ granted_binding] exI [of _ GAuthorized] split: if_splits)
qed

lemma serving_selection: "retained_for_selection example_crypto serving_application ''git-op-1'' (w_db serving_world) =
    Inr (SelectGit example_signed_grant (Some Authorized))"
proof -
  have "git_binding_verify example_crypto (gb_grant granted_binding) [example_git_trust] = Inr granted_binding"
    using granted_binding_verified by (simp add: granted_identity)
  from retained_git_holds [OF example_crypto_ok this serving_world_ok(2)] show ?thesis
    by (simp add: retained_for_selection_def serving_application_def granted_identity from_phase_def Let_def)
qed

theorem selection_keeps_original_authority_witness:
  "service_select example_crypto (serving_application\<lparr>sa_approvals := []\<rparr>) working_env serving_execution ''git-op-1'' None serving_world =
   service_select example_crypto serving_application working_env serving_execution ''git-op-1'' None serving_world"
proof -
  have "row_of Git (w_db serving_world) ''git-op-1'' = Some (git_row granted_binding GAuthorized)"
    using serving_world_ok(2) by (simp add: git_holds_def granted_identity)
  with selection_keeps_original_authority [OF serving_world_ok(1) serving_selection] show ?thesis by blast
qed

theorem service_mutates_at_most_once_witness:
  "\<exists>w'. run_selections example_crypto (replicate 2 \<lparr>sd_application = serving_application, sd_env = working_env,
      sd_execution = serving_execution, sd_id = ''git-op-1'', sd_fault = None\<rparr>) serving_world = Some w' \<and>
    sent_for ''git-op-1'' (w_sends w') + pushed_for ''git-op-1'' (w_pushes w') \<le> 1"
proof -
  have "w_sends serving_world = []" "w_pushes serving_world = []" by (simp_all add: serving_world_def empty_world_def)
  from service_mutates_at_most_once [OF serving_world_ok(1) this] obtain w' where
    "run_selections example_crypto (replicate 2 \<lparr>sd_application = serving_application, sd_env = working_env,
      sd_execution = serving_execution, sd_id = ''git-op-1'', sd_fault = None\<rparr>) serving_world = Some w'"
    "sent_for ''git-op-1'' (w_sends w') + pushed_for ''git-op-1'' (w_pushes w') \<le> (if any_dispatched ''git-op-1'' (w_db serving_world) then 0 else 1)"
    by blast
  then show ?thesis by (cases "any_dispatched ''git-op-1'' (w_db serving_world)") auto
qed

theorem history_pages_complete_witness:
  "\<exists>entries. read_history example_crypto serving_application (w_db serving_world) 63 None = Some entries \<and>
    ''git-op-1'' \<in> set (map he_operation_id entries)"
proof -
  have "journal_ok example_crypto (w_db serving_world)" "within_capacity (w_db serving_world)"
    using serving_world_ok(1) by (simp_all add: journal_ok_def serving_world_def row_of_def within_capacity_def counts_def
        IDENTITY_CAPACITY_def UNFINISHED_CAPACITY_def DATABASE_PAGES_def COMPLETION_HEADROOM_PAGES_def IDENTITY_PAGES_def)
  from history_pages_complete [OF this(1) serving_world_ok(3) this(2)] obtain entries where
    "read_history example_crypto serving_application (w_db serving_world) 63 None = Some entries"
    "set (map he_operation_id entries) = {k. \<exists>t. row_of t (w_db serving_world) k \<noteq> None}" by blast
  moreover have "row_of Git (w_db serving_world) ''git-op-1'' \<noteq> None"
    using serving_world_ok(2) by (simp add: git_holds_def granted_identity)
  ultimately show ?thesis by blast
qed

lemma serving_ready:
  "git_binding_verify example_crypto example_signed_grant (sa_authorities serving_application) = Inr granted_binding"
  "admissible example_crypto granted_binding (Some GAuthorized) (w_db serving_world)" "w_slot serving_world"
  "gc_repository_id working_config = ga_repository_id (gb_authorization granted_binding)" "identity_is_valid ''service''"
  using granted_binding_verified serving_world_ok(2) example_settings_valid(1)
  by (simp_all add: admissible_def serving_world_def empty_world_def serving_application_def granted_identity
        example_git_authorization_def working_config_def settings_valid_def example_settings_def)

lemma serving_receipt:
  "\<exists>w' bs digest. service_select example_crypto serving_application working_env serving_execution ''git-op-1'' None serving_world =
      Some (Inr Finished, w') \<and>
    service_receipt example_crypto serving_application ''git-op-1'' (w_db w') = Inr (ReceiptReady bs digest)"
  using git_selection_settles [of working_env serving_world example_crypto example_signed_grant serving_application
        granted_binding "Some GAuthorized" "Some Authorized" serving_execution working_config "replicate 32 9" "''service''" ObservedUnknown Updated]
      serving_ready example_settings_valid(2) example_crypto_ok serving_world_ok(3) serving_selection working_answers
  by (auto simp: granted_identity serving_execution_def)

theorem git_selection_completes_witness:
  "\<exists>w' status targets. service_select example_crypto serving_application working_env serving_execution ''git-op-1'' None serving_world =
      Some (Inr Finished, w') \<and>
    service_status example_crypto serving_application ''git-op-1'' (w_db w') = Inr (status, targets) \<and>
    (\<exists>bs digest. service_receipt example_crypto serving_application ''git-op-1'' (w_db w') = Inr (ReceiptReady bs digest))"
proof -
  from git_selection_completes [of working_env serving_world example_crypto example_signed_grant serving_application
        granted_binding "Some GAuthorized" "Some Authorized" serving_execution working_config "replicate 32 9" "''service''" ObservedUnknown Updated]
      serving_ready example_settings_valid(2) example_crypto_ok serving_world_ok(3) serving_selection working_answers
  show ?thesis by (auto simp: granted_identity serving_execution_def)
qed

definition serving_configuration :: ServiceConfiguration where
  "serving_configuration = \<lparr>sc_journal_path = \<lparr>path_absolute = True, path_components = [''state'', ''journal.sqlite3'']\<rparr>,
     sc_authorization_trust = [example_git_trust],
     sc_approvals = [\<lparr>sv_signed_grant = example_signed_grant, sv_label = ''publish''\<rparr>]\<rparr>"

theorem validated_catalog_sound_witness:
  "\<exists>catalog. validate_configuration example_crypto serving_configuration = Inr catalog \<and>
    map sl_signed_grant catalog = [example_signed_grant] \<and> list_all (handle_verified example_crypto [example_git_trust]) catalog"
proof -
  have "\<exists>g. verify_git_ref_grant example_crypto example_signed_grant example_git_trust = Inr g"
    using git_binding_verify_sound(1) [OF granted_binding_verified] by auto
  then obtain g where g: "verify_git_ref_grant example_crypto example_signed_grant example_git_trust = Inr g" ..
  then obtain e where "gateway_verify_grant example_crypto example_signed_grant example_git_trust = Inl e"
    using grant_kinds_disjoint by blast
  moreover have "trust_validate example_crypto example_git_trust = Inr ()" using verify_git_ref_grant_sound [OF g] by blast
  moreover have "approval_bounded \<lparr>sv_signed_grant = example_signed_grant, sv_label = ''publish''\<rparr>"
    using git_binding_verify_sound(2) [OF granted_binding_verified]
    by (simp add: approval_bounded_def label_printable_def as_bytes_def)
  moreover have "length example_signed_grant \<le> 4096" using git_binding_verify_sound(2) [OF granted_binding_verified] .
  ultimately obtain catalog where "validate_configuration example_crypto serving_configuration = Inr catalog"
    using g by (simp add: validate_configuration_def serving_configuration_def approval_bytes_total_def trust_appointed_def
        catalog_entry_def rbind_eq_Inr)
  with validated_catalog_sound [of example_crypto serving_configuration] show ?thesis
    by (auto simp: serving_configuration_def)
qed

end
