(* ===== verification/Runtime.thy ===== *)
theory Runtime
  imports Service Admission
begin

text \<open>
  The connection runtime of the daemon, \<open>crates/kapsel-daemon/src/server/runtime.rs\<close> and
  \<open>runtime/jobs.rs\<close>: one execution permit, the published selection with its holders, the jobs
  that outlive their connections, and the decision given to a submission. Execution and probes
  run concurrently; the step relation interleaves the critical sections of the code. The journal
  is part of the state: an execution runs the admission of \<open>select_with_adapters\<close> on it, forwards
  whatever decision that acknowledged, and then writes its own row one journal call at a time; a
  probe reads it with \<open>admitted_state\<close>.
\<close>

section \<open>State\<close>

datatype SubmissionAdmission = Decided AdmissionDecision | Indeterminate | SubmissionError ServiceError

definition CONNECTIONS_MAX :: nat where
  "CONNECTIONS_MAX = 8"

text \<open>The selection of a worker, with the number of its strong references.\<close>

record WorkerSelection =
  ws_operation_id :: string
  ws_running :: bool
  ws_strong :: nat

text \<open>
  Where a job is: a read, an execution running, with an admission that has ended but whose decision,
  if it acknowledged one, is not yet forwarded, after its stop is recorded and after its lifetime
  marker is dropped, a probe before and after its two reads and its decision, and a job
  whose supervisor and closure have both retired.
\<close>

datatype JobPhase =
  ReadRunning
| ExecutionRunning | ExecutionDecided "AdmissionDecision option" | ExecutionRecorded | ExecutionEnded
| ProbeStarted | ProbeRead "(ServiceError, OperationState option) result"
| ProbeCompared "(ServiceError, OperationState option) result" "(unit, bool) result"
| ProbeDecided | Retired

record Job =
  jb_operation_id :: string
  jb_pin :: "string option"
  jb_phase :: JobPhase
  jb_sent :: bool

record ServerState =
  rt_permits :: nat
  rt_selected :: "WorkerSelection option"
  rt_dropping :: bool
  rt_stopped :: "(string \<times> ExecutionObservation) list"
  rt_jobs :: "Job list"
  rt_db :: Db

definition server_new :: "Db \<Rightarrow> ServerState" where
  "server_new db = \<lparr>rt_permits = 1, rt_selected = None, rt_dropping = False, rt_stopped = [], rt_jobs = [], rt_db = db\<rparr>"

text \<open>Upgrading the weak reference to the published selection.\<close>

definition upgrade :: "ServerState \<Rightarrow> WorkerSelection option" where
  "upgrade S = (case rt_selected S of
     Some selection \<Rightarrow> if ws_strong selection > 0 then Some selection else None
   | None \<Rightarrow> None)"

section \<open>Operations\<close>

definition observation :: "bool \<Rightarrow> bool \<Rightarrow> ServerState \<Rightarrow> string \<Rightarrow> ExecutionObservation" where
  "observation selected_ok stopped_ok S operation_id =
     (if \<not> selected_ok then ObservedUnknown
      else case upgrade S of
        Some selection \<Rightarrow>
          if ws_operation_id selection = operation_id \<and> ws_running selection then ObservedActive else ObservedOtherWorker
      | None \<Rightarrow>
          if \<not> stopped_ok then ObservedUnknown
          else case find (\<lambda>(ident, _). ident = operation_id) (rt_stopped S) of
            None \<Rightarrow> ObservedUnknown | Some (_, observed) \<Rightarrow> observed)"

definition record_stop ::
    "bool \<Rightarrow> (string \<times> ExecutionObservation) list \<Rightarrow> string \<Rightarrow> (ServiceError, ServiceStop) result \<Rightarrow>
      (string \<times> ExecutionObservation) list" where
  "record_stop stopped_ok stopped operation_id result =
     (if \<not> stopped_ok then stopped
      else let stopped = filter (\<lambda>(ident, _). ident \<noteq> operation_id) stopped;
               stopped = (if length stopped = 32 then tl stopped else stopped) in
        stopped @ [(operation_id, stop_observation result)])"

fun contended_admission ::
    "(ServiceError, OperationState option) result \<Rightarrow> bool option \<Rightarrow> (unit, bool) result \<Rightarrow> SubmissionAdmission" where
  "contended_admission (Inr (Some phase)) _ _ = Decided (Admitted phase)"
| "contended_admission (Inl error) _ _ = SubmissionError error"
| "contended_admission (Inr None) None _ = Indeterminate"
| "contended_admission (Inr None) (Some True) (Inr _) = Indeterminate"
| "contended_admission (Inr None) (Some False) (Inr True) = Indeterminate"
| "contended_admission (Inr None) (Some False) (Inr False) = Decided Busy"
| "contended_admission (Inr None) (Some _) (Inl _) = SubmissionError OperationFailure"

text \<open>Registering a job: retired jobs are dropped first, and at most eight are kept.\<close>

definition jobs_spawn :: "bool \<Rightarrow> Job \<Rightarrow> Job list \<Rightarrow> Job list option" where
  "jobs_spawn jobs_ok job jobs =
     (let jobs = filter (\<lambda>j. jb_phase j \<noteq> Retired) jobs in
      if \<not> jobs_ok \<or> length jobs \<ge> CONNECTIONS_MAX then None else Some (jobs @ [job]))"

text \<open>Dropping one strong reference; the permit of the last one is returned by a step of its own.\<close>

definition drop_selection :: "ServerState \<Rightarrow> ServerState" where
  "drop_selection S = (case rt_selected S of
     None \<Rightarrow> S
   | Some selection \<Rightarrow>
       S\<lparr>rt_selected := Some (selection\<lparr>ws_strong := ws_strong selection - 1\<rparr>),
         rt_dropping := rt_dropping S \<or> ws_strong selection = 1\<rparr>)"

definition stop_running :: "ServerState \<Rightarrow> ServerState" where
  "stop_running S = S\<lparr>rt_selected := map_option (\<lambda>selection. selection\<lparr>ws_running := False\<rparr>) (rt_selected S)\<rparr>"

text \<open>
  A submission up to the registration of its job: under the lock of the published selection it
  takes the permit and publishes its own selection, or pins the current one. The locks tell
  whether each mutex is free of poison.
\<close>

record Locks =
  lk_selected :: bool
  lk_stopped :: bool
  lk_jobs :: bool
  lk_reads :: bool

definition submit_execution :: "Locks \<Rightarrow> string \<Rightarrow> ServerState \<Rightarrow> ServerState \<times> SubmissionAdmission option" where
  "submit_execution locks operation_id S =
     (let S = S\<lparr>rt_permits := rt_permits S - 1,
          rt_stopped := (if lk_stopped locks then filter (\<lambda>(ident, _). ident \<noteq> operation_id) (rt_stopped S) else rt_stopped S),
          rt_selected := Some \<lparr>ws_operation_id = operation_id, ws_running = True, ws_strong = 1\<rparr>\<rparr> in
      case jobs_spawn (lk_jobs locks) \<lparr>jb_operation_id = operation_id, jb_pin = Some operation_id, jb_phase = ExecutionRunning, jb_sent = False\<rparr> (rt_jobs S) of
        None \<Rightarrow> (drop_selection (stop_running S), Some (SubmissionError OperationFailure))
      | Some jobs \<Rightarrow> (S\<lparr>rt_jobs := jobs\<rparr>, None))"

definition pin_selection :: "ServerState \<Rightarrow> ServerState" where
  "pin_selection S = S\<lparr>rt_selected := map_option (\<lambda>selection. selection\<lparr>ws_strong := ws_strong selection + 1\<rparr>) (rt_selected S)\<rparr>"

definition submit_probe :: "Locks \<Rightarrow> string \<Rightarrow> ServerState \<Rightarrow> ServerState \<times> SubmissionAdmission option" where
  "submit_probe locks operation_id S =
     (let pinned = map_option ws_operation_id (upgrade S);
          S = (if pinned = None then S else pin_selection S) in
      case jobs_spawn (lk_jobs locks) \<lparr>jb_operation_id = operation_id, jb_pin = pinned, jb_phase = ProbeStarted, jb_sent = False\<rparr> (rt_jobs S) of
        None \<Rightarrow> (if pinned = None then S else drop_selection S, Some (SubmissionError OperationFailure))
      | Some jobs \<Rightarrow> (S\<lparr>rt_jobs := jobs\<rparr>, None))"

definition admit_submission :: "Locks \<Rightarrow> string \<Rightarrow> ServerState \<Rightarrow> ServerState \<times> SubmissionAdmission option" where
  "admit_submission locks operation_id S =
     (if \<not> lk_selected locks then (S, Some (SubmissionError OperationFailure))
      else if rt_permits S > 0 then submit_execution locks operation_id S
      else submit_probe locks operation_id S)"

text \<open>What the waiting connection answers: the decision, a lost sender, or the deadline.\<close>

fun submission_reply :: "SubmissionAdmission option option \<Rightarrow> SubmissionAdmission" where
  "submission_reply (Some (Some decision)) = decision"
| "submission_reply (Some None) = SubmissionError OperationFailure"
| "submission_reply None = Indeterminate"

definition set_job :: "nat \<Rightarrow> Job \<Rightarrow> ServerState \<Rightarrow> ServerState" where
  "set_job i job S = S\<lparr>rt_jobs := (rt_jobs S)[i := job]\<rparr>"

fun executing_phase :: "JobPhase \<Rightarrow> bool" where
  "executing_phase ExecutionRunning = True"
| "executing_phase (ExecutionDecided _) = True"
| "executing_phase ExecutionRecorded = True"
| "executing_phase _ = False"

definition executing :: "Job \<Rightarrow> bool" where
  "executing job \<longleftrightarrow> executing_phase (jb_phase job)"

definition holding :: "Job \<Rightarrow> bool" where
  "holding job \<longleftrightarrow> jb_pin job \<noteq> None \<and> jb_phase job \<noteq> Retired"

text \<open>The end of an execution: its stop is recorded, and a submission still waiting gets an error.\<close>

definition execution_stopped ::
    "Locks \<Rightarrow> nat \<Rightarrow> (ServiceError, ServiceStop) result \<Rightarrow> ServerState \<Rightarrow> ServerState \<times> SubmissionAdmission option" where
  "execution_stopped locks i result S =
     (let job = rt_jobs S ! i in
      (set_job i (job\<lparr>jb_phase := ExecutionRecorded, jb_sent := True\<rparr>)
         (S\<lparr>rt_stopped := record_stop (lk_stopped locks) (rt_stopped S) (jb_operation_id job) result\<rparr>),
       if jb_sent job then None
       else Some (SubmissionError (case result of Inl error \<Rightarrow> error | Inr _ \<Rightarrow> OperationFailure))))"

definition probe_current :: "Locks \<Rightarrow> ServerState \<Rightarrow> string \<Rightarrow> (unit, bool) result" where
  "probe_current locks S operation_id =
     (if lk_selected locks
      then Inr (case upgrade S of None \<Rightarrow> False | Some owner \<Rightarrow> ws_operation_id owner = operation_id)
      else Inl ())"

definition probe_decision :: "Job \<Rightarrow> (ServiceError, OperationState option) result \<Rightarrow> (unit, bool) result \<Rightarrow> SubmissionAdmission" where
  "probe_decision job result current =
     contended_admission result (map_option (\<lambda>owner. owner = jb_operation_id job) (jb_pin job)) current"

definition retire_job :: "nat \<Rightarrow> ServerState \<Rightarrow> ServerState" where
  "retire_job i S =
     (let job = rt_jobs S ! i; S = set_job i (job\<lparr>jb_phase := Retired\<rparr>) S in
      if jb_pin job = None then S else drop_selection S)"

section \<open>Steps\<close>

text \<open>
  The admission of an execution: \<open>select_with_adapters\<close> up to the call of \<open>acknowledged\<close>. The world
  after it has the decision, if one was acknowledged, at the end of \<open>w_acks\<close>.
\<close>

definition execution_admission ::
    "crypto \<Rightarrow> ServiceApplication \<Rightarrow> GitEnv \<Rightarrow> ServiceExecution \<Rightarrow> string \<Rightarrow> World \<Rightarrow> World" where
  "execution_admission C app G execution operation_id w =
     (case retained_for_selection C app operation_id (w_db w) of
        Inl _ \<Rightarrow> w
      | Inr selected \<Rightarrow>
          (case signing_settings execution of
             Inl _ \<Rightarrow> w
           | Inr _ \<Rightarrow>
               (case selected of
                  SelectKubernetes request grant _ \<Rightarrow> snd (admit_request C (sa_authorities app) (ge_env G) request grant w)
                | SelectGit grant _ \<Rightarrow> snd (admit_git_request C (sa_authorities app) G operation_id grant w))))"

definition acknowledged_decision :: "World \<Rightarrow> World \<Rightarrow> AdmissionDecision option" where
  "acknowledged_decision w w' = (case drop (length (w_acks w)) (w_acks w') of [] \<Rightarrow> None | d # _ \<Rightarrow> Some d)"

type_synonym Answer = "(string \<times> SubmissionAdmission) option"

definition answer :: "string \<Rightarrow> SubmissionAdmission option \<Rightarrow> Answer" where
  "answer operation_id decision = map_option (Pair operation_id) decision"

text \<open>
  The steps, for one application: \<open>admission\<close> is the admission of an execution in any world with
  this journal, \<open>acknowledged\<close> forwards the decision to the waiting connection, and \<open>row_written\<close> is
  any later journal call on the identity of the execution, with any arguments and any fate.
\<close>

inductive runtime_step :: "crypto \<Rightarrow> ServiceApplication \<Rightarrow> ServerState \<Rightarrow> Answer \<Rightarrow> ServerState \<Rightarrow> bool" for C app where
  submitted: "admit_submission locks k S = (S', decision) \<Longrightarrow> runtime_step C app S (answer k decision) S'"
| read_spawned: "jobs_spawn ok \<lparr>jb_operation_id = k, jb_pin = None, jb_phase = ReadRunning, jb_sent = False\<rparr> (rt_jobs S) = Some jobs \<Longrightarrow>
    runtime_step C app S None (S\<lparr>rt_jobs := jobs\<rparr>)"
| admission: "i < length (rt_jobs S) \<Longrightarrow> jb_phase (rt_jobs S ! i) = ExecutionRunning \<Longrightarrow> \<not> jb_sent (rt_jobs S ! i) \<Longrightarrow>
    w_db w = rt_db S \<Longrightarrow> execution_admission C app G execution (jb_operation_id (rt_jobs S ! i)) w = w' \<Longrightarrow>
    runtime_step C app S None
      (set_job i ((rt_jobs S ! i)\<lparr>jb_phase := ExecutionDecided (acknowledged_decision w w')\<rparr>) (S\<lparr>rt_db := w_db w'\<rparr>))"
| acknowledged: "i < length (rt_jobs S) \<Longrightarrow> jb_phase (rt_jobs S ! i) = ExecutionDecided (Some d) \<Longrightarrow>
    runtime_step C app S (Some (jb_operation_id (rt_jobs S ! i), Decided d))
      (set_job i ((rt_jobs S ! i)\<lparr>jb_phase := ExecutionRunning, jb_sent := True\<rparr>) S)"
| row_written: "i < length (rt_jobs S) \<Longrightarrow> jb_phase (rt_jobs S ! i) = ExecutionRunning \<Longrightarrow> jb_sent (rt_jobs S ! i) \<Longrightarrow>
    any_call_id call = jb_operation_id (rt_jobs S ! i) \<Longrightarrow> any_perform C (delivery, call) (rt_db S) = (r, db') \<Longrightarrow>
    runtime_step C app S None (S\<lparr>rt_db := db'\<rparr>)"
| stopped: "i < length (rt_jobs S) \<Longrightarrow> jb_phase (rt_jobs S ! i) \<in> {ExecutionRunning, ExecutionDecided None} \<Longrightarrow>
    execution_stopped locks i result S = (S', decision) \<Longrightarrow>
    runtime_step C app S (answer (jb_operation_id (rt_jobs S ! i)) decision) S'"
| ended: "i < length (rt_jobs S) \<Longrightarrow> jb_phase (rt_jobs S ! i) = ExecutionRecorded \<Longrightarrow>
    runtime_step C app S None (set_job i ((rt_jobs S ! i)\<lparr>jb_phase := ExecutionEnded\<rparr>) (stop_running S))"
| probed: "i < length (rt_jobs S) \<Longrightarrow> jb_phase (rt_jobs S ! i) = ProbeStarted \<Longrightarrow>
    runtime_step C app S None (set_job i ((rt_jobs S ! i)\<lparr>jb_phase :=
      ProbeRead (admitted_state C app (jb_operation_id (rt_jobs S ! i)) (rt_db S))\<rparr>) S)"
| probe_failed: "i < length (rt_jobs S) \<Longrightarrow> jb_phase (rt_jobs S ! i) = ProbeStarted \<Longrightarrow>
    runtime_step C app S None (set_job i ((rt_jobs S ! i)\<lparr>jb_phase := ProbeRead (Inl error)\<rparr>) S)"
| compared: "i < length (rt_jobs S) \<Longrightarrow> jb_phase (rt_jobs S ! i) = ProbeRead result \<Longrightarrow>
    runtime_step C app S None (set_job i ((rt_jobs S ! i)\<lparr>jb_phase :=
      ProbeCompared result (probe_current locks S (jb_operation_id (rt_jobs S ! i)))\<rparr>) S)"
| decided: "i < length (rt_jobs S) \<Longrightarrow> jb_phase (rt_jobs S ! i) = ProbeCompared result current \<Longrightarrow>
    runtime_step C app S (Some (jb_operation_id (rt_jobs S ! i), probe_decision (rt_jobs S ! i) result current))
      (set_job i ((rt_jobs S ! i)\<lparr>jb_phase := ProbeDecided, jb_sent := True\<rparr>) S)"
| retired: "i < length (rt_jobs S) \<Longrightarrow> jb_phase (rt_jobs S ! i) \<in> {ReadRunning, ExecutionEnded, ProbeDecided} \<Longrightarrow>
    runtime_step C app S None (retire_job i S)"
| permit_returned: "rt_dropping S \<Longrightarrow> runtime_step C app S None (S\<lparr>rt_permits := rt_permits S + 1, rt_dropping := False\<rparr>)"

inductive runtime_reachable :: "crypto \<Rightarrow> ServiceApplication \<Rightarrow> ServerState \<Rightarrow> bool" for C app where
  initial: "db_ok db \<Longrightarrow> runtime_reachable C app (server_new db)"
| step: "runtime_reachable C app S \<Longrightarrow> runtime_step C app S a S' \<Longrightarrow> runtime_reachable C app S'"

section \<open>The journal under the steps\<close>

text \<open>What a decision says of the journal when it is given.\<close>

fun decision_holds :: "AdmissionDecision \<Rightarrow> string \<Rightarrow> Db \<Rightarrow> bool" where
  "decision_holds (Admitted _) k db \<longleftrightarrow> \<not> absent k db"
| "decision_holds Busy k db \<longleftrightarrow> absent k db"
| "decision_holds Full k db \<longleftrightarrow> absent k db \<and> at_capacity db"

lemma decision_true_holds: "decision_true E t k w w' d \<Longrightarrow> decision_holds d k (w_db w')"
  by (cases d; cases t) (auto simp: decision_true_def held_state_def absent_def)

lemma truthful_decision:
  assumes "truthful E t k w r w'" "acknowledged_decision w w' = Some d"
  shows "decision_holds d k (w_db w')"
  using assms by (auto simp: truthful_def acknowledged_decision_def dest: decision_true_holds)

lemma selection_request_id:
  assumes "retained_for_selection C app k db = Inr (SelectKubernetes request grant st)"
  shows "rq_operation_id request = k"
proof -
  from assms consider retained where "retained_operation C (sa_authorities app) k db = Inr (Some retained)" "request = rt_request retained"
    | "catalog_selection app k = Inr (SelectKubernetes request grant st)"
    by (auto simp: retained_for_selection_def rbind_eq_Inr split: option.splits if_splits)
  then show ?thesis
  proof cases
    case 1
    with retained_operation_Some [OF 1(1)] obtain q where
      "retained_authorize C (sa_authorities app) k (rt_signed_grant retained) = Inr q" "request = to_adapter_request (aq_request q)" by blast
    then show ?thesis
      by (auto simp: retained_authorize_def rbind_eq_Inr authorized_request_bind_iff validated_request_iff to_adapter_request_def Let_def
          split: if_splits)
  next
    case 2
    then obtain entry where entry: "find (\<lambda>entry. action_operation_id (sl_handle entry) = k) (sa_approvals app) = Some entry"
      by (auto simp: catalog_selection_def rbind_eq_Inr ok_or_eq_Inr)
    then have "action_operation_id (sl_handle entry) = k" by (auto simp: find_Some_iff)
    with 2 entry show ?thesis by (cases "sl_handle entry") (simp_all add: catalog_selection_def)
  qed
qed

lemma execution_admission_sound:
  assumes "db_ok (w_db w)" "execution_admission C app G execution k w = w'"
  shows "own_rows k (w_db w) (w_db w')" "acknowledged_decision w w' = Some d \<Longrightarrow> decision_holds d k (w_db w')"
proof -
  have idle: "acknowledged_decision v v = None" for v by (simp add: acknowledged_decision_def)
  note same = own_rows_refl [OF assms(1)]
  have "own_rows k (w_db w) (w_db w') \<and> (\<forall>d. acknowledged_decision w w' = Some d \<longrightarrow> decision_holds d k (w_db w'))"
  proof (cases "retained_for_selection C app k (w_db w)")
    case (Inl e)
    with assms(2) same idle [of w] show ?thesis by (simp add: execution_admission_def)
  next
    case sel: (Inr selected)
    show ?thesis
    proof (cases "signing_settings execution")
      case (Inl e)
      with assms(2) sel same idle [of w] show ?thesis by (simp add: execution_admission_def)
    next
      case settings: (Inr settings)
      show ?thesis
      proof (cases selected)
        case (SelectKubernetes request grant st)
        obtain r where "admit_request C (sa_authorities app) (ge_env G) request grant w = (r, w')"
          using assms(2) sel settings SelectKubernetes by (cases "admit_request C (sa_authorities app) (ge_env G) request grant w")
            (simp add: execution_admission_def)
        from truthful_admit_request [OF assms(1) this] truthful_decision selection_request_id [OF sel [unfolded SelectKubernetes]]
        show ?thesis by blast
      next
        case (SelectGit grant st)
        obtain r where "admit_git_request C (sa_authorities app) G k grant w = (r, w')"
          using assms(2) sel settings SelectGit by (cases "admit_git_request C (sa_authorities app) G k grant w")
            (simp add: execution_admission_def)
        from truthful_admit_git [OF assms(1) this] truthful_decision show ?thesis by blast
      qed
    qed
  qed
  then show "own_rows k (w_db w) (w_db w')" "acknowledged_decision w w' = Some d \<Longrightarrow> decision_holds d k (w_db w')" by blast+
qed

lemma admitted_state_row:
  "admitted_state C app k db = Inr None \<Longrightarrow> absent k db"
  "admitted_state C app k db = Inr (Some st) \<Longrightarrow> \<not> absent k db"
proof -
  show "absent k db" if "admitted_state C app k db = Inr None"
    using that retained_selection_state [of C app k db] by (fastforce simp: admitted_state_def rbind_eq_Inr absent_def)
  show "\<not> absent k db" if state: "admitted_state C app k db = Inr (Some st)"
  proof -
    obtain selected where "retained_for_selection C app k db = Inr selected" "selection_state selected = Some st"
      using state unfolding admitted_state_def by (cases "retained_for_selection C app k db") simp_all
    from selection_grant_retained [OF this] obtain t r where "row_of t db k = Some r" by blast
    then show ?thesis by (cases t) (simp_all add: absent_def)
  qed
qed

section \<open>Invariant\<close>

definition strong_count :: "ServerState \<Rightarrow> nat" where
  "strong_count S = (case rt_selected S of None \<Rightarrow> 0 | Some selection \<Rightarrow> ws_strong selection)"

definition execution_job :: "Job \<Rightarrow> bool" where
  "execution_job job \<longleftrightarrow> executing_phase (jb_phase job) \<or> jb_phase job = ExecutionEnded"

text \<open>A probe that found no row while another identity's selection was pinned.\<close>

definition absence_read :: "Job \<Rightarrow> bool" where
  "absence_read job \<longleftrightarrow> (jb_phase job = ProbeRead (Inr None) \<or> (\<exists>current. jb_phase job = ProbeCompared (Inr None) current)) \<and>
     jb_pin job \<notin> {None, Some (jb_operation_id job)}"

text \<open>A decision of an admission that is not yet forwarded is still true.\<close>

definition pending_true :: "Job \<Rightarrow> Db \<Rightarrow> bool" where
  "pending_true job db \<longleftrightarrow> (\<forall>d. jb_phase job = ExecutionDecided (Some d) \<longrightarrow> decision_holds d (jb_operation_id job) db)"

text \<open>
  The jobs agree with the selection and the journal: who holds it, who runs under it, what probes
  have seen and what an execution is about to answer.
\<close>

definition jobs_ok :: "Job list \<Rightarrow> WorkerSelection option \<Rightarrow> Db \<Rightarrow> bool" where
  "jobs_ok jobs selected db \<longleftrightarrow>
     (\<forall>j \<in> set jobs. holding j \<longrightarrow> jb_pin j = map_option ws_operation_id selected) \<and>
     (\<forall>j \<in> set jobs. execution_job j \<longrightarrow> jb_pin j = Some (jb_operation_id j)) \<and>
     length (filter execution_job jobs) \<le> 1 \<and>
     (\<forall>j \<in> set jobs. absence_read j \<longrightarrow> absent (jb_operation_id j) db) \<and>
     (\<forall>j \<in> set jobs. pending_true j db)"

text \<open>The one permit is free, held through the selection, or on its way back.\<close>

definition permit_ok :: "nat \<Rightarrow> nat \<Rightarrow> bool \<Rightarrow> bool" where
  "permit_ok permits strong dropping \<longleftrightarrow>
     permits + (if strong > 0 then 1 else 0) + (if dropping then 1 else 0) = 1"

definition runtime_ok :: "ServerState \<Rightarrow> bool" where
  "runtime_ok S \<longleftrightarrow> db_ok (rt_db S) \<and>
     permit_ok (rt_permits S) (length (filter holding (rt_jobs S))) (rt_dropping S) \<and>
     strong_count S = length (filter holding (rt_jobs S)) \<and>
     jobs_ok (rt_jobs S) (rt_selected S) (rt_db S) \<and>
     (\<forall>selection. upgrade S = Some selection \<longrightarrow> (ws_running selection \<longleftrightarrow> (\<exists>j \<in> set (rt_jobs S). executing j))) \<and>
     length (rt_jobs S) \<le> CONNECTIONS_MAX \<and> length (rt_stopped S) \<le> 32 \<and> distinct (map fst (rt_stopped S))"

subsection \<open>Lists\<close>

lemma length_filter_update:
  assumes "i < length xs"
  shows "length (filter P (xs[i := y])) + (if P (xs ! i) then 1 else 0) = length (filter P xs) + (if P y then 1 else 0)"
proof -
  have xs: "xs = take i xs @ xs ! i # drop (Suc i) xs" using assms by (rule id_take_nth_drop)
  have "length (filter P xs) = length (filter P (take i xs)) + (if P (xs ! i) then 1 else 0) + length (filter P (drop (Suc i) xs))"
    by (subst xs) simp
  then show ?thesis by (simp add: upd_conv_take_nth_drop [OF assms])
qed

lemma filter_length_one:
  assumes "length (filter P xs) \<le> 1" "i < length xs" "P (xs ! i)" "j < length xs" "P (xs ! j)"
  shows "i = j"
proof -
  have "card {l. l < length xs \<and> P (xs ! l)} \<le> Suc 0" using assms(1) by (simp add: length_filter_conv_card)
  moreover have "finite {l. l < length xs \<and> P (xs ! l)}" by simp
  ultimately show ?thesis using assms(2-5) by (simp add: card_le_Suc0_iff_eq)
qed

lemma set_update_cases: "x \<in> set (xs[i := y]) \<Longrightarrow> x = y \<or> x \<in> set xs"
  using set_update_subset_insert by fastforce

lemma not_execution_pending: "\<not> execution_job job \<Longrightarrow> pending_true job db"
  by (auto simp: pending_true_def execution_job_def)

subsection \<open>The steps keep it\<close>

text \<open>Moving a job on, without retiring it.\<close>

lemma jobs_ok_update:
  assumes "jobs_ok jobs selected db" "i < length jobs" "jb_operation_id j' = jb_operation_id (jobs ! i)" "jb_pin j' = jb_pin (jobs ! i)"
    "jb_phase (jobs ! i) \<noteq> Retired" "execution_job j' \<longrightarrow> execution_job (jobs ! i)" "absence_read j' \<longrightarrow> absent (jb_operation_id j') db"
    "pending_true j' db"
  shows "jobs_ok (jobs[i := j']) selected db"
proof -
  have job: "jobs ! i \<in> set jobs" using assms(2) by simp
  have "length (filter execution_job (jobs[i := j'])) \<le> length (filter execution_job jobs)"
    using length_filter_update [OF assms(2), of execution_job j'] assms(6) by (auto split: if_splits)
  moreover have "holding j' \<longrightarrow> holding (jobs ! i)" using assms(4,5) by (simp add: holding_def)
  ultimately show ?thesis
    using assms job unfolding jobs_ok_def by (auto dest!: set_update_cases)
qed

lemma executing_update:
  assumes "i < length jobs" "executing j' = executing (jobs ! i)"
  shows "(\<exists>j \<in> set (jobs[i := j']). executing j) \<longleftrightarrow> (\<exists>j \<in> set jobs. executing j)"
proof -
  have "length (filter executing (jobs[i := j'])) = length (filter executing jobs)"
    using length_filter_update [OF assms(1), of executing j'] assms(2) by simp
  moreover have "(\<exists>j \<in> set xs. executing j) \<longleftrightarrow> 0 < length (filter executing xs)" for xs by (simp add: filter_empty_conv)
  ultimately show ?thesis by (simp del: length_greater_0_conv)
qed

lemma set_job_simps [simp]:
  "rt_permits (set_job i j' S) = rt_permits S" "rt_selected (set_job i j' S) = rt_selected S"
  "rt_dropping (set_job i j' S) = rt_dropping S" "rt_stopped (set_job i j' S) = rt_stopped S"
  "rt_jobs (set_job i j' S) = (rt_jobs S)[i := j']" "rt_db (set_job i j' S) = rt_db S"
  "strong_count (set_job i j' S) = strong_count S" "upgrade (set_job i j' S) = upgrade S"
  by (simp_all add: set_job_def strong_count_def upgrade_def)

lemma set_job_ok:
  assumes "runtime_ok S" "i < length (rt_jobs S)" "jb_operation_id j' = jb_operation_id (rt_jobs S ! i)" "jb_pin j' = jb_pin (rt_jobs S ! i)"
    "jb_phase (rt_jobs S ! i) \<noteq> Retired" "jb_phase j' \<noteq> Retired" "execution_job j' \<longrightarrow> execution_job (rt_jobs S ! i)"
    "executing j' = executing (rt_jobs S ! i)" "absence_read j' \<longrightarrow> absent (jb_operation_id j') (rt_db S)"
    "pending_true j' (rt_db S)"
  shows "runtime_ok (set_job i j' S)"
proof -
  have "holding j' = holding (rt_jobs S ! i)" using assms(4-6) by (simp add: holding_def)
  then have "length (filter holding ((rt_jobs S)[i := j'])) = length (filter holding (rt_jobs S))"
    using length_filter_update [OF assms(2), of holding j'] by simp
  moreover have "jobs_ok ((rt_jobs S)[i := j']) (rt_selected S) (rt_db S)"
    by (rule jobs_ok_update) (use assms in \<open>simp_all add: runtime_ok_def\<close>)
  ultimately show ?thesis using assms(1) executing_update [OF assms(2,8)]
    by (simp add: runtime_ok_def)
qed

text \<open>
  Only the identity of the selection is written, so that a pinned absence stays true; there is one
  execution, so that no other decision waits to be forwarded.
\<close>

lemma db_moved_ok:
  assumes "runtime_ok S" "i < length (rt_jobs S)" "jb_phase (rt_jobs S ! i) = ExecutionRunning"
    "own_rows (jb_operation_id (rt_jobs S ! i)) (rt_db S) db'"
  shows "runtime_ok (S\<lparr>rt_db := db'\<rparr>)"
proof -
  let ?k = "jb_operation_id (rt_jobs S ! i)"
  have ok: "jobs_ok (rt_jobs S) (rt_selected S) (rt_db S)" using assms(1) by (simp add: runtime_ok_def)
  have i: "rt_jobs S ! i \<in> set (rt_jobs S)" "execution_job (rt_jobs S ! i)" using assms(2,3) by (simp_all add: execution_job_def)
  with ok have pin: "jb_pin (rt_jobs S ! i) = Some ?k" by (simp add: jobs_ok_def)
  then have "holding (rt_jobs S ! i)" using assms(3) by (simp add: holding_def)
  with ok i(1) pin have sel: "map_option ws_operation_id (rt_selected S) = Some ?k" unfolding jobs_ok_def by metis
  have "absent (jb_operation_id j) db'" if "j \<in> set (rt_jobs S)" "absence_read j" for j
  proof -
    have "holding j" using that(2) by (auto simp: absence_read_def holding_def)
    then have "jb_pin j = Some ?k" using ok that(1) sel unfolding jobs_ok_def by metis
    then have "jb_operation_id j \<noteq> ?k" using that(2) by (auto simp: absence_read_def)
    with own_rows_others [OF assms(4)] ok that show ?thesis by (simp add: jobs_ok_def)
  qed
  moreover have "pending_true j db'" if job: "j \<in> set (rt_jobs S)" for j
  proof (rule ccontr)
    assume pending: "\<not> pending_true j db'"
    then have "execution_job j" by (auto simp: pending_true_def execution_job_def)
    moreover obtain l where l: "l < length (rt_jobs S)" "j = rt_jobs S ! l" using job by (auto simp: in_set_conv_nth)
    moreover have "length (filter execution_job (rt_jobs S)) \<le> 1" using ok by (simp add: jobs_ok_def)
    ultimately have "l = i" using filter_length_one [of execution_job "rt_jobs S" l i] assms(2) i(2) by simp
    then have "j = rt_jobs S ! i" using l(2) by simp
    with assms(3) pending show False by (simp add: pending_true_def)
  qed
  ultimately have "jobs_ok (rt_jobs S) (rt_selected S) db'"
    using ok unfolding jobs_ok_def by blast
  then show ?thesis using assms(1,4) by (simp add: runtime_ok_def strong_count_def upgrade_def own_rows_def)
qed

lemma jobs_ok_retire:
  assumes "jobs_ok jobs selected db" "i < length jobs" "map_option ws_operation_id selected' = map_option ws_operation_id selected"
  shows "jobs_ok (jobs[i := (jobs ! i)\<lparr>jb_phase := Retired\<rparr>]) selected' db"
proof -
  let ?j = "(jobs ! i)\<lparr>jb_phase := Retired\<rparr>"
  have "\<not> holding ?j" "\<not> execution_job ?j" "\<not> absence_read ?j" "pending_true ?j db"
    by (auto simp: holding_def execution_job_def absence_read_def pending_true_def)
  moreover from this(2) have "length (filter execution_job (jobs[i := ?j])) \<le> length (filter execution_job jobs)"
    using length_filter_update [OF assms(2), of execution_job ?j] by simp
  ultimately show ?thesis
    using assms unfolding jobs_ok_def by (auto dest!: set_update_cases)
qed

lemma drop_selection_simps [simp]:
  "rt_permits (drop_selection S) = rt_permits S" "rt_stopped (drop_selection S) = rt_stopped S"
  "rt_jobs (drop_selection S) = rt_jobs S" "rt_db (drop_selection S) = rt_db S"
  "strong_count (drop_selection S) = strong_count S - 1"
  "map_option ws_operation_id (rt_selected (drop_selection S)) = map_option ws_operation_id (rt_selected S)"
  by (simp_all add: drop_selection_def strong_count_def split: option.splits)

lemma drop_selection_dropping: "rt_dropping (drop_selection S) \<longleftrightarrow> rt_dropping S \<or> strong_count S = 1"
  by (simp add: drop_selection_def strong_count_def split: option.splits)

lemma upgrade_drop_selection: "upgrade (drop_selection S) = Some selection \<Longrightarrow>
    \<exists>original. upgrade S = Some original \<and> ws_running original = ws_running selection"
  by (auto simp: drop_selection_def upgrade_def split: option.splits if_splits)

lemma permit_ok_drop: "permit_ok permits (Suc n) dropping \<Longrightarrow> permit_ok permits n (dropping \<or> n = 0)"
  by (auto simp: permit_ok_def split: if_splits)

lemma retire_job_ok:
  assumes "runtime_ok S" "i < length (rt_jobs S)" "jb_phase (rt_jobs S ! i) \<in> {ReadRunning, ExecutionEnded, ProbeDecided}"
  shows "runtime_ok (retire_job i S)"
proof -
  let ?j = "(rt_jobs S ! i)\<lparr>jb_phase := Retired\<rparr>" and ?S = "set_job i ((rt_jobs S ! i)\<lparr>jb_phase := Retired\<rparr>) S"
  have count: "length (filter holding ((rt_jobs S)[i := ?j])) + (if holding (rt_jobs S ! i) then 1 else 0) = strong_count S"
    using length_filter_update [OF assms(2), of holding ?j] assms(1) by (simp add: runtime_ok_def holding_def)
  have exec: "(\<exists>j \<in> set ((rt_jobs S)[i := ?j]). executing j) \<longleftrightarrow> (\<exists>j \<in> set (rt_jobs S). executing j)"
    by (rule executing_update [OF assms(2)]) (use assms(3) in \<open>auto simp: executing_def\<close>)
  have jobs: "jobs_ok (rt_jobs S) (rt_selected S) (rt_db S)" using assms(1) by (simp add: runtime_ok_def)
  show ?thesis
  proof (cases "jb_pin (rt_jobs S ! i) = None")
    case True
    then have "\<not> holding (rt_jobs S ! i)" by (simp add: holding_def)
    with True count exec jobs_ok_retire [OF jobs assms(2), of "rt_selected S"] assms(1) show ?thesis
      by (simp add: retire_job_def runtime_ok_def)
  next
    case False
    then have "holding (rt_jobs S ! i)" using assms(3) by (auto simp: holding_def)
    with count have n: "strong_count S = Suc (length (filter holding ((rt_jobs S)[i := ?j])))" by simp
    have "permit_ok (rt_permits S) (strong_count S) (rt_dropping S)" using assms(1) by (auto simp: runtime_ok_def)
    from permit_ok_drop [OF this [unfolded n]]
    have "permit_ok (rt_permits S) (length (filter holding ((rt_jobs S)[i := ?j]))) (rt_dropping S \<or> strong_count S = 1)" by (simp add: n)
    moreover have "db_ok (rt_db S)" "length (rt_jobs S) \<le> CONNECTIONS_MAX" "length (rt_stopped S) \<le> 32" "distinct (map fst (rt_stopped S))"
      using assms(1) by (simp_all add: runtime_ok_def)
    moreover have "jobs_ok ((rt_jobs S)[i := ?j]) (rt_selected (drop_selection ?S)) (rt_db S)"
      by (rule jobs_ok_retire [OF jobs assms(2)]) simp
    moreover have "ws_running selection \<longleftrightarrow> (\<exists>j \<in> set ((rt_jobs S)[i := ?j]). executing j)"
      if "upgrade (drop_selection ?S) = Some selection" for selection
      using upgrade_drop_selection [OF that] assms(1) unfolding exec by (auto simp: runtime_ok_def)
    ultimately show ?thesis
      using False n by (simp add: retire_job_def runtime_ok_def drop_selection_dropping Let_def)
  qed
qed

text \<open>The end of an execution leaves none running.\<close>

lemma ended_ok:
  assumes "runtime_ok S" "i < length (rt_jobs S)" "jb_phase (rt_jobs S ! i) = ExecutionRecorded"
  shows "runtime_ok (set_job i ((rt_jobs S ! i)\<lparr>jb_phase := ExecutionEnded\<rparr>) (stop_running S))"
proof -
  let ?j = "(rt_jobs S ! i)\<lparr>jb_phase := ExecutionEnded\<rparr>"
  have jobs: "jobs_ok (rt_jobs S) (rt_selected S) (rt_db S)" using assms(1) by (simp add: runtime_ok_def)
  have sel: "map_option ws_operation_id (rt_selected (stop_running S)) = map_option ws_operation_id (rt_selected S)"
    "strong_count (stop_running S) = strong_count S" "\<And>selection. upgrade (stop_running S) = Some selection \<Longrightarrow> \<not> ws_running selection"
    by (auto simp: stop_running_def strong_count_def upgrade_def option.map_comp comp_def split: option.splits if_splits)
  have "jobs_ok ((rt_jobs S)[i := ?j]) (rt_selected S) (rt_db S)"
    by (rule jobs_ok_update [OF jobs assms(2)]) (use assms(3) in \<open>auto simp: execution_job_def absence_read_def pending_true_def\<close>)
  then have "jobs_ok ((rt_jobs S)[i := ?j]) (rt_selected (stop_running S)) (rt_db S)"
    unfolding jobs_ok_def sel(1) .
  moreover have "\<not> executing j" if "j \<in> set ((rt_jobs S)[i := ?j])" for j
  proof
    assume ex: "executing j"
    obtain l where l: "l < length (rt_jobs S)" "j = (rt_jobs S)[i := ?j] ! l" using \<open>j \<in> _\<close> by (auto simp: in_set_conv_nth)
    with ex have "l \<noteq> i" by (auto simp: executing_def assms(2))
    with l ex have "execution_job (rt_jobs S ! l)" by (auto simp: executing_def execution_job_def)
    moreover have "execution_job (rt_jobs S ! i)" using assms(3) by (simp add: execution_job_def)
    moreover have "length (filter execution_job (rt_jobs S)) \<le> 1" using jobs by (simp add: jobs_ok_def)
    ultimately have "l = i" using filter_length_one l(1) assms(2) by blast
    with \<open>l \<noteq> i\<close> show False ..
  qed
  moreover have "length (filter holding ((rt_jobs S)[i := ?j])) = length (filter holding (rt_jobs S))"
    using length_filter_update [OF assms(2), of holding ?j] assms(3) by (simp add: holding_def split: if_splits)
  ultimately show ?thesis
    using assms(1) sel(2,3) by (auto simp: runtime_ok_def) (simp_all add: stop_running_def)
qed

lemma record_stop_bounded:
  assumes "length stopped \<le> 32" "distinct (map fst stopped)"
  shows "length (record_stop ok stopped k result) \<le> 32" "distinct (map fst (record_stop ok stopped k result))"
proof -
  let ?f = "filter (\<lambda>(ident, _). ident \<noteq> k) stopped"
  have f: "length ?f \<le> 32" "distinct (map fst ?f)" "k \<notin> fst ` set ?f"
    using assms le_trans [OF length_filter_le] by (auto simp: distinct_map_filter)
  then have "distinct (map fst (tl ?f))" "k \<notin> fst ` set (tl ?f)"
    by (cases ?f; simp)+
  with f assms show "length (record_stop ok stopped k result) \<le> 32" "distinct (map fst (record_stop ok stopped k result))"
    by (simp_all add: record_stop_def Let_def)
qed

lemma jobs_spawn_Some:
  assumes "jobs_spawn ok job jobs = Some jobs'"
  shows "length jobs' \<le> CONNECTIONS_MAX" "set jobs' \<subseteq> insert job (set jobs)"
    "\<And>P. (\<And>j. P j \<Longrightarrow> jb_phase j \<noteq> Retired) \<Longrightarrow> filter P jobs' = filter P jobs @ filter P [job]"
proof -
  have jobs': "jobs' = filter (\<lambda>j. jb_phase j \<noteq> Retired) jobs @ [job]" and len: "length jobs' \<le> CONNECTIONS_MAX"
    using assms by (auto simp: jobs_spawn_def Let_def split: if_splits)
  show "length jobs' \<le> CONNECTIONS_MAX" by (rule len)
  show "set jobs' \<subseteq> insert job (set jobs)" using jobs' by auto
  show "filter P jobs' = filter P jobs @ filter P [job]" if "\<And>j. P j \<Longrightarrow> jb_phase j \<noteq> Retired" for P
  proof -
    have "(\<lambda>j. jb_phase j \<noteq> Retired \<and> P j) = P" using that by auto
    then show ?thesis by (simp add: jobs')
  qed
qed

lemma spawn_filters:
  assumes "jobs_spawn ok job jobs = Some jobs'"
  shows "filter holding jobs' = filter holding jobs @ filter holding [job]"
    "filter execution_job jobs' = filter execution_job jobs @ filter execution_job [job]"
    "(\<exists>j \<in> set jobs'. executing j) \<longleftrightarrow> (\<exists>j \<in> set jobs. executing j) \<or> executing job"
proof -
  note f = jobs_spawn_Some(3) [OF assms]
  show "filter holding jobs' = filter holding jobs @ filter holding [job]" by (rule f) (simp add: holding_def)
  show "filter execution_job jobs' = filter execution_job jobs @ filter execution_job [job]" by (rule f) (auto simp: execution_job_def)
  have "filter executing jobs' = filter executing jobs @ filter executing [job]" by (rule f) (auto simp: executing_def)
  then have "set (filter executing jobs') = set (filter executing jobs) \<union> set (filter executing [job])" by simp
  then show "(\<exists>j \<in> set jobs'. executing j) \<longleftrightarrow> (\<exists>j \<in> set jobs. executing j) \<or> executing job" by (auto split: if_splits)
qed

text \<open>Registering a job that neither executes nor has read.\<close>

lemma jobs_ok_spawn:
  assumes "jobs_ok jobs selected db" "jobs_spawn ok job jobs = Some jobs'" "\<not> execution_job job" "\<not> absence_read job"
    "holding job \<longrightarrow> jb_pin job = map_option ws_operation_id selected'"
    "map_option ws_operation_id selected' = map_option ws_operation_id selected"
  shows "jobs_ok jobs' selected' db"
proof -
  have "length (filter execution_job jobs') \<le> 1"
    using assms(1,3) spawn_filters(2) [OF assms(2)] by (simp add: jobs_ok_def)
  moreover have "j = job \<or> j \<in> set jobs" if "j \<in> set jobs'" for j using jobs_spawn_Some(2) [OF assms(2)] that by blast
  ultimately show ?thesis using assms(1,3-6) not_execution_pending [OF assms(3)] unfolding jobs_ok_def by metis
qed

lemma plain_spawn_ok:
  assumes "runtime_ok S" "jobs_spawn ok job (rt_jobs S) = Some jobs" "jb_pin job = None" "\<not> execution_job job"
  shows "runtime_ok (S\<lparr>rt_jobs := jobs\<rparr>)"
proof -
  have job: "\<not> holding job" "\<not> absence_read job" "\<not> executing job"
    using assms(3,4) by (auto simp: holding_def absence_read_def executing_def execution_job_def)
  have jobs: "jobs_ok jobs (rt_selected S) (rt_db S)"
    by (rule jobs_ok_spawn [OF _ assms(2,4)]) (use assms(1) job in \<open>simp_all add: runtime_ok_def\<close>)
  have "length (filter holding jobs) = length (filter holding (rt_jobs S))"
    "(\<exists>j \<in> set jobs. executing j) \<longleftrightarrow> (\<exists>j \<in> set (rt_jobs S). executing j)"
    using job spawn_filters [OF assms(2)] by simp_all
  with assms(1) jobs jobs_spawn_Some(1) [OF assms(2)] show ?thesis
    by (simp add: runtime_ok_def strong_count_def upgrade_def)
qed

text \<open>A free permit means that no job holds a selection, so that the new one is alone.\<close>

lemma submit_execution_ok:
  assumes "runtime_ok S" "0 < rt_permits S" "submit_execution locks k S = (S', decision)"
  shows "runtime_ok S'"
proof -
  let ?job = "\<lparr>jb_operation_id = k, jb_pin = Some k, jb_phase = ExecutionRunning, jb_sent = False\<rparr>"
  let ?sel = "\<lparr>ws_operation_id = k, ws_running = True, ws_strong = 1\<rparr>"
  let ?stopped = "if lk_stopped locks then filter (\<lambda>(ident, _). ident \<noteq> k) (rt_stopped S) else rt_stopped S"
  have free: "rt_permits S = 1" "\<not> rt_dropping S" "filter holding (rt_jobs S) = []"
    using assms(1,2) by (auto simp: runtime_ok_def permit_ok_def split: if_splits)
  have idle: "\<not> holding j" "\<not> execution_job j" "\<not> executing j" "\<not> absence_read j" if "j \<in> set (rt_jobs S)" for j
  proof -
    show "\<not> holding j" using free(3) that by (simp add: filter_empty_conv)
    then show "\<not> execution_job j" using assms(1) that
      by (auto simp: runtime_ok_def jobs_ok_def holding_def execution_job_def)
    then show "\<not> executing j" by (auto simp: executing_def execution_job_def)
    show "\<not> absence_read j" using \<open>\<not> holding j\<close> by (auto simp: absence_read_def holding_def)
  qed
  have idle_pending: "pending_true j (rt_db S)" if "j \<in> set (rt_jobs S)" for j
    using idle(2) [OF that] by (rule not_execution_pending)
  have stopped: "length ?stopped \<le> 32" "distinct (map fst ?stopped)" "length (rt_jobs S) \<le> CONNECTIONS_MAX" "db_ok (rt_db S)"
    using assms(1) le_trans [OF length_filter_le] by (auto simp: runtime_ok_def distinct_map_filter)
  show ?thesis
  proof (cases "jobs_spawn (lk_jobs locks) ?job (rt_jobs S)")
    case None
    then have S': "S' = drop_selection (stop_running (S\<lparr>rt_permits := rt_permits S - 1, rt_stopped := ?stopped, rt_selected := Some ?sel\<rparr>))"
      using assms(3) by (simp add: submit_execution_def Let_def)
    have "jobs_ok (rt_jobs S) (rt_selected S') (rt_db S)" using idle idle_pending by (auto simp: jobs_ok_def filter_empty_conv)
    then show ?thesis
      using free stopped by (simp add: S' runtime_ok_def drop_selection_def stop_running_def strong_count_def upgrade_def permit_ok_def)
  next
    case (Some jobs)
    then have S': "S' = S\<lparr>rt_permits := rt_permits S - 1, rt_stopped := ?stopped, rt_selected := Some ?sel, rt_jobs := jobs\<rparr>"
      using assms(3) by (simp add: submit_execution_def Let_def)
    have job: "holding ?job" "execution_job ?job" "executing ?job" by (simp_all add: holding_def execution_job_def executing_def)
    have "filter holding jobs = [?job]" "filter execution_job jobs = [?job]" "\<exists>j \<in> set jobs. executing j"
      using spawn_filters [OF Some] job free(3) idle by (auto simp: filter_empty_conv)
    moreover have "j = ?job \<or> \<not> holding j \<and> \<not> execution_job j \<and> \<not> absence_read j" if "j \<in> set jobs" for j
      using jobs_spawn_Some(2) [OF Some] idle that by blast
    moreover have "\<not> absence_read ?job" by (simp add: absence_read_def)
    moreover have "pending_true j (rt_db S)" if "j \<in> set jobs" for j
      using jobs_spawn_Some(2) [OF Some] idle_pending that by (auto simp: pending_true_def)
    ultimately have "jobs_ok jobs (Some ?sel) (rt_db S)" unfolding jobs_ok_def by (metis (no_types, lifting) One_nat_def
        Job.select_convs(1,2) WorkerSelection.select_convs(1) length_Cons list.size(3) option.simps(9) order_refl)
    moreover note \<open>filter holding jobs = [?job]\<close> \<open>\<exists>j \<in> set jobs. executing j\<close>
    ultimately show ?thesis
      using free stopped jobs_spawn_Some(1) [OF Some]
      by (simp add: S' runtime_ok_def strong_count_def upgrade_def permit_ok_def)
  qed
qed

lemma submit_probe_ok:
  assumes "runtime_ok S" "rt_permits S = 0" "submit_probe locks k S = (S', decision)"
  shows "runtime_ok S'"
proof -
  let ?pinned = "map_option ws_operation_id (upgrade S)"
  let ?job = "\<lparr>jb_operation_id = k, jb_pin = ?pinned, jb_phase = ProbeStarted, jb_sent = False\<rparr>"
  have job: "\<not> execution_job ?job" "\<not> absence_read ?job" "\<not> executing ?job" "holding ?job \<longleftrightarrow> upgrade S \<noteq> None"
    by (auto simp: execution_job_def absence_read_def executing_def holding_def)
  show ?thesis
  proof (cases "upgrade S")
    case None
    show ?thesis
    proof (cases "jobs_spawn (lk_jobs locks) ?job (rt_jobs S)")
      case (Some jobs)
      with assms(3) None have "S' = S\<lparr>rt_jobs := jobs\<rparr>" by (simp add: submit_probe_def Let_def)
      with plain_spawn_ok [OF assms(1) Some] job None show ?thesis by simp
    qed (use assms None in \<open>simp add: submit_probe_def Let_def\<close>)
  next
    case (Some selection)
    then have sel: "rt_selected S = Some selection" "0 < ws_strong selection" by (auto simp: upgrade_def split: option.splits if_splits)
    have pin: "rt_selected (pin_selection S) = Some (selection\<lparr>ws_strong := ws_strong selection + 1\<rparr>)" "rt_jobs (pin_selection S) = rt_jobs S"
      using sel by (simp_all add: pin_selection_def)
    show ?thesis
    proof (cases "jobs_spawn (lk_jobs locks) ?job (rt_jobs S)")
      case None
      with assms(3) Some pin have "S' = drop_selection (pin_selection S)" by (simp add: submit_probe_def Let_def)
      then have "S' = S" using sel by (simp add: drop_selection_def pin_selection_def)
      with assms(1) show ?thesis by simp
    next
      case (Some jobs)
      with assms(3) \<open>upgrade S = Some selection\<close> pin have S': "S' = (pin_selection S)\<lparr>rt_jobs := jobs\<rparr>"
        by (simp add: submit_probe_def Let_def)
      have "jobs_ok jobs (rt_selected (pin_selection S)) (rt_db S)"
        by (rule jobs_ok_spawn [where selected = "rt_selected S", OF _ Some job(1,2)]) (use assms(1) pin sel \<open>upgrade S = Some selection\<close> in \<open>simp_all add: runtime_ok_def\<close>)
      moreover have "length (filter holding jobs) = Suc (length (filter holding (rt_jobs S)))"
        "(\<exists>j \<in> set jobs. executing j) \<longleftrightarrow> (\<exists>j \<in> set (rt_jobs S). executing j)"
        using spawn_filters [OF Some] job \<open>upgrade S = Some selection\<close> by simp_all
      moreover have "length (filter holding (rt_jobs S)) = ws_strong selection"
        using assms(1) sel by (simp add: runtime_ok_def strong_count_def)
      ultimately show ?thesis
        using assms(1) sel jobs_spawn_Some(1) [OF Some]
        by (simp add: S' runtime_ok_def strong_count_def upgrade_def pin_selection_def permit_ok_def)
    qed
  qed
qed

lemma stopped_ok:
  assumes "runtime_ok S" "i < length (rt_jobs S)" "jb_phase (rt_jobs S ! i) \<in> {ExecutionRunning, ExecutionDecided None}"
    "execution_stopped locks i result S = (S', decision)"
  shows "runtime_ok S'"
proof -
  let ?S = "S\<lparr>rt_stopped := record_stop (lk_stopped locks) (rt_stopped S) (jb_operation_id (rt_jobs S ! i)) result\<rparr>"
  have "runtime_ok ?S"
    using assms(1) record_stop_bounded [of "rt_stopped S"] by (simp add: runtime_ok_def strong_count_def upgrade_def)
  from set_job_ok [OF this, of i "(rt_jobs S ! i)\<lparr>jb_phase := ExecutionRecorded, jb_sent := True\<rparr>"] assms(2-4)
  show ?thesis by (auto simp: execution_stopped_def Let_def execution_job_def executing_def absence_read_def pending_true_def)
qed

lemma admission_ok:
  assumes "runtime_ok S" "i < length (rt_jobs S)" "jb_phase (rt_jobs S ! i) = ExecutionRunning" "w_db w = rt_db S"
    "execution_admission C app G execution (jb_operation_id (rt_jobs S ! i)) w = w'"
  shows "runtime_ok (set_job i ((rt_jobs S ! i)\<lparr>jb_phase := ExecutionDecided (acknowledged_decision w w')\<rparr>) (S\<lparr>rt_db := w_db w'\<rparr>))"
proof -
  have "db_ok (w_db w)" using assms(1,4) by (simp add: runtime_ok_def)
  note sound = execution_admission_sound [OF this assms(5)]
  have "runtime_ok (S\<lparr>rt_db := w_db w'\<rparr>)"
    by (rule db_moved_ok [OF assms(1-3)]) (use sound(1) assms(4) in simp)
  from set_job_ok [OF this, of i "(rt_jobs S ! i)\<lparr>jb_phase := ExecutionDecided (acknowledged_decision w w')\<rparr>"] assms(2,3) sound(2)
  show ?thesis by (simp add: execution_job_def executing_def absence_read_def pending_true_def)
qed

lemma runtime_ok_reachable:
  assumes "runtime_reachable C app S"
  shows "runtime_ok S"
  using assms
proof induction
  case (initial db)
  then show ?case
    by (simp add: runtime_ok_def server_new_def strong_count_def upgrade_def permit_ok_def jobs_ok_def CONNECTIONS_MAX_def)
next
  case (step S a S')
  note ok = step.IH
  note phases = execution_job_def executing_def absence_read_def pending_true_def
  from step(2) show ?case
  proof cases
    case (submitted locks k decision)
    then show ?thesis using submit_execution_ok [OF ok] submit_probe_ok [OF ok] ok
      by (auto simp: admit_submission_def split: if_splits)
  next
    case (read_spawned rok k jobs)
    then show ?thesis using plain_spawn_ok [OF ok read_spawned(3)] by (simp add: execution_job_def)
  next
    case (admission i w G execution w')
    then show ?thesis using admission_ok [OF ok admission(3,4,6,7)] by simp
  next
    case (acknowledged i d)
    then show ?thesis using set_job_ok [OF ok, of i] by (simp add: phases)
  next
    case (row_written i call delivery r db')
    then have "own_rows (jb_operation_id (rt_jobs S ! i)) (rt_db S) db'"
      using any_perform_own_rows [OF _ row_written(7)] ok by (simp add: runtime_ok_def)
    with row_written show ?thesis using db_moved_ok [OF ok] by simp
  next
    case (stopped i locks result decision)
    then show ?thesis using stopped_ok [OF ok] by blast
  next
    case (ended i)
    then show ?thesis using ended_ok [OF ok] by simp
  next
    case (probed i)
    let ?j = "(rt_jobs S ! i)\<lparr>jb_phase := ProbeRead (admitted_state C app (jb_operation_id (rt_jobs S ! i)) (rt_db S))\<rparr>"
    have "absence_read ?j \<longrightarrow> absent (jb_operation_id ?j) (rt_db S)"
      using admitted_state_row(1) by (auto simp: absence_read_def)
    then show ?thesis using set_job_ok [OF ok probed(3), of ?j] probed by (simp add: execution_job_def executing_def pending_true_def)
  next
    case (probe_failed i error)
    then show ?thesis using set_job_ok [OF ok, of i] by (simp add: phases)
  next
    case (compared i result locks)
    have "absent (jb_operation_id (rt_jobs S ! i)) (rt_db S)"
      if "absence_read ((rt_jobs S ! i)\<lparr>jb_phase := ProbeCompared result current\<rparr>)" for current
    proof -
      have "absence_read (rt_jobs S ! i)" using that compared(4) by (auto simp: absence_read_def)
      then show ?thesis using ok compared(3) unfolding runtime_ok_def jobs_ok_def by auto
    qed
    then show ?thesis using set_job_ok [OF ok compared(3)] compared(2,4) by (auto simp: execution_job_def executing_def pending_true_def)
  next
    case (decided i result current)
    then show ?thesis using set_job_ok [OF ok, of i] by (simp add: phases)
  next
    case (retired i)
    then show ?thesis using retire_job_ok [OF ok] by simp
  next
    case permit_returned
    then show ?thesis using ok by (simp add: runtime_ok_def permit_ok_def strong_count_def upgrade_def)
  qed
qed

text \<open>A row that a probe has seen stays.\<close>

definition presence_read :: "Job \<Rightarrow> bool" where
  "presence_read job \<longleftrightarrow> (\<exists>st. jb_phase job = ProbeRead (Inr (Some st)) \<or> (\<exists>current. jb_phase job = ProbeCompared (Inr (Some st)) current))"

lemma submit_jobs:
  assumes "admit_submission locks k S = (S', decision)"
  shows "rt_db S' = rt_db S" "j \<in> set (rt_jobs S') \<Longrightarrow> presence_read j \<Longrightarrow> j \<in> set (rt_jobs S)"
    "decision \<noteq> Some (Decided d)"
proof -
  note defs = admit_submission_def submit_execution_def submit_probe_def Let_def stop_running_def pin_selection_def
  show "rt_db S' = rt_db S" "decision \<noteq> Some (Decided d)"
    using assms by (auto simp: defs split: if_splits option.splits)
  have "\<not> presence_read (job\<lparr>jb_phase := ExecutionRunning\<rparr>)" "\<not> presence_read (job\<lparr>jb_phase := ProbeStarted\<rparr>)" for job
    by (simp_all add: presence_read_def)
  then show "j \<in> set (rt_jobs S') \<Longrightarrow> presence_read j \<Longrightarrow> j \<in> set (rt_jobs S)"
    using assms by (auto simp: defs presence_read_def split: if_splits option.splits dest!: jobs_spawn_Some(2))
qed

lemma row_kept:
  assumes "runtime_step C app S a S'" "db_ok (rt_db S)" "absent k (rt_db S')"
  shows "absent k (rt_db S)"
  using assms(1)
proof cases
  case (submitted locks k' decision)
  with submit_jobs(1) [OF submitted(2)] assms(3) show ?thesis by simp
next
  case (admission i w G execution w')
  with own_rows_absent [OF execution_admission_sound(1) [OF _ admission(7)]] assms(2,3) show ?thesis by simp
next
  case (row_written i call delivery r db')
  with own_rows_absent [OF any_perform_own_rows [OF assms(2) row_written(7)]] assms(3) show ?thesis by simp
qed (use assms(3) in \<open>auto simp: execution_stopped_def retire_job_def stop_running_def Let_def split: if_splits\<close>)

lemma presence_read_new:
  assumes "runtime_step C app S a S'" "j \<in> set (rt_jobs S')" "presence_read j" "j \<notin> set (rt_jobs S)"
  shows "\<not> absent (jb_operation_id j) (rt_db S) \<or> (\<exists>j' \<in> set (rt_jobs S). presence_read j' \<and> jb_operation_id j' = jb_operation_id j)"
  using assms(1)
proof cases
  case (submitted locks k decision)
  with assms(2-4) submit_jobs(2) [OF submitted(2)] show ?thesis by blast
next
  case (read_spawned rok k jobs)
  with assms(2) jobs_spawn_Some(2) [OF read_spawned(3)] have "j \<in> set (rt_jobs S) \<or> jb_phase j = ReadRunning" by auto
  with assms(3,4) show ?thesis by (auto simp: presence_read_def)
next
  case (probed i)
  with assms(2-4) admitted_state_row(2) show ?thesis by (auto simp: presence_read_def dest!: set_update_cases)
next
  case (compared i result locks)
  have "presence_read (rt_jobs S ! i)" if "presence_read ((rt_jobs S ! i)\<lparr>jb_phase := ProbeCompared result current\<rparr>)" for current
    using that compared(4) by (auto simp: presence_read_def)
  then have "\<exists>j' \<in> set (rt_jobs S). presence_read j' \<and> jb_operation_id j' = jb_operation_id j"
    if "j = (rt_jobs S ! i)\<lparr>jb_phase := ProbeCompared result (probe_current locks S (jb_operation_id (rt_jobs S ! i)))\<rparr>"
    using that compared(3) assms(3) by (auto intro!: bexI [of _ "rt_jobs S ! i"])
  with compared assms(2-4) show ?thesis by (auto dest!: set_update_cases)
qed (use assms(2-4) in \<open>auto simp: execution_stopped_def retire_job_def stop_running_def Let_def presence_read_def
  split: if_splits dest!: set_update_cases\<close>)

lemma presence_reachable:
  "runtime_reachable C app S \<Longrightarrow> j \<in> set (rt_jobs S) \<Longrightarrow> presence_read j \<Longrightarrow> \<not> absent (jb_operation_id j) (rt_db S)"
proof (induction arbitrary: j rule: runtime_reachable.induct)
  case (step S a S')
  have "db_ok (rt_db S)" using runtime_ok_reachable [OF step(1)] by (simp add: runtime_ok_def)
  with row_kept [OF step(2)] presence_read_new [OF step(2,4,5)] step.IH step(5) show ?case by metis
qed (simp add: server_new_def)

lemma record_stop_subset: "set (record_stop ok stopped k result) \<subseteq> insert (k, stop_observation result) (set stopped)"
proof -
  have "set (tl xs) \<subseteq> set xs" for xs :: "(string \<times> ExecutionObservation) list" by (cases xs) auto
  note tl = subset_trans [OF this filter_is_subset]
  show ?thesis
    unfolding record_stop_def Let_def using tl [of "\<lambda>(ident, _). ident \<noteq> k" stopped] filter_is_subset [of "\<lambda>(ident, _). ident \<noteq> k" stopped]
    by auto
qed

lemma stopped_observations: "runtime_reachable C app S \<Longrightarrow> \<forall>entry \<in> set (rt_stopped S). snd entry \<noteq> ObservedActive"
proof (induction rule: runtime_reachable.induct)
  case (step S a S')
  have entry: "stop_observation result \<noteq> ObservedActive" for result
    by (cases result rule: stop_observation.cases) simp_all
  from step(2) show ?case
  proof cases
    case (submitted locks k decision)
    with step.IH show ?thesis
      by (auto simp: admit_submission_def submit_execution_def submit_probe_def Let_def stop_running_def pin_selection_def
          split: if_splits option.splits)
  next
    case (stopped i locks result decision)
    with step.IH entry show ?thesis
      using record_stop_subset by (fastforce simp: execution_stopped_def Let_def)
  qed (use step.IH in \<open>auto simp: retire_job_def stop_running_def Let_def\<close>)
qed (simp add: server_new_def)

lemma filter_executing: "filter executing (filter execution_job jobs) = filter executing jobs"
proof -
  have "(\<lambda>j. execution_job j \<and> executing j) = executing" by (auto simp: executing_def execution_job_def)
  then show ?thesis by simp
qed

section \<open>Properties\<close>

text \<open>
  C33. A decision given to a caller is true of the journal when it is given: over every interleaving
  of submissions, executions, probes and reads, an identity is answered ADMITTED only while the
  journal has a row for it; busy only while neither table has one; and full only while neither
  table has one and the journal holds 504 identities or 32 unfinished ones. This is so although the
  admission or the read behind the answer and the answer itself are separate steps, with writes of
  executions in between.
\<close>

theorem submission_decisions_true:
  assumes "runtime_reachable C app S" "runtime_step C app S (Some (k, Decided d)) S'"
  shows "decision_holds d k (rt_db S')"
  using assms(2)
proof cases
  case (submitted locks k' decision)
  with submit_jobs(3) [OF submitted(2), of d] show ?thesis by (cases decision) (auto simp: answer_def)
next
  case (acknowledged i)
  then have "pending_true (rt_jobs S ! i) (rt_db S)"
    using runtime_ok_reachable [OF assms(1)] by (simp add: runtime_ok_def jobs_ok_def)
  with acknowledged show ?thesis by (simp add: pending_true_def)
next
  case (stopped i locks result decision)
  then show ?thesis by (auto simp: answer_def execution_stopped_def Let_def split: if_splits)
next
  case (decided i result current)
  let ?job = "rt_jobs S ! i"
  have job: "?job \<in> set (rt_jobs S)" using decided by simp
  have "\<not> absent (jb_operation_id ?job) (rt_db S)" if "result = Inr (Some st)" for st
    using presence_reachable [OF assms(1)] job that decided unfolding presence_read_def by blast
  moreover have "absent (jb_operation_id ?job) (rt_db S)" if "result = Inr None" "jb_pin ?job \<notin> {None, Some (jb_operation_id ?job)}"
    using runtime_ok_reachable [OF assms(1)] job that decided unfolding runtime_ok_def jobs_ok_def absence_read_def by blast
  moreover have "d = Busy \<and> result = Inr None \<and> jb_pin ?job \<notin> {None, Some (jb_operation_id ?job)} \<or> (\<exists>st. d = Admitted st \<and> result = Inr (Some st))"
    using decided unfolding probe_decision_def
    by (cases "(result, map_option (\<lambda>owner. owner = jb_operation_id ?job) (jb_pin ?job), current)" rule: contended_admission.cases) auto
  ultimately show ?thesis using decided by auto
qed

text \<open>
  C34. One execution at a time, and nothing leaks: in every reachable state at most one job
  executes; an identity is reported active exactly while a job executes it, never because a
  probe still holds the permit; at most eight jobs and 32 stop records of distinct identities are
  kept; and when no job holds a selection the permit is free or being returned, so that the next
  submission is not refused for ever.
\<close>

theorem one_execution_and_no_leak:
  assumes "runtime_reachable C app S"
  shows "length (filter executing (rt_jobs S)) \<le> 1 \<and>
    (observation True ok S k = ObservedActive \<longleftrightarrow> (\<exists>j \<in> set (rt_jobs S). executing j \<and> jb_operation_id j = k)) \<and>
    length (rt_jobs S) \<le> 8 \<and> length (rt_stopped S) \<le> 32 \<and> distinct (map fst (rt_stopped S)) \<and>
    (rt_permits S = 1 \<longleftrightarrow> filter holding (rt_jobs S) = [] \<and> \<not> rt_dropping S) \<and> rt_permits S \<le> 1"
proof -
  have ok: "runtime_ok S" by (rule runtime_ok_reachable [OF assms])
  then have jobs: "jobs_ok (rt_jobs S) (rt_selected S) (rt_db S)" by (simp add: runtime_ok_def)
  have "length (filter executing (rt_jobs S)) \<le> length (filter execution_job (rt_jobs S))"
    by (metis filter_executing length_filter_le)
  with jobs have one: "length (filter executing (rt_jobs S)) \<le> 1" by (simp add: jobs_ok_def)
  have selected: "\<exists>sel. upgrade S = Some sel \<and> ws_operation_id sel = jb_operation_id j \<and> ws_running sel"
    if "j \<in> set (rt_jobs S)" "executing j" for j
  proof -
    have pin: "jb_pin j = Some (jb_operation_id j)" using jobs that by (auto simp: jobs_ok_def executing_def execution_job_def)
    then have "holding j" using that(2) by (auto simp: holding_def executing_def)
    with pin jobs that(1) obtain sel where sel: "rt_selected S = Some sel" "ws_operation_id sel = jb_operation_id j"
      unfolding jobs_ok_def by force
    have "0 < length (filter holding (rt_jobs S))" using \<open>holding j\<close> that(1) by (auto simp: filter_empty_conv)
    with ok sel have "upgrade S = Some sel" by (simp add: runtime_ok_def strong_count_def upgrade_def)
    with ok sel that show ?thesis by (auto simp: runtime_ok_def)
  qed
  have stopped: "snd entry \<noteq> ObservedActive" if "find P (rt_stopped S) = Some entry" for P entry
    using stopped_observations [OF assms] that by (auto simp: find_Some_iff)
  have "observation True ok S k = ObservedActive \<longleftrightarrow> (\<exists>sel. upgrade S = Some sel \<and> ws_operation_id sel = k \<and> ws_running sel)"
    using stopped [of "\<lambda>(ident, _). ident = k"] by (auto simp: observation_def split: option.splits if_splits)
  also have "\<dots> \<longleftrightarrow> (\<exists>j \<in> set (rt_jobs S). executing j \<and> jb_operation_id j = k)"
    using selected ok by (auto simp: runtime_ok_def) metis+
  finally show ?thesis using one ok by (auto simp: runtime_ok_def permit_ok_def CONNECTIONS_MAX_def split: if_splits)
qed

subsection \<open>Witnesses\<close>

text \<open>One identity executes while another, which the catalog offers, is submitted and probed.\<close>

definition example_locks :: Locks where
  "example_locks = \<lparr>lk_selected = True, lk_stopped = True, lk_jobs = True, lk_reads = True\<rparr>"

definition contended_state :: "JobPhase \<Rightarrow> ServerState" where
  "contended_state phase = \<lparr>rt_permits = 0, rt_selected = Some \<lparr>ws_operation_id = ''op-1'', ws_running = True, ws_strong = 2\<rparr>,
     rt_dropping = False, rt_stopped = [],
     rt_jobs = [\<lparr>jb_operation_id = ''op-1'', jb_pin = Some ''op-1'', jb_phase = ExecutionRunning, jb_sent = False\<rparr>,
       \<lparr>jb_operation_id = ''git-op-1'', jb_pin = Some ''op-1'', jb_phase = phase, jb_sent = False\<rparr>],
     rt_db = w_db empty_world\<rparr>"

lemma empty_db_ok: "db_ok (w_db empty_world)"
  using empty_world_ok(1) by (simp add: git_journal_ok_def)

lemma offered_selection:
  "retained_for_selection example_crypto serving_application ''git-op-1'' (w_db empty_world) = Inr (SelectGit example_signed_grant None)"
proof -
  have "identity_is_valid ''git-op-1''" by code_simp
  then show ?thesis
    using retained_git_None [of example_crypto "[example_git_trust]" "''git-op-1''" "w_db empty_world"]
      retained_operation_None [of example_crypto "[example_git_trust]" "''git-op-1''" "w_db empty_world"]
    by (simp add: retained_for_selection_def serving_application_def catalog_selection_def granted_identity empty_world_def row_of_def)
qed

text \<open>The admission of that identity on an empty journal, in a world where commits are confirmed.\<close>

definition offered_world :: World where
  "offered_world = execution_admission example_crypto serving_application working_env serving_execution ''git-op-1'' empty_world"

lemma offered_decision: "acknowledged_decision empty_world offered_world = Some (Admitted Authorized)"
proof -
  have b: "gb_operation_id granted_binding = ''git-op-1''" by (simp add: granted_identity)
  obtain w' where w': "admit_git_request example_crypto [example_git_trust] working_env ''git-op-1'' example_signed_grant empty_world =
      (Inr (Some (granted_binding, Authorized)), w')"
    using admit_completes [OF example_settings_valid(2) empty_world_ok(3) example_crypto_ok empty_world_ok(1)
        granted_binding_verified empty_world_ok(2)] b by auto
  moreover obtain settings where "signing_settings serving_execution = Inr settings"
    using serving_ready(5) by (simp add: signing_settings_def serving_execution_def)
  moreover have "sa_authorities serving_application = [example_git_trust]" by (simp add: serving_application_def)
  ultimately have "offered_world = w'"
    by (simp add: offered_world_def execution_admission_def offered_selection)
  with truthful_admit_git [OF empty_db_ok w'] show ?thesis by (auto simp: truthful_def acknowledged_decision_def)
qed

definition offered_state :: "JobPhase \<Rightarrow> Db \<Rightarrow> ServerState" where
  "offered_state phase db = \<lparr>rt_permits = 0, rt_selected = Some \<lparr>ws_operation_id = ''git-op-1'', ws_running = True, ws_strong = 1\<rparr>,
     rt_dropping = False, rt_stopped = [],
     rt_jobs = [\<lparr>jb_operation_id = ''git-op-1'', jb_pin = Some ''git-op-1'', jb_phase = phase, jb_sent = False\<rparr>], rt_db = db\<rparr>"

lemma offered_reachable:
  "runtime_reachable example_crypto serving_application (offered_state (ExecutionDecided (Some (Admitted Authorized))) (w_db offered_world))"
proof -
  let ?reachable = "runtime_reachable example_crypto serving_application" and ?step = "runtime_step example_crypto serving_application"
  have "admit_submission example_locks ''git-op-1'' (server_new (w_db empty_world)) = (offered_state ExecutionRunning (w_db empty_world), None)"
    by (simp add: admit_submission_def submit_execution_def jobs_spawn_def server_new_def example_locks_def CONNECTIONS_MAX_def
        offered_state_def Let_def)
  then have "?reachable (offered_state ExecutionRunning (w_db empty_world))"
    using runtime_reachable.step [OF runtime_reachable.initial [OF empty_db_ok]] runtime_step.submitted by blast
  moreover have "?step (offered_state ExecutionRunning (w_db empty_world)) None
      (offered_state (ExecutionDecided (Some (Admitted Authorized))) (w_db offered_world))"
    using runtime_step.admission [of 0 "offered_state ExecutionRunning (w_db empty_world)" empty_world example_crypto serving_application
        working_env serving_execution offered_world] offered_decision
    by (simp add: offered_state_def set_job_def offered_world_def)
  ultimately show ?thesis using runtime_reachable.step by blast
qed

lemma contended_reachable: "runtime_reachable example_crypto serving_application (contended_state ProbeStarted)"
  "runtime_reachable example_crypto serving_application (contended_state (ProbeCompared (Inr None) (Inr False)))"
proof -
  let ?reachable = "runtime_reachable example_crypto serving_application" and ?step = "runtime_step example_crypto serving_application"
  let ?S0 = "server_new (w_db empty_world)"
  let ?S1 = "\<lparr>rt_permits = 0, rt_selected = Some \<lparr>ws_operation_id = ''op-1'', ws_running = True, ws_strong = 1\<rparr>, rt_dropping = False,
    rt_stopped = [], rt_jobs = [\<lparr>jb_operation_id = ''op-1'', jb_pin = Some ''op-1'', jb_phase = ExecutionRunning, jb_sent = False\<rparr>],
    rt_db = w_db empty_world\<rparr> :: ServerState"
  note defs = admit_submission_def submit_execution_def submit_probe_def jobs_spawn_def upgrade_def pin_selection_def
    server_new_def example_locks_def CONNECTIONS_MAX_def contended_state_def Let_def numeral_2_eq_2
  have "?reachable ?S0" by (rule runtime_reachable.initial [OF empty_db_ok])
  moreover have "admit_submission example_locks ''op-1'' ?S0 = (?S1, None)" by (simp add: defs)
  ultimately have "?reachable ?S1" using runtime_reachable.step runtime_step.submitted by blast
  moreover have "admit_submission example_locks ''git-op-1'' ?S1 = (contended_state ProbeStarted, None)" by (simp add: defs)
  ultimately show S2: "?reachable (contended_state ProbeStarted)" using runtime_reachable.step runtime_step.submitted by blast
  have "admitted_state example_crypto serving_application ''git-op-1'' (w_db empty_world) = Inr None"
    by (simp add: admitted_state_def offered_selection)
  then have "?step (contended_state ProbeStarted) None (contended_state (ProbeRead (Inr None)))"
    using runtime_step.probed [of 1 "contended_state ProbeStarted" example_crypto serving_application] by (simp add: contended_state_def set_job_def)
  with S2 have "?reachable (contended_state (ProbeRead (Inr None)))" using runtime_reachable.step by blast
  moreover have "?step (contended_state (ProbeRead (Inr None))) None (contended_state (ProbeCompared (Inr None) (Inr False)))"
    using runtime_step.compared [of 1 "contended_state (ProbeRead (Inr None))" "Inr None" example_crypto serving_application example_locks]
    by (simp add: contended_state_def set_job_def probe_current_def example_locks_def upgrade_def)
  ultimately show "?reachable (contended_state (ProbeCompared (Inr None) (Inr False)))" using runtime_reachable.step by blast
qed

theorem submission_decisions_true_witness:
  "(\<exists>S'. runtime_step example_crypto serving_application (contended_state (ProbeCompared (Inr None) (Inr False)))
      (Some (''git-op-1'', Decided Busy)) S' \<and> absent ''git-op-1'' (rt_db S')) \<and>
   (\<exists>S'. runtime_step example_crypto serving_application
      (offered_state (ExecutionDecided (Some (Admitted Authorized))) (w_db offered_world))
      (Some (''git-op-1'', Decided (Admitted Authorized))) S' \<and> \<not> absent ''git-op-1'' (rt_db S'))"
proof -
  let ?step = "runtime_step example_crypto serving_application"
  let ?S = "contended_state (ProbeCompared (Inr None) (Inr False))"
  let ?T = "offered_state (ExecutionDecided (Some (Admitted Authorized))) (w_db offered_world)"
  obtain S' where S': "?step ?S (Some (''git-op-1'', Decided Busy)) S'"
    using runtime_step.decided [of 1 ?S "Inr None" "Inr False"] by (auto simp: contended_state_def probe_decision_def)
  obtain T' where T': "?step ?T (Some (''git-op-1'', Decided (Admitted Authorized))) T'"
    using runtime_step.acknowledged [of 0 ?T "Admitted Authorized"] by (auto simp: offered_state_def)
  from submission_decisions_true [OF contended_reachable(2) S'] S' submission_decisions_true [OF offered_reachable T'] T'
  show ?thesis by auto
qed

theorem one_execution_and_no_leak_witness:
  "observation True True (contended_state ProbeStarted) ''op-1'' = ObservedActive \<and>
   observation True True (contended_state ProbeStarted) ''git-op-1'' \<noteq> ObservedActive"
  using one_execution_and_no_leak [OF contended_reachable(1), of True "''op-1''"]
    one_execution_and_no_leak [OF contended_reachable(1), of True "''git-op-1''"]
  by (simp add: contended_state_def executing_def)

end
