(* ===== verification/KubeAdapter.thy ===== *)
theory KubeAdapter
  imports Gateway
begin

text \<open>
  The Kubernetes adapter, \<open>src/gateway/kubernetes/adapter.rs\<close>: the read that identifies the
  target, the one conditional patch, and the bounded observation of the Deployment. The cluster
  behind the client library is a parameter: for each request it gives the response, or none when
  the request outlived its timeout, and for each read of an observation also the instants around
  it. \<open>adapter_env\<close> makes it the environment of the gateway.
\<close>

section \<open>Deployments and JSON documents\<close>

text \<open>The fields of the client library's types that the adapter reads.\<close>

record Container =
  ct_name :: string
  ct_image :: "string option"

record DeploymentSpec =
  dsp_replicas :: "i32 option"
  dsp_containers :: "Container list option"

record DeploymentCondition =
  dc_type :: string
  dc_status :: string
  dc_reason :: "string option"

record DeploymentStatus =
  dst_observed_generation :: "i64 option"
  dst_updated_replicas :: "i32 option"
  dst_available_replicas :: "i32 option"
  dst_unavailable_replicas :: "i32 option"
  dst_conditions :: "DeploymentCondition list option"

record Deployment =
  d_uid :: "string option"
  d_resource_version :: "string option"
  d_generation :: "i64 option"
  d_annotations :: "(string \<rightharpoonup> string) option"
  d_spec :: "DeploymentSpec option"
  d_status :: "DeploymentStatus option"

text \<open>A JSON value; an object lists its members, whose order has no meaning.\<close>

datatype Json = JNull | JBool bool | JNumber int | JString string | JArray "Json list" | JObject "(string \<times> Json) list"

section \<open>Requests to the cluster\<close>

datatype KubeError = ApiError nat | OtherError

type_synonym Response = "(KubeError, Deployment) result option"

text \<open>
  One read of an observation: the instants before and after it in nanoseconds, its response, and
  whether the timer around the whole observation fires while the read, or the pause after it, is
  awaited.
\<close>

record KubeRead =
  kr_before :: nat
  kr_response :: Response
  kr_after :: nat
  kr_cut_read :: bool
  kr_cut_pause :: bool

record Cluster =
  k_get :: "nat \<Rightarrow> string \<Rightarrow> string \<Rightarrow> Response"
  k_patch :: "nat \<Rightarrow> string \<Rightarrow> string \<Rightarrow> Json \<Rightarrow> Response"
  k_now :: "nat \<Rightarrow> nat"
  k_read :: "nat \<Rightarrow> string \<Rightarrow> string \<Rightarrow> nat \<Rightarrow> KubeRead"

definition OPERATION_ANNOTATION :: string where
  "OPERATION_ANNOTATION = ''kapsel.dev/kap0038-operation-id''"

definition OBSERVATION_ATTEMPTS_MAX :: nat where
  "OBSERVATION_ATTEMPTS_MAX = 180"

definition OBSERVATION_DEADLINE :: nat where
  "OBSERVATION_DEADLINE = 180 * 10 ^ 9"

fun target_get_error :: "KubeError \<Rightarrow> TargetReadError" where
  "target_get_error (ApiError code) = (if code = 404 then Permanent DeploymentNotFound else Transient)"
| "target_get_error OtherError = Transient"

definition template_containers :: "Deployment \<Rightarrow> Container list option" where
  "template_containers deployment = Option.bind (d_spec deployment) dsp_containers"

definition container_exists :: "SetDeploymentImageRequest \<Rightarrow> Deployment \<Rightarrow> bool" where
  "container_exists request deployment =
     (case template_containers deployment of
        None \<Rightarrow> False
      | Some containers \<Rightarrow> list_ex (\<lambda>container. ct_name container = rq_container request) containers)"

definition identify :: "Response \<Rightarrow> SetDeploymentImageRequest \<Rightarrow> (TargetReadError, TargetIdentity) result" where
  "identify response request =
     rbind (ok_or Transient response) (\<lambda>got.
     rbind (map_err target_get_error got) (\<lambda>deployment.
     if \<not> container_exists request deployment then Inl (Permanent ContainerNotFound)
     else rbind (ok_or (Permanent InvalidTarget) (d_uid deployment)) (\<lambda>deployment_uid.
     rbind (ok_or (Permanent InvalidTarget) (d_resource_version deployment)) (\<lambda>resource_version.
     let target = \<lparr>ti_deployment_uid = deployment_uid, ti_resource_version = resource_version\<rparr> in
     rbind (map_err (\<lambda>_. Permanent InvalidTarget) (target_validate target)) (\<lambda>_. Inr target)))))"

definition deployment_patch_document :: "SetDeploymentImageRequest \<Rightarrow> TargetIdentity \<Rightarrow> Json" where
  "deployment_patch_document request target = JObject
     [(''apiVersion'', JString ''apps/v1''),
      (''kind'', JString ''Deployment''),
      (''metadata'', JObject
        [(''name'', JString (rq_deployment request)),
         (''namespace'', JString (rq_namespace request)),
         (''uid'', JString (ti_deployment_uid target)),
         (''resourceVersion'', JString (ti_resource_version target)),
         (''annotations'', JObject [(OPERATION_ANNOTATION, JString (rq_operation_id request))])]),
      (''spec'', JObject [(''template'', JObject [(''spec'', JObject [(''containers'', JArray [JObject
        [(''name'', JString (rq_container request)),
         (''image'', JString (rq_immutable_image_digest request))]])])])])]"

definition apply_response :: "Response \<Rightarrow> TargetIdentity \<Rightarrow> (unit, ApplyOutcome) result" where
  "apply_response response target =
     rbind (ok_or () response) (\<lambda>patched.
     rbind (map_err (\<lambda>_. ()) patched) (\<lambda>deployment.
     rbind (ok_or () (d_uid deployment)) (\<lambda>deployment_uid.
     if deployment_uid \<noteq> ti_deployment_uid target then Inl ()
     else rbind (ok_or () (d_resource_version deployment)) (\<lambda>resource_version.
     Inr \<lparr>ao_accepted = True, ao_requested_generation = d_generation deployment,
          ao_deployment_uid = Some deployment_uid, ao_resource_version = Some resource_version\<rparr>))))"

definition apply_patch :: "(string \<Rightarrow> string \<Rightarrow> Json \<Rightarrow> Response) \<Rightarrow> DispatchPermission \<Rightarrow> (unit, ApplyOutcome) result" where
  "apply_patch patch permission =
     (let (request, target) = into_payload permission in
      apply_response (patch (rq_namespace request) (rq_deployment request) (deployment_patch_document request target)) target)"

section \<open>Observation\<close>

definition deadline_condition :: "DeploymentCondition \<Rightarrow> bool" where
  "deadline_condition condition \<longleftrightarrow> dc_type condition = ''Progressing'' \<and> dc_status condition = ''False'' \<and>
     dc_reason condition = Some ''ProgressDeadlineExceeded''"

definition rollout_condition :: "Deployment \<Rightarrow> DeploymentCondition option" where
  "rollout_condition deployment =
     Option.bind (Option.bind (d_status deployment) dst_conditions) (\<lambda>conditions.
       case find deadline_condition conditions of
         Some condition \<Rightarrow> Some condition
       | None \<Rightarrow> find (\<lambda>condition. dc_type condition = ''Available'' \<and> dc_status condition = ''True'') conditions)"

definition receiver_observation :: "SetDeploymentImageRequest \<Rightarrow> Deployment \<Rightarrow> ReceiverObservation" where
  "receiver_observation request deployment =
     (let status = d_status deployment; condition = rollout_condition deployment in
      \<lparr>ro_deployment_uid = d_uid deployment, ro_resource_version = d_resource_version deployment,
       ro_current_generation = d_generation deployment,
       ro_observed_generation = Option.bind status dst_observed_generation,
       ro_image = Option.bind (Option.bind (template_containers deployment)
         (find (\<lambda>container. ct_name container = rq_container request))) ct_image,
       ro_operation_marker = Option.bind (d_annotations deployment) (\<lambda>annotations. annotations OPERATION_ANNOTATION),
       ro_desired_replicas = Option.bind (d_spec deployment) dsp_replicas,
       ro_updated_replicas = map_option (\<lambda>st. case dst_updated_replicas st of None \<Rightarrow> 0 | Some n \<Rightarrow> n) status,
       ro_available_replicas = map_option (\<lambda>st. case dst_available_replicas st of None \<Rightarrow> 0 | Some n \<Rightarrow> n) status,
       ro_unavailable_replicas = map_option (\<lambda>st. case dst_unavailable_replicas st of None \<Rightarrow> 0 | Some n \<Rightarrow> n) status,
       ro_rollout_condition_type = map_option dc_type condition,
       ro_rollout_condition_status = map_option dc_status condition,
       ro_rollout_condition_reason = Option.bind condition dc_reason\<rparr>)"

definition read_observation :: "SetDeploymentImageRequest \<Rightarrow> Response \<Rightarrow> ReceiverObservation" where
  "read_observation request response =
     (case response of Some (Inr deployment) \<Rightarrow> receiver_observation request deployment | _ \<Rightarrow> unknown)"

text \<open>
  The loop from read \<open>i\<close> with \<open>n\<close> reads left; it gives \<open>None\<close> when the timer around it fires
  first.
\<close>

fun observe_until_terminal ::
    "(nat \<Rightarrow> KubeRead) \<Rightarrow> SetDeploymentImageRequest \<Rightarrow> ApplyOutcome \<Rightarrow> nat \<Rightarrow> nat \<Rightarrow> nat \<Rightarrow> ReceiverObservation \<Rightarrow>
      ReceiverObservation option" where
  "observe_until_terminal responses request outcome deadline 0 i latest_observation = Some latest_observation"
| "observe_until_terminal responses request outcome deadline (Suc n) i latest_observation =
     (if kr_before (responses i) \<ge> deadline then Some unknown
      else if kr_cut_read (responses i) then None
      else if kr_after (responses i) \<ge> deadline then Some unknown
      else let latest_observation = read_observation request (kr_response (responses i)) in
        if observation_is_complete latest_observation request outcome \<or> n = 0 then Some latest_observation
        else if kr_cut_pause (responses i) then None
        else observe_until_terminal responses request outcome deadline n (Suc i) latest_observation)"

definition observe_deployment ::
    "(nat \<Rightarrow> KubeRead) \<Rightarrow> nat \<Rightarrow> SetDeploymentImageRequest \<Rightarrow> ApplyOutcome \<Rightarrow> (unit, ReceiverObservation) result" where
  "observe_deployment responses now request outcome =
     (let deadline = now + OBSERVATION_DEADLINE in
      Inr (case observe_until_terminal responses request outcome deadline OBSERVATION_ATTEMPTS_MAX 0 unknown of
             None \<Rightarrow> unknown | Some ob \<Rightarrow> ob))"

text \<open>The adapter as the receiver side of a gateway environment.\<close>

definition adapter_env :: "Cluster \<Rightarrow> Env \<Rightarrow> Env" where
  "adapter_env K E = E\<lparr>
     env_identify := (\<lambda>t request. identify (k_get K t (rq_namespace request) (rq_deployment request)) request),
     env_apply := (\<lambda>t permission. apply_patch (k_patch K t) permission),
     env_observe := (\<lambda>t request outcome.
       observe_deployment (k_read K t (rq_namespace request) (rq_deployment request)) (k_now K t) request outcome)\<rparr>"

section \<open>What the adapter reports\<close>

lemma unknown_incomplete: "\<not> observation_is_complete unknown request outcome"
  by (simp add: observation_is_complete_def observation_result_def requested_generation_for_def unknown_def Let_def
      split: option.splits)

text \<open>A read that ends in time, and one that shows the operation decided.\<close>

definition timely :: "(nat \<Rightarrow> KubeRead) \<Rightarrow> nat \<Rightarrow> nat \<Rightarrow> bool" where
  "timely responses deadline i \<longleftrightarrow> kr_before (responses i) < deadline \<and> \<not> kr_cut_read (responses i) \<and> kr_after (responses i) < deadline"

definition decided :: "(nat \<Rightarrow> KubeRead) \<Rightarrow> SetDeploymentImageRequest \<Rightarrow> ApplyOutcome \<Rightarrow> nat \<Rightarrow> bool" where
  "decided responses request outcome i \<longleftrightarrow> observation_is_complete (read_observation request (kr_response (responses i))) request outcome"

text \<open>The loop goes on after a read in time that is not decided and whose pause is not cut.\<close>

definition goes_on :: "(nat \<Rightarrow> KubeRead) \<Rightarrow> SetDeploymentImageRequest \<Rightarrow> ApplyOutcome \<Rightarrow> nat \<Rightarrow> nat \<Rightarrow> bool" where
  "goes_on responses request outcome deadline l \<longleftrightarrow>
     timely responses deadline l \<and> \<not> decided responses request outcome l \<and> \<not> kr_cut_pause (responses l)"

text \<open>What the read \<open>j\<close> ends the observation with, \<open>final\<close> being the last read allowed.\<close>

definition observed_at ::
    "(nat \<Rightarrow> KubeRead) \<Rightarrow> SetDeploymentImageRequest \<Rightarrow> ApplyOutcome \<Rightarrow> nat \<Rightarrow> nat \<Rightarrow> nat \<Rightarrow> ReceiverObservation \<Rightarrow> bool" where
  "observed_at responses request outcome deadline final j ob \<longleftrightarrow>
     timely responses deadline j \<and> (decided responses request outcome j \<or> j = final) \<and>
       ob = read_observation request (kr_response (responses j)) \<or>
     (\<not> timely responses deadline j \<or> \<not> decided responses request outcome j \<and> j \<noteq> final \<and> kr_cut_pause (responses j)) \<and> ob = unknown"

lemma observe_until_terminal_at:
  "(case observe_until_terminal responses request outcome deadline (Suc n) i latest of None \<Rightarrow> unknown | Some found \<Rightarrow> found) = ob \<longleftrightarrow>
    (\<exists>j. i \<le> j \<and> j \<le> i + n \<and> list_all (goes_on responses request outcome deadline) [i..<j] \<and>
      observed_at responses request outcome deadline (i + n) j ob)"
  (is "_ \<longleftrightarrow> (\<exists>j. ?ends n i j)")
proof (induction n arbitrary: i latest)
  case 0
  have "(\<exists>j. ?ends 0 i j) \<longleftrightarrow> ?ends 0 i i" using le_antisym by auto
  then show ?case by (auto simp: observed_at_def timely_def)
next
  case (Suc n)
  have later: "?ends (Suc n) i j \<longleftrightarrow> goes_on responses request outcome deadline i \<and> ?ends n (Suc i) j" if "i < j" for j
    using that by (auto simp: upt_conv_Cons Suc_le_eq)
  have split: "(\<exists>j. Q j) \<longleftrightarrow> Q i \<or> (\<exists>j. i < j \<and> Q j)" if "\<And>j. Q j \<Longrightarrow> i \<le> j" for Q
    using that by (metis order_le_less)
  have "(\<exists>j. ?ends (Suc n) i j) \<longleftrightarrow> ?ends (Suc n) i i \<or> (\<exists>j. i < j \<and> ?ends (Suc n) i j)"
    by (rule split) simp
  also have "\<dots> \<longleftrightarrow> observed_at responses request outcome deadline (i + Suc n) i ob \<or>
      goes_on responses request outcome deadline i \<and> (\<exists>j. ?ends n (Suc i) j)"
  proof -
    have "(\<exists>j. i < j \<and> ?ends (Suc n) i j) \<longleftrightarrow> goes_on responses request outcome deadline i \<and> (\<exists>j. ?ends n (Suc i) j)"
      using later by (metis (no_types, lifting) Suc_le_eq)
    then show ?thesis by simp
  qed
  finally have ends: "(\<exists>j. ?ends (Suc n) i j) \<longleftrightarrow> observed_at responses request outcome deadline (i + Suc n) i ob \<or>
      goes_on responses request outcome deadline i \<and> (\<exists>j. ?ends n (Suc i) j)" .
  show ?case
  proof (cases "goes_on responses request outcome deadline i")
    case True
    then have "\<not> observed_at responses request outcome deadline (i + Suc n) i ob"
      by (auto simp: goes_on_def observed_at_def)
    with True Suc.IH [of "Suc i" "read_observation request (kr_response (responses i))"] ends show ?thesis
      by (simp add: goes_on_def timely_def decided_def Let_def)
  next
    case False
    then show ?thesis unfolding ends
      by (auto simp: goes_on_def observed_at_def timely_def decided_def Let_def)
  qed
qed

lemma observation_deployment:
  assumes "read_observation request response = ob" "observation_is_complete ob request outcome"
  shows "\<exists>deployment. response = Some (Inr deployment) \<and> ob = receiver_observation request deployment"
  using assms unknown_incomplete by (auto simp: read_observation_def split: option.splits sum.splits)

lemma observed_container:
  assumes "ro_image (receiver_observation request deployment) = Some img"
  shows "\<exists>container \<in> set (the (template_containers deployment)). ct_name container = rq_container request \<and> ct_image container = Some img"
proof -
  obtain containers container where c: "template_containers deployment = Some containers"
    "find (\<lambda>container. ct_name container = rq_container request) containers = Some container" "ct_image container = Some img"
    using assms by (auto simp: receiver_observation_def Let_def bind_eq_Some_conv)
  from c(2) have "container \<in> set containers" "ct_name container = rq_container request" by (auto simp: find_Some_iff)
  with c(1,3) show ?thesis by auto
qed

lemma observe_deployment_at:
  "observe_deployment responses now request outcome = Inr ob \<longleftrightarrow>
    (\<exists>j. j < 180 \<and> list_all (goes_on responses request outcome (now + 180 * 10 ^ 9)) [0..<j] \<and>
      observed_at responses request outcome (now + 180 * 10 ^ 9) 179 j ob)"
proof -
  have "OBSERVATION_ATTEMPTS_MAX = Suc 179" by (simp add: OBSERVATION_ATTEMPTS_MAX_def)
  then show ?thesis
    using observe_until_terminal_at [of responses request outcome "now + 180 * 10 ^ 9" 179 0 unknown ob]
    by (simp add: observe_deployment_def OBSERVATION_DEADLINE_def del: observe_until_terminal.simps)
      (simp flip: less_Suc_eq_le)
qed

lemma observation_read:
  assumes "observe_deployment responses now request outcome = Inr ob" "observation_is_complete ob request outcome"
  shows "\<exists>j. j < 180 \<and> timely responses (now + 180 * 10 ^ 9) j \<and>
     (\<exists>deployment. kr_response (responses j) = Some (Inr deployment) \<and> ob = receiver_observation request deployment)"
proof -
  from assms unknown_incomplete [of request outcome] obtain j where j: "j < 180" "timely responses (now + 180 * 10 ^ 9) j"
    "ob = read_observation request (kr_response (responses j))"
    unfolding observe_deployment_at observed_at_def by auto
  with observation_deployment [OF j(3) [symmetric] assms(2)] show ?thesis by blast
qed

section \<open>Properties\<close>

text \<open>
  C30. A target is rejected for good only on definite evidence, and accepted only when it can be
  named: identification returns a target exactly for a Deployment that was read, has the
  requested container and carries a UID and a resource version within the fact bounds; it is
  permanently rejected exactly when the receiver answered that the Deployment does not exist or
  showed one without these facts; a timeout or any other failure stays transient.
\<close>

theorem identify_definite:
  "(identify response request = Inr target \<longleftrightarrow> (\<exists>deployment. response = Some (Inr deployment) \<and> container_exists request deployment \<and>
      d_uid deployment = Some (ti_deployment_uid target) \<and> d_resource_version deployment = Some (ti_resource_version target) \<and>
      (\<exists>valid. validated_target_try_from target = Inr valid))) \<and>
   (identify response request = Inl Transient \<longleftrightarrow> response = None \<or> (\<exists>e. response = Some (Inl e) \<and> e \<noteq> ApiError 404)) \<and>
   (identify response request = Inl (Permanent rejection) \<longleftrightarrow>
      rejection = DeploymentNotFound \<and> response = Some (Inl (ApiError 404)) \<or>
      (\<exists>deployment. response = Some (Inr deployment) \<and>
        (rejection = ContainerNotFound \<and> \<not> container_exists request deployment \<or>
         rejection = InvalidTarget \<and> container_exists request deployment \<and>
         (\<nexists>t. target_valid t \<and> d_uid deployment = Some (vt_deployment_uid t) \<and> d_resource_version deployment = Some (vt_resource_version t)))))"
proof -
  consider (timeout) "response = None" | (error) e where "response = Some (Inl e)" | (read) deployment where "response = Some (Inr deployment)"
    by (cases response; cases "the response") auto
  then show ?thesis
  proof cases
    case timeout
    then show ?thesis by (simp add: identify_def)
  next
    case (error e)
    then show ?thesis by (cases e) (auto simp: identify_def)
  next
    case (read deployment)
    show ?thesis
    proof (cases "d_uid deployment"; cases "d_resource_version deployment")
      fix uid version
      assume facts: "d_uid deployment = Some uid" "d_resource_version deployment = Some version"
      let ?target = "\<lparr>ti_deployment_uid = uid, ti_resource_version = version\<rparr>"
      have valid: "(\<exists>t. target_valid t \<and> uid = vt_deployment_uid t \<and> version = vt_resource_version t) \<longleftrightarrow> target_validate ?target = Inr ()"
        by (auto simp: target_validate_def rbind_eq_Inr target_valid_def
            intro!: exI [of _ "\<lparr>vt_deployment_uid = uid, vt_resource_version = version\<rparr>"])
      show ?thesis
        using read facts valid by (cases "target_validate ?target"; cases target)
          (auto simp: identify_def Let_def validated_target_try_from_def)
    qed (use read in \<open>auto simp: identify_def\<close>)
  qed
qed

text \<open>
  C31. An observation is what the receiver showed in time, and only that: the adapter returns
  \<open>ob\<close> exactly when, for some read \<open>j\<close> of at most 180, every earlier read started and ended before
  the deadline, was undecided and was followed by an uncut pause, and either read \<open>j\<close> started and
  ended before the deadline, is decided or the last one, and \<open>ob\<close> is what it showed, or read \<open>j\<close>
  met the deadline, or the pause after it did, and \<open>ob\<close> is the unknown observation. An earlier,
  undecided observation is never returned for a later one.
\<close>

theorem observation_is_first_decided_read:
  "observe_deployment responses now request outcome = Inr ob \<longleftrightarrow>
   (let timely = (\<lambda>l. kr_before (responses l) < now + 180 * 10 ^ 9 \<and> \<not> kr_cut_read (responses l) \<and>
          kr_after (responses l) < now + 180 * 10 ^ 9);
        seen = (\<lambda>l. read_observation request (kr_response (responses l)));
        decided = (\<lambda>l. observation_is_complete (seen l) request outcome)
    in \<exists>j. j < 180 \<and> list_all (\<lambda>l. timely l \<and> \<not> decided l \<and> \<not> kr_cut_pause (responses l)) [0..<j] \<and>
        (timely j \<and> (decided j \<or> j = 179) \<and> ob = seen j \<or>
         (\<not> timely j \<or> \<not> decided j \<and> j \<noteq> 179 \<and> kr_cut_pause (responses j)) \<and> ob = unknown))"
  unfolding observe_deployment_at Let_def observed_at_def
  by (simp add: goes_on_def [abs_def] timely_def decided_def)

text \<open>
  C32. What SUCCEEDED rests on: when the adapter sends the patch of a permission, is answered with
  an accepted outcome, and its later observation for the permitted request classifies as SUCCEEDED,
  one of its 180 reads of the permitted Deployment began and ended before the deadline, 180 seconds
  after the observation began, and showed the very Deployment the patch named, carrying this
  operation's marker, with the approved container at the approved image, all replicas updated and
  available and the generation of the patch seen by its controller.
\<close>

theorem succeeded_was_read:
  assumes "env_apply (adapter_env K E) t permission = Inr outcome"
    "env_observe (adapter_env K E) t' (to_adapter_request (dp_request permission)) outcome = Inr ob"
    "classify ob (dp_request permission) outcome = Succeeded"
  shows "\<exists>j deployment container g.
    j < 180 \<and>
    (let r = k_read K t' (vr_namespace (dp_request permission)) (vr_deployment (dp_request permission)) j in
      kr_before r < k_now K t' + 180 * 10 ^ 9 \<and> kr_after r < k_now K t' + 180 * 10 ^ 9 \<and> \<not> kr_cut_read r \<and>
      kr_response r = Some (Inr deployment)) \<and>
    d_uid deployment = Some (vt_deployment_uid (dp_target permission)) \<and> d_generation deployment = Some g \<and>
    ao_requested_generation outcome \<in> {None, Some g} \<and>
    Option.bind (d_annotations deployment) (\<lambda>a. a OPERATION_ANNOTATION) = Some (vr_operation_id (dp_request permission)) \<and>
    container \<in> set (the (template_containers deployment)) \<and> ct_name container = vr_container (dp_request permission) \<and>
    ct_image container = Some (vr_immutable_image (dp_request permission)) \<and>
    all_replicas_available ob \<and> ob = receiver_observation (to_adapter_request (dp_request permission)) deployment"
proof -
  let ?request = "dp_request permission"
  let ?reads = "k_read K t' (vr_namespace ?request) (vr_deployment ?request)"
  have uid: "ao_deployment_uid outcome = Some (vt_deployment_uid (dp_target permission))"
    using assms(1) by (auto simp: adapter_env_def apply_patch_def into_payload_def apply_response_def rbind_eq_Inr
        to_adapter_target_def split: if_splits)
  have "observation_is_complete ob (to_adapter_request ?request) outcome"
    using assms(3) by (simp add: observation_is_complete_def classify_def to_adapter_request_def)
  moreover have "observe_deployment ?reads (k_now K t') (to_adapter_request ?request) outcome = Inr ob"
    using assms(2) by (simp add: adapter_env_def to_adapter_request_def)
  ultimately obtain j deployment where j: "j < 180" "timely ?reads (k_now K t' + 180 * 10 ^ 9) j"
    "kr_response (?reads j) = Some (Inr deployment)" "ob = receiver_observation (to_adapter_request ?request) deployment"
    using observation_read by blast
  obtain g where g: "establishes ob ?request (vt_deployment_uid (dp_target permission)) g"
    "ao_requested_generation outcome \<in> {None, Some g}" and all: "all_replicas_available ob"
    using assms(3) uid unfolding classify_by_established outcome_established_def by (auto split: if_splits)
  obtain container where "container \<in> set (the (template_containers deployment))"
    "ct_name container = vr_container ?request" "ct_image container = Some (vr_immutable_image ?request)"
    using observed_container [of "to_adapter_request ?request" deployment "vr_immutable_image ?request"] g(1) j(4)
    by (auto simp: establishes_def to_adapter_request_def)
  moreover from g(1) j(4) have "d_uid deployment = Some (vt_deployment_uid (dp_target permission))" "d_generation deployment = Some g"
    "Option.bind (d_annotations deployment) (\<lambda>a. a OPERATION_ANNOTATION) = Some (vr_operation_id ?request)"
    by (auto simp: establishes_def receiver_observation_def Let_def)
  ultimately show ?thesis using j g(2) all unfolding timely_def Let_def by blast
qed

definition example_cluster_request :: ValidatedRequest where
  "example_cluster_request = \<lparr>vr_operation_id = ''op-1'', vr_namespace = ''demo'', vr_deployment = ''web'',
     vr_container = ''app'', vr_immutable_image = ''registry/app@sha256:aa''\<rparr>"

definition example_deployment :: Deployment where
  "example_deployment = \<lparr>d_uid = Some ''uid-1'', d_resource_version = Some ''8'', d_generation = Some 2,
     d_annotations = Some [OPERATION_ANNOTATION \<mapsto> ''op-1''],
     d_spec = Some \<lparr>dsp_replicas = Some 3, dsp_containers = Some [\<lparr>ct_name = ''app'', ct_image = Some ''registry/app@sha256:aa''\<rparr>]\<rparr>,
     d_status = Some \<lparr>dst_observed_generation = Some 2, dst_updated_replicas = Some 3, dst_available_replicas = Some 3,
       dst_unavailable_replicas = None, dst_conditions = Some [\<lparr>dc_type = ''Available'', dc_status = ''True'', dc_reason = None\<rparr>]\<rparr>\<rparr>"

text \<open>
  A cluster that accepts the patch and whose first read, one second into the observation, shows the
  Deployment with one replica still unavailable; from the second read on the rollout is complete.
\<close>

definition rolling_deployment :: Deployment where
  "rolling_deployment = example_deployment\<lparr>d_status := Some \<lparr>dst_observed_generation = Some 2, dst_updated_replicas = Some 3,
     dst_available_replicas = Some 2, dst_unavailable_replicas = Some 1, dst_conditions = None\<rparr>\<rparr>"

definition example_cluster :: Cluster where
  "example_cluster = \<lparr>k_get = (\<lambda>_ _ _. Some (Inr rolling_deployment)), k_patch = (\<lambda>_ _ _ _. Some (Inr example_deployment)),
     k_now = (\<lambda>t. t * 10 ^ 9),
     k_read = (\<lambda>t ns name i. \<lparr>kr_before = (t + i) * 10 ^ 9, kr_response = Some (Inr (if i = 0 then rolling_deployment else example_deployment)),
       kr_after = (t + i) * 10 ^ 9 + 5, kr_cut_read = False, kr_cut_pause = False\<rparr>)\<rparr>"

definition example_permission :: DispatchPermission where
  "example_permission = \<lparr>dp_request = example_cluster_request,
     dp_target = \<lparr>vt_deployment_uid = ''uid-1'', vt_resource_version = ''7''\<rparr>\<rparr>"

definition example_outcome :: ApplyOutcome where
  "example_outcome = \<lparr>ao_accepted = True, ao_requested_generation = Some 2, ao_deployment_uid = Some ''uid-1'',
     ao_resource_version = Some ''8''\<rparr>"

lemmas example_cluster_defs = example_cluster_def example_deployment_def rolling_deployment_def example_permission_def
  example_outcome_def example_cluster_request_def to_adapter_request_def

lemmas classification_defs = observation_is_complete_def classify_def observation_result_def requested_generation_for_def
  receiver_observation_def Let_def rollout_condition_def deadline_condition_def template_containers_def
  available_condition_def progress_deadline_exceeded_def

lemma example_decided:
  "observation_is_complete (receiver_observation (to_adapter_request example_cluster_request) example_deployment)
     (to_adapter_request example_cluster_request) example_outcome"
  "\<not> observation_is_complete (receiver_observation (to_adapter_request example_cluster_request) rolling_deployment)
     (to_adapter_request example_cluster_request) example_outcome"
  by (simp_all add: classification_defs example_cluster_defs)

lemma example_cluster_run:
  "env_apply (adapter_env example_cluster E) 0 example_permission = Inr example_outcome"
  "env_observe (adapter_env example_cluster E) 1 (to_adapter_request example_cluster_request) example_outcome =
    Inr (receiver_observation (to_adapter_request example_cluster_request) example_deployment)"
  "classify (receiver_observation (to_adapter_request example_cluster_request) example_deployment) example_cluster_request example_outcome =
    Succeeded"
proof -
  let ?request = "to_adapter_request example_cluster_request"
  show "env_apply (adapter_env example_cluster E) 0 example_permission = Inr example_outcome"
    by (simp add: adapter_env_def apply_patch_def into_payload_def apply_response_def to_adapter_target_def example_cluster_defs)
  show "classify (receiver_observation ?request example_deployment) example_cluster_request example_outcome = Succeeded"
    by (simp add: classification_defs example_cluster_defs)
  from example_decided show "env_observe (adapter_env example_cluster E) 1 ?request example_outcome = Inr (receiver_observation ?request example_deployment)"
    by (simp add: adapter_env_def observe_deployment_at observed_at_def goes_on_def timely_def decided_def read_observation_def
        example_cluster_def) (rule exI [of _ 1], simp add: goes_on_def timely_def decided_def read_observation_def)
qed

theorem observation_is_first_decided_read_witness:
  "observe_deployment (k_read example_cluster 1 ''demo'' ''web'') (10 ^ 9) (to_adapter_request example_cluster_request) example_outcome =
     Inr (receiver_observation (to_adapter_request example_cluster_request) example_deployment) \<and>
   observe_deployment (\<lambda>i. (k_read example_cluster 1 ''demo'' ''web'' i)\<lparr>kr_after := if i = 0 then 10 ^ 9 else 181 * 10 ^ 9\<rparr>) (10 ^ 9)
     (to_adapter_request example_cluster_request) example_outcome = Inr unknown"
proof
  show "observe_deployment (k_read example_cluster 1 ''demo'' ''web'') (10 ^ 9) (to_adapter_request example_cluster_request) example_outcome =
      Inr (receiver_observation (to_adapter_request example_cluster_request) example_deployment)"
    by (rule observation_is_first_decided_read [THEN iffD2], unfold Let_def, rule exI [of _ 1])
      (use example_decided in \<open>simp add: read_observation_def example_cluster_def\<close>)
  show "observe_deployment (\<lambda>i. (k_read example_cluster 1 ''demo'' ''web'' i)\<lparr>kr_after := if i = 0 then 10 ^ 9 else 181 * 10 ^ 9\<rparr>) (10 ^ 9)
      (to_adapter_request example_cluster_request) example_outcome = Inr unknown"
    by (rule observation_is_first_decided_read [THEN iffD2], unfold Let_def, rule exI [of _ 1])
      (use example_decided in \<open>simp add: read_observation_def example_cluster_def\<close>)
qed

theorem succeeded_was_read_witness:
  "classify (receiver_observation (to_adapter_request example_cluster_request) example_deployment) example_cluster_request example_outcome =
     Succeeded \<and>
   (\<exists>j. 0 < j \<and> j < 180 \<and> kr_response (k_read example_cluster 1 ''demo'' ''web'' j) = Some (Inr example_deployment) \<and>
     kr_after (k_read example_cluster 1 ''demo'' ''web'' j) < 181 * 10 ^ 9)"
proof -
  let ?request = "to_adapter_request example_cluster_request"
  have fresh: "receiver_observation ?request rolling_deployment \<noteq> receiver_observation ?request example_deployment"
    by (simp add: receiver_observation_def Let_def example_cluster_defs)
  have "env_observe (adapter_env example_cluster undefined) 1 (to_adapter_request (dp_request example_permission)) example_outcome =
      Inr (receiver_observation ?request example_deployment)"
    "classify (receiver_observation ?request example_deployment) (dp_request example_permission) example_outcome = Succeeded"
    using example_cluster_run(2,3) by (simp_all add: example_permission_def)
  from succeeded_was_read [OF example_cluster_run(1) this]
  obtain j deployment where "j < 180"
    "kr_response (k_read example_cluster 1 (vr_namespace example_cluster_request) (vr_deployment example_cluster_request) j) = Some (Inr deployment)"
    "kr_after (k_read example_cluster 1 (vr_namespace example_cluster_request) (vr_deployment example_cluster_request) j) <
      k_now example_cluster 1 + 180 * 10 ^ 9"
    "receiver_observation ?request example_deployment = receiver_observation ?request deployment"
    unfolding Let_def example_permission_def by auto
  with fresh example_cluster_run(3) show ?thesis
    by (intro conjI exI [of _ j]) (auto simp: example_cluster_def split: if_splits)
qed

end
