(* ===== verification/Protocol.thy ===== *)
theory Protocol
  imports Runtime KubeAdapter
begin

text \<open>
  The texts the daemon reads and writes: the framed requests and rendered responses of
  \<open>crates/kapsel-daemon/src/server/protocol.rs\<close>, the bridge of \<open>server.rs\<close> from a read request to
  the service application, the connection handler of \<open>runtime.rs\<close>, and the operator document of
  \<open>src/application/service/document.rs\<close>. The JSON library is a parameter: a parser of the typed
  request or document, a parser of values and a printer. A text is a list of characters, one for
  each byte; what is rendered here is ASCII.
\<close>

section \<open>Frames and requests\<close>

definition REQUEST_BYTES_MAX :: nat where
  "REQUEST_BYTES_MAX = 16 * 1024"

definition ORDINARY_RESPONSE_BYTES_MAX :: nat where
  "ORDINARY_RESPONSE_BYTES_MAX = 16 * 1024"

definition RECEIPT_RESPONSE_BYTES_MAX :: nat where
  "RECEIPT_RESPONSE_BYTES_MAX = 40 * 1024"

datatype Request =
  RequestList nat Json | RequestHistory nat Json | RequestStatus nat string | RequestReceipt nat string | RequestSubmit nat string

datatype ResponseClass = Ordinary | ReceiptClass

datatype ReadRequest = ReadList "string option" | ReadHistory "string option" | ReadStatus string | ReadReceipt string

datatype Command = CommandRead ReadRequest | CommandSubmit string

definition request_length :: "bytes \<Rightarrow> nat option" where
  "request_length prefix =
     (let n = from_be prefix in if n > 0 \<and> n \<le> REQUEST_BYTES_MAX then Some n else None)"

definition is_ascii_whitespace :: "byte \<Rightarrow> bool" where
  "is_ascii_whitespace byte \<longleftrightarrow> byte \<in> {9, 10, 12, 13, 32}"

fun cursor :: "Json \<Rightarrow> string option option" where
  "cursor JNull = Some None"
| "cursor (JString ident) = (if identity_is_valid ident then Some (Some ident) else None)"
| "cursor _ = None"

fun command_of :: "Request \<Rightarrow> Command option" where
  "command_of (RequestList version after) =
     (if version = 1 then map_option (\<lambda>c. CommandRead (ReadList c)) (cursor after) else None)"
| "command_of (RequestHistory version after) =
     (if version = 1 then map_option (\<lambda>c. CommandRead (ReadHistory c)) (cursor after) else None)"
| "command_of (RequestStatus version operation_id) =
     (if version = 1 \<and> identity_is_valid operation_id then Some (CommandRead (ReadStatus operation_id)) else None)"
| "command_of (RequestReceipt version operation_id) =
     (if version = 1 \<and> identity_is_valid operation_id then Some (CommandRead (ReadReceipt operation_id)) else None)"
| "command_of (RequestSubmit version operation_id) =
     (if version = 1 \<and> identity_is_valid operation_id then Some (CommandSubmit operation_id) else None)"

definition decode_request :: "(bytes \<Rightarrow> Request option) \<Rightarrow> bytes \<Rightarrow> Command option" where
  "decode_request from_slice bs =
     (if bs = [] \<or> length bs > REQUEST_BYTES_MAX \<or> find (\<lambda>byte. \<not> is_ascii_whitespace byte) bs \<noteq> Some 123 then None
      else Option.bind (from_slice bs) command_of)"

definition response_length_allowed :: "nat \<Rightarrow> ResponseClass \<Rightarrow> bool" where
  "response_length_allowed n class \<longleftrightarrow>
     (let maximum = (case class of Ordinary \<Rightarrow> ORDINARY_RESPONSE_BYTES_MAX | ReceiptClass \<Rightarrow> RECEIPT_RESPONSE_BYTES_MAX) in
      n > 0 \<and> n \<le> maximum \<and> n < 2 ^ 32)"

text \<open>The input is all the caller sends before it closes its side.\<close>

definition read_request_frame :: "bytes \<Rightarrow> (unit, bytes) result" where
  "read_request_frame input =
     (if length input < 4 then Inl ()
      else rbind (ok_or () (request_length (take 4 input))) (\<lambda>n.
      if length (drop 4 input) < n then Inl ()
      else if drop (4 + n) input \<noteq> [] then Inl ()
      else Inr (take n (drop 4 input))))"

definition write_response_frame :: "string \<Rightarrow> (unit, bytes) result" where
  "write_response_frame body =
     (if length body < 2 ^ 32 then Inr (be_bytes 4 (length body) @ as_bytes body) else Inl ())"

section \<open>Responses\<close>

fun service_error_class :: "ServiceError \<Rightarrow> string" where
  "service_error_class InvalidRequest = ''invalid_request''"
| "service_error_class AuthorityUnavailable = ''authority_unavailable''"
| "service_error_class _ = ''operation_failure''"

definition service_error :: "ServiceError \<Rightarrow> string" where
  "service_error error =
     ''{\"version\":1,\"status\":\"ERROR\",\"error_class\":\"'' @ service_error_class error @ ''\"}''"

definition invalid_request :: string where
  "invalid_request = service_error InvalidRequest"

definition operation_failure :: string where
  "operation_failure = service_error OperationFailure"

fun phase_name :: "OperationState \<Rightarrow> string" where
  "phase_name Requested = ''requested''"
| "phase_name Authorized = ''authorized''"
| "phase_name NotAttempted = ''not_attempted''"
| "phase_name ApplyStarted = ''apply_started''"
| "phase_name ReceiverObserved = ''receiver_observed''"
| "phase_name Finalized = ''finalized''"

fun render_submission :: "SubmissionAdmission \<Rightarrow> string" where
  "render_submission (Decided (Admitted phase)) =
     ''{\"version\":1,\"status\":\"ADMITTED\",\"phase\":\"'' @ phase_name phase @ ''\"}''"
| "render_submission (Decided Busy) = ''{\"version\":1,\"status\":\"NOT_ADMITTED\",\"reason\":\"BUSY\"}''"
| "render_submission (Decided Full) = ''{\"version\":1,\"status\":\"NOT_ADMITTED\",\"reason\":\"CAPACITY\"}''"
| "render_submission Indeterminate = ''{\"version\":1,\"status\":\"INDETERMINATE\"}''"
| "render_submission (SubmissionError error) = service_error error"

fun target_rejection_name :: "TargetRejection \<Rightarrow> string" where
  "target_rejection_name DeploymentNotFound = ''DEPLOYMENT_NOT_FOUND''"
| "target_rejection_name ContainerNotFound = ''CONTAINER_NOT_FOUND''"
| "target_rejection_name InvalidTarget = ''INVALID_TARGET''"
| "target_rejection_name StaleApproval = ''STALE_APPROVAL''"
| "target_rejection_name GitStaleRef = ''GIT_STALE_REF''"
| "target_rejection_name GitInvalidObjects = ''GIT_INVALID_OBJECTS''"

fun render_status :: "(ServiceError, OperationStatus) result \<Rightarrow> string" where
  "render_status (Inr StNotFound) = ''{\"version\":1,\"status\":\"NOT_FOUND\"}''"
| "render_status (Inr StInProgress) = ''{\"version\":1,\"status\":\"IN_PROGRESS\"}''"
| "render_status (Inr StSucceeded) = ''{\"version\":1,\"status\":\"SUCCEEDED\"}''"
| "render_status (Inr StFailed) = ''{\"version\":1,\"status\":\"FAILED\"}''"
| "render_status (Inr StUnknown) = ''{\"version\":1,\"status\":\"UNKNOWN\"}''"
| "render_status (Inr (StNotAttempted rejection)) =
     ''{\"version\":1,\"status\":\"NOT_ATTEMPTED\",\"target_rejection\":\"'' @ target_rejection_name rejection @ ''\"}''"
| "render_status (Inl error) = service_error error"

text \<open>The last character of the object is replaced by a comma and the members of the other.\<close>

definition append_object_fields :: "string \<Rightarrow> string \<Rightarrow> string" where
  "append_object_fields rendered members = butlast rendered @ '','' @ tl members"

definition json_option :: "('a \<Rightarrow> Json) \<Rightarrow> 'a option \<Rightarrow> Json" where
  "json_option f v = (case v of None \<Rightarrow> JNull | Some x \<Rightarrow> f x)"

fun observed_ref_json :: "ObservedRef \<Rightarrow> Json" where
  "observed_ref_json (Commit oid) = JObject [(''kind'', JString ''commit''), (''commit'', JString oid)]"
| "observed_ref_json Missing = JObject [(''kind'', JString ''missing''), (''commit'', JNull)]"
| "observed_ref_json RefUnknown = JObject [(''kind'', JString ''unknown''), (''commit'', JNull)]"

definition git_targets_json :: "GitOperationTargets \<Rightarrow> Json" where
  "git_targets_json t = JObject
     [(''repository_id'', JString (ga_repository_id (gt_approval t))),
      (''reference'', JString (ga_reference (gt_approval t))),
      (''old_commit'', JString (ga_old_commit (gt_approval t))),
      (''new_commit'', JString (ga_new_commit (gt_approval t))),
      (''attempted'', JBool (gt_attempted t)),
      (''acknowledgement'', json_option (\<lambda>a. JString (ack_as_str a)) (gt_acknowledgement t)),
      (''observed_ref'', json_option observed_ref_json (gt_observed_ref t))]"

definition target_fields :: "ApprovedTarget \<Rightarrow> Json" where
  "target_fields target = JObject [(''uid'', JString (at_uid target)), (''resource_version'', JString (at_resource_version target))]"

definition observed_target_fields :: "ObservedTarget \<Rightarrow> Json" where
  "observed_target_fields target =
     JObject [(''uid'', json_option JString (obt_uid target)), (''resource_version'', json_option JString (obt_resource_version target))]"

definition targets_json :: "OperationTargets \<Rightarrow> Json" where
  "targets_json t =
     (case ot_git t of
        Some git \<Rightarrow> JObject [(''effect'', JString ''git.transition_ref''), (''git'', git_targets_json git)]
      | None \<Rightarrow> JObject
          [(''effect'', JString ''kubernetes.set_deployment_image''),
           (''approved_target'', json_option target_fields (ot_approved_target t)),
           (''attempt_target'', json_option target_fields (ot_attempt_target t)),
           (''observed_target'', json_option observed_target_fields (ot_observed_target t))])"

definition render_status_with_targets ::
    "(Json \<Rightarrow> string) \<Rightarrow> (ServiceError, OperationStatus \<times> OperationTargets) result \<Rightarrow> string" where
  "render_status_with_targets print result =
     (case result of
        Inl error \<Rightarrow> service_error error
      | Inr (status, ts) \<Rightarrow>
          if status = StNotFound then render_status (Inr status)
          else append_object_fields (render_status (Inr status)) (print (targets_json ts)))"

definition execution_json :: "ExecutionDisposition \<Rightarrow> Json" where
  "execution_json execution = JObject [(''execution'', JObject
     [(''disposition'', JString (disposition_as_str execution)),
      (''condition'', json_option (\<lambda>c. JString (condition_as_str c)) (disposition_condition execution)),
      (''next_action'', JString (next_action execution)),
      (''action_owner'', JString (action_owner execution))])]"

definition render_execution_status ::
    "(Json \<Rightarrow> string) \<Rightarrow> (ServiceError, OperationStatus \<times> OperationTargets \<times> ExecutionDisposition) result \<Rightarrow> string" where
  "render_execution_status print result =
     (case result of
        Inl error \<Rightarrow> service_error error
      | Inr (status, ts, execution) \<Rightarrow>
          append_object_fields (render_status_with_targets print (Inr (status, ts))) (print (execution_json execution)))"

definition valid_sha256 :: "string \<Rightarrow> bool" where
  "valid_sha256 value \<longleftrightarrow> length value = 64 \<and> list_all is_lowercase_hex (as_bytes value)"

definition lowercase_hex :: "bytes \<Rightarrow> string" where
  "lowercase_hex bs = concat (map (\<lambda>byte. [''0123456789abcdef'' ! unat (drop_bit 4 byte), ''0123456789abcdef'' ! unat (and byte 15)]) bs)"

definition WRAPPER_BYTES :: nat where
  "WRAPPER_BYTES = length ''{\"version\":1,\"status\":\"READY\",\"receipt_hex\":\"\",\"receipt_sha256\":\"\"}'' + 64"

text \<open>Lengths are machine words of 64 bits, which the checked arithmetic keeps.\<close>

fun render_receipt :: "(ServiceError, OperationReceipt) result \<Rightarrow> string" where
  "render_receipt (Inr ReceiptNotFound) = ''{\"version\":1,\"status\":\"NOT_FOUND\"}''"
| "render_receipt (Inr ReceiptNotReady) = ''{\"version\":1,\"status\":\"NOT_READY\"}''"
| "render_receipt (Inr (ReceiptReady bs sha)) =
     (if \<not> valid_sha256 sha then operation_failure
      else if length bs * 2 + WRAPPER_BYTES \<ge> 2 ^ 64 then []
      else if \<not> response_length_allowed (length bs * 2 + WRAPPER_BYTES) ReceiptClass then []
      else ''{\"version\":1,\"status\":\"READY\",\"receipt_hex\":\"'' @ lowercase_hex bs @
        ''\",\"receipt_sha256\":\"'' @ sha @ ''\"}'')"
| "render_receipt (Inl error) = service_error error"

fun catalog_entry_json :: "ApprovedAction \<Rightarrow> Json" where
  "catalog_entry_json (ApprovedKubernetes request approved_target label) = JObject
     [(''effect'', JString ''kubernetes.set_deployment_image''),
      (''operation_id'', JString (rq_operation_id request)),
      (''namespace'', JString (rq_namespace request)),
      (''deployment'', JString (rq_deployment request)),
      (''container'', JString (rq_container request)),
      (''immutable_image_digest'', JString (rq_immutable_image_digest request)),
      (''approved_target'', JObject [(''uid'', JString (at_uid approved_target)),
        (''resource_version'', JString (at_resource_version approved_target))]),
      (''label'', JString label)]"
| "catalog_entry_json (ApprovedGit authorization label) = JObject
     [(''effect'', JString ''git.transition_ref''),
      (''operation_id'', JString (ga_operation_id authorization)),
      (''repository_id'', JString (ga_repository_id authorization)),
      (''reference'', JString (ga_reference authorization)),
      (''old_commit'', JString (ga_old_commit authorization)),
      (''new_commit'', JString (ga_new_commit authorization)),
      (''label'', JString label)]"

definition page_json :: "Json list \<Rightarrow> string option \<Rightarrow> Json" where
  "page_json entries next_cursor = JObject
     [(''version'', JNumber 1), (''status'', JString ''READY''), (''entries'', JArray entries),
      (''next_cursor'', json_option JString next_cursor)]"

definition render_catalog :: "(Json \<Rightarrow> string) \<Rightarrow> ApprovedAction list \<Rightarrow> string option \<Rightarrow> string" where
  "render_catalog print entries next_cursor = print (page_json (map catalog_entry_json entries) next_cursor)"

definition history_fields :: "(string \<times> Json) list \<Rightarrow> string \<Rightarrow> (string \<times> Json) list" where
  "history_fields members operation_id =
     (''operation_id'', JString operation_id) # filter (\<lambda>(name, _). name \<notin> {''version'', ''operation_id''}) members"

definition history_entry_json ::
    "(Json \<Rightarrow> string) \<Rightarrow> (string \<Rightarrow> Json option) \<Rightarrow> (string \<Rightarrow> ExecutionObservation) \<Rightarrow> HistoryEntry \<Rightarrow> Json option" where
  "history_entry_json print parse observe_id entry =
     (case parse (render_execution_status print (history_execution_status entry (observe_id (he_operation_id entry)))) of
        Some (JObject members) \<Rightarrow> Some (JObject (history_fields members (he_operation_id entry)))
      | _ \<Rightarrow> None)"

definition render_execution_history ::
    "(Json \<Rightarrow> string) \<Rightarrow> (string \<Rightarrow> Json option) \<Rightarrow> (string \<Rightarrow> ExecutionObservation) \<Rightarrow> HistoryPage \<Rightarrow> string" where
  "render_execution_history print parse observe_id page =
     (let entries = map (history_entry_json print parse observe_id) (hp_entries page) in
      if None \<in> set entries then operation_failure
      else print (page_json (map the entries) (hp_next_cursor page)))"

section \<open>Dispatch\<close>

definition catalog_page :: "ServiceApplication \<Rightarrow> string option \<Rightarrow> (ServiceError, ApprovedAction list \<times> string option) result" where
  "catalog_page app after =
     rbind (approved_actions app after) (\<lambda>entries.
     rbind (if entries = [] then Inr None
       else rbind (approved_actions app (Some (action_operation_id (last entries)))) (\<lambda>more.
         Inr (if more \<noteq> [] then Some (action_operation_id (last entries)) else None))) (\<lambda>next_cursor.
     Inr (entries, next_cursor)))"

fun read_observed ::
    "(Json \<Rightarrow> string) \<Rightarrow> (string \<Rightarrow> Json option) \<Rightarrow> crypto \<Rightarrow> ServiceApplication \<Rightarrow> Db \<Rightarrow>
      (string \<Rightarrow> ExecutionObservation) \<Rightarrow> ReadRequest \<Rightarrow> string \<times> ResponseClass" where
  "read_observed print parse C app db observe_id (ReadStatus ident) =
     (render_execution_status print (execution_status C app ident (observe_id ident) db), Ordinary)"
| "read_observed print parse C app db observe_id (ReadReceipt ident) =
     (render_receipt (service_receipt C app ident db), ReceiptClass)"
| "read_observed print parse C app db observe_id (ReadList after) =
     ((case catalog_page app after of
         Inl error \<Rightarrow> service_error error
       | Inr (entries, next_cursor) \<Rightarrow> render_catalog print entries next_cursor), Ordinary)"
| "read_observed print parse C app db observe_id (ReadHistory after) =
     ((case service_history C app after db of
         Inl error \<Rightarrow> service_error error
       | Inr page \<Rightarrow> render_execution_history print parse observe_id page), Ordinary)"

text \<open>
  What the connection makes of a read job: it was not registered, it answered, it was lost, or
  the deadline passed first.
\<close>

datatype ReadOutcome = NotRegistered | ReadAnswered "string \<times> ResponseClass" | ReadLost | ReadElapsed

fun read_reply :: "ReadOutcome \<Rightarrow> string \<times> ResponseClass" where
  "read_reply NotRegistered = ([], Ordinary)"
| "read_reply (ReadAnswered response) = response"
| "read_reply ReadLost = (operation_failure, Ordinary)"
| "read_reply ReadElapsed = ([], Ordinary)"

definition dispatch_admitted ::
    "(bytes \<Rightarrow> Request option) \<Rightarrow> (ReadRequest \<Rightarrow> ReadOutcome) \<Rightarrow> (string \<Rightarrow> SubmissionAdmission) \<Rightarrow> bytes \<Rightarrow>
      string \<times> ResponseClass" where
  "dispatch_admitted from_slice read_job submit bs =
     (case decode_request from_slice bs of
        None \<Rightarrow> (invalid_request, Ordinary)
      | Some (CommandRead request) \<Rightarrow> read_reply (read_job request)
      | Some (CommandSubmit operation_id) \<Rightarrow> (render_submission (submit operation_id), Ordinary))"

text \<open>One connection: what is written back to a peer of the given group, if anything.\<close>

definition serve_admitted_connection ::
    "nat option \<Rightarrow> nat \<Rightarrow> (bytes \<Rightarrow> string \<times> ResponseClass) \<Rightarrow> bytes \<Rightarrow> bytes option" where
  "serve_admitted_connection gid expected_gid dispatch input =
     (if gid \<noteq> Some expected_gid then None
      else case read_request_frame input of
        Inl _ \<Rightarrow> None
      | Inr body \<Rightarrow>
          (let (response, class) = dispatch body in
           if \<not> response_length_allowed (length response) class then None
           else case write_response_frame response of Inl _ \<Rightarrow> None | Inr bs \<Rightarrow> Some bs))"

section \<open>The operator document\<close>

definition DOCUMENT_BYTES_MAX :: nat where
  "DOCUMENT_BYTES_MAX = 160 * 1024"

definition AUTHORIZATION_KEYS_MAX :: nat where
  "AUTHORIZATION_KEYS_MAX = 128"

definition APPROVALS_MAX :: nat where
  "APPROVALS_MAX = 32"

record AuthorizationKeyFields =
  ak_key_id :: string
  ak_public_key_hex :: string

record ApprovalFields =
  ap_label :: string
  ap_signed_grant_hex :: string

record ServiceDocumentFields =
  sf_service_configuration_version :: nat
  sf_authorization_keys :: "AuthorizationKeyFields list"
  sf_approvals :: "ApprovalFields list"
  sf_receipt_signing_key_id :: string

record ServiceOperatorDocument =
  sod_configuration :: ServiceConfiguration
  sod_receipt_signing_key_id :: string

definition hex_value :: "byte \<Rightarrow> byte" where
  "hex_value b = (if is_ascii_digit b then b - 48 else b - 87)"

fun hex_pairs :: "bytes \<Rightarrow> bytes" where
  "hex_pairs (a # b # rest) = (16 * hex_value a + hex_value b) # hex_pairs rest"
| "hex_pairs _ = []"

definition decode_hex :: "string \<Rightarrow> nat \<Rightarrow> (ServiceError, bytes) result" where
  "decode_hex s decoded_bytes_max =
     (if s = [] \<or> length s > decoded_bytes_max * 2 \<or> length s mod 2 \<noteq> 0 \<or> \<not> list_all is_lowercase_hex (as_bytes s)
      then Inl ServiceConfigurationInvalid
      else Inr (hex_pairs (as_bytes s)))"

definition decode_authorization_key :: "crypto \<Rightarrow> AuthorizationKeyFields \<Rightarrow> (ServiceError, AuthorizationTrust) result" where
  "decode_authorization_key C key =
     rbind (decode_hex (ak_public_key_hex key) 32) (\<lambda>public_key.
     if length public_key \<noteq> 32 then Inl ServiceConfigurationInvalid
     else let trust = \<lparr>tr_key_id = ak_key_id key, tr_public_key = public_key\<rparr> in
       rbind (map_err (\<lambda>_. ServiceConfigurationInvalid) (trust_validate C trust)) (\<lambda>_. Inr trust))"

definition decode_approval :: "ApprovalFields \<Rightarrow> (ServiceError, ServiceApproval) result" where
  "decode_approval approval =
     (if length (ap_label approval) > 128 then Inl ServiceConfigurationInvalid
      else if \<not> label_printable (ap_label approval) then Inl ServiceConfigurationInvalid
      else rbind (decode_hex (ap_signed_grant_hex approval) 4096) (\<lambda>signed_grant.
        Inr \<lparr>sv_signed_grant = signed_grant, sv_label = ap_label approval\<rparr>))"

fun collect :: "('a \<Rightarrow> ('e, 'b) result) \<Rightarrow> 'a list \<Rightarrow> ('e, 'b list) result" where
  "collect f [] = Inr []"
| "collect f (x # xs) = rbind (f x) (\<lambda>y. rbind (collect f xs) (\<lambda>ys. Inr (y # ys)))"

text \<open>The parser gives the fields of an object with exactly the named members; the arrays are bounded.\<close>

definition parse_service_operator_document ::
    "(bytes \<Rightarrow> ServiceDocumentFields option) \<Rightarrow> crypto \<Rightarrow> bytes \<Rightarrow> Path \<Rightarrow> (ServiceError, ServiceOperatorDocument) result" where
  "parse_service_operator_document from_slice C bs journal_path =
     (if bs = [] \<or> length bs > DOCUMENT_BYTES_MAX then Inl ServiceConfigurationInvalid
      else rbind (ok_or ServiceConfigurationInvalid (from_slice bs)) (\<lambda>document.
      if length (sf_authorization_keys document) > AUTHORIZATION_KEYS_MAX \<or> length (sf_approvals document) > APPROVALS_MAX
      then Inl ServiceConfigurationInvalid
      else if sf_service_configuration_version document \<noteq> 1 then Inl ServiceConfigurationInvalid
      else if \<not> identity_is_valid (sf_receipt_signing_key_id document) then Inl ServiceConfigurationInvalid
      else rbind (collect (decode_authorization_key C) (sf_authorization_keys document)) (\<lambda>authorization_trust.
      rbind (collect decode_approval (sf_approvals document)) (\<lambda>approvals.
      Inr \<lparr>sod_configuration = \<lparr>sc_journal_path = journal_path, sc_authorization_trust = authorization_trust, sc_approvals = approvals\<rparr>,
           sod_receipt_signing_key_id = sf_receipt_signing_key_id document\<rparr>))))"

section \<open>Hexadecimal text\<close>

lemma hex_digits: "n < 16 \<Longrightarrow> ''0123456789abcdef'' ! n = hex_digit n"
proof -
  assume "n < 16"
  moreover have "map hex_digit [0 ..< 16] = ''0123456789abcdef''" by code_simp
  ultimately show ?thesis by (metis add_0 diff_zero length_upt nth_map nth_upt)
qed

lemma unat_div_16 [simp]: "unat (b :: byte) div 16 < 16"
  using byte_unat_less [of b] by (simp add: less_mult_imp_div_less del: byte_unat_less)

lemma lowercase_hex_text: "lowercase_hex bs = hex_text bs"
  by (simp add: lowercase_hex_def hex_text_def hex_byte_def [abs_def] hex_digits unat_nibbles)

lemma hex_value_digit: "n < 16 \<Longrightarrow> hex_value (of_char (hex_digit n)) = word_of_nat n"
proof -
  have "list_all (\<lambda>n. hex_value (of_char (hex_digit n)) = word_of_nat n) [0 ..< 16]" by code_simp
  then show "n < 16 \<Longrightarrow> ?thesis" by (simp add: list_all_iff del: upt_Suc)
qed

lemma lowercase_hex_digit:
  assumes "is_lowercase_hex (of_char c)"
  shows "\<exists>n < 16. c = hex_digit n"
proof -
  let ?v = "of_char c :: nat"
  have v: "unat (of_char c :: byte) = ?v" by simp
  have "48 \<le> ?v \<and> ?v \<le> 57 \<or> 97 \<le> ?v \<and> ?v \<le> 102"
    using assms v by (simp add: is_lowercase_hex_def is_ascii_digit_def word_le_nat_alt)
  then have "?v - (if ?v \<le> 57 then 48 else 87) < 16" "c = hex_digit (?v - (if ?v \<le> 57 then 48 else 87))"
    by (auto simp: hex_digit_def char_of_eq_iff take_bit_eq_mod)
  then show ?thesis by blast
qed

lemma hex_pair:
  assumes "m < 16" "n < 16"
  shows "hex_byte (16 * word_of_nat m + word_of_nat n) = [hex_digit m, hex_digit n]"
proof -
  have "(16 * word_of_nat m + word_of_nat n :: byte) = word_of_nat (16 * m + n)" by simp
  moreover have "unat (word_of_nat (16 * m + n) :: byte) = 16 * m + n" using assms by (subst unat_of_nat) simp
  ultimately show ?thesis using assms unfolding hex_byte_def by simp
qed

lemma hex_text_pairs:
  assumes "list_all is_lowercase_hex (as_bytes s)" "even (length s)"
  shows "hex_text (hex_pairs (as_bytes s)) = s"
  using assms
proof (induction "as_bytes s" arbitrary: s rule: hex_pairs.induct)
  case (1 a b rest)
  then obtain c d r where s: "s = c # d # r" "a = of_char c" "b = of_char d" "rest = as_bytes r"
    by (auto simp: as_bytes_def Cons_eq_map_conv)
  obtain m n where mn: "m < 16" "c = hex_digit m" "n < 16" "d = hex_digit n"
    using 1(3) lowercase_hex_digit [of c] lowercase_hex_digit [of d] by (auto simp: s as_bytes_def)
  have "hex_text (hex_pairs (as_bytes r)) = r"
    using 1(1) [OF s(4)] 1(3,4) by (simp add: s(1) as_bytes_def)
  then show ?case
    using mn hex_pair [OF mn(1,3)] by (simp add: s as_bytes_def hex_text_def hex_value_digit)
qed (auto simp: as_bytes_def hex_text_def Cons_eq_map_conv)

lemma decode_hex_iff:
  "decode_hex s n = Inr bs \<longleftrightarrow> s = hex_text bs \<and> bs \<noteq> [] \<and> length bs \<le> n"
proof
  assume "decode_hex s n = Inr bs"
  then have s: "s \<noteq> []" "length s \<le> n * 2" "even (length s)" "list_all is_lowercase_hex (as_bytes s)" "bs = hex_pairs (as_bytes s)"
    by (auto simp: decode_hex_def even_iff_mod_2_eq_zero split: if_splits)
  from hex_text_pairs [OF s(4,3)] s(5) have "s = hex_text bs" by simp
  moreover from this have "length s = 2 * length bs" by simp
  with s(1,2) have "bs \<noteq> []" "length bs \<le> n" by auto
  ultimately show "s = hex_text bs \<and> bs \<noteq> [] \<and> length bs \<le> n" by simp
next
  assume bs: "s = hex_text bs \<and> bs \<noteq> [] \<and> length bs \<le> n"
  then have "s \<noteq> []" by (metis length_0_conv length_hex_text mult_eq_0_iff zero_neq_numeral)
  moreover have "hex_pairs (as_bytes s) = bs"
    using hex_text_pairs [of s] bs hex_text_lowercase [of bs] by (simp add: hex_text_inject)
  ultimately show "decode_hex s n = Inr bs"
    using bs hex_text_lowercase [of bs] by (simp add: decode_hex_def)
qed

section \<open>Receipts on the wire\<close>

lemma receipt_digest_text: "receipt_digest_hex C bs = hex_text (sha256 C bs)"
  by (simp add: receipt_digest_hex_eq digest_hex_def)

lemma receipt_digest_valid: "crypto_ok C \<Longrightarrow> valid_sha256 (receipt_digest_hex C bs)"
  by (simp add: valid_sha256_def receipt_digest_text hex_text_lowercase crypto_okD)

text \<open>A receipt that a read returns was decoded: its digest and bounds have been checked.\<close>

lemma ready_receipt_bounded:
  assumes "crypto_ok C" "service_receipt C app k db = Inr (ReceiptReady bs sha)"
  shows "length bs \<le> RECEIPT_BYTES_MAX" "sha = receipt_digest_hex C bs"
proof -
  obtain git where git: "retained_git C (sa_authorities app) k db = Inr git"
    using assms(2) by (cases "retained_git C (sa_authorities app) k db") (simp_all add: service_receipt_def)
  have "length bs \<le> RECEIPT_BYTES_MAX \<and> sha = receipt_digest_hex C bs"
  proof (cases git)
    case (Some retained)
    with retained_git_Some [OF git [unfolded Some]] obtain r b p where
      p: "decode_record C r b = Inr p" "retained = from_phase b p" by blast
    from p(1) have valid: "git_phase_valid C b p" by (simp add: decode_record_iff)
    obtain s rc where rc: "p = GFinalized s rc" "bs = fr_bytes rc" "sha = fr_digest rc"
      using assms(2) git Some p(2) by (cases p) (auto simp: service_receipt_def from_phase_receipt)
    with valid git_receipt_small(1) [of C b s rc] crypto_okD(5) [OF assms(1)] show ?thesis
      by (simp add: PERSISTED_VALUE_BYTES_MAX_def RECEIPT_BYTES_MAX_def)
  next
    case None
    with assms(2) git obtain kubernetes where k: "retained_operation C (sa_authorities app) k db = Inr kubernetes"
      by (cases "retained_operation C (sa_authorities app) k db") (simp_all add: service_receipt_def)
    with assms(2) git None obtain retained where retained: "kubernetes = Some retained" by (cases kubernetes) (simp_all add: service_receipt_def)
    with assms(2) git None k obtain ob rc where rc: "rt_operation retained = LFinalized ob rc" "bs = fr_bytes rc" "sha = fr_digest rc"
      by (cases "rt_operation retained") (auto simp: service_receipt_def read_loaded_receipt_def)
    obtain q where "authorized_operation C q db = Inr (Some (LFinalized ob rc))"
      using retained_operation_Some [OF k [unfolded retained]] rc(1) by (auto simp: authorized_operation_def)
    then obtain r where "decode C r = Inr (LFinalized ob rc)" unfolding authorized_operation_Some by blast
    with decode_finalized_receipt rc(2,3) show ?thesis by blast
  qed
  then show "length bs \<le> RECEIPT_BYTES_MAX" "sha = receipt_digest_hex C bs" by simp_all
qed

section \<open>Commands\<close>

fun read_ids_valid :: "ReadRequest \<Rightarrow> bool" where
  "read_ids_valid (ReadList after) = pred_option identity_is_valid after"
| "read_ids_valid (ReadHistory after) = pred_option identity_is_valid after"
| "read_ids_valid (ReadStatus ident) = identity_is_valid ident"
| "read_ids_valid (ReadReceipt ident) = identity_is_valid ident"

lemma cursor_valid: "cursor after = Some c \<Longrightarrow> pred_option identity_is_valid c"
  by (cases after) (auto split: if_splits)

lemma command_ids_valid:
  "decode_request from_slice bs = Some (CommandRead request) \<Longrightarrow> read_ids_valid request"
  "decode_request from_slice bs = Some (CommandSubmit ident) \<Longrightarrow> identity_is_valid ident"
proof -
  have "case c of CommandRead request \<Rightarrow> read_ids_valid request | CommandSubmit ident \<Rightarrow> identity_is_valid ident"
    if "command_of r = Some c" for r c
    using that cursor_valid by (cases r) (auto split: if_splits)
  then show "decode_request from_slice bs = Some (CommandRead request) \<Longrightarrow> read_ids_valid request"
    "decode_request from_slice bs = Some (CommandSubmit ident) \<Longrightarrow> identity_is_valid ident"
    by (fastforce simp: decode_request_def bind_eq_Some_conv split: if_splits)+
qed

lemma frame_input:
  assumes "read_request_frame input = Inr body"
  shows "input = be_bytes 4 (length body) @ body" "0 < length body" "length body \<le> 16 * 1024"
proof -
  obtain n where n: "4 \<le> length input" "request_length (take 4 input) = Some n" "n \<le> length (drop 4 input)"
    "drop (4 + n) input = []" "body = take n (drop 4 input)"
    using assms by (auto simp: read_request_frame_def rbind_eq_Inr ok_or_eq_Inr not_less split: if_splits)
  then have len: "from_be (take 4 input) = n" "0 < n" "n \<le> 16 * 1024"
    by (auto simp: request_length_def Let_def REQUEST_BYTES_MAX_def split: if_splits)
  have "length input = 4 + n" using n by simp
  then have body: "body = drop 4 input" "length body = n" using n by simp_all
  have "be_bytes 4 n = take 4 input" using be_bytes_from_be [of "take 4 input"] n(1) len(1) by simp
  then show "input = be_bytes 4 (length body) @ body" using body by simp
  show "0 < length body" "length body \<le> 16 * 1024" using body len by simp_all
qed

section \<open>Properties\<close>

text \<open>
  C35. Every receipt the service holds can be delivered whole: whenever the receipt read returns a
  ready receipt, the response is the READY response with the lowercase hexadecimal of exactly the
  committed bytes and their SHA-256, it is within the response bound, and reading the
  hexadecimal text back gives the committed bytes.
\<close>

theorem receipt_delivered_whole:
  assumes "crypto_ok C" "service_receipt C app k db = Inr (ReceiptReady bs sha)"
  shows "render_receipt (service_receipt C app k db) =
      ''{\"version\":1,\"status\":\"READY\",\"receipt_hex\":\"'' @ lowercase_hex bs @
        ''\",\"receipt_sha256\":\"'' @ lowercase_hex (sha256 C bs) @ ''\"}'' \<and>
    response_length_allowed (length (render_receipt (service_receipt C app k db))) ReceiptClass \<and>
    (bs \<noteq> [] \<longrightarrow> decode_hex (lowercase_hex bs) RECEIPT_BYTES_MAX = Inr bs)"
proof -
  note ready = ready_receipt_bounded [OF assms]
  have wrapper: "WRAPPER_BYTES = 131" by (simp add: WRAPPER_BYTES_def)
  have allowed: "response_length_allowed (length bs * 2 + WRAPPER_BYTES) ReceiptClass"
    using ready(1) by (simp add: wrapper response_length_allowed_def RECEIPT_RESPONSE_BYTES_MAX_def RECEIPT_BYTES_MAX_def)
  have wire: "render_receipt (service_receipt C app k db) =
      ''{\"version\":1,\"status\":\"READY\",\"receipt_hex\":\"'' @ lowercase_hex bs @
        ''\",\"receipt_sha256\":\"'' @ lowercase_hex (sha256 C bs) @ ''\"}''"
    using allowed ready receipt_digest_valid [OF assms(1), of bs]
    by (simp add: assms(2) lowercase_hex_text receipt_digest_text wrapper RECEIPT_BYTES_MAX_def)
  have len: "length (render_receipt (service_receipt C app k db)) = length bs * 2 + WRAPPER_BYTES"
    by (simp add: wire lowercase_hex_text wrapper crypto_okD [OF assms(1)])
  have "bs \<noteq> [] \<longrightarrow> decode_hex (lowercase_hex bs) RECEIPT_BYTES_MAX = Inr bs"
    using ready(1) by (simp add: lowercase_hex_text decode_hex_iff)
  with wire allowed show ?thesis unfolding len by blast
qed

text \<open>
  C36. A request is read exactly: the frame reader accepts an input exactly when it is the
  four-byte length, a body of that length, between one byte and 16 KiB, and nothing more; and
  then returns that body.
\<close>

theorem request_frame_exact:
  "read_request_frame input = Inr body \<longleftrightarrow>
    input = be_bytes 4 (length body) @ body \<and> 0 < length body \<and> length body \<le> 16 * 1024"
proof
  assume "read_request_frame input = Inr body"
  from frame_input [OF this] show "input = be_bytes 4 (length body) @ body \<and> 0 < length body \<and> length body \<le> 16 * 1024" by simp
next
  assume body: "input = be_bytes 4 (length body) @ body \<and> 0 < length body \<and> length body \<le> 16 * 1024"
  then have "from_be (be_bytes 4 (length body)) = length body" by (simp add: from_be_be_bytes)
  with body show "read_request_frame input = Inr body"
    by (simp add: read_request_frame_def request_length_def REQUEST_BYTES_MAX_def)
qed

text \<open>
  C37. What a connection may send: a response goes only to a peer of the service's group that sent
  one well-framed request, and is one frame with a non-empty body within the bound of its class;
  a request that does not decode to a command is answered as invalid without reaching the
  application, and every identity that reaches it is a valid one.
\<close>

theorem connection_answers_bounded:
  assumes "serve_admitted_connection gid expected_gid (dispatch_admitted from_slice read_job submit) input = Some frame_bytes"
  shows "gid = Some expected_gid \<and>
    (\<exists>body response cls. input = be_bytes 4 (length body) @ body \<and>
      frame_bytes = be_bytes 4 (length response) @ as_bytes response \<and>
      0 < length response \<and> length response \<le> (case cls of Ordinary \<Rightarrow> 16 * 1024 | ReceiptClass \<Rightarrow> 40 * 1024) \<and>
      (case decode_request from_slice body of
         None \<Rightarrow> response = invalid_request
       | Some (CommandSubmit ident) \<Rightarrow> identity_is_valid ident \<and> response = render_submission (submit ident)
       | Some (CommandRead request) \<Rightarrow> read_ids_valid request \<and> (response, cls) = read_reply (read_job request)))"
proof -
  obtain body response cls where run: "gid = Some expected_gid" "read_request_frame input = Inr body"
    "dispatch_admitted from_slice read_job submit body = (response, cls)"
    "response_length_allowed (length response) cls" "write_response_frame response = Inr frame_bytes"
    using assms by (auto simp: serve_admitted_connection_def Let_def split: if_splits sum.splits prod.splits)
  have "input = be_bytes 4 (length body) @ body" using run(2) frame_input by blast
  moreover have "frame_bytes = be_bytes 4 (length response) @ as_bytes response" "0 < length response"
    "length response \<le> (case cls of Ordinary \<Rightarrow> 16 * 1024 | ReceiptClass \<Rightarrow> 40 * 1024)"
    using run(4,5) by (auto simp: write_response_frame_def response_length_allowed_def Let_def ORDINARY_RESPONSE_BYTES_MAX_def
        RECEIPT_RESPONSE_BYTES_MAX_def split: if_splits ResponseClass.splits)
  moreover have "case decode_request from_slice body of
         None \<Rightarrow> response = invalid_request
       | Some (CommandSubmit ident) \<Rightarrow> identity_is_valid ident \<and> response = render_submission (submit ident)
       | Some (CommandRead request) \<Rightarrow> read_ids_valid request \<and> (response, cls) = read_reply (read_job request)"
    using run(3) command_ids_valid [of from_slice body]
    by (auto simp: dispatch_admitted_def split: option.splits Command.splits)
  ultimately show ?thesis using run(1) by blast
qed

subsection \<open>Witnesses\<close>

theorem receipt_delivered_whole_witness:
  "\<exists>w' bs. service_select example_crypto serving_application working_env serving_execution ''git-op-1'' None serving_world =
      Some (Inr Finished, w') \<and>
    render_receipt (service_receipt example_crypto serving_application ''git-op-1'' (w_db w')) =
      ''{\"version\":1,\"status\":\"READY\",\"receipt_hex\":\"'' @ lowercase_hex bs @
        ''\",\"receipt_sha256\":\"'' @ lowercase_hex (sha256 example_crypto bs) @ ''\"}''"
proof -
  obtain w' bs digest where w': "service_select example_crypto serving_application working_env serving_execution ''git-op-1'' None serving_world =
      Some (Inr Finished, w')"
    and ready: "service_receipt example_crypto serving_application ''git-op-1'' (w_db w') = Inr (ReceiptReady bs digest)"
    using serving_receipt by blast
  from receipt_delivered_whole [OF example_crypto_ok ready] w' show ?thesis by blast
qed

lemma four_Suc: "(4::nat) = Suc (Suc (Suc (Suc 0)))"
  by simp

lemma request_frame_one: "read_request_frame (be_bytes 4 1 @ [x]) = Inr [x]"
  by (simp add: read_request_frame_def request_length_def REQUEST_BYTES_MAX_def from_be_be_bytes)

theorem connection_answers_bounded_witness:
  "\<exists>response. serve_admitted_connection (Some 7) 7 (dispatch_admitted (\<lambda>_. None) (\<lambda>_. NotRegistered) (\<lambda>_. Indeterminate)) [0, 0, 0, 1, 123] =
      Some (be_bytes 4 (length response) @ as_bytes response) \<and> 0 < length response"
proof -
  let ?serve = "serve_admitted_connection (Some 7) 7 (dispatch_admitted (\<lambda>_. None) (\<lambda>_. NotRegistered) (\<lambda>_. Indeterminate)) [0, 0, 0, 1, 123]"
  have len: "length invalid_request = 62" "invalid_request \<noteq> []" by (simp_all add: invalid_request_def service_error_def)
  have "be_bytes (Suc (Suc (Suc (Suc 0)))) 1 = [0, 0, 0, 1]" by simp
  then have "be_bytes 4 1 @ [123] = [0, 0, 0, 1, 123]" by (simp only: four_Suc append.simps)
  with request_frame_one [of 123] have "read_request_frame [0, 0, 0, 1, 123] = Inr [123]" by simp
  then have "?serve \<noteq> None"
    by (simp add: serve_admitted_connection_def dispatch_admitted_def decode_request_def len
        response_length_allowed_def ORDINARY_RESPONSE_BYTES_MAX_def write_response_frame_def Let_def)
  then obtain out where out: "?serve = Some out" by blast
  from connection_answers_bounded [OF out] out show ?thesis by blast
qed

end
