(* ===== verification/Schema.thy ===== *)
theory Schema
  imports Capacity
begin

text \<open>
  Recognition of the journal's SQLite layout: \<open>src/gateway/journal/schema.rs\<close> and \<open>require_layout\<close>
  of \<open>capacity.rs\<close>. What the statements of one read snapshot answer is a \<open>Snapshot\<close>; \<open>None\<close> is a
  statement SQLite fails. The checks are functions of it, and what they establish together is
  \<open>require_valid_snapshot_sound\<close>.
\<close>

section \<open>The expected layout\<close>

definition JOURNAL_FORMAT_VERSION :: nat where
  "JOURNAL_FORMAT_VERSION = 6"

definition OPERATION_COUNT_MAX :: int where
  "OPERATION_COUNT_MAX = 10000"

fun sql_lines :: "string list \<Rightarrow> string" where
  "sql_lines [] = []"
| "sql_lines [line] = line"
| "sql_lines (line # rest) = line @ [CHR 0x0A] @ sql_lines rest"

definition CREATE_OPERATION_TABLE :: string where
  "CREATE_OPERATION_TABLE = sql_lines
    [''CREATE TABLE kubernetes_image_operations ('', ''    operation_id TEXT PRIMARY KEY NOT NULL,'',
     ''    namespace TEXT NOT NULL,'', ''    deployment TEXT NOT NULL,'', ''    container TEXT NOT NULL,'',
     ''    immutable_image_digest TEXT NOT NULL,'', ''    authorization_id TEXT,'',
     ''    authorization_signer_key_id TEXT,'', ''    authorization_grant_digest TEXT,'',
     ''    signed_authorization_grant BLOB,'', ''    state TEXT NOT NULL,'', ''    write_strategy TEXT,'',
     ''    target_rejection TEXT,'', ''    target_read_failures INTEGER NOT NULL DEFAULT 0,'',
     ''    apply_attempted INTEGER NOT NULL DEFAULT 0,'', ''    target_uid TEXT,'',
     ''    target_resource_version TEXT,'', ''    apply_accepted INTEGER,'',
     ''    requested_generation INTEGER,'', ''    apply_resource_version TEXT,'', ''    receiver_uid TEXT,'',
     ''    receiver_image TEXT,'', ''    receiver_operation_marker TEXT,'',
     ''    current_generation INTEGER,'', ''    observed_generation INTEGER,'',
     ''    receiver_resource_version TEXT,'', ''    desired_replicas INTEGER,'',
     ''    updated_replicas INTEGER,'', ''    available_replicas INTEGER,'',
     ''    unavailable_replicas INTEGER,'', ''    available_condition INTEGER,'',
     ''    progress_deadline_exceeded INTEGER,'', ''    result TEXT,'', ''    receipt_digest TEXT,'',
     ''    receipt_bytes BLOB,'', ''    receipt_key_id TEXT,'', ''    rollout_condition_type TEXT,'',
     ''    rollout_condition_status TEXT,'', ''    rollout_condition_reason TEXT,'',
     ''    approved_uid TEXT,'', ''    approved_resource_version TEXT,'', ''    preflight_uid TEXT,'',
     ''    preflight_resource_version TEXT'', '') STRICT;'']"

definition CREATE_GIT_TABLE :: string where
  "CREATE_GIT_TABLE = sql_lines
    [''CREATE TABLE git_ref_operations ('', ''    operation_id TEXT PRIMARY KEY NOT NULL,'',
     ''    repository_id TEXT NOT NULL,'', ''    ref_name TEXT NOT NULL,'',
     ''    old_commit TEXT NOT NULL,'', ''    new_commit TEXT NOT NULL,'', ''    authorization_id TEXT,'',
     ''    authorization_signer_key_id TEXT,'', ''    authorization_grant_digest TEXT,'',
     ''    signed_authorization_grant BLOB,'', ''    state TEXT NOT NULL,'', ''    target_rejection TEXT,'',
     ''    acknowledgement TEXT,'', ''    observed_ref_kind TEXT,'', ''    observed_commit TEXT,'',
     ''    receipt_digest TEXT,'', ''    receipt_bytes BLOB,'', ''    receipt_key_id TEXT'', '') STRICT;'']"

fun table_name :: "Table \<Rightarrow> string" where
  "table_name Kubernetes = ''kubernetes_image_operations''"
| "table_name Git = ''git_ref_operations''"

fun create_table :: "Table \<Rightarrow> string" where
  "create_table Kubernetes = CREATE_OPERATION_TABLE"
| "create_table Git = CREATE_GIT_TABLE"

definition char_is_ascii_whitespace :: "char \<Rightarrow> bool" where
  "char_is_ascii_whitespace c \<longleftrightarrow> c \<in> {CHR 0x20, CHR 0x09, CHR 0x0A, CHR 0x0C, CHR 0x0D}"

definition normalize_schema_sql :: "string \<Rightarrow> string" where
  "normalize_schema_sql sql =
     rev (dropWhile (\<lambda>c. c = CHR '';'') (rev (filter (\<lambda>c. \<not> char_is_ascii_whitespace c) sql)))"

definition expected_column_type :: "string \<Rightarrow> string" where
  "expected_column_type name =
     (if name \<in> {''receipt_bytes'', ''signed_authorization_grant''} then ''BLOB''
      else if name \<in> {''target_read_failures'', ''apply_attempted'', ''apply_accepted'',
         ''requested_generation'', ''current_generation'', ''observed_generation'', ''desired_replicas'',
         ''updated_replicas'', ''available_replicas'', ''unavailable_replicas'', ''available_condition'',
         ''progress_deadline_exceeded''} then ''INTEGER''
      else ''TEXT'')"

definition expected_column_not_null :: "string \<Rightarrow> bool" where
  "expected_column_not_null name \<longleftrightarrow>
     name \<in> {''operation_id'', ''namespace'', ''deployment'', ''container'', ''immutable_image_digest'',
       ''repository_id'', ''ref_name'', ''old_commit'', ''new_commit'', ''state'',
       ''target_read_failures'', ''apply_attempted''}"

definition expected_column_default :: "string \<Rightarrow> string option" where
  "expected_column_default name =
     (if name \<in> {''target_read_failures'', ''apply_attempted''} then Some ''0'' else None)"

section \<open>What a snapshot answers\<close>

type_synonym SchemaEntry = "string \<times> string \<times> string \<times> string option"
type_synonym ColumnFact = "int \<times> string \<times> string \<times> int \<times> string option \<times> int \<times> int"
type_synonym IndexFact = "int \<times> string \<times> int \<times> string \<times> int"
type_synonym IndexColumnFact = "int \<times> int \<times> string option \<times> int \<times> string \<times> int"

record Snapshot =
  sn_page_size :: "int option"
  sn_auto_vacuum :: "int option"
  sn_integrity :: "string option"
  sn_schema :: "SchemaEntry list option"
  sn_strict :: "string \<Rightarrow> int option option"
  sn_columns :: "string \<Rightarrow> ColumnFact list option"
  sn_indexes :: "string \<Rightarrow> IndexFact list option"
  sn_index_columns :: "string \<Rightarrow> IndexColumnFact list option"
  sn_rows :: "Db option"
  sn_pages :: "PageFacts option"

definition schema_entries :: "Snapshot \<Rightarrow> (GatewayError, SchemaEntry list) result" where
  "schema_entries s = ok_or Database (sn_schema s)"

definition table_columns :: "Snapshot \<Rightarrow> string \<Rightarrow> (GatewayError, ColumnFact list) result" where
  "table_columns s table = ok_or Database (sn_columns s table)"

definition table_indexes :: "Snapshot \<Rightarrow> string \<Rightarrow> (GatewayError, IndexFact list) result" where
  "table_indexes s table = ok_or Database (sn_indexes s table)"

definition primary_index_columns :: "Snapshot \<Rightarrow> string \<Rightarrow> (GatewayError, IndexColumnFact list) result" where
  "primary_index_columns s table = ok_or Database (sn_index_columns s (''sqlite_autoindex_'' @ table @ ''_1''))"

section \<open>Recognition\<close>

definition column_as_expected :: "nat \<Rightarrow> ColumnFact \<Rightarrow> string \<Rightarrow> bool" where
  "column_as_expected index column expected_name \<longleftrightarrow>
     (case column of (column_id, name, declared_type, not_null, default_value, primary_key, hidden) \<Rightarrow>
        column_id = int index \<and> name = expected_name \<and> declared_type = expected_column_type expected_name
        \<and> not_null = (if expected_column_not_null expected_name then 1 else 0)
        \<and> default_value = expected_column_default expected_name
        \<and> primary_key = (if expected_name = ''operation_id'' then 1 else 0) \<and> hidden = 0)"

definition recognized_schema :: "Snapshot \<Rightarrow> string \<Rightarrow> string list \<Rightarrow> string \<Rightarrow> (GatewayError, bool) result" where
  "recognized_schema s table expected_columns expected_create_sql =
     rbind (schema_entries s) (\<lambda>entries.
     let schema = filter (\<lambda>(_, _, tbl_name, _). tbl_name = table) entries;
         expected_index = ''sqlite_autoindex_'' @ table @ ''_1'';
         expected_sql = normalize_schema_sql expected_create_sql in
     if (case schema of
           [index_entry, (kind, name, tbl_name, sql)] \<Rightarrow>
             index_entry \<noteq> (''index'', expected_index, table, None) \<or> kind \<noteq> ''table'' \<or> name \<noteq> table
             \<or> tbl_name \<noteq> table \<or> map_option normalize_schema_sql sql \<noteq> Some expected_sql
         | _ \<Rightarrow> True)
     then Inr False
     else rbind (ok_or Database (sn_strict s table)) (\<lambda>strict_table_flag.
     if strict_table_flag \<noteq> Some 1 then Inr False
     else rbind (table_columns s table) (\<lambda>cols.
     if length cols \<noteq> length expected_columns
        \<or> \<not> list_all (\<lambda>(i, column, name). column_as_expected i column name)
             (zip [0..<length cols] (zip cols expected_columns))
     then Inr False
     else rbind (table_indexes s table) (\<lambda>indexes.
     if indexes \<noteq> [(0, expected_index, 1, ''pk'', 0)] then Inr False
     else rbind (primary_index_columns s table) (\<lambda>index_columns.
     Inr (index_columns =
       [(0, 0, Some ''operation_id'', 0, ''BINARY'', 1), (1, -1, None, 0, ''BINARY'', 0)]))))))"


definition require_persisted_bounds :: "Snapshot \<Rightarrow> Table \<Rightarrow> string list \<Rightarrow> (GatewayError, unit) result" where
  "require_persisted_bounds s table cols =
     rbind (ok_or Database (sn_rows s)) (\<lambda>db.
     let value_columns = filter (\<lambda>name. expected_column_type name \<noteq> ''INTEGER'') cols;
         oversized = (\<lambda>r. list_ex (\<lambda>name. value_length (field r name) > PERSISTED_VALUE_BYTES_MAX) value_columns
           \<or> value_length (field r ''signed_authorization_grant'') > 4096) in
     if int (length (table_rows table db)) \<le> OPERATION_COUNT_MAX \<and> \<not> list_ex oversized (table_rows table db)
     then Inr () else Inl InvalidPersistedState)"

text \<open>The join on \<open>operation_id\<close>: a null identity joins nothing.\<close>

definition has_shared_identity :: "Db \<Rightarrow> bool" where
  "has_shared_identity db \<longleftrightarrow>
     list_ex (\<lambda>k. list_ex (\<lambda>g. field k ''operation_id'' = field g ''operation_id'' \<and> field k ''operation_id'' \<noteq> Null)
       (git_rows db)) (kubernetes_rows db)"

definition require_all_persisted_bounds :: "Snapshot \<Rightarrow> (GatewayError, unit) result" where
  "require_all_persisted_bounds s =
     rbind (require_persisted_bounds s Kubernetes CURRENT_COLUMNS) (\<lambda>_.
     rbind (require_persisted_bounds s Git GIT_COLUMNS) (\<lambda>_.
     rbind (ok_or Database (sn_rows s)) (\<lambda>db.
     if has_shared_identity db then Inl InvalidPersistedState else Inr ())))"

definition require_integrity :: "Snapshot \<Rightarrow> (GatewayError, unit) result" where
  "require_integrity s =
     rbind (ok_or Database (sn_integrity s)) (\<lambda>integrity_result.
     if integrity_result = ''ok'' then Inr () else Inl InvalidPersistedState)"

definition recognized_supported_schema :: "Snapshot \<Rightarrow> (GatewayError, bool) result" where
  "recognized_supported_schema s =
     rbind (schema_entries s) (\<lambda>entries.
     if length entries \<noteq> 4 then Inr False
     else rbind (recognized_schema s ''kubernetes_image_operations'' CURRENT_COLUMNS CREATE_OPERATION_TABLE) (\<lambda>kubernetes.
     if \<not> kubernetes then Inr False
     else rbind (recognized_schema s ''git_ref_operations'' GIT_COLUMNS CREATE_GIT_TABLE) (\<lambda>git.
     if \<not> git then Inr False
     else rbind (require_all_persisted_bounds s) (\<lambda>_. Inr True))))"

definition require_layout :: "int option \<Rightarrow> int option \<Rightarrow> (GatewayError, unit) result" where
  "require_layout page_size_answer auto_vacuum_answer =
     rbind (ok_or Database page_size_answer) (\<lambda>page_size.
     rbind (ok_or Database auto_vacuum_answer) (\<lambda>auto_vacuum.
     if page_size \<noteq> PAGE_BYTES \<or> auto_vacuum \<noteq> 0 then Inl InvalidPersistedState else Inr ()))"

text \<open>\<open>require_valid_snapshot\<close> of \<open>opening.rs\<close>: the four checks in their order.\<close>

definition require_valid_snapshot :: "Snapshot \<Rightarrow> (GatewayError, unit) result" where
  "require_valid_snapshot s =
     rbind (require_layout (sn_page_size s) (sn_auto_vacuum s)) (\<lambda>_.
     rbind (recognized_supported_schema s) (\<lambda>recognized.
     if \<not> recognized then Inl InvalidPersistedState
     else rbind (require_integrity s) (\<lambda>_.
     rbind (ok_or Database (sn_rows s)) (\<lambda>db.
     rbind (ok_or Database (sn_pages s)) (\<lambda>pages.
     require_retained_bounds db pages)))))"

section \<open>What recognition establishes\<close>

text \<open>The line of a \<open>CREATE TABLE\<close> statement that declares a column as recognition expects it.\<close>

definition column_sql :: "string \<Rightarrow> string" where
  "column_sql name = ''    '' @ name @ '' '' @ expected_column_type name
     @ (if name = ''operation_id'' then '' PRIMARY KEY'' else [])
     @ (if expected_column_not_null name then '' NOT NULL'' else [])
     @ (case expected_column_default name of None \<Rightarrow> [] | Some v \<Rightarrow> '' DEFAULT '' @ v)"

definition table_sql :: "Table \<Rightarrow> string" where
  "table_sql t = sql_lines (
     [''CREATE TABLE '' @ table_name t @ '' (''] @
     map (\<lambda>name. column_sql name @ '','') (butlast (columns t)) @
     [column_sql (last (columns t)), '') STRICT;''])"

text \<open>What \<open>PRAGMA table_xinfo\<close> answers for a table declared with the given columns.\<close>

definition expected_facts :: "string list \<Rightarrow> ColumnFact list" where
  "expected_facts cols = map (\<lambda>(i, name). (int i, name, expected_column_type name,
     if expected_column_not_null name then 1 else 0, expected_column_default name,
     if name = ''operation_id'' then 1 else 0, 0)) (zip [0..<length cols] cols)"

text \<open>
  A table as SQLite reports it: \<open>STRICT\<close>, with exactly the expected columns, and with one index, the
  unique one of its primary key on the identity.
\<close>

definition declared_strict :: "Snapshot \<Rightarrow> Table \<Rightarrow> bool" where
  "declared_strict s t \<longleftrightarrow>
     sn_strict s (table_name t) = Some (Some 1) \<and> sn_columns s (table_name t) = Some (expected_facts (columns t)) \<and>
     sn_indexes s (table_name t) = Some [(0, ''sqlite_autoindex_'' @ table_name t @ ''_1'', 1, ''pk'', 0)] \<and>
     sn_index_columns s (''sqlite_autoindex_'' @ table_name t @ ''_1'') =
       Some [(0, 0, Some ''operation_id'', 0, ''BINARY'', 1), (1, -1, None, 0, ''BINARY'', 0)]"

text \<open>
  The documented behaviour of SQLite the journal relies on: a table that it reports so, in a
  database that passes the integrity check, has rows of that shape, a textual identity in each,
  and no identity twice. It is stated of SQLite's answers, not of the code that inspects them.
\<close>

definition sqlite_strict :: "Snapshot \<Rightarrow> bool" where
  "sqlite_strict s \<longleftrightarrow>
     (\<forall>t db. declared_strict s t \<and> sn_integrity s = Some ''ok'' \<and> sn_rows s = Some db \<longrightarrow> table_ok t db)"

lemma columns_as_expected:
  assumes "length facts = length cols"
    "list_all (\<lambda>(i, column, name). column_as_expected i column name) (zip [0..<length facts] (zip facts cols))"
  shows "facts = expected_facts cols"
proof (rule nth_equalityI)
  show "length facts = length (expected_facts cols)" using assms(1) by (simp add: expected_facts_def)
  fix i assume "i < length facts"
  with assms show "facts ! i = expected_facts cols ! i"
    by (cases "facts ! i") (auto simp: expected_facts_def list_all_length column_as_expected_def)
qed

lemma recognized_declared:
  assumes "recognized_schema s (table_name t) (columns t) (create_table t) = Inr True"
  shows "declared_strict s t"
proof -
  have "sn_strict s (table_name t) = Some (Some 1)"
    "sn_indexes s (table_name t) = Some [(0, ''sqlite_autoindex_'' @ table_name t @ ''_1'', 1, ''pk'', 0)]"
    "sn_index_columns s (''sqlite_autoindex_'' @ table_name t @ ''_1'') =
       Some [(0, 0, Some ''operation_id'', 0, ''BINARY'', 1), (1, -1, None, 0, ''BINARY'', 0)]"
    "\<exists>facts. sn_columns s (table_name t) = Some facts \<and> length facts = length (columns t) \<and>
      list_all (\<lambda>(i, column, name). column_as_expected i column name) (zip [0..<length facts] (zip facts (columns t)))"
    using assms by (auto simp: recognized_schema_def table_columns_def table_indexes_def primary_index_columns_def result_simps Let_def
        simp del: table_name.simps columns.simps create_table.simps split: if_splits)
  with columns_as_expected show ?thesis by (auto simp: declared_strict_def)
qed

text \<open>What the journal may assume of the rows of an accepted snapshot.\<close>

definition rows_bounded :: "Db \<Rightarrow> bool" where
  "rows_bounded db \<longleftrightarrow>
     (\<forall>t. \<forall>r \<in> set (table_rows t db). \<forall>name \<in> set (columns t).
        expected_column_type name \<noteq> ''INTEGER'' \<longrightarrow> value_length (field r name) \<le> field_limit name)"

lemma shared_identity_iff:
  assumes "table_ok Kubernetes db" "table_ok Git db"
  shows "\<not> has_shared_identity db \<longleftrightarrow> (\<forall>ident. \<not> (id_exists db Kubernetes ident \<and> id_exists db Git ident))"
proof -
  have "\<exists>ident. field r ''operation_id'' = Text ident" if "r \<in> set (table_rows t db)" for r t
    using that assms by (cases t) (auto simp: table_ok_def row_ok_def list_all_iff has_id_def)
  from this [of _ Kubernetes] this [of _ Git] show ?thesis
    by (fastforce simp: has_shared_identity_def id_exists_def has_id_def list_ex_iff)
qed

lemma persisted_bounds_iff:
  "require_persisted_bounds s t (columns t) = Inr () \<longleftrightarrow> (\<exists>db. sn_rows s = Some db \<and>
     int (length (table_rows t db)) \<le> OPERATION_COUNT_MAX \<and>
     (\<forall>r \<in> set (table_rows t db). \<forall>name \<in> set (columns t).
        expected_column_type name \<noteq> ''INTEGER'' \<longrightarrow> value_length (field r name) \<le> field_limit name))"
proof -
  have grant: "''signed_authorization_grant'' \<in> set (columns t)"
    by (cases t) (simp_all add: CURRENT_COLUMNS_def GIT_COLUMNS_def)
  have typed: "expected_column_type ''signed_authorization_grant'' \<noteq> ''INTEGER''"
    by (simp add: expected_column_type_def)
  have limit: "(\<forall>name \<in> set (columns t). expected_column_type name \<noteq> ''INTEGER'' \<longrightarrow> value_length (field r name) \<le> field_limit name) \<longleftrightarrow>
      \<not> (list_ex (\<lambda>name. value_length (field r name) > PERSISTED_VALUE_BYTES_MAX)
           (filter (\<lambda>name. expected_column_type name \<noteq> ''INTEGER'') (columns t)) \<or>
         value_length (field r ''signed_authorization_grant'') > 4096)" for r
    using grant typed by (auto simp: field_limit_def PERSISTED_VALUE_BYTES_MAX_def list_ex_iff split: if_splits)
  show ?thesis unfolding limit
    by (cases "sn_rows s") (simp_all add: require_persisted_bounds_def Let_def list_ex_iff [where xs = "table_rows t _"])
qed

lemma valid_snapshot_facts:
  assumes "require_valid_snapshot s = Inr ()"
  obtains db pages where "sn_rows s = Some db" "sn_pages s = Some pages" "sn_integrity s = Some ''ok''"
    "recognized_schema s (table_name Kubernetes) (columns Kubernetes) (create_table Kubernetes) = Inr True"
    "recognized_schema s (table_name Git) (columns Git) (create_table Git) = Inr True"
    "require_persisted_bounds s Kubernetes (columns Kubernetes) = Inr ()"
    "require_persisted_bounds s Git (columns Git) = Inr ()"
    "\<not> has_shared_identity db" "require_retained_bounds db pages = Inr ()"
    "sn_page_size s = Some PAGE_BYTES" "sn_auto_vacuum s = Some 0"
proof -
  obtain db pages where checks: "require_layout (sn_page_size s) (sn_auto_vacuum s) = Inr ()"
    "recognized_supported_schema s = Inr True" "require_integrity s = Inr ()"
    "sn_rows s = Some db" "sn_pages s = Some pages" "require_retained_bounds db pages = Inr ()"
    using assms by (auto simp: require_valid_snapshot_def result_simps split: if_splits)
  have layout: "sn_page_size s = Some PAGE_BYTES" "sn_auto_vacuum s = Some 0"
    using checks(1) by (auto simp: require_layout_def result_simps split: if_splits)
  have integrity: "sn_integrity s = Some ''ok''"
    using checks(3) by (auto simp: require_integrity_def result_simps split: if_splits)
  have schema: "recognized_schema s ''kubernetes_image_operations'' CURRENT_COLUMNS CREATE_OPERATION_TABLE = Inr True"
    "recognized_schema s ''git_ref_operations'' GIT_COLUMNS CREATE_GIT_TABLE = Inr True"
    "require_all_persisted_bounds s = Inr ()"
    using checks(2) by (auto simp: recognized_supported_schema_def result_simps split: if_splits)
  have bounds: "require_persisted_bounds s Kubernetes CURRENT_COLUMNS = Inr ()"
    "require_persisted_bounds s Git GIT_COLUMNS = Inr ()" "\<not> has_shared_identity db"
    using schema(3) checks(4) by (auto simp: require_all_persisted_bounds_def result_simps split: if_splits)
  show thesis
    by (rule that [of db pages])
      (simp_all only: table_name.simps columns.simps create_table.simps checks layout integrity schema bounds not_False_eq_True)
qed

lemma retained_bounds_within: "require_retained_bounds db pages = Inr () \<Longrightarrow> within_capacity db"
  by (auto simp: require_retained_bounds_def within_capacity_def Let_def split: prod.splits if_splits)

lemma require_valid_snapshot_sound:
  assumes "require_valid_snapshot s = Inr ()" "sqlite_strict s"
  obtains db where "sn_rows s = Some db" "db_ok db" "within_capacity db" "rows_bounded db"
proof -
  obtain db pages where facts: "sn_rows s = Some db" "sn_integrity s = Some ''ok''"
    "recognized_schema s (table_name Kubernetes) (columns Kubernetes) (create_table Kubernetes) = Inr True"
    "recognized_schema s (table_name Git) (columns Git) (create_table Git) = Inr True"
    "require_persisted_bounds s Kubernetes (columns Kubernetes) = Inr ()"
    "require_persisted_bounds s Git (columns Git) = Inr ()"
    "\<not> has_shared_identity db" "require_retained_bounds db pages = Inr ()"
    using assms(1) by (rule valid_snapshot_facts)
  have tables: "table_ok Kubernetes db" "table_ok Git db"
    using assms(2) facts(1,2) recognized_declared [OF facts(3)] recognized_declared [OF facts(4)] unfolding sqlite_strict_def by blast+
  have "rows_bounded db" unfolding rows_bounded_def
  proof
    fix t show "\<forall>r \<in> set (table_rows t db). \<forall>name \<in> set (columns t).
        expected_column_type name \<noteq> ''INTEGER'' \<longrightarrow> value_length (field r name) \<le> field_limit name"
      using facts(1,5,6) unfolding persisted_bounds_iff by (cases t) auto
  qed
  with that facts(1) tables shared_identity_iff [OF tables] facts(7) retained_bounds_within [OF facts(8)]
  show thesis by (simp add: db_ok_def)
qed

section \<open>Properties\<close>

text \<open>
  The tables a fresh journal creates are declared exactly as recognition expects: each
  \<open>CREATE TABLE\<close> statement is the table's columns in order, with the expected type, key,
  nullability and default of each, and strict.
\<close>

theorem created_tables_as_recognized:
  "create_table t = table_sql t"
proof (cases t)
  case Kubernetes
  show ?thesis unfolding Kubernetes by code_simp
next
  case Git
  show ?thesis unfolding Git by code_simp
qed

end
