(* ===== verification/Opening.thy ===== *)
theory Opening
  imports Schema
begin

text \<open>
  Opening the journal, \<open>src/gateway/journal/opening.rs\<close>, with \<open>configure\<close> of \<open>capacity.rs\<close> and
  \<open>initialize_schema\<close> of \<open>schema.rs\<close>. The host is the directory that holds the journal and the
  state SQLite keeps; names are looked up, opened without following links and created in it.
  What the kernel does (the file \<open>open\<close> creates, whether a file can be opened, read or removed) is part of the
  directory; SQLite is the parameter \<open>Sqlite\<close>, whose every call may change the host in any way.
  Other processes do not change the directory between two steps of one opening, and asking
  an open file for its metadata does not fail.
\<close>

section \<open>The host\<close>

datatype FileKind = RegularFile | DirectoryFile | SymbolicLink | SpecialFile

datatype IoError = NotFound | OtherIo

datatype Component = RootDir | CurDir | ParentDir | NormalName string

record Metadata =
  md_dev :: nat
  md_ino :: nat
  md_kind :: FileKind
  md_uid :: nat
  md_nlink :: nat
  md_mode :: nat
  md_len :: nat

record Node =
  nd_kind :: FileKind
  nd_uid :: nat
  nd_nlink :: nat
  nd_mode :: nat
  nd_content :: bytes
  nd_opens :: bool
  nd_reads :: bool

type_synonym Inode = "nat \<times> nat"

datatype Name = Absent | Unreadable | Entry Inode

record Disk =
  d_names :: "string \<Rightarrow> Name"
  d_nodes :: "Inode \<Rightarrow> Node"
  d_directory :: "bool \<Rightarrow> Component list \<Rightarrow> (IoError, Metadata) result"
  d_euid :: nat
  d_create :: "string \<Rightarrow> (Inode \<times> Node) option"
  d_unlinks :: "string \<Rightarrow> bool"
  d_syncs :: "Component list \<Rightarrow> bool"

record 'c Host =
  h_disk :: Disk
  h_sqlite :: 'c

datatype Statement =
  SetLengthLimit nat | PragmaUpdate string string | BeginDeferred | BeginExclusive
  | ExecuteBatch string | Commit | Rollback

type_synonym ('c, 'a) io = "'c Host \<Rightarrow> (GatewayError, 'a) result \<times> 'c Host"

text \<open>
  SQLite: opening a connection (read-only or not), executing a statement, a query for one integer
  or one text, what the reads of a transaction answer, and dropping a connection.
\<close>

record 'c Sqlite =
  sq_open :: "bool \<Rightarrow> string \<Rightarrow> 'c Host \<Rightarrow> nat option \<times> 'c Host"
  sq_execute :: "nat \<Rightarrow> Statement \<Rightarrow> 'c Host \<Rightarrow> bool \<times> 'c Host"
  sq_int :: "nat \<Rightarrow> string \<Rightarrow> 'c Host \<Rightarrow> int option \<times> 'c Host"
  sq_text :: "nat \<Rightarrow> string \<Rightarrow> 'c Host \<Rightarrow> string option \<times> 'c Host"
  sq_snapshot :: "nat \<Rightarrow> 'c Host \<Rightarrow> Snapshot \<times> 'c Host"
  sq_close :: "nat \<Rightarrow> 'c Host \<Rightarrow> 'c Host"

section \<open>Sequencing\<close>

definition sbind :: "('s \<Rightarrow> ('e, 'a) result \<times> 's) \<Rightarrow> ('a \<Rightarrow> 's \<Rightarrow> ('e, 'b) result \<times> 's) \<Rightarrow> 's \<Rightarrow> ('e, 'b) result \<times> 's" where
  "sbind m f s = (case m s of (Inl e, s') \<Rightarrow> (Inl e, s') | (Inr a, s') \<Rightarrow> f a s')"

text \<open>A check that only looks at the disk.\<close>

definition look :: "(Disk \<Rightarrow> (GatewayError, 'a) result) \<Rightarrow> ('c, 'a) io" where
  "look check h = (check (h_disk h), h)"

text \<open>What a value's \<open>Drop\<close> does when an error leaves its scope.\<close>

definition on_error :: "('s \<Rightarrow> 's) \<Rightarrow> ('s \<Rightarrow> ('e, 'a) result \<times> 's) \<Rightarrow> 's \<Rightarrow> ('e, 'a) result \<times> 's" where
  "on_error cleanup m s = (case m s of (Inl e, s') \<Rightarrow> (Inl e, cleanup s') | (Inr a, s') \<Rightarrow> (Inr a, s'))"

definition execute :: "'c Sqlite \<Rightarrow> nat \<Rightarrow> Statement \<Rightarrow> ('c, unit) io" where
  "execute sq c statement h =
     (case sq_execute sq c statement h of (worked, h') \<Rightarrow> (if worked then Inr () else Inl Database, h'))"

definition query_int :: "'c Sqlite \<Rightarrow> nat \<Rightarrow> string \<Rightarrow> ('c, int) io" where
  "query_int sq c sql h = (case sq_int sq c sql h of (answer, h') \<Rightarrow> (ok_or Database answer, h'))"

definition query_text :: "'c Sqlite \<Rightarrow> nat \<Rightarrow> string \<Rightarrow> ('c, string) io" where
  "query_text sq c sql h = (case sq_text sq c sql h of (answer, h') \<Rightarrow> (ok_or Database answer, h'))"

text \<open>\<open>PRAGMA user_version\<close> read as a \<open>u32\<close>.\<close>

definition user_version :: "'c Sqlite \<Rightarrow> nat \<Rightarrow> ('c, nat) io" where
  "user_version sq c = sbind (query_int sq c ''PRAGMA user_version'') (\<lambda>v h.
     (if 0 \<le> v \<and> v < 2 ^ 32 then Inr (nat v) else Inl Database, h))"

definition read_snapshot :: "'c Sqlite \<Rightarrow> nat \<Rightarrow> (Snapshot \<Rightarrow> (GatewayError, 'a) result) \<Rightarrow> ('c, 'a) io" where
  "read_snapshot sq c check h = (case sq_snapshot sq c h of (s, h') \<Rightarrow> (check s, h'))"

definition connect :: "'c Sqlite \<Rightarrow> bool \<Rightarrow> string \<Rightarrow> ('c, nat) io" where
  "connect sq read_only path h = (case sq_open sq read_only path h of (c, h') \<Rightarrow> (ok_or Database c, h'))"

section \<open>Paths\<close>

definition SQLITE_HEADER_BYTES :: nat where
  "SQLITE_HEADER_BYTES = 100"

definition SQLITE_USER_VERSION_OFFSET :: nat where
  "SQLITE_USER_VERSION_OFFSET = 60"

definition JOURNAL_BYTES_MAX :: nat where
  "JOURNAL_BYTES_MAX = 64 * 1024 * 1024"

definition ROLLBACK_JOURNAL_BYTES_MAX :: nat where
  "ROLLBACK_JOURNAL_BYTES_MAX = 65 * 1024 * 1024"

text \<open>\<open>Path::components\<close>: empty parts and inner \<open>.\<close> disappear.\<close>

definition component :: "string \<Rightarrow> Component" where
  "component part = (if part = ''.'' then CurDir else if part = ''..'' then ParentDir else NormalName part)"

definition components :: "string \<Rightarrow> Component list" where
  "components path =
     (let parts = split_on CHR ''/'' path; rooted = starts_with path ''/'';
          inner = map component (filter (\<lambda>part. part \<noteq> [] \<and> part \<noteq> ''.'') parts) in
      (if rooted then [RootDir] else if parts \<noteq> [] \<and> hd parts = ''.'' then [CurDir] else []) @ inner)"

definition parent :: "string \<Rightarrow> Component list option" where
  "parent path =
     (let parts = components path in if parts = [] \<or> last parts = RootDir then None else Some (butlast parts))"

definition is_proc_self_fd_directory :: "Component list \<Rightarrow> bool" where
  "is_proc_self_fd_directory parts \<longleftrightarrow>
     (case parts of
        [RootDir, NormalName a, NormalName b, NormalName c, NormalName descriptor] \<Rightarrow>
          a = ''proc'' \<and> b = ''self'' \<and> c = ''fd'' \<and> descriptor \<noteq> []
          \<and> list_all (\<lambda>byte. is_ascii_digit byte) (as_bytes descriptor)
      | _ \<Rightarrow> False)"

definition worker_lock_path :: "string \<Rightarrow> string" where
  "worker_lock_path database_path = database_path @ ''.kap0038-worker.lock''"

section \<open>Files\<close>

definition metadata :: "Disk \<Rightarrow> Inode \<Rightarrow> Metadata" where
  "metadata d i =
     (let node = d_nodes d i in
      \<lparr>md_dev = fst i, md_ino = snd i, md_kind = nd_kind node, md_uid = nd_uid node,
       md_nlink = nd_nlink node, md_mode = nd_mode node, md_len = length (nd_content node)\<rparr>)"

definition symlink_metadata :: "Disk \<Rightarrow> string \<Rightarrow> (IoError, Metadata) result" where
  "symlink_metadata d path =
     (case d_names d path of
        Absent \<Rightarrow> Inl NotFound
      | Unreadable \<Rightarrow> Inl OtherIo
      | Entry i \<Rightarrow> Inr (metadata d i))"

definition owner_private :: "Disk \<Rightarrow> Metadata \<Rightarrow> bool" where
  "owner_private d m \<longleftrightarrow>
     md_kind m = RegularFile \<and> md_uid m = d_euid d \<and> md_nlink m = 1 \<and> md_mode m mod 4096 = 384"

text \<open>\<open>open\<close> with \<open>NOFOLLOW\<close>: a link is refused, and a directory refuses to be opened for writing.\<close>

definition open_existing :: "bool \<Rightarrow> Inode \<Rightarrow> Disk \<Rightarrow> (IoError, Inode) result" where
  "open_existing for_writing i d =
     (let node = d_nodes d i in
      if nd_kind node = SymbolicLink \<or> (for_writing \<and> nd_kind node = DirectoryFile) \<or> \<not> nd_opens node
      then Inl OtherIo else Inr i)"

definition open_private_file :: "(IoError \<Rightarrow> GatewayError) \<Rightarrow> string \<Rightarrow> ('c, Inode) io" where
  "open_private_file failure path h =
     (let d = h_disk h;
          (opened, d') = (case d_names d path of
              Unreadable \<Rightarrow> (Inl OtherIo, d)
            | Entry i \<Rightarrow> (open_existing True i d, d)
            | Absent \<Rightarrow> (case d_create d path of
                None \<Rightarrow> (Inl OtherIo, d)
              | Some (i, node) \<Rightarrow>
                  (Inr i, d\<lparr>d_names := (d_names d)(path := Entry i), d_nodes := (d_nodes d)(i := node)\<rparr>))) in
      (map_err failure (rbind opened (\<lambda>i. if owner_private d' (metadata d' i) then Inr i else Inl OtherIo)),
       h\<lparr>h_disk := d'\<rparr>))"

definition open_existing_private_file :: "string \<Rightarrow> Disk \<Rightarrow> (IoError, Inode) result" where
  "open_existing_private_file path d =
     (case d_names d path of
        Absent \<Rightarrow> Inl NotFound
      | Unreadable \<Rightarrow> Inl OtherIo
      | Entry i \<Rightarrow> rbind (open_existing False i d) (\<lambda>i.
          if owner_private d (metadata d i) then Inr i else Inl OtherIo))"

definition require_private_parent :: "string \<Rightarrow> Disk \<Rightarrow> (IoError, unit) result" where
  "require_private_parent path d =
     rbind (ok_or OtherIo (parent path)) (\<lambda>directory.
     rbind (d_directory d (is_proc_self_fd_directory directory) directory) (\<lambda>m.
     if md_kind m \<noteq> DirectoryFile \<or> md_uid m \<noteq> d_euid d \<or> md_mode m mod 4096 \<noteq> 448
     then Inl OtherIo else Inr ()))"

definition require_named_identity :: "string \<Rightarrow> Metadata \<Rightarrow> Disk \<Rightarrow> (IoError, unit) result" where
  "require_named_identity path expected d =
     rbind (symlink_metadata d path) (\<lambda>actual.
     if md_kind actual \<noteq> RegularFile \<or> md_dev actual \<noteq> md_dev expected \<or> md_ino actual \<noteq> md_ino expected
        \<or> md_uid actual \<noteq> md_uid expected \<or> md_nlink actual \<noteq> 1 \<or> md_mode actual mod 4096 \<noteq> 384
     then Inl OtherIo else Inr ())"

text \<open>The two bytes 18 and 19 are the file format versions, 16 and 17 the page size, 20 the reserved space.\<close>

definition read_header_version :: "Inode \<Rightarrow> Disk \<Rightarrow> (GatewayError, nat) result" where
  "read_header_version i d =
     (let node = d_nodes d i; content = nd_content node in
      if length content = 0 then Inr 0
      else if length content < SQLITE_HEADER_BYTES then Inl InvalidPersistedState
      else if \<not> nd_reads node then Inl JournalFile
      else
        let header = take SQLITE_HEADER_BYTES content;
            version = from_be (slice SQLITE_USER_VERSION_OFFSET (SQLITE_USER_VERSION_OFFSET + 4) header) in
        if take 16 header \<noteq> as_bytes ''SQLite format 3'' @ [0] \<or> header ! 18 \<noteq> 1 \<or> header ! 19 \<noteq> 1
        then Inl InvalidPersistedState
        else if version = JOURNAL_FORMAT_VERSION \<and> (from_be (slice 16 18 header) \<noteq> 4096 \<or> header ! 20 \<noteq> 0)
        then Inl InvalidPersistedState
        else Inr version)"

section \<open>History artifacts\<close>

definition require_no_history_artifacts :: "string \<Rightarrow> Disk \<Rightarrow> (GatewayError, unit) result" where
  "require_no_history_artifacts path d =
     try_all (\<lambda>suffix.
       case symlink_metadata d (path @ suffix) of
         Inl NotFound \<Rightarrow> Inr ()
       | Inl OtherIo \<Rightarrow> Inl JournalFile
       | Inr _ \<Rightarrow> Inl MissingJournalHistory)
     [''.kap0038-worker.lock'', ''-journal'', ''-wal'', ''-shm'']"

definition require_absent :: "string \<Rightarrow> Disk \<Rightarrow> (GatewayError, unit) result" where
  "require_absent path d =
     (case symlink_metadata d path of
        Inl NotFound \<Rightarrow> Inr ()
      | Inl OtherIo \<Rightarrow> Inl JournalFile
      | Inr _ \<Rightarrow> Inl InvalidPersistedState)"

section \<open>The connection\<close>

definition eq_ignore_ascii_case :: "string \<Rightarrow> string \<Rightarrow> bool" where
  "eq_ignore_ascii_case a b \<longleftrightarrow>
     (let lower = map (\<lambda>x. if is_ascii_uppercase x then x + 32 else x) in lower (as_bytes a) = lower (as_bytes b))"

definition configure_durable_connection :: "'c Sqlite \<Rightarrow> nat \<Rightarrow> ('c, unit) io" where
  "configure_durable_connection sq c =
     sbind (execute sq c (PragmaUpdate ''synchronous'' ''FULL'')) (\<lambda>_.
     sbind (query_text sq c ''PRAGMA journal_mode'') (\<lambda>journal_mode.
     if \<not> eq_ignore_ascii_case journal_mode ''delete'' then Pair (Inl InvalidPersistedState)
     else sbind (execute sq c (PragmaUpdate ''journal_mode'' ''DELETE'')) (\<lambda>_.
     sbind (query_text sq c ''PRAGMA journal_mode'') (\<lambda>verified_mode.
     sbind (query_int sq c ''PRAGMA synchronous'') (\<lambda>synchronous.
     if \<not> eq_ignore_ascii_case verified_mode ''delete'' \<or> synchronous \<noteq> 2
     then Pair (Inl InvalidPersistedState) else Pair (Inr ()))))))"

definition query_layout :: "'c Sqlite \<Rightarrow> nat \<Rightarrow> ('c, unit) io" where
  "query_layout sq c =
     sbind (query_int sq c ''PRAGMA page_size'') (\<lambda>page_size.
     sbind (query_int sq c ''PRAGMA auto_vacuum'') (\<lambda>auto_vacuum.
     Pair (require_layout (Some page_size) (Some auto_vacuum))))"

definition configure :: "'c Sqlite \<Rightarrow> nat \<Rightarrow> bool \<Rightarrow> ('c, unit) io" where
  "configure sq c fresh =
     sbind (if fresh then execute sq c (PragmaUpdate ''page_size'' ''4096'') else Pair (Inr ())) (\<lambda>_.
     sbind (query_layout sq c) (\<lambda>_.
     sbind (query_int sq c ''PRAGMA max_page_count = 16384'') (\<lambda>configured_maximum_pages.
     if configured_maximum_pages \<noteq> DATABASE_PAGES then Pair (Inl InvalidPersistedState)
     else sbind (execute sq c (PragmaUpdate ''cache_spill'' ''false'')) (\<lambda>_.
     sbind (query_int sq c ''PRAGMA cache_spill'') (\<lambda>cache_spill.
     Pair (if cache_spill \<noteq> 0 then Inl InvalidPersistedState else Inr ()))))))"

definition initialize_schema :: "'c Sqlite \<Rightarrow> nat \<Rightarrow> bool \<Rightarrow> ('c, unit) io" where
  "initialize_schema sq c fresh =
     (if fresh then
        sbind (execute sq c (ExecuteBatch CREATE_OPERATION_TABLE)) (\<lambda>_.
        sbind (execute sq c (ExecuteBatch CREATE_GIT_TABLE)) (\<lambda>_.
        read_snapshot sq c require_all_persisted_bounds))
      else Pair (Inl UnsupportedJournalVersion))"

definition rollback :: "'c Sqlite \<Rightarrow> nat \<Rightarrow> 'c Host \<Rightarrow> 'c Host" where
  "rollback sq c h = snd (sq_execute sq c Rollback h)"

definition initialize_journal :: "'c Sqlite \<Rightarrow> nat \<Rightarrow> ('c, unit) io" where
  "initialize_journal sq c =
     sbind (execute sq c BeginExclusive) (\<lambda>_.
     on_error (rollback sq c) (
     sbind (initialize_schema sq c True) (\<lambda>_.
     sbind (read_snapshot sq c require_integrity) (\<lambda>_.
     sbind (execute sq c (PragmaUpdate ''user_version'' ''6'')) (\<lambda>_.
     execute sq c Commit)))))"

section \<open>Recovery and opening\<close>

definition unlink :: "string \<Rightarrow> Disk \<Rightarrow> Disk" where
  "unlink path d = d\<lparr>d_names := (d_names d)(path := Absent)\<rparr>"

text \<open>
  The journal that survives SQLite's own recovery must still be the file that was there, with its
  header cleared; it is then removed and the directory synced.
\<close>

definition remove_residual_journal :: "string \<Rightarrow> string \<Rightarrow> Metadata \<Rightarrow> ('c, unit) io" where
  "remove_residual_journal database_path journal_path journal_identity h =
     (let d = h_disk h in
      case open_existing_private_file journal_path d of
        Inl NotFound \<Rightarrow> (Inr (), h)
      | Inl OtherIo \<Rightarrow> (Inl JournalBackup, h)
      | Inr residual \<Rightarrow>
          let residual_identity = metadata d residual; node = d_nodes d residual in
          if md_dev residual_identity \<noteq> md_dev journal_identity \<or> md_ino residual_identity \<noteq> md_ino journal_identity
          then (Inl JournalBackupMismatch, h)
          else if \<not> nd_reads node \<or> length (nd_content node) < 8 then (Inl JournalBackup, h)
          else if take 8 (nd_content node) \<noteq> replicate 8 0 then (Inl InvalidPersistedState, h)
          else case require_named_identity journal_path residual_identity d of
            Inl _ \<Rightarrow> (Inl JournalBackup, h)
          | Inr _ \<Rightarrow>
              if \<not> d_unlinks d journal_path then (Inl JournalBackup, h)
              else
                let h' = h\<lparr>h_disk := unlink journal_path d\<rparr> in
                (case parent database_path of
                   None \<Rightarrow> Inl JournalBackup
                 | Some directory \<Rightarrow> if d_syncs d directory then Inr () else Inl JournalBackup, h'))"

definition require_no_sidecar :: "string \<Rightarrow> Disk \<Rightarrow> (GatewayError, unit) result" where
  "require_no_sidecar database_path d =
     try_all (\<lambda>suffix.
       case symlink_metadata d (database_path @ suffix) of
         Inr _ \<Rightarrow> Inl JournalBackupMismatch
       | Inl NotFound \<Rightarrow> Inr ()
       | Inl OtherIo \<Rightarrow> Inl JournalBackup)
     [''-wal'', ''-shm'']"

text \<open>The checks before a rollback journal is handed to SQLite.\<close>

definition require_own_journal :: "string \<Rightarrow> Metadata \<Rightarrow> Metadata \<Rightarrow> Disk \<Rightarrow> (GatewayError, unit) result" where
  "require_own_journal database_path database_identity journal_identity d =
     (if md_len journal_identity > ROLLBACK_JOURNAL_BYTES_MAX then Inl JournalBackupMismatch
      else if md_len database_identity = 0 then Inl InvalidPersistedState
      else if md_dev journal_identity = md_dev database_identity \<and> md_ino journal_identity = md_ino database_identity
      then Inl JournalBackupMismatch
      else
        rbind (map_err (\<lambda>_. JournalBackup) (require_named_identity (database_path @ ''-journal'') journal_identity d)) (\<lambda>_.
        rbind (map_err (\<lambda>_. JournalFile) (require_named_identity database_path database_identity d)) (\<lambda>_.
        map_err (\<lambda>_. JournalFile) (require_private_parent database_path d))))"

definition recover_private_rollback_journal :: "'c Sqlite \<Rightarrow> string \<Rightarrow> Metadata \<Rightarrow> ('c, unit) io" where
  "recover_private_rollback_journal sq database_path database_identity =
     sbind (look (require_no_sidecar database_path)) (\<lambda>_ h.
     let journal_path = database_path @ ''-journal'' in
     case open_existing_private_file journal_path (h_disk h) of
       Inl NotFound \<Rightarrow> (Inr (), h)
     | Inl OtherIo \<Rightarrow> (Inl JournalBackup, h)
     | Inr journal \<Rightarrow>
         let journal_identity = metadata (h_disk h) journal in
         sbind (look (require_own_journal database_path database_identity journal_identity)) (\<lambda>_.
         sbind (connect sq False database_path) (\<lambda>recovery_connection.
         sbind (on_error (sq_close sq recovery_connection) (
           sbind (configure_durable_connection sq recovery_connection) (\<lambda>_.
           sbind (user_version sq recovery_connection) (\<lambda>_ h.
           (Inr (), sq_close sq recovery_connection h))))) (\<lambda>_.
         sbind (remove_residual_journal database_path journal_path journal_identity) (\<lambda>_.
         look (\<lambda>d. map_err (\<lambda>_. JournalFile) (require_named_identity database_path database_identity d)))))) h)"

text \<open>A database is within its size bound; its metadata are taken anew.\<close>

definition bounded_metadata :: "Inode \<Rightarrow> Disk \<Rightarrow> (GatewayError, Metadata) result" where
  "bounded_metadata i d =
     (let m = metadata d i in if md_len m > JOURNAL_BYTES_MAX then Inl InvalidPersistedState else Inr m)"

definition require_fresh_or_present :: "string \<Rightarrow> Disk \<Rightarrow> (GatewayError, unit) result" where
  "require_fresh_or_present path d =
     (case symlink_metadata d path of
        Inl NotFound \<Rightarrow> require_no_history_artifacts path d
      | Inl OtherIo \<Rightarrow> Inl JournalFile
      | Inr m \<Rightarrow> if md_len m = 0 then require_no_history_artifacts path d else Inr ())"

definition supported_version :: "bool \<Rightarrow> nat \<Rightarrow> (GatewayError, unit) result" where
  "supported_version fresh version =
     (if \<not> fresh \<and> version \<noteq> JOURNAL_FORMAT_VERSION then Inl UnsupportedJournalVersion else Inr ())"

text \<open>From the connection on: configuration, the version, a fresh layout, and the validity of what is there.\<close>

definition open_connection :: "'c Sqlite \<Rightarrow> string \<Rightarrow> Metadata \<Rightarrow> bool \<Rightarrow> nat \<Rightarrow> nat \<Rightarrow> ('c, unit) io" where
  "open_connection sq path database_identity fresh source_version c =
     sbind (execute sq c (SetLengthLimit PERSISTED_ROW_BYTES_MAX)) (\<lambda>_.
     sbind (look (\<lambda>d. map_err (\<lambda>_. JournalFile) (require_named_identity path database_identity d))) (\<lambda>_.
     sbind (look (\<lambda>d. map_err (\<lambda>_. JournalFile) (require_private_parent path d))) (\<lambda>_.
     sbind (configure sq c fresh) (\<lambda>_.
     sbind (configure_durable_connection sq c) (\<lambda>_.
     sbind (user_version sq c) (\<lambda>opened_version.
     if opened_version \<noteq> source_version then Pair (Inl InvalidPersistedState)
     else sbind (if fresh then initialize_journal sq c else Pair (Inr ())) (\<lambda>_.
     sbind (execute sq c BeginDeferred) (\<lambda>_.
     sbind (on_error (rollback sq c) (read_snapshot sq c require_valid_snapshot)) (\<lambda>_ h.
     (Inr (), rollback sq c h))))))))))"

definition open_worker_lock :: "string \<Rightarrow> ('c, Inode) io" where
  "open_worker_lock path =
     sbind (open_private_file (\<lambda>_. WorkerLock) (worker_lock_path path)) (\<lambda>worker_lock.
     sbind (look (\<lambda>d. map_err (\<lambda>_. WorkerLock) (require_named_identity (worker_lock_path path) (metadata d worker_lock) d))) (\<lambda>_.
     Pair (Inr worker_lock)))"

definition open_journal :: "'c Sqlite \<Rightarrow> string \<Rightarrow> ('c, nat \<times> Inode) io" where
  "open_journal sq path =
     sbind (look (\<lambda>d. map_err (\<lambda>_. JournalFile) (require_private_parent path d))) (\<lambda>_.
     sbind (look (require_fresh_or_present path)) (\<lambda>_.
     sbind (open_private_file (\<lambda>_. JournalFile) path) (\<lambda>database_file.
     sbind (look (bounded_metadata database_file)) (\<lambda>database_identity.
     let fresh = md_len database_identity = 0 in
     sbind (look (read_header_version database_file)) (\<lambda>initial_version.
     sbind (look (\<lambda>_. supported_version fresh initial_version)) (\<lambda>_.
     sbind (recover_private_rollback_journal sq path database_identity) (\<lambda>_.
     sbind (look (bounded_metadata database_file)) (\<lambda>database_identity.
     sbind (look (\<lambda>d. map_err (\<lambda>_. JournalFile) (require_named_identity path database_identity d))) (\<lambda>_.
     sbind (look (read_header_version database_file)) (\<lambda>source_version.
     sbind (look (\<lambda>_. supported_version fresh source_version)) (\<lambda>_.
     sbind (connect sq False path) (\<lambda>connection.
     on_error (sq_close sq connection) (
     sbind (open_connection sq path database_identity fresh source_version connection) (\<lambda>_.
     sbind (open_worker_lock path) (\<lambda>worker_lock.
     Pair (Inr (connection, worker_lock)))))))))))))))))"

text \<open>
  Validation before a replacement takes over: a read-only connection with one open read snapshot,
  or \<open>None\<close> when there is no history at all.
\<close>

definition validated_connection :: "'c Sqlite \<Rightarrow> string \<Rightarrow> Metadata \<Rightarrow> nat \<Rightarrow> ('c, unit) io" where
  "validated_connection sq path database_identity c =
     sbind (execute sq c (SetLengthLimit PERSISTED_ROW_BYTES_MAX)) (\<lambda>_.
     sbind (execute sq c BeginDeferred) (\<lambda>_.
     sbind (user_version sq c) (\<lambda>snapshot_version.
     sbind (look (\<lambda>_. supported_version False snapshot_version)) (\<lambda>_.
     sbind (look (\<lambda>d. map_err (\<lambda>_. JournalFile) (require_named_identity path database_identity d))) (\<lambda>_.
     sbind (look (\<lambda>d. map_err (\<lambda>_. JournalFile) (require_private_parent path d))) (\<lambda>_.
     read_snapshot sq c require_valid_snapshot))))))"

definition open_validation_snapshot :: "'c Sqlite \<Rightarrow> string \<Rightarrow> ('c, nat option) io" where
  "open_validation_snapshot sq path =
     sbind (look (\<lambda>d. map_err (\<lambda>_. JournalFile) (require_private_parent path d))) (\<lambda>_ h.
     case open_existing_private_file path (h_disk h) of
       Inl NotFound \<Rightarrow>
         sbind (look (require_absent path)) (\<lambda>_.
         sbind (look (require_no_history_artifacts path)) (\<lambda>_. Pair (Inr None))) h
     | Inl OtherIo \<Rightarrow> (Inl JournalFile, h)
     | Inr database_file \<Rightarrow>
         sbind (look (\<lambda>d. try_all (\<lambda>suffix. require_absent (path @ suffix) d) [''-journal'', ''-wal'', ''-shm''])) (\<lambda>_.
         sbind (look (bounded_metadata database_file)) (\<lambda>database_identity.
         sbind (look (\<lambda>_. if md_len database_identity = 0 then Inl InvalidPersistedState else Inr ())) (\<lambda>_.
         sbind (look (read_header_version database_file)) (\<lambda>version.
         sbind (look (\<lambda>_. supported_version False version)) (\<lambda>_.
         sbind (look (\<lambda>d. map_err (\<lambda>_. JournalFile) (require_named_identity path database_identity d))) (\<lambda>_.
         sbind (connect sq True path) (\<lambda>connection.
         on_error (sq_close sq connection) (
         sbind (validated_connection sq path database_identity connection) (\<lambda>_.
         Pair (Inr (Some connection))))))))))) h)"

section \<open>What each step keeps\<close>

named_theorems io_simps

lemma sbind_look [io_simps]:
  "sbind (look check) f h = (case check (h_disk h) of Inl e \<Rightarrow> (Inl e, h) | Inr a \<Rightarrow> f a h)"
  by (simp add: sbind_def look_def split: sum.splits)

lemma sbind_run:
  "m h = (Inl e, h') \<Longrightarrow> sbind m f h = (Inl e, h')"
  "m h = (Inr a, h') \<Longrightarrow> sbind m f h = f a h'"
  by (simp_all add: sbind_def)

lemma sbind_eq_Inr:
  "sbind m f s = (Inr b, s') \<longleftrightarrow> (\<exists>a s1. m s = (Inr a, s1) \<and> f a s1 = (Inr b, s'))"
  by (auto simp: sbind_def split: prod.splits sum.splits)

lemma fst_sbind_eq_Inr:
  "fst (sbind m f s) = Inr b \<longleftrightarrow> (\<exists>a s1. m s = (Inr a, s1) \<and> fst (f a s1) = Inr b)"
  by (auto simp: sbind_def split: prod.splits sum.splits)

lemma fst_on_error_eq_Inr: "fst (on_error cleanup m s) = Inr b \<longleftrightarrow> fst (m s) = Inr b"
  by (auto simp: on_error_def split: prod.splits sum.splits)

lemma look_eq: "look check h = (r, h') \<longleftrightarrow> check (h_disk h) = r \<and> h' = h"
  by (auto simp: look_def)

lemma on_error_eq_Inr [simp]: "on_error cleanup m s = (Inr b, s') \<longleftrightarrow> m s = (Inr b, s')"
  by (auto simp: on_error_def split: prod.splits sum.splits)

lemma map_err_eq_Inr' [simp]: "map_err g r = Inr x \<longleftrightarrow> r = Inr x"
  by (cases r) simp_all

text \<open>The history of a journal at \<open>path\<close>: the names besides the database that are part of it.\<close>

definition artifact_suffixes :: "string set" where
  "artifact_suffixes = {''.kap0038-worker.lock'', ''-journal'', ''-wal'', ''-shm''}"

definition no_artifacts :: "string \<Rightarrow> Disk \<Rightarrow> bool" where
  "no_artifacts path d \<longleftrightarrow> (\<forall>suffix \<in> artifact_suffixes. d_names d (path @ suffix) = Absent)"

lemma symlink_metadata_NotFound: "symlink_metadata d path = Inl NotFound \<longleftrightarrow> d_names d path = Absent"
  by (simp add: symlink_metadata_def split: Name.splits)

lemma require_absent_iff: "require_absent path d = Inr () \<longleftrightarrow> d_names d path = Absent"
  by (simp add: require_absent_def symlink_metadata_def split: Name.splits)

lemma require_no_history_artifacts_iff: "require_no_history_artifacts path d = Inr () \<longleftrightarrow> no_artifacts path d"
  unfolding require_no_history_artifacts_def no_artifacts_def artifact_suffixes_def
  by (simp add: symlink_metadata_def split: Name.splits)

text \<open>A surviving artifact is reported as lost history.\<close>

lemma surviving_artifact:
  assumes "\<not> no_artifacts path d" "\<forall>suffix \<in> artifact_suffixes. d_names d (path @ suffix) \<noteq> Unreadable"
  shows "require_no_history_artifacts path d = Inl MissingJournalHistory"
  using assms unfolding require_no_history_artifacts_def no_artifacts_def artifact_suffixes_def
  by (auto simp: symlink_metadata_def split: Name.splits)

lemma open_private_existing:
  assumes "d_names (h_disk h) path = Entry i"
  shows "open_private_file failure path h =
    (map_err failure (rbind (open_existing True i (h_disk h)) (\<lambda>i.
       if owner_private (h_disk h) (metadata (h_disk h) i) then Inr i else Inl OtherIo)), h)"
  by (simp add: open_private_file_def assms Let_def)

lemma open_existing_Inr: "open_existing w i d = Inr j \<Longrightarrow> j = i"
  by (simp add: open_existing_def Let_def split: if_splits)

lemma open_existing_private_NotFound: "open_existing_private_file path d = Inl NotFound \<longleftrightarrow> d_names d path = Absent"
  by (auto simp: open_existing_private_file_def open_existing_def Let_def result_simps split: Name.splits if_splits)

lemma named_identity_entry:
  assumes "require_named_identity path (metadata d i) d = Inr ()"
  shows "d_names d path = Entry i"
  using assms by (auto simp: require_named_identity_def symlink_metadata_def result_simps metadata_def Let_def
      prod_eq_iff split: Name.splits if_splits)

lemma opened_steps:
  assumes "open_journal sq path h = (Inr (c, lock), h')"
  obtains identity fresh version h1 h2 where
    "open_connection sq path identity fresh version c h1 = (Inr (), h2)" "open_worker_lock path h2 = (Inr lock, h')"
  using assms by (auto simp: open_journal_def sbind_eq_Inr look_eq Let_def)

lemma open_connection_snapshot:
  assumes "open_connection sq path identity fresh version c h1 = (Inr (), h2)"
  obtains h3 where "require_valid_snapshot (fst (sq_snapshot sq c h3)) = Inr ()"
    "h2 = rollback sq c (snd (sq_snapshot sq c h3))"
proof -
  obtain h3 h4 where "read_snapshot sq c require_valid_snapshot h3 = (Inr (), h4)" "h2 = rollback sq c h4"
    using assms by (auto simp: open_connection_def sbind_eq_Inr look_eq split: if_splits)
  then show thesis using that [of h3] by (simp add: read_snapshot_def split: prod.splits)
qed

lemma worker_lock_opened:
  assumes "open_worker_lock path h = (Inr lock, h')"
  shows "d_names (h_disk h') (worker_lock_path path) = Entry lock"
    and "owner_private (h_disk h') (metadata (h_disk h') lock)"
proof -
  have steps: "open_private_file (\<lambda>_. WorkerLock) (worker_lock_path path) h = (Inr lock, h')"
    "require_named_identity (worker_lock_path path) (metadata (h_disk h') lock) (h_disk h') = Inr ()"
    using assms by (auto simp: open_worker_lock_def sbind_eq_Inr look_eq)
  show "d_names (h_disk h') (worker_lock_path path) = Entry lock"
    using steps(2) by (rule named_identity_entry)
  show "owner_private (h_disk h') (metadata (h_disk h') lock)"
    using steps(1) by (auto simp: open_private_file_def Let_def result_simps split: prod.splits if_splits)
qed

text \<open>
  What is relied on of SQLite after opening: a read and the end of its transaction do not change
  the rows, neither does another file of the directory, and strict tables are strict.
\<close>

definition rows_at :: "'c Sqlite \<Rightarrow> nat \<Rightarrow> 'c Host \<Rightarrow> Db option" where
  "rows_at sq c h = sn_rows (fst (sq_snapshot sq c h))"

definition sqlite_reads :: "'c Sqlite \<Rightarrow> string \<Rightarrow> nat \<Rightarrow> bool" where
  "sqlite_reads sq path c \<longleftrightarrow> (\<forall>h.
     rows_at sq c (rollback sq c (snd (sq_snapshot sq c h))) = rows_at sq c h \<and>
     rows_at sq c (snd (open_worker_lock path h)) = rows_at sq c h \<and>
     sqlite_strict (fst (sq_snapshot sq c h)))"

text \<open>A connection opened read-only leaves the files alone.\<close>

definition disk_kept :: "('c Host \<Rightarrow> 'a \<times> 'c Host) \<Rightarrow> bool" where
  "disk_kept m \<longleftrightarrow> (\<forall>h. h_disk (snd (m h)) = h_disk h)"

definition sqlite_read_only :: "'c Sqlite \<Rightarrow> string \<Rightarrow> bool" where
  "sqlite_read_only sq path \<longleftrightarrow> disk_kept (sq_open sq True path) \<and>
     (\<forall>h c. fst (sq_open sq True path h) = Some c \<longrightarrow>
        disk_kept (sq_execute sq c (SetLengthLimit PERSISTED_ROW_BYTES_MAX)) \<and>
        disk_kept (sq_execute sq c BeginDeferred) \<and> (\<forall>sql. disk_kept (sq_int sq c sql)) \<and>
        disk_kept (sq_snapshot sq c) \<and> (\<forall>h. h_disk (sq_close sq c h) = h_disk h))"

lemma disk_kept_look [simp]: "disk_kept (look check)"
  by (simp add: disk_kept_def look_def)

lemma disk_kept_Pair [simp]: "disk_kept (Pair r)"
  by (simp add: disk_kept_def)

lemma disk_kept_sbind: "disk_kept m \<Longrightarrow> (\<And>a. disk_kept (f a)) \<Longrightarrow> disk_kept (sbind m f)"
  by (simp add: disk_kept_def sbind_def split: prod.splits sum.splits) (metis snd_conv)

lemma disk_kept_on_error: "disk_kept m \<Longrightarrow> (\<And>h. h_disk (cleanup h) = h_disk h) \<Longrightarrow> disk_kept (on_error cleanup m)"
  by (simp add: disk_kept_def on_error_def split: prod.splits sum.splits) (metis snd_conv)

lemma disk_kept_io_case:
  "disk_kept absent \<Longrightarrow> (\<And>i. disk_kept (found i)) \<Longrightarrow>
    disk_kept (\<lambda>h. case opened h of Inl NotFound \<Rightarrow> absent h | Inl OtherIo \<Rightarrow> (r, h) | Inr i \<Rightarrow> found i h)"
  by (simp add: disk_kept_def split: sum.splits IoError.splits)

lemma disk_kept_sqlite:
  "disk_kept (sq_execute sq c statement) \<Longrightarrow> disk_kept (execute sq c statement)"
  "(\<And>sql. disk_kept (sq_int sq c sql)) \<Longrightarrow> disk_kept (user_version sq c)"
  "disk_kept (sq_snapshot sq c) \<Longrightarrow> disk_kept (read_snapshot sq c check)"
proof -
  show "disk_kept (sq_execute sq c statement) \<Longrightarrow> disk_kept (execute sq c statement)"
    by (simp add: disk_kept_def execute_def split: prod.splits) (metis snd_conv)
  show "disk_kept (sq_snapshot sq c) \<Longrightarrow> disk_kept (read_snapshot sq c check)"
    by (simp add: disk_kept_def read_snapshot_def split: prod.splits) (metis snd_conv)
  assume int: "\<And>sql. disk_kept (sq_int sq c sql)"
  have "disk_kept (query_int sq c sql)" for sql
    using int [of sql] by (simp add: disk_kept_def query_int_def split: prod.splits) (metis snd_conv)
  then show "disk_kept (user_version sq c)"
    unfolding user_version_def by (rule disk_kept_sbind) (simp add: disk_kept_def)
qed

lemma connect_read_only:
  assumes "sqlite_read_only sq path"
  shows "disk_kept (sbind (connect sq True path) (\<lambda>c. on_error (sq_close sq c)
    (sbind (validated_connection sq path identity c) (\<lambda>_. Pair (Inr (Some c))))))"
  unfolding disk_kept_def
proof
  fix h :: "'a Host"
  let ?rest = "\<lambda>c. on_error (sq_close sq c) (sbind (validated_connection sq path identity c) (\<lambda>_. Pair (Inr (Some c))))"
  obtain answer h1 where opened: "sq_open sq True path h = (answer, h1)" by fastforce
  have kept: "h_disk h1 = h_disk h" using assms opened unfolding sqlite_read_only_def disk_kept_def by (metis snd_conv)
  show "h_disk (snd (sbind (connect sq True path) ?rest h)) = h_disk h"
  proof (cases answer)
    case None
    with opened kept show ?thesis by (simp add: sbind_def connect_def)
  next
    case (Some c)
    have c: "disk_kept (sq_execute sq c (SetLengthLimit PERSISTED_ROW_BYTES_MAX))" "disk_kept (sq_execute sq c BeginDeferred)"
      "disk_kept (sq_int sq c sql)" "disk_kept (sq_snapshot sq c)" "h_disk (sq_close sq c h) = h_disk h" for sql h
      using assms opened Some unfolding sqlite_read_only_def by (metis fst_conv)+
    have "disk_kept (validated_connection sq path identity c)"
      unfolding validated_connection_def by (intro disk_kept_sbind disk_kept_sqlite c disk_kept_look)
    then have "disk_kept (?rest c)" by (intro disk_kept_on_error disk_kept_sbind disk_kept_Pair c)
    with opened Some kept show ?thesis by (simp add: sbind_def connect_def disk_kept_def)
  qed
qed

section \<open>Properties\<close>

text \<open>
  C38. Opening changes nothing but the journal's own history: if opening changed the host in any
  way (created a file, recovered, or let SQLite open the database), whether or not it then
  succeeded, the directory was owner-private and either the database was absent or empty with no
  worker lock, rollback journal, WAL or shared-memory file beside it, or it was an owner-private
  regular file of at most 64 MiB whose header names exactly the supported format version.
\<close>

theorem opening_changes_only_own_history:
  assumes "snd (open_journal sq path h) \<noteq> h"
  shows "require_private_parent path (h_disk h) = Inr () \<and>
    ((\<forall>i. d_names (h_disk h) path = Entry i \<longrightarrow> nd_content (d_nodes (h_disk h) i) = []) \<and> no_artifacts path (h_disk h) \<or>
     (\<exists>i. d_names (h_disk h) path = Entry i \<and> owner_private (h_disk h) (metadata (h_disk h) i) \<and>
       md_len (metadata (h_disk h) i) \<le> JOURNAL_BYTES_MAX \<and> read_header_version i (h_disk h) = Inr JOURNAL_FORMAT_VERSION))"
proof -
  have parent: "require_private_parent path (h_disk h) = Inr ()"
    using assms by (auto simp: open_journal_def io_simps split: sum.splits)
  have present: "require_fresh_or_present path (h_disk h) = Inr ()"
    using assms by (auto simp: open_journal_def io_simps parent split: sum.splits)
  show ?thesis
  proof (cases "\<exists>i. d_names (h_disk h) path = Entry i \<and> nd_content (d_nodes (h_disk h) i) \<noteq> []")
    case False
    then have "no_artifacts path (h_disk h)"
      using present by (auto simp: require_fresh_or_present_def symlink_metadata_def metadata_def Let_def
          require_no_history_artifacts_iff split: Name.splits)
    with parent False show ?thesis by blast
  next
    case True
    then obtain i where i: "d_names (h_disk h) path = Entry i" "nd_content (d_nodes (h_disk h) i) \<noteq> []" by blast
    note run = open_journal_def io_simps parent present
    have opened: "rbind (open_existing True i (h_disk h)) (\<lambda>i.
       if owner_private (h_disk h) (metadata (h_disk h) i) then Inr i else Inl OtherIo) = Inr i" (is "?opened = _")
    proof (cases ?opened)
      case (Inl e)
      then have "open_private_file (\<lambda>_. JournalFile) path h = (Inl JournalFile, h)"
        by (simp add: open_private_existing [OF i(1)])
      then show ?thesis using assms by (simp add: run sbind_run)
    next
      case (Inr j)
      then show ?thesis by (auto simp: result_simps dest: open_existing_Inr split: if_splits)
    qed
    then have handle: "open_private_file (\<lambda>_. JournalFile) path h = (Inr i, h)"
      by (simp add: open_private_existing [OF i(1)])
    from opened have privy: "owner_private (h_disk h) (metadata (h_disk h) i)"
      by (auto simp: result_simps dest: open_existing_Inr split: if_splits)
    have "md_len (metadata (h_disk h) i) \<le> JOURNAL_BYTES_MAX \<and> read_header_version i (h_disk h) = Inr JOURNAL_FORMAT_VERSION"
      using assms i(2) by (auto simp: run handle sbind_run(2) [of "open_private_file _ _"] Let_def bounded_metadata_def supported_version_def metadata_def
          split: sum.splits if_splits)
    with i(1) parent privy show ?thesis by blast
  qed
qed

text \<open>
  C39. A journal that opens is one the rest of the program may work with: when opening succeeds,
  the rows the connection then reads satisfy the journal's invariant (rows of their table's
  shape, one row per identity, no identity in both tables), are within the identity and
  unfinished capacities and within the bounds of persisted values, and the worker lock is an
  owner-private regular file under the lock's own name.
\<close>

theorem opened_journal_sound:
  assumes "open_journal sq path h = (Inr (c, lock), h')" "sqlite_reads sq path c"
  shows "\<exists>db. rows_at sq c h' = Some db \<and> db_ok db \<and> within_capacity db \<and> rows_bounded db \<and>
    d_names (h_disk h') (worker_lock_path path) = Entry lock \<and>
    owner_private (h_disk h') (metadata (h_disk h') lock)"
proof -
  obtain identity fresh version h1 h2 where steps:
    "open_connection sq path identity fresh version c h1 = (Inr (), h2)" "open_worker_lock path h2 = (Inr lock, h')"
    using assms(1) by (rule opened_steps)
  obtain h3 where snapshot: "require_valid_snapshot (fst (sq_snapshot sq c h3)) = Inr ()"
    "h2 = rollback sq c (snd (sq_snapshot sq c h3))"
    using steps(1) by (rule open_connection_snapshot)
  have rows: "rows_at sq c h' = sn_rows (fst (sq_snapshot sq c h3))" and strict: "sqlite_strict (fst (sq_snapshot sq c h3))"
    using assms(2) steps(2) snapshot(2) unfolding sqlite_reads_def by (metis rows_at_def snd_conv)+
  obtain db where "sn_rows (fst (sq_snapshot sq c h3)) = Some db" "db_ok db" "within_capacity db" "rows_bounded db"
    using snapshot(1) strict by (rule require_valid_snapshot_sound)
  with rows worker_lock_opened [OF steps(2)] show ?thesis by simp
qed

text \<open>
  C40. Validating a journal for a replacement changes no file, and reports a journal without
  history exactly when the directory is owner-private and none of the database, the worker lock,
  the rollback journal, the WAL and the shared-memory file exists.
\<close>

theorem validation_is_read_only:
  assumes "sqlite_read_only sq path"
  shows "h_disk (snd (open_validation_snapshot sq path h)) = h_disk h \<and>
    (fst (open_validation_snapshot sq path h) = Inr None \<longleftrightarrow>
       require_private_parent path (h_disk h) = Inr () \<and> d_names (h_disk h) path = Absent \<and> no_artifacts path (h_disk h))"
proof
  have "disk_kept (open_validation_snapshot sq path)"
    unfolding open_validation_snapshot_def
    by (intro disk_kept_sbind disk_kept_io_case disk_kept_look disk_kept_Pair connect_read_only [OF assms])
  then show "h_disk (snd (open_validation_snapshot sq path h)) = h_disk h" by (simp add: disk_kept_def)
  show "fst (open_validation_snapshot sq path h) = Inr None \<longleftrightarrow>
    require_private_parent path (h_disk h) = Inr () \<and> d_names (h_disk h) path = Absent \<and> no_artifacts path (h_disk h)"
  proof (cases "d_names (h_disk h) path = Absent")
    case True
    then have "open_existing_private_file path (h_disk h) = Inl NotFound" by (simp add: open_existing_private_NotFound)
    with True show ?thesis
      by (simp add: open_validation_snapshot_def fst_sbind_eq_Inr look_eq require_absent_iff require_no_history_artifacts_iff)
  next
    case False
    then have "open_existing_private_file path (h_disk h) \<noteq> Inl NotFound" by (simp add: open_existing_private_NotFound)
    with False show ?thesis
      by (auto simp: open_validation_snapshot_def fst_sbind_eq_Inr fst_on_error_eq_Inr look_eq split: sum.splits IoError.splits)
  qed
qed

subsection \<open>Witnesses\<close>

text \<open>An empty owner-private directory, and a SQLite that answers as the journal needs.\<close>

definition root_page :: "string \<Rightarrow> int \<Rightarrow> int \<Rightarrow> PageRow" where
  "root_page name number cells = \<lparr>pg_name = name, pg_path = ''/'', pg_number = number, pg_kind = ''leaf'', pg_cells = cells, pg_payload = cells\<rparr>"

definition fresh_pages :: PageFacts where
  "fresh_pages = \<lparr>pf_page_count = 5, pf_freelist_count = 0, pf_rows = [
     root_page ''sqlite_schema'' 1 4, root_page ''kubernetes_image_operations'' 2 0,
     root_page ''sqlite_autoindex_kubernetes_image_operations_1'' 3 0, root_page ''git_ref_operations'' 4 0,
     root_page ''sqlite_autoindex_git_ref_operations_1'' 5 0]\<rparr>"

definition fresh_snapshot :: Snapshot where
  "fresh_snapshot = \<lparr>sn_page_size = Some 4096, sn_auto_vacuum = Some 0, sn_integrity = Some ''ok'',
     sn_schema = Some [
       (''index'', ''sqlite_autoindex_git_ref_operations_1'', ''git_ref_operations'', None),
       (''index'', ''sqlite_autoindex_kubernetes_image_operations_1'', ''kubernetes_image_operations'', None),
       (''table'', ''git_ref_operations'', ''git_ref_operations'', Some CREATE_GIT_TABLE),
       (''table'', ''kubernetes_image_operations'', ''kubernetes_image_operations'', Some CREATE_OPERATION_TABLE)],
     sn_strict = (\<lambda>_. Some (Some 1)),
     sn_columns = (\<lambda>table. Some (expected_facts (if table = ''git_ref_operations'' then GIT_COLUMNS else CURRENT_COLUMNS))),
     sn_indexes = (\<lambda>table. Some [(0, ''sqlite_autoindex_'' @ table @ ''_1'', 1, ''pk'', 0)]),
     sn_index_columns = (\<lambda>_. Some [(0, 0, Some ''operation_id'', 0, ''BINARY'', 1), (1, -1, None, 0, ''BINARY'', 0)]),
     sn_rows = Some \<lparr>kubernetes_rows = [], git_rows = []\<rparr>, sn_pages = Some fresh_pages\<rparr>"

definition example_sqlite :: "nat Sqlite" where
  "example_sqlite = \<lparr>sq_open = (\<lambda>_ _ h. (Some 0, h)),
     sq_execute = (\<lambda>_ statement h. (True, if statement = PragmaUpdate ''user_version'' ''6'' then h\<lparr>h_sqlite := 6\<rparr> else h)),
     sq_int = (\<lambda>_ sql h. (if sql = ''PRAGMA user_version'' then Some (int (h_sqlite h))
       else if sql = ''PRAGMA page_size'' then Some 4096 else if sql = ''PRAGMA max_page_count = 16384'' then Some 16384
       else if sql = ''PRAGMA synchronous'' then Some 2 else Some 0, h)),
     sq_text = (\<lambda>_ _ h. (Some ''delete'', h)), sq_snapshot = (\<lambda>_ h. (fresh_snapshot, h)), sq_close = (\<lambda>_ h. h)\<rparr>"

definition private_node :: Node where
  "private_node = \<lparr>nd_kind = RegularFile, nd_uid = 1000, nd_nlink = 1, nd_mode = 384, nd_content = [], nd_opens = True, nd_reads = True\<rparr>"

definition empty_host :: "nat Host" where
  "empty_host = \<lparr>h_disk = \<lparr>d_names = (\<lambda>_. Absent), d_nodes = (\<lambda>_. private_node),
     d_directory = (\<lambda>_ _. Inr \<lparr>md_dev = 1, md_ino = 1, md_kind = DirectoryFile, md_uid = 1000, md_nlink = 2, md_mode = 448, md_len = 0\<rparr>),
     d_euid = 1000, d_create = (\<lambda>path. Some ((7, if path = ''/kapsel/journal'' then 15 else 16), private_node)), d_unlinks = (\<lambda>_. True), d_syncs = (\<lambda>_. True)\<rparr>,
     h_sqlite = 0\<rparr>"

lemma fresh_strict: "sqlite_strict fresh_snapshot"
proof -
  have "table_ok t \<lparr>kubernetes_rows = [], git_rows = []\<rparr>" for t by (cases t) (simp_all add: table_ok_def)
  moreover have "sn_rows fresh_snapshot = Some \<lparr>kubernetes_rows = [], git_rows = []\<rparr>" by (simp add: fresh_snapshot_def)
  ultimately show ?thesis by (simp add: sqlite_strict_def)
qed

lemma example_sqlite_reads: "sqlite_reads example_sqlite path c"
  by (simp add: sqlite_reads_def rows_at_def example_sqlite_def fresh_strict)

lemma example_sqlite_read_only: "sqlite_read_only example_sqlite path"
  by (simp add: sqlite_read_only_def disk_kept_def example_sqlite_def)

lemma expected_facts_as_expected:
  "length (expected_facts cols) = length cols"
  "list_all (\<lambda>(i, column, name). column_as_expected i column name)
     (zip [0..<length cols] (zip (expected_facts cols) cols))"
  by (simp_all add: expected_facts_def column_as_expected_def list_all_length)

lemma fresh_recognized:
  "recognized_schema fresh_snapshot ''kubernetes_image_operations'' CURRENT_COLUMNS CREATE_OPERATION_TABLE = Inr True"
  "recognized_schema fresh_snapshot ''git_ref_operations'' GIT_COLUMNS CREATE_GIT_TABLE = Inr True"
  by (simp_all add: recognized_schema_def schema_entries_def table_columns_def table_indexes_def primary_index_columns_def
      fresh_snapshot_def expected_facts_as_expected)

lemma fresh_bounds: "require_all_persisted_bounds fresh_snapshot = Inr ()"
  by (simp add: require_all_persisted_bounds_def require_persisted_bounds_def fresh_snapshot_def has_shared_identity_def
      OPERATION_COUNT_MAX_def)

lemma five_zeros: "replicate 5 x = [x, x, x, x, x]"
  by (simp add: numeral_eq_Suc)

lemma four_Suc_3: "(4::nat) = Suc 3"
  by simp

lemma fresh_walk: "try_fold (page_step 5 [0, 0, 0, 0, 4]) (pf_rows fresh_pages) \<lparr>pw_seen = 0, pw_roots = [0, 0, 0, 0, 0], pw_cells = [0, 0, 0, 0, 0]\<rparr> =
    Inr \<lparr>pw_seen = 5, pw_roots = [1, 1, 1, 1, 1], pw_cells = [0, 0, 0, 0, 4]\<rparr>"
  by (simp add: fresh_pages_def root_page_def page_step_def tree_index_def path_depth_def TREE_DEPTH_MAX_def
      INDEX_PAYLOAD_BYTES_MAX_def PERSISTED_VALUE_BYTES_MAX_def PERSISTED_ROW_BYTES_MAX_def Let_def
      numeral_2_eq_2 numeral_3_eq_3 four_Suc_3)

lemma fresh_retained: "require_retained_bounds \<lparr>kubernetes_rows = [], git_rows = []\<rparr> fresh_pages = Inr ()"
proof -
  have "pf_page_count fresh_pages = 5" "pf_freelist_count fresh_pages = 0" by (simp_all add: fresh_pages_def)
  then show ?thesis
    by (simp add: require_retained_bounds_def require_physical_bounds_def counts_def fresh_walk five_zeros IDENTITY_CAPACITY_def
        UNFINISHED_CAPACITY_def DATABASE_PAGES_def COMPLETION_HEADROOM_PAGES_def IDENTITY_PAGES_def LIVE_PAGES_PER_IDENTITY_def
        LIVE_FIXED_PAGES_def Let_def)
qed

lemma fresh_valid: "require_valid_snapshot fresh_snapshot = Inr ()"
proof -
  have facts: "sn_pages fresh_snapshot = Some fresh_pages" "sn_integrity fresh_snapshot = Some ''ok''"
    "sn_rows fresh_snapshot = Some \<lparr>kubernetes_rows = [], git_rows = []\<rparr>" "sn_page_size fresh_snapshot = Some PAGE_BYTES"
    "sn_auto_vacuum fresh_snapshot = Some 0" and "\<exists>entries. sn_schema fresh_snapshot = Some entries \<and> length entries = 4"
    by (simp_all add: fresh_snapshot_def PAGE_BYTES_def)
  then obtain entries where "sn_schema fresh_snapshot = Some entries" "length entries = 4" by blast
  then have "recognized_supported_schema fresh_snapshot = Inr True"
    by (simp add: recognized_supported_schema_def schema_entries_def fresh_recognized fresh_bounds)
  with facts show ?thesis
    by (simp add: require_valid_snapshot_def require_layout_def require_integrity_def fresh_retained)
qed

lemma example_run:
  "execute example_sqlite c statement h = (Inr (), if statement = PragmaUpdate ''user_version'' ''6'' then h\<lparr>h_sqlite := 6\<rparr> else h)"
  "query_text example_sqlite c sql h = (Inr ''delete'', h)"
  "rollback example_sqlite c h = h"
  "read_snapshot example_sqlite c check h = (check fresh_snapshot, h)"
  "connect example_sqlite ro path h = (Inr 0, h)"
  "configure_durable_connection example_sqlite c h = (Inr (), h)"
  "configure example_sqlite c fresh h = (Inr (), h)"
  "user_version example_sqlite c empty_host = (Inr 0, empty_host)"
  by (simp_all add: execute_def query_text_def query_int_def rollback_def read_snapshot_def connect_def example_sqlite_def
      configure_durable_connection_def eq_ignore_ascii_case_def configure_def query_layout_def require_layout_def
      user_version_def sbind_def PAGE_BYTES_def DATABASE_PAGES_def empty_host_def)

text \<open>The directory once the database file is there.\<close>

definition created_host :: "nat Host" where
  "created_host = empty_host\<lparr>h_disk := (h_disk empty_host)\<lparr>d_names := (\<lambda>_. Absent)(''/kapsel/journal'' := Entry (7, 15))\<rparr>\<rparr>"

lemma example_parent:
  "require_private_parent ''/kapsel/journal'' (h_disk empty_host) = Inr ()"
  "require_private_parent ''/kapsel/journal'' (h_disk created_host) = Inr ()"
  by (simp_all add: require_private_parent_def parent_def components_def starts_with_def component_def Let_def
      created_host_def empty_host_def)

lemma example_created: "open_private_file failure ''/kapsel/journal'' empty_host = (Inr (7, 15), created_host)"
  by (simp add: open_private_file_def created_host_def empty_host_def private_node_def owner_private_def metadata_def Let_def fun_upd_idem)

lemma example_identity:
  "bounded_metadata (7, 15) (h_disk created_host) = Inr (metadata (h_disk created_host) (7, 15))"
  "md_len (metadata (h_disk created_host) (7, 15)) = 0"
  "require_named_identity ''/kapsel/journal'' (metadata (h_disk created_host) (7, 15)) (h_disk created_host) = Inr ()"
  "read_header_version (7, 15) (h_disk created_host) = Inr 0"
  by (simp_all add: bounded_metadata_def metadata_def require_named_identity_def symlink_metadata_def read_header_version_def
      created_host_def empty_host_def private_node_def Let_def)

lemma example_fresh: "require_fresh_or_present ''/kapsel/journal'' (h_disk empty_host) = Inr ()"
  "no_artifacts ''/kapsel/journal'' (h_disk empty_host)" "d_names (h_disk empty_host) path = Absent"
proof -
  show "no_artifacts ''/kapsel/journal'' (h_disk empty_host)" by (simp add: no_artifacts_def empty_host_def)
  then show "require_fresh_or_present ''/kapsel/journal'' (h_disk empty_host) = Inr ()"
    by (simp add: require_fresh_or_present_def symlink_metadata_def require_no_history_artifacts_iff [symmetric])
      (simp add: empty_host_def)
  show "d_names (h_disk empty_host) path = Absent" by (simp add: empty_host_def)
qed

lemma example_recovered:
  "recover_private_rollback_journal example_sqlite ''/kapsel/journal'' m created_host = (Inr (), created_host)"
  by (simp add: recover_private_rollback_journal_def io_simps require_no_sidecar_def symlink_metadata_def
      open_existing_private_file_def created_host_def)

lemma example_connected:
  "open_connection example_sqlite ''/kapsel/journal'' (metadata (h_disk created_host) (7, 15)) True 0 0 created_host =
    (Inr (), created_host\<lparr>h_sqlite := 6\<rparr>)"
proof -
  have "user_version example_sqlite 0 created_host = (Inr 0, created_host)"
    by (simp add: user_version_def sbind_def query_int_def example_sqlite_def created_host_def empty_host_def)
  moreover have "require_integrity fresh_snapshot = Inr ()" by (simp add: require_integrity_def fresh_snapshot_def)
  ultimately show ?thesis
    by (simp add: open_connection_def io_simps example_parent example_identity sbind_run example_run initialize_journal_def
        initialize_schema_def on_error_def fresh_bounds fresh_valid)
qed

lemma example_opens: "\<exists>lock h'. open_journal example_sqlite ''/kapsel/journal'' empty_host = (Inr (0, lock), h') \<and> h' \<noteq> empty_host"
proof -
  have "\<exists>lock h'. open_worker_lock ''/kapsel/journal'' (created_host\<lparr>h_sqlite := 6\<rparr>) = (Inr lock, h') \<and> h_sqlite h' = 6"
    by (simp add: open_worker_lock_def open_private_file_def worker_lock_path_def sbind_def look_def created_host_def empty_host_def
        private_node_def owner_private_def metadata_def require_named_identity_def symlink_metadata_def Let_def)
  then obtain lock h' where lock: "open_worker_lock ''/kapsel/journal'' (created_host\<lparr>h_sqlite := 6\<rparr>) = (Inr lock, h')" "h_sqlite h' = 6"
    by blast
  have "open_journal example_sqlite ''/kapsel/journal'' empty_host = (Inr (0, lock), h')"
    by (simp add: open_journal_def io_simps example_parent example_fresh example_created example_identity example_recovered
        example_connected supported_version_def example_run on_error_def lock sbind_run Let_def)
  moreover have "h' \<noteq> empty_host" using lock(2) by (auto simp: empty_host_def)
  ultimately show ?thesis by blast
qed

theorem opening_changes_only_own_history_witness:
  "snd (open_journal example_sqlite ''/kapsel/journal'' empty_host) \<noteq> empty_host \<and>
    require_private_parent ''/kapsel/journal'' (h_disk empty_host) = Inr () \<and> no_artifacts ''/kapsel/journal'' (h_disk empty_host)"
proof -
  have "snd (open_journal example_sqlite ''/kapsel/journal'' empty_host) \<noteq> empty_host" using example_opens by auto
  with opening_changes_only_own_history [OF this] example_fresh(3) [of "''/kapsel/journal''"] show ?thesis by auto
qed

theorem opened_journal_sound_witness:
  "\<exists>lock h' db. open_journal example_sqlite ''/kapsel/journal'' empty_host = (Inr (0, lock), h') \<and>
    rows_at example_sqlite 0 h' = Some db \<and> db_ok db"
proof -
  obtain lock h' where "open_journal example_sqlite ''/kapsel/journal'' empty_host = (Inr (0, lock), h')"
    using example_opens by blast
  with opened_journal_sound [OF this example_sqlite_reads] show ?thesis by blast
qed

theorem validation_is_read_only_witness:
  "fst (open_validation_snapshot example_sqlite ''/kapsel/journal'' empty_host) = Inr None"
  using validation_is_read_only [OF example_sqlite_read_only, of "''/kapsel/journal''" empty_host] example_parent(1) example_fresh(2,3)
  by blast

end
