(* ===== verification/Spec2Isabelle.thy ===== *)
theory Spec2Isabelle
  imports Trust Admission Protocol Opening
begin

text \<open>
  Kapsel carries out one approved mutation at a time for callers it does not trust: it sets the
  image of one Kubernetes Deployment, or moves one Git branch from one commit to another. An
  operator signs a grant for the exact action; a service holds the grants in a catalog; a caller
  may only name an operation identity. Each identity is journalled in SQLite before anything is
  sent, is sent at most once, is observed afterwards, and ends in a signed receipt. This
  development models that path from the wire to the receipt and proves what callers, operators
  and receipt inspectors rely on. File names below are those of the repository.

  \<^bold>\<open>Parts and how they interact.\<close> A connection of the daemon carries one framed request
  (\<open>Protocol\<close>). Reads are answered from the journal through the service application (\<open>Service\<close>);
  a submission takes the single execution permit or probes the running selection (\<open>Runtime\<close>).
  An execution selects the identity under its original authority and runs one pass of the
  gateway: admission into the journal, the target read, the durable attempt, the mutation, the
  observation, the receipt (\<open>Gateway\<close>, \<open>GitGateway\<close>), through the Kubernetes client
  (\<open>KubeAdapter\<close>) or the \<open>git\<close> executable (\<open>GitHost\<close>). The journal is opened and
  validated once, before any of it (\<open>Schema\<close>, \<open>Opening\<close>).

  \<^bold>\<open>Theories and sources.\<close>
  \<^item> \<open>Prelude\<close>, \<open>Action\<close>: results with early return, checked arithmetic, bytes, text and
    big-endian words of the Rust library; stateful code with early return.
  \<^item> \<open>Frame\<close>, \<open>Grammar\<close>, \<open>Crypto\<close>, \<open>Grant\<close>, \<open>Trust\<close>, \<open>GitGrant\<close>: \<open>crates/kapsel-authority/src\<close>
    (\<open>record.rs\<close>, \<open>lib.rs\<close>, \<open>git.rs\<close>). The record framing, the field grammars, Kubernetes and
    Git grants, receipt trust documents and operator inputs. Ed25519 and SHA-256 are the
    parameter \<open>crypto\<close> with the hypothesis \<open>crypto_ok\<close> (output lengths, and that a signature
    verifies under its own key); unforgeability is never assumed.
  \<^item> \<open>Requests\<close>, \<open>Facts\<close>, \<open>Receipt\<close>, \<open>GitFacts\<close>, \<open>GitReceipt\<close>: \<open>src/gateway/mod.rs\<close>,
    \<open>authorization.rs\<close>, \<open>kubernetes/facts.rs\<close>, \<open>receipt/\<close>, \<open>git.rs\<close>. Requests and errors, the
    facts read from receivers and their classification, signed receipts and their inspection.
  \<^item> \<open>Rows\<close>, \<open>Phases\<close>, \<open>Journal\<close>, \<open>GitJournal\<close>: \<open>src/gateway/journal/\<close>. Rows as the values of
    the columns, the typed phases a row decodes to, and every read and write; a write names the
    whole expected row, and its commit may be confirmed, lost or not happen (\<open>Delivery\<close>).
  \<^item> \<open>Capacity\<close>, \<open>Schema\<close>, \<open>Opening\<close>: \<open>journal/capacity.rs\<close>, \<open>schema.rs\<close>, \<open>opening.rs\<close>. The
    counts and the page walk, the recognition of the layout, and the opening, recovery and
    validation of the journal file over a directory and any SQLite.
  \<^item> \<open>Transitions\<close>, \<open>Lifecycle\<close>, \<open>Invariant\<close>, \<open>GitLifecycle\<close>: the journal as a state machine. The
    abstract lifecycle of an operation, the refinement of every call to at most one step of
    it, and the invariant of a healthy journal.
  \<^item> \<open>Gateway\<close>, \<open>Passes\<close>, \<open>GitHost\<close>, \<open>GitGateway\<close>, \<open>GitProgress\<close>, \<open>Composition\<close>, \<open>Admission\<close>:
    \<open>src/gateway/mod.rs\<close>, \<open>git.rs\<close>. One pass of each kind with its crash windows, custody of the
    repositories, bounded commands, progress of Git passes, any mixture of passes over one
    journal, and what an admission decision says.
  \<^item> \<open>KubeAdapter\<close>: \<open>src/gateway/kubernetes/adapter.rs\<close>. The target read, the conditional patch and
    the observation loop; responses and the clock are the parameter \<open>Cluster\<close>.
  \<^item> \<open>Paging\<close>, \<open>Service\<close>: \<open>src/application/mod.rs\<close>, \<open>service.rs\<close>, \<open>service/disposition.rs\<close>. What
    following cursors through pages gives, configuration and catalog, the journal path, selection,
    one execution, status, receipt, catalog and history reads, guidance.
  \<^item> \<open>Runtime\<close>: \<open>crates/kapsel-daemon/src/server/runtime.rs\<close>, \<open>runtime/jobs.rs\<close>. Submissions,
    executions and probes as interleaved critical sections over the shared journal: an execution
    runs the admission of its selection, forwards what that acknowledged, then writes its row.
  \<^item> \<open>Protocol\<close>: \<open>server/protocol.rs\<close>, \<open>server.rs\<close>, the connection handling of \<open>runtime.rs\<close>, and
    \<open>src/application/service/document.rs\<close>.

  \<^bold>\<open>What is shown.\<close> End to end, over any sequence of passes or selections, with any environment,
  any fate of each commit and a crash in any window, one identity is mutated at most once and
  each mutation has its durable attempt (C1, C4); evidence of a Git transition comes from a push
  (C2); a retained identity keeps its original authority (C3); a Git action with a receiver in
  order finishes (C5). The reads: a sound catalog (C6), a complete history (C7), agreeing
  status and receipt (C8). The Kubernetes journal and gateway (C9, C10, C12, C13); the health and
  the capacity of the whole journal over mixed sequences of calls of both kinds (C11, C18) and what
  opening accepts (C19); classification and documents (C14 to C17), the Git side (C20 to C28),
  admission (C29), the Kubernetes adapter (C30 to C32), the runtime (C33, C34), the wire (C35 to
  C37) and the opening of the journal (C38 to C40). The other lemmas state codec round trips, exclusion of conditional
  writes, settled history and progress of single calls.

  \<^bold>\<open>Bounds.\<close> The reconciliation loop runs on fuel; \<open>RECONCILE_FUEL\<close> is 4, since every round but
  the last advances the phase and a pass sees at most authorized, attempted, observed and a
  terminal phase; C12 proves that this fuel always returns a result. The history has at most 504
  identities, so 63 pages of eight. The observation loop makes 180 reads. The other recursions
  are structural or have a measure.

  \<^bold>\<open>Parameters and assumptions.\<close> The cluster, the \<open>git\<close> executable, file system, clock, cryptography, JSON text
  and SQLite are arguments of the definitions and may answer anything; laws about them are named
  hypotheses where a property needs them (\<open>crypto_ok\<close>, \<open>sqlite_reads\<close>, \<open>sqlite_read_only\<close>, the
  environment of the progress property: confirmed commits and a free worker lock). What is assumed
  of strict tables is said of what SQLite reports about them (\<open>declared_strict\<close>), not of the code
  that recognises them. All other SQLite failures are one error. A custody check reads one snapshot of the file system,
  the reads of one call see one database, and an opening is not interleaved with other
  processes. A transaction is a row replacement that happens or not; the page-level behaviour
  of SQLite enters only through the facts it reports.

  \<^bold>\<open>Not modelled.\<close> Startup of the daemon and replacement of a running one, sockets, the accept
  loop and shutdown, the command-line and MCP front ends, diagnostics and the test harnesses:
  operating-system plumbing or output around the modelled parts. The text of JSON is left to
  serde; times are compared only where a deadline decides a result.
\<close>

section \<open>Properties\<close>

text \<open>
  C1. One identity, one mutation, end to end: starting with a well-formed journal, over any
  sequence of Kubernetes and Git requests (whatever the outside answers, however each commit
  ends and wherever a crash stops each pass), every pass returns and the mutation requests and
  pushes sent for one identity are at most one in total, none for an identity whose attempt was
  already durable. For each one sent the journal holds the attempt it stands for.
\<close>

theorem identity_mutated_at_most_once:
  assumes "db_ok (w_db w)" "w_sends w = []" "w_pushes w = []"
  shows "\<exists>w'. run_any_passes C authorities passes w = Some w' \<and>
    (\<forall>ident. sent_for ident (w_sends w') + pushed_for ident (w_pushes w') \<le> (if any_dispatched ident (w_db w) then 0 else 1)) \<and>
    (\<forall>p \<in> set (w_sends w'). recorded p (w_db w')) \<and> (\<forall>p \<in> set (w_pushes w'). git_recorded p (w_db w'))"
proof -
  obtain w' where w': "run_any_passes C authorities passes w = Some w'" "any_safe w w'"
    using run_any_passes_safe [OF assms(1)] by blast
  have "sent_for k (w_sends w') + pushed_for k (w_pushes w') \<le> (if any_dispatched k (w_db w) then 0 else 1)" for k
  proof -
    have "mutations_for k w' \<le> mutations_for k w + (if any_dispatched k (w_db w') \<and> \<not> any_dispatched k (w_db w) then 1 else 0)"
      using w'(2) assms(1) unfolding any_safe_def by blast
    then show ?thesis using assms(2,3) by (auto split: if_splits)
  qed
  with w' assms show ?thesis unfolding any_safe_def by auto
qed

text \<open>
  C2. Evidence of a Git transition comes from a push: if an identity starts without a Git row and,
  after any sequence of passes, its row or receipt carries an acknowledgement other than unknown
  (so every SUCCEEDED and FAILED result), then a push was sent to the receiver for exactly
  that identity. Present refs, retries and recoveries never manufacture one.
\<close>

theorem git_evidence_requires_push:
  assumes "db_ok (w_db w)" "row_of Git (w_db w) (gb_operation_id b) = None"
    "run_any_passes C authorities passes w = Some w'" "git_holds C (w_db w') b (Some p)"
    "git_acknowledgement_of p \<notin> {None, Some AckUnknown}"
  shows "\<exists>x \<in> set (w_pushes w'). git_permission_id x = gb_operation_id b"
proof -
  obtain a where a: "git_acknowledgement_of p = Some a" "a \<noteq> AckUnknown" using assms(5) by auto
  have "evidenced a (gb_operation_id b) w" using assms(1,2) by (simp add: evidenced_def unacknowledged_def)
  from evidence_any_passes [OF a(2) assms(3) this] assms(4) a(1) show ?thesis
    by (auto simp: evidenced_def unacknowledged_def git_holds_def git_row_unacknowledged)
qed

definition example_git_env :: GitEnv where
  "example_git_env = \<lparr>ge_env = example_env, ge_files = (\<lambda>_. example_fs),
     ge_spawn = (\<lambda>_ _ _. \<lparr>cp_spawned = False, cp_id = None, cp_stdout = (\<lambda>_. Inr []), cp_stderr = (\<lambda>_. Inr []),
       cp_timed_out = False, cp_wait = Inr (Some 0)\<rparr>)\<rparr>"

theorem identity_mutated_at_most_once_witness:
  "\<exists>w'. run_any_passes example_crypto [] [KubernetesPass example_pass,
      GitPass \<lparr>gps_env = example_git_env, gps_id = ''op-1'', gps_grant = [], gps_receiver = None, gps_signing = None, gps_fault = None\<rparr>]
      example_world = Some w' \<and>
    sent_for ''op-1'' (w_sends w') + pushed_for ''op-1'' (w_pushes w') \<le> 1"
proof -
  have "db_ok (w_db example_world)" "w_sends example_world = []" "w_pushes example_world = []"
    using example_journal_ok(2) by (simp_all add: example_world_def)
  from identity_mutated_at_most_once [OF this] obtain w' where
    "run_any_passes example_crypto [] [KubernetesPass example_pass,
      GitPass \<lparr>gps_env = example_git_env, gps_id = ''op-1'', gps_grant = [], gps_receiver = None, gps_signing = None, gps_fault = None\<rparr>]
      example_world = Some w'"
    "sent_for ''op-1'' (w_sends w') + pushed_for ''op-1'' (w_pushes w') \<le> (if any_dispatched ''op-1'' (w_db example_world) then 0 else 1)"
    by blast
  then show ?thesis by (cases "any_dispatched ''op-1'' (w_db example_world)") auto
qed

theorem git_evidence_requires_push_witness:
  "\<exists>w'. run_any_passes example_crypto [example_git_trust] [GitPass \<lparr>gps_env = working_env, gps_id = ''git-op-1'',
      gps_grant = example_signed_grant, gps_receiver = Some working_config, gps_signing = Some example_settings,
      gps_fault = None\<rparr>] empty_world = Some w' \<and> (\<exists>x \<in> set (w_pushes w'). git_permission_id x = ''git-op-1'')"
proof -
  let ?passes = "[GitPass \<lparr>gps_env = working_env, gps_id = ''git-op-1'', gps_grant = example_signed_grant,
      gps_receiver = Some working_config, gps_signing = Some example_settings, gps_fault = None\<rparr>]"
  have b: "gb_authorization granted_binding = example_git_authorization" "ga_operation_id example_git_authorization = ''git-op-1''"
    "gc_repository_id working_config = ga_repository_id example_git_authorization"
    by (simp_all add: granted_binding_def example_git_authorization_def working_config_def)
  from git_pass_settles [OF example_settings_valid(2) empty_world_ok(3) example_crypto_ok empty_world_ok(1)
      granted_binding_verified empty_world_ok(2) example_settings_valid(1) working_answers(1)] b working_answers(2,3)
  obtain p' w' where run: "run_any_passes example_crypto [example_git_trust] ?passes empty_world = Some w'"
    and p': "git_holds example_crypto (w_db w') granted_binding (Some p')" "git_acknowledgement_of p' = Some Updated"
    by auto
  have "db_ok (w_db empty_world)" "row_of Git (w_db empty_world) (gb_operation_id granted_binding) = None"
    using empty_world_ok(1) by (simp_all add: git_journal_ok_def empty_world_def row_of_def)
  from git_evidence_requires_push [OF this run p'(1)] p'(2) run b show ?thesis by auto
qed

end
